(* ===== verification/Prelude.thy ===== *)
theory Prelude
  imports "HOL-Library.Word" "HOL-Library.Multiset"
begin

text \<open>
  Shared vocabulary of the development.

  A Rust function that can fail is modelled by a function into \<open>('e, 'a) outcome\<close>: \<open>Ok\<close> and
  \<open>Err\<close> are the two variants of \<open>Result\<close>, \<open>Panic\<close> is a panic (\<open>unwrap\<close>, \<open>expect\<close>, \<open>unreachable!\<close>,
  an arithmetic overflow, which the development profile of \<open>cargo run\<close> checks). A function that
  also changes state returns the outcome together with the state it leaves behind, because an
  early return in the middle of a Rust function keeps the changes made before it.
\<close>

section \<open>Outcomes\<close>

datatype (err: 'e, ok: 'a) outcome = Ok (ok_val: 'a) | Err (err_val: 'e) | Panic

type_synonym byte = "8 word"
type_synonym bytes = "byte list"
type_synonym error = string

named_theorems outcome_simps \<open>rewriting of the outcome combinators\<close>
named_theorems codec_simps \<open>sizes and round trips of encoders\<close>

fun bind :: "('e, 'a) outcome \<Rightarrow> ('a \<Rightarrow> ('e, 'b) outcome) \<Rightarrow> ('e, 'b) outcome" where
  "bind (Ok x) f = f x"
| "bind (Err e) f = Err e"
| "bind Panic f = Panic"

fun is_ok :: "('e, 'a) outcome \<Rightarrow> bool" where
  "is_ok (Ok _) = True"
| "is_ok _ = False"

fun map_err :: "('e \<Rightarrow> 'f) \<Rightarrow> ('e, 'a) outcome \<Rightarrow> ('f, 'a) outcome" where
  "map_err f (Ok x) = Ok x"
| "map_err f (Err e) = Err (f e)"
| "map_err f Panic = Panic"

definition unwrap_or_default :: "'a \<Rightarrow> ('e, 'a) outcome \<Rightarrow> ('f, 'a) outcome" where
  "unwrap_or_default d r = (case r of Ok x \<Rightarrow> Ok x | Err _ \<Rightarrow> Ok d | Panic \<Rightarrow> Panic)"

definition expect :: "('e, 'a) outcome \<Rightarrow> ('f, 'a) outcome" where
  "expect r = (case r of Ok x \<Rightarrow> Ok x | Err _ \<Rightarrow> Panic | Panic \<Rightarrow> Panic)"

definition ok_or :: "'e \<Rightarrow> 'a option \<Rightarrow> ('e, 'a) outcome" where
  "ok_or e x = (case x of Some v \<Rightarrow> Ok v | None \<Rightarrow> Err e)"

fun map_outcome :: "('a \<Rightarrow> ('e, 'b) outcome) \<Rightarrow> 'a list \<Rightarrow> ('e, 'b list) outcome" where
  "map_outcome f [] = Ok []"
| "map_outcome f (x # xs) = bind (f x) (\<lambda>y. bind (map_outcome f xs) (\<lambda>ys. Ok (y # ys)))"

lemma map_outcome_Ok: "(\<And>x. x \<in> set xs \<Longrightarrow> f x = Ok (g x)) \<Longrightarrow> map_outcome f xs = Ok (map g xs)"
  by (induction xs) auto

lemma bind_eq_Ok_iff [outcome_simps]:
  "bind r f = Ok y \<longleftrightarrow> (\<exists>x. r = Ok x \<and> f x = Ok y)"
  by (cases r) auto

lemma bind_assoc [outcome_simps]: "bind (bind r f) g = bind r (\<lambda>x. bind (f x) g)"
  by (cases r) auto

lemma bind_cong [fundef_cong]:
  "\<lbrakk> r = r'; \<And>x. r' = Ok x \<Longrightarrow> f x = g x \<rbrakk> \<Longrightarrow> bind r f = bind r' g"
  by (cases r') auto

section \<open>State with outcomes\<close>

text \<open>
  A step of a component with state \<open>'s\<close>: the outcome and the state left behind. \<open>bindS\<close> is
  the sequencing that \<open>?\<close> and \<open>.await?\<close> give: the continuation runs only after \<open>Ok\<close>.
\<close>

type_synonym ('s, 'e, 'a) step = "'s \<Rightarrow> ('e, 'a) outcome \<times> 's"

definition bindS :: "('s, 'e, 'a) step \<Rightarrow> ('a \<Rightarrow> ('s, 'e, 'b) step) \<Rightarrow> ('s, 'e, 'b) step" where
  "bindS m f = (\<lambda>s. case m s of
       (Ok x, s') \<Rightarrow> f x s'
     | (Err e, s') \<Rightarrow> (Err e, s')
     | (Panic, s') \<Rightarrow> (Panic, s'))"

definition returnS :: "'a \<Rightarrow> ('s, 'e, 'a) step" where
  "returnS x = (\<lambda>s. (Ok x, s))"

definition failS :: "'e \<Rightarrow> ('s, 'e, 'a) step" where
  "failS e = (\<lambda>s. (Err e, s))"

definition liftS :: "('e, 'a) outcome \<Rightarrow> ('s, 'e, 'a) step" where
  "liftS r = (\<lambda>s. (r, s))"

definition getS :: "('s \<Rightarrow> 'a) \<Rightarrow> ('s, 'e, 'a) step" where
  "getS f = (\<lambda>s. (Ok (f s), s))"

definition modifyS :: "('s \<Rightarrow> 's) \<Rightarrow> ('s, 'e, unit) step" where
  "modifyS f = (\<lambda>s. (Ok (), f s))"

lemma getS_apply [simp]: "getS f s = (Ok (f s), s)"
  by (simp add: getS_def)

lemma modifyS_apply [simp]: "modifyS f s = (Ok (), f s)"
  by (simp add: modifyS_def)

lemma bindS_Ok [simp]: "m s = (Ok x, s') \<Longrightarrow> bindS m f s = f x s'"
  by (simp add: bindS_def)

lemma bindS_Err [simp]: "m s = (Err e, s') \<Longrightarrow> bindS m f s = (Err e, s')"
  by (simp add: bindS_def)

lemma bindS_Panic [simp]: "m s = (Panic, s') \<Longrightarrow> bindS m f s = (Panic, s')"
  by (simp add: bindS_def)

lemma returnS_apply [simp]: "returnS x s = (Ok x, s)"
  by (simp add: returnS_def)

lemma failS_apply [simp]: "failS e s = (Err e, s)"
  by (simp add: failS_def)

lemma liftS_apply [simp]: "liftS r s = (r, s)"
  by (simp add: liftS_def)

lemma bindS_getS [simp]: "bindS (getS f) g s = g (f s) s"
  by simp

lemma bindS_modifyS [simp]: "bindS (modifyS f) g s = g () (f s)"
  by simp

lemma bindS_returnS [simp]: "bindS (returnS x) f = f x"
  by (rule ext) simp

lemma bindS_assoc: "bindS (bindS m f) g = bindS m (\<lambda>x. bindS (f x) g)"
proof
  fix s
  obtain r s' where "m s = (r, s')" by fastforce
  then show "bindS (bindS m f) g s = bindS m (\<lambda>x. bindS (f x) g) s"
    by (cases r) (simp_all add: bindS_def)
qed

lemma bindS_eq_OkE:
  assumes "bindS m f s = (Ok y, s2)"
  obtains x s1 where "m s = (Ok x, s1)" and "f x s1 = (Ok y, s2)"
  using assms by (auto simp: bindS_def split: prod.splits outcome.splits)

text \<open>Predicates on the state that a sequence keeps.\<close>

lemma bindS_keeps:
  assumes "P s" "\<And>s. P s \<Longrightarrow> P (snd (m s))" "\<And>x s. P s \<Longrightarrow> P (snd (f x s))"
  shows "P (snd (bindS m f s))"
proof -
  obtain r s' where "m s = (r, s')" by fastforce
  with assms(1) assms(2) [of s] assms(3) [of s'] show ?thesis by (cases r) simp_all
qed

text \<open>A \<open>for\<close> loop whose body is a step.\<close>

fun forS :: "'x list \<Rightarrow> ('x \<Rightarrow> ('s, 'e, 'a) step) \<Rightarrow> ('s, 'e, 'a list) step" where
  "forS [] f = returnS []"
| "forS (x # xs) f = bindS (f x) (\<lambda>y. bindS (forS xs f) (\<lambda>ys. returnS (y # ys)))"

lemma forS_invariant:
  assumes step: "\<And>x s. x \<in> set xs \<Longrightarrow> P s \<Longrightarrow> P (snd (f x s))"
    and init: "P s"
  shows "P (snd (forS xs f s))"
  using step init
proof (induction xs arbitrary: s)
  case Nil
  then show ?case by simp
next
  case (Cons x xs)
  obtain r s1 where fx: "f x s = (r, s1)" by fastforce
  with Cons.prems(1) [of x s] Cons.prems(2) have s1: "P s1" by simp
  have "P (snd (forS xs f s1))"
    using Cons.prems(1) s1 by (intro Cons.IH) auto
  with fx s1 show ?case
    by (cases r) (auto simp: bindS_def split: prod.splits outcome.splits)
qed

text \<open>A loop of steps that only read.\<close>

lemma forS_reads: "(\<And>x. x \<in> set xs \<Longrightarrow> f x s = (Ok (g x), s)) \<Longrightarrow> forS xs f s = (Ok (map g xs), s)"
  by (induction xs) auto

section \<open>Serialised values\<close>

text \<open>
  \<open>bincode\<close> for one type of values. That it reads back what it wrote is a hypothesis where it is
  needed, for the values at hand.
\<close>

record 'a codec =
  serialize :: "'a \<Rightarrow> bytes"
  deserialize :: "bytes \<Rightarrow> (error, 'a) outcome"

definition codec_ok :: "'a codec \<Rightarrow> 'a \<Rightarrow> bool" where
  "codec_ok C x \<longleftrightarrow> deserialize C (serialize C x) = Ok x"

section \<open>Machine integers\<close>

text \<open>
  \<open>usize\<close> values are \<open>nat\<close>s below \<open>2 ^ 64\<close>, \<open>i32\<close> values are \<open>int\<close>s in range; subtraction is
  checked.
\<close>

abbreviation (input) usize_bound :: nat where "usize_bound \<equiv> 2 ^ 64"

definition in_i32 :: "int \<Rightarrow> bool" where
  "in_i32 x \<longleftrightarrow> - (2 ^ 31) \<le> x \<and> x < 2 ^ 31"

definition usize_sub :: "nat \<Rightarrow> nat \<Rightarrow> ('e, nat) outcome" where
  "usize_sub a b = (if b \<le> a then Ok (a - b) else Panic)"

definition i32_sub :: "int \<Rightarrow> int \<Rightarrow> ('e, int) outcome" where
  "i32_sub a b = (if in_i32 (a - b) then Ok (a - b) else Panic)"

lemma usize_sub_Ok_iff: "usize_sub a b = Ok c \<longleftrightarrow> b \<le> a \<and> c = a - b"
  by (auto simp: usize_sub_def)

lemma usize_sub_not_Err [simp]: "usize_sub a b \<noteq> Err e"
  by (simp add: usize_sub_def)

section \<open>Decimal numbers\<close>

text \<open>What \<open>format!("{}", n)\<close> prints for an unsigned integer, and \<open>str::parse\<close> reads back.\<close>

definition digit_char :: "nat \<Rightarrow> char" where
  "digit_char d = char_of (48 + d)"

definition char_digit :: "char \<Rightarrow> nat option" where
  "char_digit c = (let n = of_char c in if 48 \<le> n \<and> n < 58 then Some (n - 48) else None)"

fun show_nat :: "nat \<Rightarrow> string" where
  "show_nat n = (if n < 10 then [digit_char n] else show_nat (n div 10) @ [digit_char (n mod 10)])"

declare show_nat.simps [simp del]

definition show_int :: "int \<Rightarrow> string" where
  "show_int i = (if i < 0 then CHR ''-'' # show_nat (nat (- i)) else show_nat (nat i))"

fun read_digits :: "nat \<Rightarrow> string \<Rightarrow> nat option" where
  "read_digits acc [] = Some acc"
| "read_digits acc (c # cs) =
     (case char_digit c of None \<Rightarrow> None | Some d \<Rightarrow> read_digits (10 * acc + d) cs)"

text \<open>
  \<open>str::parse\<close> at an unsigned type of the given bound: an optional leading plus sign, at least
  one digit, no other character, and no value at or above the bound.
\<close>

definition parse_unsigned :: "nat \<Rightarrow> string \<Rightarrow> nat option" where
  "parse_unsigned bound s =
     (let body = (case s of c # cs \<Rightarrow> if c = CHR ''+'' then cs else s | [] \<Rightarrow> s) in
      if body = [] then None
      else case read_digits 0 body of
             None \<Rightarrow> None
           | Some n \<Rightarrow> if n < bound then Some n else None)"

definition parse_u32 :: "string \<Rightarrow> nat option" where
  "parse_u32 = parse_unsigned (2 ^ 32)"

definition parse_u64 :: "string \<Rightarrow> nat option" where
  "parse_u64 = parse_unsigned (2 ^ 64)"

definition parse_i64 :: "string \<Rightarrow> int option" where
  "parse_i64 s =
     (case s of
        [] \<Rightarrow> None
      | c # cs \<Rightarrow>
          if c = CHR ''-'' then
            (if cs = [] then None
             else case read_digits 0 cs of
                    None \<Rightarrow> None
                  | Some n \<Rightarrow> if n \<le> 2 ^ 63 then Some (- int n) else None)
          else map_option int (parse_unsigned (2 ^ 63) s))"

lemma char_digit_digit_char [simp]: "d < 10 \<Longrightarrow> char_digit (digit_char d) = Some d"
  by (simp add: char_digit_def digit_char_def)

lemma digit_char_range: "d < 10 \<Longrightarrow> of_char (digit_char d) \<in> {48..<58::nat}"
  by (simp add: digit_char_def)

lemma show_nat_nonempty [simp]: "show_nat n \<noteq> []"
  by (subst show_nat.simps) simp

lemma show_nat_chars: "c \<in> set (show_nat n) \<Longrightarrow> of_char c \<in> {48..<58::nat}"
proof (induction n rule: show_nat.induct)
  case (1 n)
  then show ?case
    by (subst (asm) show_nat.simps) (auto split: if_splits simp: digit_char_def)
qed

lemma read_digits_append:
  "read_digits a (xs @ ys) = (case read_digits a xs of None \<Rightarrow> None | Some b \<Rightarrow> read_digits b ys)"
  by (induction xs arbitrary: a) (auto split: option.splits)

lemma read_digits_show_nat: "read_digits 0 (show_nat n) = Some n"
proof (induction n rule: show_nat.induct)
  case (1 n)
  show ?case
  proof (cases "n < 10")
    case True
    then show ?thesis by (simp add: show_nat.simps [of n])
  next
    case False
    with 1 show ?thesis by (simp add: show_nat.simps [of n] read_digits_append)
  qed
qed

lemma show_nat_hd: "show_nat n = c # cs \<Longrightarrow> c \<noteq> CHR ''+'' \<and> c \<noteq> CHR ''-''"
  using show_nat_chars [of c n] by auto

lemma parse_unsigned_show_nat: "n < b \<Longrightarrow> parse_unsigned b (show_nat n) = Some n"
  using show_nat_hd [of n] read_digits_show_nat [of n]
  by (auto simp: parse_unsigned_def Let_def split: list.splits)

lemma parse_u32_show_nat [codec_simps]: "n < 2 ^ 32 \<Longrightarrow> parse_u32 (show_nat n) = Some n"
  by (simp add: parse_u32_def parse_unsigned_show_nat del: power_numeral)

lemma parse_u64_show_nat [codec_simps]: "n < 2 ^ 64 \<Longrightarrow> parse_u64 (show_nat n) = Some n"
  by (simp add: parse_u64_def parse_unsigned_show_nat del: power_numeral)

lemma parse_i64_show_int [codec_simps]:
  assumes "- (2 ^ 63) \<le> i" and "i < 2 ^ 63"
  shows "parse_i64 (show_int i) = Some i"
proof (cases "i < 0")
  case True
  with assms show ?thesis
    by (simp add: parse_i64_def show_int_def read_digits_show_nat)
next
  case False
  obtain c cs where c: "show_nat (nat i) = c # cs" by (cases "show_nat (nat i)") auto
  from assms(2) False have "nat i < 2 ^ 63" by simp
  then have "parse_unsigned (2 ^ 63) (show_nat (nat i)) = Some (nat i)"
    by (rule parse_unsigned_show_nat)
  with False c show_nat_hd [OF c] show ?thesis
    by (simp add: parse_i64_def show_int_def)
qed

lemma show_nat_inj: "show_nat a = show_nat b \<Longrightarrow> a = b"
  by (metis read_digits_show_nat option.inject)

lemma show_nat_no_char: "of_char c < (48::nat) \<or> 58 \<le> (of_char c :: nat) \<Longrightarrow> c \<notin> set (show_nat n)"
  using show_nat_chars by fastforce

lemma show_int_no_colon: "CHR '':'' \<notin> set (show_int i)"
  by (auto simp: show_int_def show_nat_no_char)

section \<open>Splitting strings\<close>

text \<open>\<open>str::split\<close> on one character; the result is never empty.\<close>

fun split_char :: "char \<Rightarrow> string \<Rightarrow> string list" where
  "split_char d [] = [[]]"
| "split_char d (c # cs) =
     (if c = d then [] # split_char d cs
      else case split_char d cs of [] \<Rightarrow> [[c]] | p # ps \<Rightarrow> (c # p) # ps)"

lemma split_char_nonempty [simp]: "split_char d s \<noteq> []"
  by (induction s) (auto split: list.splits)

lemma split_char_no_delim: "d \<notin> set s \<Longrightarrow> split_char d s = [s]"
  by (induction s) auto

lemma split_char_append: "d \<notin> set s \<Longrightarrow> split_char d (s @ d # t) = s # split_char d t"
  by (induction s) (auto split: list.splits)

text \<open>\<open>Iterator::nth\<close> on the pieces.\<close>

definition nth_opt :: "'a list \<Rightarrow> nat \<Rightarrow> 'a option" where
  "nth_opt xs i = (if i < length xs then Some (xs ! i) else None)"

lemma nth_opt_simps [simp]:
  "nth_opt [] i = None" "nth_opt (x # xs) 0 = Some x" "nth_opt (x # xs) (Suc i) = nth_opt xs i"
  by (auto simp: nth_opt_def)

lemma nth_opt_numeral [simp]: "nth_opt (x # xs) (numeral k) = nth_opt xs (pred_numeral k)"
  by (simp add: numeral_eq_Suc)

text \<open>\<open>str::find\<close> for one character.\<close>

fun find_char :: "char \<Rightarrow> string \<Rightarrow> nat option" where
  "find_char d [] = None"
| "find_char d (c # cs) = (if c = d then Some 0 else map_option Suc (find_char d cs))"

lemma find_char_append: "d \<notin> set s \<Longrightarrow> find_char d (s @ d # t) = Some (length s)"
  by (induction s) auto

lemma find_char_None_iff: "find_char d s = None \<longleftrightarrow> d \<notin> set s"
  by (induction s) auto

lemma find_char_Some_less: "find_char d s = Some i \<Longrightarrow> i < length s"
  by (induction s arbitrary: i) (auto split: if_splits)

lemma find_char_Some_nth: "find_char d s = Some i \<Longrightarrow> s ! i = d"
  by (induction s arbitrary: i) (auto split: if_splits)

end
