(* ===== verification/Redis.thy ===== *)
theory Redis
  imports Prelude "HOL-Library.Char_ord" "HOL-Library.List_Lexorder" "HOL-Library.Product_Lexorder"
begin

text \<open>
  The Redis server is not code of the repository: the definitions that talk to it take it as a
  parameter, a record of the commands the code issues (with \<open>CONNECT\<close> for taking a connection from the pool), each a step on the server's own state
  \<open>'r\<close>. What Redis documents for these commands is written down once, as the commands
  \<open>keyspace_redis\<close> on a record of four kinds of values per key, and the locale \<open>redis_server\<close> asks
  that the server's commands reply and change the keyspace in that way. A simulation that is
  preserved by sequencing then carries facts about programs over \<open>keyspace_redis\<close> to the same
  programs over any such server.
\<close>

section \<open>Commands\<close>

type_synonym key = string
type_synonym zset = "(int \<times> string) list"

text \<open>Bounds of a range by score: inclusive, exclusive (written with a leading parenthesis), or infinite.\<close>

datatype zmin = Incl int | Excl int
datatype zmax = Upto int | PosInf

record 'r redis =
  CONNECT :: "('r, error, unit) step"
  HEXISTS :: "key \<Rightarrow> string \<Rightarrow> ('r, error, bool) step"
  HGET :: "key \<Rightarrow> string \<Rightarrow> ('r, error, string option) step"
  HSET :: "key \<Rightarrow> string \<Rightarrow> string \<Rightarrow> ('r, error, unit) step"
  HDEL :: "key \<Rightarrow> string \<Rightarrow> ('r, error, unit) step"
  HINCRBY :: "key \<Rightarrow> string \<Rightarrow> int \<Rightarrow> ('r, error, int) step"
  ZADD :: "bool \<Rightarrow> key \<Rightarrow> int \<Rightarrow> string \<Rightarrow> ('r, error, nat) step"
  ZRANGE :: "key \<Rightarrow> int \<Rightarrow> int \<Rightarrow> ('r, error, string list) step"
  ZRANGE_BYSCORE :: "key \<Rightarrow> zmin \<Rightarrow> zmax \<Rightarrow> (nat \<times> nat) option \<Rightarrow> ('r, error, string list) step"
  ZREM :: "key \<Rightarrow> string list \<Rightarrow> ('r, error, nat) step"
  ZREMRANGEBYSCORE :: "key \<Rightarrow> int \<Rightarrow> int \<Rightarrow> ('r, error, unit) step"
  ZCARD :: "key \<Rightarrow> ('r, error, nat) step"
  DEL :: "key \<Rightarrow> ('r, error, unit) step"
  EXISTS :: "key \<Rightarrow> ('r, error, bool) step"
  EXPIRE :: "key \<Rightarrow> nat \<Rightarrow> ('r, error, unit) step"
  GET :: "key \<Rightarrow> ('r, error, string option) step"
  SETEX :: "key \<Rightarrow> nat \<Rightarrow> string \<Rightarrow> ('r, error, unit) step"
  SADD :: "key \<Rightarrow> string \<Rightarrow> ('r, error, unit) step"

section \<open>The documented meaning of the commands\<close>

text \<open>
  At most one of the four fields holds something for a key: its type. Keys that would expire in
  the future are present; an expired key is an absent one.
\<close>

record keyspace =
  hashes :: "key \<Rightarrow> string \<rightharpoonup> string"
  zsets :: "key \<Rightarrow> zset"
  strs :: "key \<rightharpoonup> string"
  ssets :: "key \<Rightarrow> string set"

definition empty_keyspace :: keyspace where
  "empty_keyspace = \<lparr>hashes = (\<lambda>_. Map.empty), zsets = (\<lambda>_. []), strs = Map.empty, ssets = (\<lambda>_. {})\<rparr>"

definition hash_key :: "keyspace \<Rightarrow> key \<Rightarrow> bool" where
  "hash_key K k \<longleftrightarrow> zsets K k = [] \<and> strs K k = None \<and> ssets K k = {}"

definition zset_key :: "keyspace \<Rightarrow> key \<Rightarrow> bool" where
  "zset_key K k \<longleftrightarrow> hashes K k = Map.empty \<and> strs K k = None \<and> ssets K k = {}"

definition str_key :: "keyspace \<Rightarrow> key \<Rightarrow> bool" where
  "str_key K k \<longleftrightarrow> hashes K k = Map.empty \<and> zsets K k = [] \<and> ssets K k = {}"

definition set_key :: "keyspace \<Rightarrow> key \<Rightarrow> bool" where
  "set_key K k \<longleftrightarrow> hashes K k = Map.empty \<and> zsets K k = [] \<and> strs K k = None"

definition checked :: "(keyspace \<Rightarrow> key \<Rightarrow> bool) \<Rightarrow> key \<Rightarrow> (keyspace \<Rightarrow> 'a \<times> keyspace)
    \<Rightarrow> (keyspace, error, 'a) step" where
  "checked ty k f K = (if ty K k then (case f K of (x, K') \<Rightarrow> (Ok x, K')) else (Err ''WRONGTYPE'', K))"

definition set_hash :: "key \<Rightarrow> (string \<rightharpoonup> string) \<Rightarrow> keyspace \<Rightarrow> keyspace" where
  "set_hash k h K = K\<lparr>hashes := (hashes K)(k := h)\<rparr>"

definition set_zset :: "key \<Rightarrow> zset \<Rightarrow> keyspace \<Rightarrow> keyspace" where
  "set_zset k z K = K\<lparr>zsets := (zsets K)(k := z)\<rparr>"

text \<open>Sorted sets are kept in increasing order of score, members of equal score in byte order.\<close>

definition zset_remove :: "string \<Rightarrow> zset \<Rightarrow> zset" where
  "zset_remove m z = filter (\<lambda>e. snd e \<noteq> m) z"

definition zset_member :: "string \<Rightarrow> zset \<Rightarrow> bool" where
  "zset_member m z \<longleftrightarrow> m \<in> set (map snd z)"

definition zset_add :: "bool \<Rightarrow> int \<Rightarrow> string \<Rightarrow> zset \<Rightarrow> zset" where
  "zset_add nx sc m z =
     (if nx \<and> zset_member m z then z else insort (sc, m) (zset_remove m z))"

fun in_zmin :: "zmin \<Rightarrow> int \<Rightarrow> bool" where
  "in_zmin (Incl a) s = (a \<le> s)"
| "in_zmin (Excl a) s = (a < s)"

fun in_zmax :: "zmax \<Rightarrow> int \<Rightarrow> bool" where
  "in_zmax (Upto b) s = (s \<le> b)"
| "in_zmax PosInf s = True"

definition limited :: "(nat \<times> nat) option \<Rightarrow> 'a list \<Rightarrow> 'a list" where
  "limited l xs = (case l of None \<Rightarrow> xs | Some (off, cnt) \<Rightarrow> take cnt (drop off xs))"

text \<open>A range by index includes both ends; negative indices count from the end.\<close>

definition index_range :: "int \<Rightarrow> int \<Rightarrow> 'a list \<Rightarrow> 'a list" where
  "index_range a b xs =
     (let n = int (length xs);
          lo = max 0 (if a < 0 then n + a else a);
          hi = (if b < 0 then n + b else b)
      in take (nat (hi + 1 - lo)) (drop (nat lo) xs))"

definition hincrby :: "key \<Rightarrow> string \<Rightarrow> int \<Rightarrow> (keyspace, error, int) step" where
  "hincrby k f n K =
     (if \<not> hash_key K k then (Err ''WRONGTYPE'', K)
      else case (case hashes K k f of None \<Rightarrow> Some 0 | Some v \<Rightarrow> parse_i64 v) of
             None \<Rightarrow> (Err ''ERR hash value is not an integer'', K)
           | Some i \<Rightarrow>
               if - (2 ^ 63) \<le> i + n \<and> i + n < 2 ^ 63
               then (Ok (i + n), set_hash k ((hashes K k)(f \<mapsto> show_int (i + n))) K)
               else (Err ''ERR increment or decrement would overflow'', K))"

definition del_key :: "key \<Rightarrow> keyspace \<Rightarrow> keyspace" where
  "del_key k K = \<lparr>hashes = (hashes K)(k := Map.empty), zsets = (zsets K)(k := []),
     strs = (strs K)(k := None), ssets = (ssets K)(k := {})\<rparr>"

definition keyspace_redis :: "keyspace redis" where
  "keyspace_redis = \<lparr>
     CONNECT = returnS (),
     HEXISTS = (\<lambda>k f. checked hash_key k (\<lambda>K. (hashes K k f \<noteq> None, K))),
     HGET = (\<lambda>k f. checked hash_key k (\<lambda>K. (hashes K k f, K))),
     HSET = (\<lambda>k f v. checked hash_key k (\<lambda>K. ((), set_hash k ((hashes K k)(f \<mapsto> v)) K))),
     HDEL = (\<lambda>k f. checked hash_key k (\<lambda>K. ((), set_hash k ((hashes K k)(f := None)) K))),
     HINCRBY = hincrby,
     ZADD = (\<lambda>nx k sc m. checked zset_key k (\<lambda>K.
       (if zset_member m (zsets K k) then 0 else 1, set_zset k (zset_add nx sc m (zsets K k)) K))),
     ZRANGE = (\<lambda>k a b. checked zset_key k (\<lambda>K. (map snd (index_range a b (zsets K k)), K))),
     ZRANGE_BYSCORE = (\<lambda>k a b l. checked zset_key k (\<lambda>K.
       (limited l (map snd (filter (\<lambda>e. in_zmin a (fst e) \<and> in_zmax b (fst e)) (zsets K k))), K))),
     ZREM = (\<lambda>k ms. checked zset_key k (\<lambda>K.
       (length (filter (\<lambda>e. snd e \<in> set ms) (zsets K k)),
        set_zset k (filter (\<lambda>e. snd e \<notin> set ms) (zsets K k)) K))),
     ZREMRANGEBYSCORE = (\<lambda>k a b. checked zset_key k (\<lambda>K.
       ((), set_zset k (filter (\<lambda>e. \<not> (a \<le> fst e \<and> fst e \<le> b)) (zsets K k)) K))),
     ZCARD = (\<lambda>k. checked zset_key k (\<lambda>K. (length (zsets K k), K))),
     DEL = (\<lambda>k K. (Ok (), del_key k K)),
     EXISTS = (\<lambda>k K. (Ok (\<not> (hash_key K k \<and> zset_key K k)), K)),
     EXPIRE = (\<lambda>k n K. (Ok (), K)),
     GET = (\<lambda>k. checked str_key k (\<lambda>K. (strs K k, K))),
     SETEX = (\<lambda>k n v K. (Ok (), (del_key k K)\<lparr>strs := (strs K)(k \<mapsto> v)\<rparr>)),
     SADD = (\<lambda>k v. checked set_key k (\<lambda>K. ((), K\<lparr>ssets := (ssets K)(k := insert v (ssets K k))\<rparr>)))\<rparr>"

section \<open>Simulation\<close>

definition simulates :: "('r \<Rightarrow> 'k) \<Rightarrow> ('r, 'e, 'a) step \<Rightarrow> ('k, 'e, 'a) step \<Rightarrow> bool" where
  "simulates view m a \<longleftrightarrow> (\<forall>s. fst (m s) = fst (a (view s)) \<and> view (snd (m s)) = snd (a (view s)))"

named_theorems sim_intros \<open>simulation of the program's operations\<close>

lemma sim_returnS [sim_intros]: "simulates v (returnS x) (returnS x)"
  by (simp add: simulates_def)

lemma sim_failS [sim_intros]: "simulates v (failS e) (failS e)"
  by (simp add: simulates_def)

lemma sim_liftS [sim_intros]: "simulates v (liftS r) (liftS r)"
  by (simp add: simulates_def)

lemma sim_getS [sim_intros]: "(\<And>s. g (v s) = f s) \<Longrightarrow> simulates v (getS f) (getS g)"
  by (simp add: simulates_def)

lemma sim_modifyS [sim_intros]: "(\<And>s. v (f s) = g (v s)) \<Longrightarrow> simulates v (modifyS f) (modifyS g)"
  by (simp add: simulates_def)

lemma sim_bindS [sim_intros]:
  assumes "simulates v m a" and "\<And>x. simulates v (f x) (g x)"
  shows "simulates v (bindS m f) (bindS a g)"
  unfolding simulates_def
proof
  fix s
  obtain r s' where ms: "m s = (r, s')" by fastforce
  with assms(1) have as: "a (v s) = (r, v s')" by (auto simp: simulates_def prod_eq_iff)
  show "fst (bindS m f s) = fst (bindS a g (v s)) \<and>
      v (snd (bindS m f s)) = snd (bindS a g (v s))"
    using ms as assms(2) by (cases r) (simp_all add: simulates_def)
qed

lemma sim_forS [sim_intros]:
  "(\<And>x. simulates v (f x) (g x)) \<Longrightarrow> simulates v (forS xs f) (forS xs g)"
  by (induction xs) (auto intro!: sim_intros)

lemma sim_if [sim_intros]:
  "\<lbrakk> b \<Longrightarrow> simulates v m a; \<not> b \<Longrightarrow> simulates v m' a' \<rbrakk>
    \<Longrightarrow> simulates v (if b then m else m') (if b then a else a')"
  by simp

lemma sim_case_option [sim_intros]:
  "\<lbrakk> x = None \<Longrightarrow> simulates v m a; \<And>y. x = Some y \<Longrightarrow> simulates v (f y) (g y) \<rbrakk>
    \<Longrightarrow> simulates v (case x of None \<Rightarrow> m | Some y \<Rightarrow> f y) (case x of None \<Rightarrow> a | Some y \<Rightarrow> g y)"
  by (cases x) simp_all

lemma sim_case_list [sim_intros]:
  "\<lbrakk> xs = [] \<Longrightarrow> simulates v m a; \<And>y ys. xs = y # ys \<Longrightarrow> simulates v (f y ys) (g y ys) \<rbrakk>
    \<Longrightarrow> simulates v (case xs of [] \<Rightarrow> m | y # ys \<Rightarrow> f y ys) (case xs of [] \<Rightarrow> a | y # ys \<Rightarrow> g y ys)"
  by (cases xs) simp_all

lemma sim_Let [sim_intros]:
  "(\<And>x. simulates v (f x) (g x)) \<Longrightarrow> simulates v (let x = t in f x) (let x = t in g x)"
  by simp

lemma simD:
  assumes "simulates v m a" and "a (v s) = (r, K')"
  shows "\<exists>s'. m s = (r, s') \<and> v s' = K'"
  using assms by (cases "m s") (auto simp: simulates_def prod_eq_iff)

lemma sim_fst: "simulates v m a \<Longrightarrow> fst (m s) = fst (a (v s))"
  and sim_snd: "simulates v m a \<Longrightarrow> v (snd (m s)) = snd (a (v s))"
  by (simp_all add: simulates_def)

section \<open>Servers\<close>

locale redis_server =
  fixes R :: "'r redis" and view :: "'r \<Rightarrow> keyspace"
  assumes sim_CONNECT [sim_intros]: "simulates view (CONNECT R) (CONNECT keyspace_redis)"
    and sim_HEXISTS [sim_intros]: "simulates view (HEXISTS R k f) (HEXISTS keyspace_redis k f)"
    and sim_HGET [sim_intros]: "simulates view (HGET R k f) (HGET keyspace_redis k f)"
    and sim_HSET [sim_intros]: "simulates view (HSET R k f x) (HSET keyspace_redis k f x)"
    and sim_HDEL [sim_intros]: "simulates view (HDEL R k f) (HDEL keyspace_redis k f)"
    and sim_HINCRBY [sim_intros]: "simulates view (HINCRBY R k f n) (HINCRBY keyspace_redis k f n)"
    and sim_ZADD [sim_intros]: "simulates view (ZADD R nx k sc m) (ZADD keyspace_redis nx k sc m)"
    and sim_ZRANGE [sim_intros]: "simulates view (ZRANGE R k i j) (ZRANGE keyspace_redis k i j)"
    and sim_ZRANGE_BYSCORE [sim_intros]:
      "simulates view (ZRANGE_BYSCORE R k a b l) (ZRANGE_BYSCORE keyspace_redis k a b l)"
    and sim_ZREM [sim_intros]: "simulates view (ZREM R k ms) (ZREM keyspace_redis k ms)"
    and sim_ZREMRANGEBYSCORE [sim_intros]:
      "simulates view (ZREMRANGEBYSCORE R k i j) (ZREMRANGEBYSCORE keyspace_redis k i j)"
    and sim_ZCARD [sim_intros]: "simulates view (ZCARD R k) (ZCARD keyspace_redis k)"
    and sim_DEL [sim_intros]: "simulates view (DEL R k) (DEL keyspace_redis k)"
    and sim_EXISTS [sim_intros]: "simulates view (EXISTS R k) (EXISTS keyspace_redis k)"
    and sim_EXPIRE [sim_intros]: "simulates view (EXPIRE R k t) (EXPIRE keyspace_redis k t)"
    and sim_GET [sim_intros]: "simulates view (GET R k) (GET keyspace_redis k)"
    and sim_SETEX [sim_intros]: "simulates view (SETEX R k t x) (SETEX keyspace_redis k t x)"
    and sim_SADD [sim_intros]: "simulates view (SADD R k x) (SADD keyspace_redis k x)"

lemma simulates_refl: "simulates (\<lambda>K. K) m m"
  by (simp add: simulates_def)

interpretation keyspace: redis_server keyspace_redis "\<lambda>K. K"
  by unfold_locales (rule simulates_refl)+

section \<open>Replies of the documented commands\<close>

text \<open>One rewrite rule per command, for a key of the right type.\<close>

named_theorems redis_simps \<open>replies of the commands\<close>

lemma hash_cmds [redis_simps]:
  assumes "hash_key K k"
  shows "HEXISTS keyspace_redis k f K = (Ok (hashes K k f \<noteq> None), K)"
    and "HGET keyspace_redis k f K = (Ok (hashes K k f), K)"
    and "HSET keyspace_redis k f v K = (Ok (), set_hash k ((hashes K k)(f \<mapsto> v)) K)"
    and "HDEL keyspace_redis k f K = (Ok (), set_hash k ((hashes K k)(f := None)) K)"
  using assms by (simp_all add: keyspace_redis_def checked_def)

lemma zset_cmds [redis_simps]:
  assumes "zset_key K k"
  shows "ZADD keyspace_redis nx k sc m K =
      (Ok (if zset_member m (zsets K k) then 0 else 1), set_zset k (zset_add nx sc m (zsets K k)) K)"
    and "ZRANGE keyspace_redis k a b K = (Ok (map snd (index_range a b (zsets K k))), K)"
    and "ZRANGE_BYSCORE keyspace_redis k mn mx l K =
      (Ok (limited l (map snd (filter (\<lambda>e. in_zmin mn (fst e) \<and> in_zmax mx (fst e)) (zsets K k)))), K)"
    and "ZREM keyspace_redis k ms K = (Ok (length (filter (\<lambda>e. snd e \<in> set ms) (zsets K k))),
      set_zset k (filter (\<lambda>e. snd e \<notin> set ms) (zsets K k)) K)"
    and "ZREMRANGEBYSCORE keyspace_redis k a b K =
      (Ok (), set_zset k (filter (\<lambda>e. \<not> (a \<le> fst e \<and> fst e \<le> b)) (zsets K k)) K)"
    and "ZCARD keyspace_redis k K = (Ok (length (zsets K k)), K)"
  using assms by (simp_all add: keyspace_redis_def checked_def)

lemma key_cmds [redis_simps]:
  "DEL keyspace_redis k K = (Ok (), del_key k K)"
  "EXISTS keyspace_redis k K = (Ok (\<not> (hash_key K k \<and> zset_key K k)), K)"
  "EXPIRE keyspace_redis k n K = (Ok (), K)"
  "SETEX keyspace_redis k n v K = (Ok (), (del_key k K)\<lparr>strs := (strs K)(k \<mapsto> v)\<rparr>)"
  by (simp_all add: keyspace_redis_def)

lemma CONNECT_cmd [redis_simps]: "CONNECT keyspace_redis K = (Ok (), K)"
  by (simp add: keyspace_redis_def)

lemma GET_cmd [redis_simps]: "str_key K k \<Longrightarrow> GET keyspace_redis k K = (Ok (strs K k), K)"
  by (simp add: keyspace_redis_def checked_def)

lemma SADD_cmd [redis_simps]: "set_key K k \<Longrightarrow>
    SADD keyspace_redis k v K = (Ok (), K\<lparr>ssets := (ssets K)(k := insert v (ssets K k))\<rparr>)"
  by (simp add: keyspace_redis_def checked_def)

lemma HINCRBY_cmd [redis_simps]: "HINCRBY keyspace_redis k f n = hincrby k f n"
  by (simp add: keyspace_redis_def)

text \<open>The fields after an update, and the types of keys.\<close>

lemma set_hash_fields [simp]:
  "hashes (set_hash k h K) = (hashes K)(k := h)" "zsets (set_hash k h K) = zsets K"
  "strs (set_hash k h K) = strs K" "ssets (set_hash k h K) = ssets K"
  by (simp_all add: set_hash_def)

lemma set_zset_fields [simp]:
  "zsets (set_zset k z K) = (zsets K)(k := z)" "hashes (set_zset k z K) = hashes K"
  "strs (set_zset k z K) = strs K" "ssets (set_zset k z K) = ssets K"
  by (simp_all add: set_zset_def)

lemma del_key_fields [simp]:
  "hashes (del_key k K) = (hashes K)(k := Map.empty)" "zsets (del_key k K) = (zsets K)(k := [])"
  "strs (del_key k K) = (strs K)(k := None)" "ssets (del_key k K) = (ssets K)(k := {})"
  by (simp_all add: del_key_def)

lemma key_types_set_hash [simp]:
  "hash_key (set_hash k h K) j = hash_key K j"
  "j \<noteq> k \<Longrightarrow> zset_key (set_hash k h K) j = zset_key K j"
  "j \<noteq> k \<Longrightarrow> str_key (set_hash k h K) j = str_key K j"
  by (simp_all add: hash_key_def zset_key_def str_key_def)

lemma key_types_set_zset [simp]:
  "zset_key (set_zset k z K) j = zset_key K j"
  "j \<noteq> k \<Longrightarrow> hash_key (set_zset k z K) j = hash_key K j"
  "j \<noteq> k \<Longrightarrow> str_key (set_zset k z K) j = str_key K j"
  by (simp_all add: hash_key_def zset_key_def str_key_def)

lemma key_types_del_key [simp]:
  "hash_key (del_key k K) j = (j = k \<or> hash_key K j)"
  "zset_key (del_key k K) j = (j = k \<or> zset_key K j)"
  "str_key (del_key k K) j = (j = k \<or> str_key K j)"
  by (auto simp: hash_key_def zset_key_def str_key_def)

end
