(* ===== verification/Base64.thy ===== *)
theory Base64
  imports Prelude
begin

text \<open>
  The \<open>BASE64_STANDARD\<close> engine of the \<open>base64\<close> crate is a parameter of the definitions that use
  it: an encoder and a decoder. The locale states what the code relies on, that decoding inverts
  encoding and that the encoded text uses the RFC 4648 alphabet only, so it holds no delimiter of
  the formats it is embedded in. The RFC's encoding interprets the locale.
\<close>

section \<open>The interface\<close>

record base64 =
  b64_encode :: "bytes \<Rightarrow> string"
  b64_decode :: "string \<Rightarrow> bytes option"

definition base64_alphabet :: "char set" where
  "base64_alphabet = {c. of_char c \<in> {65..<91::nat} \<union> {97..<123} \<union> {48..<58} \<union> {43, 47, 61}}"

locale base64_laws =
  fixes b64 :: base64
  assumes decode_encode [simp]: "b64_decode b64 (b64_encode b64 bs) = Some bs"
    and encode_alphabet: "set (b64_encode b64 bs) \<subseteq> base64_alphabet"
begin

lemma encode_no_char: "c \<notin> base64_alphabet \<Longrightarrow> c \<notin> set (b64_encode b64 bs)"
  using encode_alphabet by blast

lemma encode_no_colon [simp]: "CHR '':'' \<notin> set (b64_encode b64 bs)"
  by (rule encode_no_char) (simp add: base64_alphabet_def)

lemma encode_inj: "b64_encode b64 xs = b64_encode b64 ys \<Longrightarrow> xs = ys"
  by (metis decode_encode option.inject)

end

section \<open>The encoding of RFC 4648\<close>

definition sextet_char :: "nat \<Rightarrow> char" where
  "sextet_char n =
     char_of (if n < 26 then 65 + n else if n < 52 then 71 + n else if n < 62 then n - 4
              else if n = 62 then 43 else 47)"

definition char_sextet :: "char \<Rightarrow> nat option" where
  "char_sextet c =
     (let n = of_char c in
      if 65 \<le> n \<and> n < 91 then Some (n - 65)
      else if 97 \<le> n \<and> n < 123 then Some (n - 71)
      else if 48 \<le> n \<and> n < 58 then Some (n + 4)
      else if n = 43 then Some 62 else if n = 47 then Some 63 else None)"

fun rfc4648_encode :: "bytes \<Rightarrow> string" where
  "rfc4648_encode [] = []"
| "rfc4648_encode [a] =
     [sextet_char (unat a div 4), sextet_char (unat a mod 4 * 16), CHR ''='', CHR ''='']"
| "rfc4648_encode [a, b] =
     [sextet_char (unat a div 4), sextet_char (unat a mod 4 * 16 + unat b div 16),
      sextet_char (unat b mod 16 * 4), CHR ''='']"
| "rfc4648_encode (a # b # c # r) =
     sextet_char (unat a div 4) # sextet_char (unat a mod 4 * 16 + unat b div 16) #
     sextet_char (unat b mod 16 * 4 + unat c div 64) # sextet_char (unat c mod 64) #
     rfc4648_encode r"

fun rfc4648_decode :: "string \<Rightarrow> bytes option" where
  "rfc4648_decode [] = Some []"
| "rfc4648_decode (w # x # y # z # r) =
     (case (char_sextet w, char_sextet x) of
        (Some p, Some q) \<Rightarrow>
          if y = CHR ''='' then
            (if z = CHR ''='' \<and> r = [] \<and> q mod 16 = 0
             then Some [word_of_nat (p * 4 + q div 16)] else None)
          else (case char_sextet y of
            None \<Rightarrow> None
          | Some s \<Rightarrow>
              if z = CHR ''='' then
                (if r = [] \<and> s mod 4 = 0
                 then Some [word_of_nat (p * 4 + q div 16), word_of_nat (q mod 16 * 16 + s div 4)]
                 else None)
              else (case char_sextet z of
                None \<Rightarrow> None
              | Some t \<Rightarrow>
                  map_option
                    (\<lambda>bs. word_of_nat (p * 4 + q div 16) # word_of_nat (q mod 16 * 16 + s div 4) #
                          word_of_nat (s mod 4 * 64 + t) # bs)
                    (rfc4648_decode r)))
      | _ \<Rightarrow> None)"
| "rfc4648_decode _ = None"

definition BASE64_STANDARD :: base64 where
  "BASE64_STANDARD = \<lparr>b64_encode = rfc4648_encode, b64_decode = rfc4648_decode\<rparr>"

lemma char_sextet_sextet_char [simp]: "n < 64 \<Longrightarrow> char_sextet (sextet_char n) = Some n"
  by (auto simp: char_sextet_def sextet_char_def Let_def)

lemma sextet_char_alphabet: "n < 64 \<Longrightarrow> sextet_char n \<in> base64_alphabet"
  by (auto simp: sextet_char_def base64_alphabet_def)

lemma sextet_char_not_pad [simp]: "n < 64 \<Longrightarrow> sextet_char n \<noteq> CHR ''=''"
proof
  assume "n < 64" "sextet_char n = CHR ''=''"
  then have "char_sextet (CHR ''='') = Some n" by (metis char_sextet_sextet_char)
  then show False by (simp add: char_sextet_def)
qed

lemma unat_byte_less: "unat (a :: byte) < 256"
  using unsigned_less [of a, where 'a = nat] by simp

lemma sextet_bounds [simp]:
  "unat (a :: byte) div 4 < 64" "unat (a :: byte) mod 4 * 16 + unat (b :: byte) div 16 < 64"
  "unat (a :: byte) mod 4 * 16 < 64" "unat (b :: byte) mod 16 * 4 < 64"
  "unat (b :: byte) mod 16 * 4 + unat (c :: byte) div 64 < 64" "unat (c :: byte) mod 64 < 64"
  using unat_byte_less [of a] unat_byte_less [of b] unat_byte_less [of c]
  by (auto intro: order_le_less_trans)

lemma word_of_nat_unat: "word_of_nat (unat (a :: byte)) = a"
  by simp

lemma digits_split:
  fixes x y k :: nat
  assumes "y < k" shows "(x * k + y) div k = x" "(x * k + y) mod k = y"
  using assms by simp_all

lemma small_quotients:
  "unat (b :: byte) div 16 < 16" "unat (b :: byte) div 64 < 4"
  using unat_byte_less [of b] by simp_all

text \<open>The bytes are recovered from the sextets.\<close>

lemma byte_of_sextets:
  fixes a b c :: byte
  shows "word_of_nat (unat a div 4 * 4 + (unat a mod 4 * 16 + unat b div 16) div 16) = a"
    and "word_of_nat (unat a div 4 * 4 + unat a mod 4 * 16 div 16) = a"
    and "word_of_nat ((unat a mod 4 * 16 + unat b div 16) mod 16 * 16 +
           (unat b mod 16 * 4 + unat c div 64) div 4) = b"
    and "word_of_nat ((unat a mod 4 * 16 + unat b div 16) mod 16 * 16 + unat b mod 16 * 4 div 4) = b"
    and "word_of_nat ((unat b mod 16 * 4 + unat c div 64) mod 4 * 64 + unat c mod 64) = c"
proof -
  note split = digits_split [OF small_quotients(1) [of b]] digits_split [OF small_quotients(2) [of c]]
  have "unat a div 4 * 4 + (unat a mod 4 * 16 + unat b div 16) div 16 = unat a"
    "unat a div 4 * 4 + unat a mod 4 * 16 div 16 = unat a"
    "(unat a mod 4 * 16 + unat b div 16) mod 16 * 16 +
       (unat b mod 16 * 4 + unat c div 64) div 4 = unat b"
    "(unat a mod 4 * 16 + unat b div 16) mod 16 * 16 + unat b mod 16 * 4 div 4 = unat b"
    "(unat b mod 16 * 4 + unat c div 64) mod 4 * 64 + unat c mod 64 = unat c"
    by (simp_all add: split small_quotients)
  then show "word_of_nat (unat a div 4 * 4 + (unat a mod 4 * 16 + unat b div 16) div 16) = a"
    "word_of_nat (unat a div 4 * 4 + unat a mod 4 * 16 div 16) = a"
    "word_of_nat ((unat a mod 4 * 16 + unat b div 16) mod 16 * 16 +
       (unat b mod 16 * 4 + unat c div 64) div 4) = b"
    "word_of_nat ((unat a mod 4 * 16 + unat b div 16) mod 16 * 16 + unat b mod 16 * 4 div 4) = b"
    "word_of_nat ((unat b mod 16 * 4 + unat c div 64) mod 4 * 64 + unat c mod 64) = c"
    by (simp_all only: word_of_nat_unat)
qed

lemma rfc4648_round_trip: "rfc4648_decode (rfc4648_encode bs) = Some bs"
proof (induction bs rule: rfc4648_encode.induct)
  case (2 a)
  show ?case using byte_of_sextets(2) [of a] by simp
next
  case (3 a b)
  show ?case using byte_of_sextets(1) [of a b] byte_of_sextets(4) [of a b] by simp
next
  case (4 a b c r)
  then show ?case
    using byte_of_sextets(1) [of a b] byte_of_sextets(3) [of a b c] byte_of_sextets(5) [of b c]
    by simp
qed simp

lemma rfc4648_alphabet: "set (rfc4648_encode bs) \<subseteq> base64_alphabet"
proof -
  have pad: "CHR ''='' \<in> base64_alphabet" by (simp add: base64_alphabet_def)
  show ?thesis
    by (induction bs rule: rfc4648_encode.induct) (simp_all add: sextet_char_alphabet pad)
qed

interpretation rfc4648: base64_laws BASE64_STANDARD
  by unfold_locales (simp_all add: BASE64_STANDARD_def rfc4648_round_trip rfc4648_alphabet)

end
