(* ===== verification/Float32.thy ===== *)
theory Float32
  imports Complex_Main Prelude
begin

text \<open>
  The part of Rust's \<open>f32\<close> that the chunker computes with: the conversion of a length
  (\<open>len() as f32\<close>), multiplication, \<open>ceil\<close> and the saturating cast \<open>as usize\<close>. A finite
  value is the rational number it denotes; rounding is to nearest, ties to even, on the 24-bit
  significand, with gradual underflow and overflow to infinity. The two zeros are one value:
  none of these operations distinguishes them.
\<close>

section \<open>Values and rounding\<close>

datatype f32 = F32_NaN | F32_Inf (is_neg: bool) | F32 (val: rat)

text \<open>The spacing of the values around \<open>x\<close>, searched upwards from the subnormal spacing.\<close>

fun f32_ulp_from :: "nat \<Rightarrow> rat \<Rightarrow> rat \<Rightarrow> rat" where
  "f32_ulp_from 0 q x = q"
| "f32_ulp_from (Suc n) q x = (if x < q * 2 ^ 24 then q else f32_ulp_from n (2 * q) x)"

definition f32_ulp :: "rat \<Rightarrow> rat" where
  "f32_ulp x = f32_ulp_from 253 (1 / 2 ^ 149) \<bar>x\<bar>"

definition round_half_even :: "rat \<Rightarrow> int" where
  "round_half_even x =
     (let n = \<lfloor>x\<rfloor>; d = x - of_int n in
      if d < 1 / 2 then n else if 1 / 2 < d then n + 1 else if even n then n else n + 1)"

definition round_f32 :: "rat \<Rightarrow> f32" where
  "round_f32 x =
     (let q = f32_ulp x; r = of_int (round_half_even (x / q)) * q in
      if 2 ^ 128 \<le> r then F32_Inf False
      else if r \<le> - (2 ^ 128) then F32_Inf True
      else F32 r)"

definition usize_as_f32 :: "nat \<Rightarrow> f32" where
  "usize_as_f32 n = round_f32 (of_nat n)"

fun f32_mul :: "f32 \<Rightarrow> f32 \<Rightarrow> f32" where
  "f32_mul (F32 a) (F32 b) = round_f32 (a * b)"
| "f32_mul (F32_Inf s) (F32_Inf t) = F32_Inf (s \<noteq> t)"
| "f32_mul (F32_Inf s) (F32 b) = (if b = 0 then F32_NaN else F32_Inf (s \<noteq> (b < 0)))"
| "f32_mul (F32 a) (F32_Inf t) = (if a = 0 then F32_NaN else F32_Inf ((a < 0) \<noteq> t))"
| "f32_mul _ _ = F32_NaN"

fun f32_ceil :: "f32 \<Rightarrow> f32" where
  "f32_ceil (F32 a) = F32 (of_int \<lceil>a\<rceil>)"
| "f32_ceil x = x"

text \<open>\<open>as usize\<close>: NaN gives 0, values outside the range saturate, fractions truncate.\<close>

fun f32_as_usize :: "f32 \<Rightarrow> nat" where
  "f32_as_usize F32_NaN = 0"
| "f32_as_usize (F32_Inf s) = (if s then 0 else 2 ^ 64 - 1)"
| "f32_as_usize (F32 a) = (if a < 0 then 0 else min (nat \<lfloor>a\<rfloor>) (2 ^ 64 - 1))"

section \<open>Rounding is monotone and keeps small integers\<close>

lemma round_half_even_of_int [simp]: "round_half_even (of_int n) = n"
  by (simp add: round_half_even_def)

lemma round_half_even_mono:
  assumes "x \<le> y" shows "round_half_even x \<le> round_half_even y"
proof (cases "\<lfloor>x\<rfloor> = \<lfloor>y\<rfloor>")
  case True
  with assms show ?thesis by (auto simp: round_half_even_def Let_def)
next
  case False
  with assms have lt: "\<lfloor>x\<rfloor> + 1 \<le> \<lfloor>y\<rfloor>" by (metis floor_mono add1_zle_eq order_le_less)
  have "round_half_even x \<le> \<lfloor>x\<rfloor> + 1" "\<lfloor>y\<rfloor> \<le> round_half_even y"
    by (auto simp: round_half_even_def Let_def)
  with lt show ?thesis by linarith
qed

text \<open>\<open>f32_ulp\<close> is a power of two times the subnormal spacing.\<close>

lemma f32_ulp_from_pos: "0 < q \<Longrightarrow> 0 < f32_ulp_from n q x"
  by (induction n arbitrary: q) auto

lemma f32_ulp_pos: "0 < f32_ulp x"
  unfolding f32_ulp_def by (rule f32_ulp_from_pos) simp

lemma f32_ulp_from_pow: "\<exists>k. f32_ulp_from n q x = q * 2 ^ k"
proof (induction n arbitrary: q)
  case 0
  show ?case by (rule exI [of _ 0]) simp
next
  case (Suc n)
  then obtain k where "f32_ulp_from n (2 * q) x = 2 * q * 2 ^ k" by blast
  then have "f32_ulp_from n (2 * q) x = q * 2 ^ Suc k" by simp
  then show ?case by (cases "x < q * 2 ^ 24") (auto intro: exI [of _ "Suc k"] exI [of _ 0])
qed

text \<open>The spacing never exceeds what the magnitude calls for.\<close>

lemma f32_ulp_from_minimal:
  assumes "0 < q" "f32_ulp_from n q x \<noteq> q"
  shows "f32_ulp_from n q x * 2 ^ 23 \<le> x"
  using assms
proof (induction n arbitrary: q)
  case (Suc n)
  show ?case
  proof (cases "x < q * 2 ^ 24")
    case False
    show ?thesis
    proof (cases "f32_ulp_from n (2 * q) x = 2 * q")
      case True
      with False show ?thesis by simp
    next
      case neq: False
      have "f32_ulp_from n (2 * q) x * 2 ^ 23 \<le> x"
        using Suc.prems(1) neq by (intro Suc.IH) simp_all
      with False show ?thesis by simp
    qed
  qed (use Suc.prems in simp)
qed simp

lemma f32_ulp_from_eq:
  assumes "0 < q" "k \<le> n" "q * 2 ^ k * 2 ^ 23 \<le> x" "x < q * 2 ^ k * 2 ^ 24"
  shows "f32_ulp_from n q x = q * 2 ^ k"
  using assms
proof (induction n arbitrary: q k)
  case (Suc n)
  show ?case
  proof (cases k)
    case 0
    with Suc.prems show ?thesis by simp
  next
    case (Suc j)
    have "(1::rat) \<le> 2 ^ j" by simp
    then have "q * 2 ^ 24 \<le> q * 2 ^ k * 2 ^ 23"
      using \<open>0 < q\<close> Suc by (simp add: mult_left_mono)
    then have "\<not> x < q * 2 ^ 24" using Suc.prems(3) by linarith
    moreover have "f32_ulp_from n (2 * q) x = 2 * q * 2 ^ j"
      using Suc.prems Suc by (intro Suc.IH) (simp_all add: algebra_simps)
    ultimately show ?thesis using Suc by simp
  qed
qed simp

text \<open>Below \<open>2 ^ 24\<close> the spacing is \<open>2 ^ -j\<close>, so every integer there is a value.\<close>

lemma f32_ulp_small:
  assumes "\<bar>x\<bar> < 2 ^ 24"
  obtains j where "f32_ulp x = 1 / 2 ^ j"
proof -
  obtain k where k: "f32_ulp x = 1 / 2 ^ 149 * 2 ^ k"
    unfolding f32_ulp_def using f32_ulp_from_pow by blast
  have "f32_ulp x < 2"
  proof (cases "f32_ulp x = 1 / 2 ^ 149")
    case True
    then show ?thesis by simp
  next
    case False
    then have "f32_ulp x * 2 ^ 23 \<le> \<bar>x\<bar>"
      unfolding f32_ulp_def by (intro f32_ulp_from_minimal) simp_all
    with assms have "f32_ulp x * 2 ^ 23 < 2 * 2 ^ 23" by simp
    then show ?thesis by (rule mult_right_less_imp_less) simp
  qed
  then have "(2::rat) ^ k < 2 * 2 ^ 149"
    by (simp add: k divide_simps del: power_numeral)
  then have "(2::rat) ^ k < 2 ^ 150" by (simp only: power_Suc [symmetric]) simp
  then have "k < 150" by (rule power_less_imp_less_exp [rotated]) simp
  then have "f32_ulp x = 1 / 2 ^ (149 - k)"
    by (simp add: k power_diff del: power_numeral)
  then show thesis by (rule that)
qed

lemma div_ulp_of_int: "\<exists>i. of_int n / (1 / 2 ^ j :: rat) = of_int i"
  by (rule exI [of _ "n * 2 ^ j"]) simp

lemma round_mult_le:
  assumes "0 < (u::rat)" and "x \<le> of_int n" and "of_int n / u = of_int i"
  shows "of_int (round_half_even (x / u)) * u \<le> of_int n"
proof -
  have "x / u \<le> of_int i" using assms by (metis divide_right_mono less_imp_le)
  then have "round_half_even (x / u) \<le> round_half_even (of_int i)"
    by (rule round_half_even_mono)
  then have "of_int (round_half_even (x / u)) * u \<le> of_int i * u"
    using assms(1) by simp
  also have "of_int i * u = of_int n" using assms(1,3) by (simp add: field_simps)
  finally show ?thesis .
qed

lemma round_mult_ge:
  assumes "0 < (u::rat)" and "of_int n \<le> x" and "of_int n / u = of_int i"
  shows "of_int n \<le> of_int (round_half_even (x / u)) * u"
proof -
  have "of_int i \<le> x / u" using assms by (metis divide_right_mono less_imp_le)
  then have "round_half_even (of_int i) \<le> round_half_even (x / u)"
    by (rule round_half_even_mono)
  then have "of_int i * u \<le> of_int (round_half_even (x / u)) * u"
    using assms(1) by simp
  moreover have "of_int i * u = of_int n" using assms(1,3) by (simp add: field_simps)
  ultimately show ?thesis by simp
qed

text \<open>
  Rounding a value between two small integers gives a finite value between the same integers.
\<close>

lemma round_f32_between:
  assumes "of_int m \<le> x" "x \<le> of_int n" "0 \<le> m" "n < 2 ^ 24"
  obtains r where "round_f32 x = F32 r" "of_int m \<le> r" "r \<le> of_int n"
proof -
  have x: "0 \<le> x" using assms(1,3) by (metis of_int_0_le_iff order_trans)
  have "(of_int n :: rat) < of_int (2 ^ 24)" using assms(4) by (simp only: of_int_less_iff)
  then have "x < 2 ^ 24" using assms(2) by simp
  with x have ab: "\<bar>x\<bar> < 2 ^ 24" by simp
  then obtain j where u: "f32_ulp x = 1 / 2 ^ j" by (rule f32_ulp_small)
  define r where "r = of_int (round_half_even (x / f32_ulp x)) * f32_ulp x"
  have r: "of_int m \<le> r" "r \<le> of_int n"
    unfolding r_def
    using assms(1,2) f32_ulp_pos u div_ulp_of_int
    by (metis round_mult_ge, metis round_mult_le)
  have "(of_int n :: rat) < 2 ^ 24"
    using \<open>of_int n < of_int (2 ^ 24)\<close> by simp
  then have "r < 2 ^ 24" using r(2) by (rule order_le_less_trans [rotated])
  moreover have "0 \<le> r" using r(1) assms(3) by (metis of_int_0_le_iff order_trans)
  ultimately have "round_f32 x = F32 r"
    by (simp add: round_f32_def Let_def r_def)
  with r show thesis by (intro that)
qed

lemma usize_as_f32_small: "n < 2 ^ 24 \<Longrightarrow> usize_as_f32 n = F32 (of_nat n)"
proof -
  assume n: "n < 2 ^ 24"
  have "int n < 2 ^ 24" using n by simp
  then obtain r where "round_f32 (of_nat n) = F32 r" "of_int (int n) \<le> r" "r \<le> of_int (int n)"
    by (rule round_f32_between [of "int n" "of_nat n" "int n", rotated 3]) simp_all
  then show ?thesis by (simp add: usize_as_f32_def)
qed

end
