(* ===== verification/Web_Api.thy ===== *)
theory Web_Api
  imports Float32
begin

text \<open>
  The data that travels between client and server (\<open>common/src/web_api/mod.rs\<close>) and the
  \<open>Envelope\<close> message of \<open>common/proto/SignalService.proto\<close>. Structs are records with the source's
  fields (prefixed where two structs share a field name), enums are datatypes. Keys and
  signatures of libsignal are their serialised bytes; \<open>u32\<close> and \<open>u64\<close> values are \<open>nat\<close>s.
\<close>

section \<open>Service ids and addresses\<close>

text \<open>
  \<open>libsignal_core\<close>'s \<open>ServiceId\<close> (an ACI or a PNI, each a UUID) and \<open>ProtocolAddress\<close> (a name
  and a device id).
\<close>

type_synonym uuid = "128 word"

datatype service_id = Aci uuid | Pni uuid

datatype service_id_kind = KindAci | KindPni

fun kind :: "service_id \<Rightarrow> service_id_kind" where
  "kind (Aci _) = KindAci"
| "kind (Pni _) = KindPni"

record protocol_address =
  addr_name :: string
  addr_device_id :: nat

section \<open>Capabilities\<close>

datatype account_capability_mode = PrimaryDevice | AnyDevice | AllDevices

datatype device_capability_type =
    Storage | Transfer | DeleteSync | VersionedExpirationTimer | StorageServiceRecordKeyRotation

record device_capability =
  cap_name :: string
  account_capability_mode :: account_capability_mode
  prevent_downgrade :: bool
  include_in_profile :: bool

definition VALUES :: "device_capability_type list" where
  "VALUES = [Storage, Transfer, DeleteSync, VersionedExpirationTimer,
     StorageServiceRecordKeyRotation]"

fun capability_value :: "device_capability_type \<Rightarrow> device_capability" where
  "capability_value Storage =
     \<lparr>cap_name = ''storage'', account_capability_mode = AnyDevice,
      prevent_downgrade = False, include_in_profile = False\<rparr>"
| "capability_value Transfer =
     \<lparr>cap_name = ''transfer'', account_capability_mode = PrimaryDevice,
      prevent_downgrade = False, include_in_profile = False\<rparr>"
| "capability_value DeleteSync =
     \<lparr>cap_name = ''deleteSync'', account_capability_mode = AllDevices,
      prevent_downgrade = True, include_in_profile = True\<rparr>"
| "capability_value VersionedExpirationTimer =
     \<lparr>cap_name = ''versionedExpirationTimer'', account_capability_mode = AllDevices,
      prevent_downgrade = True, include_in_profile = True\<rparr>"
| "capability_value StorageServiceRecordKeyRotation =
     \<lparr>cap_name = ''ssre2'', account_capability_mode = AllDevices,
      prevent_downgrade = True, include_in_profile = True\<rparr>"

text \<open>\<open>From<i32>\<close>: the catch-all arm is \<open>todo!()\<close>, a panic.\<close>

definition capability_from_i32 :: "int \<Rightarrow> ('e, device_capability_type) outcome" where
  "capability_from_i32 v =
     (if v = 0 then Ok Storage
      else if v = 1 then Ok Transfer
      else if v = 2 then Ok DeleteSync
      else if v = 3 then Ok VersionedExpirationTimer
      else if v = 4 then Ok StorageServiceRecordKeyRotation
      else Panic)"

fun capability_to_i32 :: "device_capability_type \<Rightarrow> int" where
  "capability_to_i32 Storage = 0"
| "capability_to_i32 Transfer = 1"
| "capability_to_i32 DeleteSync = 2"
| "capability_to_i32 VersionedExpirationTimer = 3"
| "capability_to_i32 StorageServiceRecordKeyRotation = 4"

section \<open>Keys\<close>

record upload_signed_pre_key =
  usk_key_id :: nat
  usk_public_key :: bytes
  usk_signature :: bytes

record upload_pre_key =
  upk_key_id :: nat
  upk_public_key :: bytes

record pre_key_count =
  count :: nat
  pq_count :: nat

record device_pre_key_bundle =
  aci_signed_pre_key :: upload_signed_pre_key
  pni_signed_pre_key :: upload_signed_pre_key
  aci_pq_pre_key :: upload_signed_pre_key
  pni_pq_pre_key :: upload_signed_pre_key

record set_key_request =
  skr_pre_key :: "upload_pre_key list option"
  skr_signed_pre_key :: "upload_signed_pre_key option"
  skr_pq_pre_key :: "upload_signed_pre_key list option"
  skr_pq_last_resort_pre_key :: "upload_signed_pre_key option"

record pre_key_request =
  pkr_service_id :: string

record pre_key_response_item =
  pki_device_id :: nat
  pki_registration_id :: nat
  pki_pre_key :: "upload_pre_key option"
  pki_pq_pre_key :: upload_signed_pre_key
  pki_signed_pre_key :: upload_signed_pre_key

record pre_key_response =
  pks_service_id :: string
  pks_identity_key :: bytes
  pks_devices :: "pre_key_response_item list"

section \<open>Registration and linking\<close>

record account_attributes =
  att_name :: string
  fetches_messages :: bool
  att_registration_id :: nat
  att_pni_registration_id :: nat
  att_capabilities :: "device_capability_type list"
  unidentified_access_key :: bytes

record registration_request =
  session_id :: string
  recovery_password :: string
  reg_account_attributes :: account_attributes
  require_atomic :: bool
  skip_device_transfer :: bool
  reg_aci_identity_key :: bytes
  reg_pni_identity_key :: bytes
  reg_aci_signed_pre_key :: upload_signed_pre_key
  reg_pni_signed_pre_key :: upload_signed_pre_key
  reg_aci_pq_last_resort_pre_key :: upload_signed_pre_key
  reg_pni_pq_last_resort_pre_key :: upload_signed_pre_key

record account_identity_response =
  air_uuid :: uuid
  air_number :: string
  air_pni :: uuid
  air_username_hash :: "bytes option"
  air_storage_capable :: bool

record device_activation_request =
  act_aci_signed_pre_key :: upload_signed_pre_key
  act_pni_signed_pre_key :: upload_signed_pre_key
  act_aci_pq_last_resort_pre_key :: upload_signed_pre_key
  act_pni_pq_last_resort_pre_key :: upload_signed_pre_key

record link_device_request =
  verification_code :: string
  ldr_account_attributes :: account_attributes
  ldr_device_activation_request :: device_activation_request

section \<open>Messages\<close>

record signal_message =
  sm_type :: int
  destination_device_id :: nat
  sm_destination_service_id :: "string option"
  destination_registration_id :: nat
  sm_content :: string

record envelope =
  env_type :: "int option"
  source_service_id :: "string option"
  source_device :: "nat option"
  env_timestamp :: "nat option"
  env_content :: "bytes option"
  server_guid :: "string option"
  server_timestamp :: "nat option"
  ephemeral :: "bool option"
  env_destination_service_id :: "string option"
  urgent :: "bool option"
  updated_pni :: "string option"
  story :: "bool option"
  reporting_token :: "bytes option"

datatype regular_payload = RegularSignalMessage signal_message | RegularEnvelope envelope

datatype deniable_payload =
    DenSignalMessage signal_message
  | DenEnvelope envelope
  | KeyRequest pre_key_request
  | KeyResponse pre_key_response

record denim_chunk =
  chunk :: bytes
  flags :: int

record denim_message =
  dm_regular_payload :: regular_payload
  dm_chunks :: "denim_chunk list"
  dm_counter :: "int option"
  dm_q :: "f32 option"
  dm_ballast :: bytes

record denim_messages =
  messages :: "denim_message list"
  online :: bool
  dms_urgent :: bool
  dms_timestamp :: nat

section \<open>Chunks\<close>

definition is_dummy :: "denim_chunk \<Rightarrow> bool" where
  "is_dummy c \<longleftrightarrow> flags c = 1"

definition is_final :: "denim_chunk \<Rightarrow> bool" where
  "is_final c \<longleftrightarrow> flags c = 2"

text \<open>
  \<open>Ord for DenimChunk\<close> compares the flags the other way round, so the stable \<open>sort()\<close> of a
  vector of chunks puts the larger flag first and keeps the order of equal flags.
\<close>

definition sort_chunks :: "denim_chunk list \<Rightarrow> denim_chunk list" where
  "sort_chunks cs = sort_key (\<lambda>c. - flags c) cs"

type_synonym payload_data = denim_chunk

definition PayloadData_new :: "bytes \<Rightarrow> payload_data" where
  "PayloadData_new d = \<lparr>chunk = d, flags = 0\<rparr>"

section \<open>Facts\<close>

lemma VALUES_complete: "c \<in> set VALUES"
  by (cases c) (simp_all add: VALUES_def)

lemma capability_from_to_i32: "capability_from_i32 (capability_to_i32 c) = Ok c"
  by (cases c) (simp_all add: capability_from_i32_def)

lemma capability_from_i32_panics_iff: "capability_from_i32 v = Panic \<longleftrightarrow> v \<notin> {0..4}"
  by (auto simp: capability_from_i32_def)

lemma sort_chunks_mset [simp]: "mset (sort_chunks cs) = mset cs"
  by (simp add: sort_chunks_def)

lemma sort_chunks_set [simp]: "set (sort_chunks cs) = set cs"
  by (simp add: sort_chunks_def)

lemma sort_chunks_descending: "sorted_wrt (\<lambda>a b. flags b \<le> flags a) (sort_chunks cs)"
proof -
  have "sorted (map (\<lambda>c. - flags c) (sort_chunks cs))" by (simp add: sort_chunks_def)
  then show ?thesis by (simp add: sorted_map)
qed

lemma sort_chunks_id:
  assumes "sorted_wrt (\<lambda>a b. flags b \<le> flags a) cs"
  shows "sort_chunks cs = cs"
proof -
  have "sorted (map (\<lambda>c. - flags c) cs)" using assms by (simp add: sorted_map)
  then show ?thesis by (simp add: sort_chunks_def sorted_sort_id sort_key_id_if_sorted)
qed

text \<open>With distinct flags the sorted list depends only on the set of chunks.\<close>

lemma sort_chunks_permute:
  assumes "mset cs = mset ds" and "distinct (map flags cs)"
  shows "sort_chunks cs = sort_chunks ds"
proof -
  have inj: "inj_on (\<lambda>c. - flags c) (set cs)"
    using assms(2) by (auto simp: distinct_map inj_on_def)
  have "distinct (map (\<lambda>c. - flags c) cs)"
    using inj assms(2) by (simp add: distinct_map)
  with inj assms(1) show ?thesis
    unfolding sort_chunks_def
    by (intro sort_key_inj_key_eq) simp_all
qed

end
