(* ===== verification/Chunker.thy ===== *)
theory Chunker
  imports Web_Api
begin

text \<open>
  The chunker of \<open>common/src/deniable/chunk.rs\<close> and the interface \<open>DeniableSendingBuffer\<close> of
  \<open>common/src/deniable/mod.rs\<close>. Every regular message carries \<open>ceil (size * q)\<close> further bytes, which
  the chunker fills with pieces of queued deniable payloads and, when none are left, with dummy
  bytes. \<open>bincode::serialize\<close> is a parameter; its loops end for the sizes bincode documents, so
  they are \<open>partial_function\<close>s whose value \<open>None\<close> is "does not return", and the theorems show
  that they return.
\<close>

section \<open>Chunk types and constants\<close>

datatype chunk_type = Data int | Dummy | Final

definition EMPTY_VEC_SIZE :: nat where "EMPTY_VEC_SIZE = 8"
definition EMPTY_DENIMCHUNK_SIZE :: nat where "EMPTY_DENIMCHUNK_SIZE = 12"
definition DENIMARRAY_WITH_EMPTY_DENIMCHUNK_SIZE :: nat where
  "DENIMARRAY_WITH_EMPTY_DENIMCHUNK_SIZE = 20"

lemmas size_consts [simp] = EMPTY_VEC_SIZE_def EMPTY_DENIMCHUNK_SIZE_def
  DENIMARRAY_WITH_EMPTY_DENIMCHUNK_SIZE_def

text \<open>The last arm of the match is \<open>unreachable!\<close>.\<close>

definition chunk_type_from_i32 :: "int \<Rightarrow> ('e, chunk_type) outcome" where
  "chunk_type_from_i32 v =
     (if v = 1 then Ok Dummy else if v = 2 then Ok Final else if v \<le> 0 then Ok (Data v) else Panic)"

fun chunk_type_to_i32 :: "chunk_type \<Rightarrow> int" where
  "chunk_type_to_i32 Dummy = 1"
| "chunk_type_to_i32 Final = 2"
| "chunk_type_to_i32 (Data v) = v"

section \<open>The chunker\<close>

record chunker =
  q_value :: f32

text \<open>\<open>0.6\<close> as an \<open>f32\<close>.\<close>

definition Chunker_default :: chunker where
  "Chunker_default = \<lparr>q_value = round_f32 (6 / 10)\<rparr>"

definition Chunker_new :: "f32 \<Rightarrow> chunker" where
  "Chunker_new q = \<lparr>q_value = q\<rparr>"

definition set_q_value :: "f32 \<Rightarrow> chunker \<Rightarrow> chunker" where
  "set_q_value q ck = ck\<lparr>q_value := q\<rparr>"

text \<open>\<open>(regular_payload_size * self.q_value).ceil() as usize\<close>\<close>

definition total_free_space :: "chunker \<Rightarrow> f32 \<Rightarrow> nat" where
  "total_free_space ck payload_size = f32_as_usize (f32_ceil (f32_mul payload_size (q_value ck)))"

definition get_free_space_in_bytes :: "chunker \<Rightarrow> f32 \<Rightarrow> ('e, nat) outcome" where
  "get_free_space_in_bytes ck payload_size = usize_sub (total_free_space ck payload_size) EMPTY_VEC_SIZE"

section \<open>The sending buffer\<close>

text \<open>The three operations of the trait, as steps on the buffer's own state.\<close>

record 'b sending_buffer =
  get_outgoing_message :: "('b, error, nat \<times> bytes \<times> int) step"
  set_outgoing_message :: "nat option \<Rightarrow> int \<Rightarrow> bytes \<Rightarrow> ('b, error, unit) step"
  remove_outgoing_message :: "nat \<Rightarrow> ('b, error, unit) step"

text \<open>One pass of the loop body of \<open>create_chunks\<close>: the chunk that is appended.\<close>

definition next_chunk :: "'b sending_buffer \<Rightarrow> nat \<Rightarrow> ('b, error, denim_chunk) step" where
  "next_chunk B chunk_size b =
     (let (r, b1) = get_outgoing_message B b in
      case unwrap_or_default (0, [], 0) r of
        Ok (mid, msg, cnt) \<Rightarrow>
          if msg \<noteq> [] \<and> chunk_size \<noteq> 0 then
            if length msg \<le> chunk_size then
              bindS (remove_outgoing_message B mid)
                (\<lambda>_. returnS \<lparr>chunk = msg, flags = chunk_type_to_i32 Final\<rparr>) b1
            else
              bindS (liftS (i32_sub cnt 1)) (\<lambda>cnt'.
                bindS (set_outgoing_message B (Some mid) cnt' (drop chunk_size msg))
                  (\<lambda>_. returnS \<lparr>chunk = take chunk_size msg,
                               flags = chunk_type_to_i32 (Data cnt)\<rparr>)) b1
          else (Ok \<lparr>chunk = replicate chunk_size 0, flags = chunk_type_to_i32 Dummy\<rparr>, b1)
      | Err e \<Rightarrow> (Err e, b1)
      | Panic \<Rightarrow> (Panic, b1))"

partial_function (option) create_chunks_loop ::
  "(denim_chunk list \<Rightarrow> bytes) \<Rightarrow> 'b sending_buffer \<Rightarrow> nat \<Rightarrow> denim_chunk list \<Rightarrow> nat \<Rightarrow> 'b
    \<Rightarrow> ((error, denim_chunk list \<times> nat) outcome \<times> 'b) option" where
  "create_chunks_loop ser B tot out free_space b =
     (if EMPTY_DENIMCHUNK_SIZE \<le> free_space then
        (case next_chunk B (free_space - EMPTY_DENIMCHUNK_SIZE) b of
           (Ok c, b1) \<Rightarrow>
             (case usize_sub tot (length (ser (out @ [c]))) of
                Ok free_space' \<Rightarrow> create_chunks_loop ser B tot (out @ [c]) free_space' b1
              | Err e \<Rightarrow> Some (Err e, b1)
              | Panic \<Rightarrow> Some (Panic, b1))
         | (Err e, b1) \<Rightarrow> Some (Err e, b1)
         | (Panic, b1) \<Rightarrow> Some (Panic, b1))
      else Some (Ok (out, free_space), b))"

definition create_chunks ::
  "(denim_chunk list \<Rightarrow> bytes) \<Rightarrow> 'b sending_buffer \<Rightarrow> chunker \<Rightarrow> f32 \<Rightarrow> 'b
    \<Rightarrow> ((error, denim_chunk list \<times> nat) outcome \<times> 'b) option" where
  "create_chunks ser B ck payload_size b =
     (let tot = total_free_space ck payload_size in
      case usize_sub tot EMPTY_VEC_SIZE of
        Ok free_space \<Rightarrow> create_chunks_loop ser B tot [] free_space b
      | Err e \<Rightarrow> Some (Err e, b)
      | Panic \<Rightarrow> Some (Panic, b))"

section \<open>Chunking one payload\<close>

text \<open>The loop body of \<open>create_ordered_chunks\<close>: the chunk, the remaining data, the count.\<close>

definition next_ordered_chunk ::
  "nat \<Rightarrow> bytes \<Rightarrow> int \<Rightarrow> (error, denim_chunk \<times> bytes \<times> int) outcome" where
  "next_ordered_chunk chunk_size data cnt =
     (if data \<noteq> [] \<and> chunk_size \<noteq> 0 then
        if length data \<le> chunk_size then
          Ok (\<lparr>chunk = data, flags = chunk_type_to_i32 Final\<rparr>, [], cnt)
        else
          bind (i32_sub cnt 1) (\<lambda>cnt'.
            Ok (\<lparr>chunk = take chunk_size data, flags = chunk_type_to_i32 (Data cnt)\<rparr>,
                drop chunk_size data, cnt'))
      else Ok (\<lparr>chunk = replicate chunk_size 0, flags = chunk_type_to_i32 Dummy\<rparr>, data, cnt))"

partial_function (option) create_ordered_chunks_loop ::
  "(denim_chunk list \<Rightarrow> bytes) \<Rightarrow> nat \<Rightarrow> denim_chunk list \<Rightarrow> nat \<Rightarrow> bytes \<Rightarrow> int
    \<Rightarrow> (error, denim_chunk list \<times> nat \<times> payload_data) outcome option" where
  "create_ordered_chunks_loop ser tot out free_space data cnt =
     (if EMPTY_DENIMCHUNK_SIZE \<le> free_space then
        (case next_ordered_chunk (free_space - EMPTY_DENIMCHUNK_SIZE) data cnt of
           Ok (c, data', cnt') \<Rightarrow>
             (case usize_sub tot (length (ser (out @ [c]))) of
                Ok free_space' \<Rightarrow>
                  create_ordered_chunks_loop ser tot (out @ [c]) free_space' data' cnt'
              | Err e \<Rightarrow> Some (Err e)
              | Panic \<Rightarrow> Some Panic)
         | Err e \<Rightarrow> Some (Err e)
         | Panic \<Rightarrow> Some Panic)
      else Some (Ok (out, free_space, \<lparr>chunk = data, flags = cnt\<rparr>)))"

definition create_ordered_chunks ::
  "(denim_chunk list \<Rightarrow> bytes) \<Rightarrow> chunker \<Rightarrow> f32 \<Rightarrow> payload_data
    \<Rightarrow> (error, denim_chunk list \<times> nat \<times> payload_data) outcome option" where
  "create_ordered_chunks ser ck payload_size p =
     (let tot = total_free_space ck payload_size in
      case usize_sub tot EMPTY_VEC_SIZE of
        Ok free_space \<Rightarrow> create_ordered_chunks_loop ser tot [] free_space (chunk p) (flags p)
      | Err e \<Rightarrow> Some (Err e)
      | Panic \<Rightarrow> Some Panic)"


section \<open>Sizes\<close>

text \<open>What bincode documents for a vector of chunks: an 8-byte length, and for each chunk an 8-byte
  length, its bytes and a 4-byte flag.\<close>

definition chunks_size :: "denim_chunk list \<Rightarrow> nat" where
  "chunks_size cs = EMPTY_VEC_SIZE + (\<Sum>c\<leftarrow>cs. EMPTY_DENIMCHUNK_SIZE + length (chunk c))"

lemma chunks_size_simps [simp]:
  "chunks_size [] = 8"
  "chunks_size (c # cs) = 12 + length (chunk c) + chunks_size cs"
  by (simp_all add: chunks_size_def)

lemma chunks_size_append: "chunks_size (cs @ ds) + 8 = chunks_size cs + chunks_size ds"
  by (induction cs) auto

lemma next_chunk_fits: "next_chunk B n b = (Ok c, b') \<Longrightarrow> length (chunk c) \<le> n"
  by (auto simp: next_chunk_def Let_def bindS_def returnS_def liftS_def i32_sub_def
      split: prod.splits outcome.splits if_splits)

lemma next_ordered_chunk_fits:
  "next_ordered_chunk n data cnt = Ok (c, data', cnt') \<Longrightarrow> length (chunk c) \<le> n"
  by (auto simp: next_ordered_chunk_def i32_sub_def split: if_splits)

locale chunk_codec =
  fixes ser :: "denim_chunk list \<Rightarrow> bytes"
  assumes ser_len: "length (ser cs) = chunks_size cs"
begin

text \<open>The loop returns, and what it returns fills the space it was given.\<close>

lemma create_chunks_loop_fills:
  assumes "chunks_size out + free = tot"
  shows "\<exists>r b'. create_chunks_loop ser B tot out free b = Some (r, b') \<and>
    (\<forall>cs f. r = Ok (cs, f) \<longrightarrow> chunks_size cs + f = tot \<and> f < 12)"
  using assms
proof (induction free arbitrary: out b rule: less_induct)
  case (less free)
  show ?case
  proof (cases "12 \<le> free")
    case False
    with less.prems show ?thesis by (subst create_chunks_loop.simps) simp
  next
    case True
    obtain r1 b1 where step: "next_chunk B (free - 12) b = (r1, b1)" by fastforce
    show ?thesis
    proof (cases r1)
      case (Ok c)
      then have fits: "length (chunk c) \<le> free - 12"
        using next_chunk_fits [of B "free - 12" b c b1] step by simp
      let ?free' = "tot - chunks_size (out @ [c])"
      have sum: "chunks_size (out @ [c]) + ?free' = tot" and smaller: "?free' < free"
        using fits True less.prems chunks_size_append [of out "[c]"] by simp_all
      from less.IH [OF smaller sum, of b1] step Ok True sum show ?thesis
        by (subst create_chunks_loop.simps) (simp add: ser_len usize_sub_def)
    qed (use step True in \<open>subst create_chunks_loop.simps, simp\<close>)+
  qed
qed

lemma create_ordered_chunks_loop_fills:
  assumes "chunks_size out + free = tot"
  shows "\<exists>r. create_ordered_chunks_loop ser tot out free data cnt = Some r \<and>
    (\<forall>cs f p. r = Ok (cs, f, p) \<longrightarrow> chunks_size cs + f = tot \<and> f < 12)"
  using assms
proof (induction free arbitrary: out data cnt rule: less_induct)
  case (less free)
  show ?case
  proof (cases "12 \<le> free")
    case False
    with less.prems show ?thesis by (subst create_ordered_chunks_loop.simps) simp
  next
    case True
    show ?thesis
    proof (cases "next_ordered_chunk (free - 12) data cnt")
      case (Ok x)
      obtain c data' cnt' where x: "x = (c, data', cnt')" by (cases x) auto
      from next_ordered_chunk_fits Ok x have fits: "length (chunk c) \<le> free - 12" by blast
      let ?free' = "tot - chunks_size (out @ [c])"
      have sum: "chunks_size (out @ [c]) + ?free' = tot" and smaller: "?free' < free"
        using fits True less.prems chunks_size_append [of out "[c]"] by simp_all
      from less.IH [OF smaller sum, of data' cnt'] Ok x True sum show ?thesis
        by (subst create_ordered_chunks_loop.simps) (simp add: ser_len usize_sub_def)
    qed (use True in \<open>subst create_ordered_chunks_loop.simps, simp\<close>)+
  qed
qed

end

section \<open>What the chunker does to a queue of payloads\<close>

text \<open>
  The specification of filling \<open>free\<close> bytes from a queue of payloads, each with its remaining
  data and its chunk count. A payload that fits is sent as a final chunk; one that does not is
  cut, and the space is used up; when no payload is left the rest is a dummy chunk. Where not one
  byte fits after the chunk header, an empty dummy chunk is sent; \<open>bump\<close> is what happens to the
  count of the first payload then (the client leaves it alone, the server's cache advances it).
\<close>

type_synonym row = "bytes \<times> int"

definition dummy_chunk :: "nat \<Rightarrow> denim_chunk" where
  "dummy_chunk n = \<lparr>chunk = replicate n 0, flags = 1\<rparr>"

fun fill :: "(int \<Rightarrow> int) \<Rightarrow> nat \<Rightarrow> row list \<Rightarrow> denim_chunk list \<times> nat \<times> row list" where
  "fill bump free rows =
     (if free < 12 then ([], free, rows)
      else let n = free - 12 in
        case rows of
          [] \<Rightarrow> ([dummy_chunk n], 0, [])
        | (d, c) # rs \<Rightarrow>
            if n = 0 then ([dummy_chunk 0], 0, (d, bump c) # rs)
            else if d = [] then ([dummy_chunk n], 0, rows)
            else if length d \<le> n then
              (let (cs, f, rs') = fill bump (n - length d) rs
               in (\<lparr>chunk = d, flags = 2\<rparr> # cs, f, rs'))
            else ([\<lparr>chunk = take n d, flags = c\<rparr>], 0, (drop n d, c - 1) # rs))"

declare fill.simps [simp del]

text \<open>Counts stay inside \<open>i32\<close> when they are decremented once.\<close>

definition rows_ok :: "row list \<Rightarrow> bool" where
  "rows_ok rows \<longleftrightarrow> (\<forall>(d, c) \<in> set rows. d \<noteq> [] \<and> - (2 ^ 31) < c \<and> c \<le> 0)"

lemma rows_ok_Cons [simp]:
  "rows_ok ((d, c) # rs) \<longleftrightarrow> d \<noteq> [] \<and> - (2 ^ 31) < c \<and> c \<le> 0 \<and> rows_ok rs"
  by (auto simp: rows_ok_def)

lemma rows_ok_Nil [simp]: "rows_ok []"
  by (simp add: rows_ok_def)

text \<open>What reassembly needs of the rows: data, and a count that is not a special flag.\<close>

definition rows_data :: "row list \<Rightarrow> bool" where
  "rows_data rows \<longleftrightarrow> (\<forall>(d, c) \<in> set rows. d \<noteq> [] \<and> c \<le> 0)"

lemma rows_data_simps [simp]:
  "rows_data []" "rows_data ((d, c) # rs) \<longleftrightarrow> d \<noteq> [] \<and> c \<le> 0 \<and> rows_data rs"
  by (auto simp: rows_data_def)

lemma rows_ok_data: "rows_ok rows \<Longrightarrow> rows_data rows"
  by (auto simp: rows_ok_def rows_data_def)

lemma fill_none: "free < 12 \<Longrightarrow> fill bump free rows = ([], free, rows)"
  by (simp add: fill.simps)

lemma fill_empty: "12 \<le> free \<Longrightarrow> fill bump free [] = ([dummy_chunk (free - 12)], 0, [])"
  by (simp add: fill.simps)

lemma fill_zero: "fill bump 12 ((d, c) # rs) = ([dummy_chunk 0], 0, (d, bump c) # rs)"
  by (simp add: fill.simps)

lemma fill_blocked:
  "12 < free \<Longrightarrow> fill bump free (([], c) # rs) = ([dummy_chunk (free - 12)], 0, ([], c) # rs)"
  by (simp add: fill.simps)

lemma fill_whole:
  "\<lbrakk> d \<noteq> []; 12 + length d \<le> free; fill bump (free - 12 - length d) rs = (cs, f, rs') \<rbrakk>
    \<Longrightarrow> fill bump free ((d, c) # rs) = (\<lparr>chunk = d, flags = 2\<rparr> # cs, f, rs')"
  by (subst fill.simps) (cases d, auto simp: Let_def)

lemma fill_cut:
  "\<lbrakk> 12 < free; free < 12 + length d \<rbrakk> \<Longrightarrow> fill bump free ((d, c) # rs) =
     ([\<lparr>chunk = take (free - 12) d, flags = c\<rparr>], 0, (drop (free - 12) d, c - 1) # rs)"
  by (subst fill.simps) (cases d, auto simp: Let_def)

text \<open>An induction rule with one case for each way the space can be filled.\<close>

lemma fill_cases [case_names none empty zero blocked whole cut]:
  assumes "\<And>free rows. free < 12 \<Longrightarrow> P free rows"
    and "\<And>free. 12 \<le> free \<Longrightarrow> P free []"
    and "\<And>d c rs. P 12 ((d, c) # rs)"
    and "\<And>free c rs. 12 < free \<Longrightarrow> P free (([], c) # rs)"
    and "\<And>free d c rs. \<lbrakk> d \<noteq> []; 12 + length d \<le> free; P (free - 12 - length d) rs \<rbrakk>
           \<Longrightarrow> P free ((d, c) # rs)"
    and "\<And>free d c rs. \<lbrakk> 12 < free; free < 12 + length d \<rbrakk> \<Longrightarrow> P free ((d, c) # rs)"
  shows "P free rows"
proof (induction rows arbitrary: free)
  case Nil
  then show ?case using assms(1,2) by (cases "free < 12") auto
next
  case (Cons r rs)
  obtain d c where r: "r = (d, c)" by fastforce
  consider "free < 12" | "free = 12" | "12 < free" "d = []"
    | "d \<noteq> []" "12 + length d \<le> free" | "12 < free" "free < 12 + length d"
    by linarith
  then show ?case using assms Cons by cases (simp_all add: r)
qed

lemma fill_size:
  "fill bump free rows = (cs, f, rows') \<Longrightarrow> chunks_size cs + f = 8 + free \<and> f < 12"
proof (induction free rows arbitrary: cs f rows' rule: fill_cases)
  case (whole free d c rs)
  obtain cs1 f1 rs1 where "fill bump (free - 12 - length d) rs = (cs1, f1, rs1)"
    by (cases "fill bump (free - 12 - length d) rs") auto
  with whole show ?case by (auto simp: fill_whole)
qed (auto simp: fill_none fill_empty fill_zero fill_blocked fill_cut dummy_chunk_def)

section \<open>Reassembly\<close>

text \<open>
  The receiving end, as a function on bytes: \<open>acc\<close> is the data received of the current payload.
\<close>

fun assemble :: "bytes \<Rightarrow> denim_chunk list \<Rightarrow> bytes list \<times> bytes" where
  "assemble acc [] = ([], acc)"
| "assemble acc (c # cs) =
     (if is_dummy c then assemble acc cs
      else if is_final c then (let (ps, acc') = assemble [] cs in ((acc @ chunk c) # ps, acc'))
      else assemble (acc @ chunk c) cs)"

text \<open>The payloads that are still to arrive when \<open>acc\<close> was received of the first one.\<close>

fun outstanding :: "bytes \<Rightarrow> row list \<Rightarrow> bytes list" where
  "outstanding acc [] = (if acc = [] then [] else [acc])"
| "outstanding acc ((d, c) # rs) = (acc @ d) # map fst rs"

lemma outstanding_Nil_acc: "outstanding [] rows = map fst rows"
  by (cases rows) auto

text \<open>Filling and reassembling neither loses, duplicates nor reorders a byte.\<close>

lemma fill_assemble:
  assumes "fill bump free rows = (cs, f, rows')" and "rows_data rows" and "rows = [] \<Longrightarrow> acc = []"
    and "assemble acc cs = (ps, acc')"
  shows "ps @ outstanding acc' rows' = outstanding acc rows"
  using assms
proof (induction free rows arbitrary: cs f rows' acc ps acc' rule: fill_cases)
  case (whole free d c rs)
  obtain cs1 f1 rs1 where rec: "fill bump (free - 12 - length d) rs = (cs1, f1, rs1)"
    by (cases "fill bump (free - 12 - length d) rs") auto
  obtain ps1 acc1 where asm: "assemble [] cs1 = (ps1, acc1)" by fastforce
  from whole.prems(2) have "rows_data rs" by simp
  with whole.IH [OF rec _ _ asm] have IH: "ps1 @ outstanding acc1 rs1 = map fst rs"
    by (simp add: outstanding_Nil_acc)
  from whole.prems(1) whole.hyps rec
  have "cs = \<lparr>chunk = d, flags = 2\<rparr> # cs1" and "rows' = rs1"
    by (auto simp: fill_whole)
  with whole.prems(4) asm have "ps = (acc @ d) # ps1" and "acc' = acc1"
    by (auto simp: is_dummy_def is_final_def)
  with IH \<open>rows' = rs1\<close> show ?case by simp
qed (auto simp: fill_none fill_empty fill_zero fill_blocked fill_cut dummy_chunk_def
    is_dummy_def is_final_def)

section \<open>The client's side refines the specification\<close>

text \<open>
  What the chunker relies on from an implementation of \<open>DeniableSendingBuffer\<close>: \<open>rows\<close> is the
  content of the buffer in sending order, \<open>get\<close> reads the first entry and changes nothing (it
  fails on the empty buffer), \<open>set\<close> replaces the first entry and \<open>remove\<close> deletes it.
\<close>

locale sending_buffer_laws =
  fixes B :: "'b sending_buffer"
    and rows :: "'b \<Rightarrow> (nat \<times> row) list"
    and inv :: "'b \<Rightarrow> bool"
  assumes get_empty: "\<lbrakk> inv b; rows b = [] \<rbrakk> \<Longrightarrow> \<exists>e. get_outgoing_message B b = (Err e, b)"
    and get_first: "\<lbrakk> inv b; rows b = r # rs \<rbrakk> \<Longrightarrow> get_outgoing_message B b = (Ok r, b)"
    and set_first: "\<lbrakk> inv b; rows b = (i, d, c) # rs \<rbrakk> \<Longrightarrow>
      \<exists>b'. set_outgoing_message B (Some i) c' d' b = (Ok (), b') \<and> inv b' \<and> rows b' = (i, d', c') # rs"
    and remove_first: "\<lbrakk> inv b; rows b = (i, d, c) # rs \<rbrakk> \<Longrightarrow>
      \<exists>b'. remove_outgoing_message B i b = (Ok (), b') \<and> inv b' \<and> rows b' = rs"

locale chunked_buffer = chunk_codec ser + sending_buffer_laws B rows inv
  for ser :: "denim_chunk list \<Rightarrow> bytes" and B :: "'b sending_buffer" and rows and inv
begin

lemma next_chunk_empty:
  "\<lbrakk> inv b; rows b = [] \<rbrakk> \<Longrightarrow> next_chunk B n b = (Ok (dummy_chunk n), b)"
  using get_empty [of b] by (auto simp: next_chunk_def unwrap_or_default_def dummy_chunk_def)

lemma next_chunk_dummy:
  "\<lbrakk> inv b; rows b = (i, d, c) # rs; n = 0 \<or> d = [] \<rbrakk> \<Longrightarrow> next_chunk B n b = (Ok (dummy_chunk n), b)"
  using get_first [of b] by (auto simp: next_chunk_def unwrap_or_default_def dummy_chunk_def)

lemma next_chunk_whole:
  assumes "inv b" "rows b = (i, d, c) # rs" "d \<noteq> []" "length d \<le> n"
  shows "\<exists>b'. next_chunk B n b = (Ok \<lparr>chunk = d, flags = 2\<rparr>, b') \<and> inv b' \<and> rows b' = rs"
proof -
  from remove_first [OF assms(1,2)] obtain b' where
    "remove_outgoing_message B i b = (Ok (), b')" "inv b'" "rows b' = rs" by blast
  moreover have "n \<noteq> 0" using assms(3,4) by (cases d) auto
  ultimately show ?thesis
    using assms get_first [OF assms(1,2)] by (simp add: next_chunk_def unwrap_or_default_def)
qed

lemma next_chunk_cut:
  assumes "inv b" "rows b = (i, d, c) # rs" "0 < n" "n < length d" "- (2 ^ 31) < c" "c \<le> 0"
  shows "\<exists>b'. next_chunk B n b = (Ok \<lparr>chunk = take n d, flags = c\<rparr>, b') \<and> inv b' \<and>
    rows b' = (i, drop n d, c - 1) # rs"
proof -
  from set_first [OF assms(1,2)] obtain b' where
    "set_outgoing_message B (Some i) (c - 1) (drop n d) b = (Ok (), b')" "inv b'"
    "rows b' = (i, drop n d, c - 1) # rs" by blast
  moreover have "i32_sub c 1 = (Ok (c - 1) :: (error, int) outcome)"
    using assms(5,6) by (simp add: i32_sub_def in_i32_def)
  moreover have "d \<noteq> []" using assms(4) by auto
  ultimately show ?thesis
    using assms get_first [OF assms(1,2)] by (simp add: next_chunk_def unwrap_or_default_def)
qed

text \<open>One chunk appended by the loop, when it fits.\<close>

lemma create_chunks_loop_step:
  assumes "12 \<le> free" "next_chunk B (free - 12) b = (Ok c, b1)" "chunks_size out + free = tot"
  shows "create_chunks_loop ser B tot out free b =
    create_chunks_loop ser B tot (out @ [c]) (free - 12 - length (chunk c)) b1"
proof -
  have "length (chunk c) \<le> free - 12" using assms(2) by (rule next_chunk_fits)
  moreover have "chunks_size (out @ [c]) = chunks_size out + 12 + length (chunk c)"
    using chunks_size_append [of out "[c]"] by simp
  ultimately have "usize_sub tot (length (ser (out @ [c]))) =
      (Ok (free - 12 - length (chunk c)) :: (error, nat) outcome)"
    using assms(1,3) by (auto simp: ser_len usize_sub_def)
  with assms(1,2) show ?thesis by (subst create_chunks_loop.simps) simp
qed

lemma create_chunks_loop_stop:
  "free < 12 \<Longrightarrow> create_chunks_loop ser B tot out free b = Some (Ok (out, free), b)"
  by (subst create_chunks_loop.simps) simp

lemma create_chunks_loop_refines:
  assumes "fill (\<lambda>c. c) free rws = (cs, f, rws')" "map snd (rows b) = rws" "inv b" "rows_ok rws"
    and "chunks_size out + free = tot"
  shows "\<exists>b'. create_chunks_loop ser B tot out free b = Some (Ok (out @ cs, f), b') \<and>
    inv b' \<and> map snd (rows b') = rws'"
  using assms
proof (induction free rws arbitrary: cs f rws' out b rule: fill_cases)
  case (none free rws)
  then show ?case by (auto simp: fill_none create_chunks_loop_stop)
next
  case (empty free)
  then show ?case
    by (auto simp: fill_empty create_chunks_loop_step next_chunk_empty create_chunks_loop_stop
        dummy_chunk_def)
next
  case (zero d c rs)
  then obtain i rs' where r: "rows b = (i, d, c) # rs'" "map snd rs' = rs" by auto
  then show ?case
    using zero next_chunk_dummy [OF \<open>inv b\<close> r(1), of 0]
      create_chunks_loop_step [of 12 b "dummy_chunk 0" b out tot]
    by (auto simp: fill_zero create_chunks_loop_stop dummy_chunk_def)
next
  case (blocked free c rs)
  then show ?case by simp
next
  case (whole free d c rs)
  then obtain i rs' where r: "rows b = (i, d, c) # rs'" "map snd rs' = rs" by auto
  have fits: "length d \<le> free - 12" "12 \<le> free" using whole.hyps by auto
  from next_chunk_whole [OF \<open>inv b\<close> r(1) \<open>d \<noteq> []\<close> fits(1)] obtain b1 where
    b1: "next_chunk B (free - 12) b = (Ok \<lparr>chunk = d, flags = 2\<rparr>, b1)" "inv b1" "rows b1 = rs'"
    by blast
  obtain cs1 f1 rs1 where rec: "fill (\<lambda>c. c) (free - 12 - length d) rs = (cs1, f1, rs1)"
    by (cases "fill (\<lambda>c. c) (free - 12 - length d) rs") auto
  let ?out = "out @ [\<lparr>chunk = d, flags = 2\<rparr>]"
  have "chunks_size ?out + (free - 12 - length d) = tot"
    using whole.prems(5) whole.hyps chunks_size_append [of out "[\<lparr>chunk = d, flags = 2\<rparr>]"] by simp
  from whole.IH [OF rec _ b1(2) _ this] obtain b' where
    "create_chunks_loop ser B tot ?out (free - 12 - length d) b1 = Some (Ok (?out @ cs1, f1), b')"
    "inv b'" "map snd (rows b') = rs1"
    using b1(3) r(2) whole.prems(4) by auto
  moreover have "cs = \<lparr>chunk = d, flags = 2\<rparr> # cs1" "f = f1" "rws' = rs1"
    using whole.prems(1) fill_whole [OF whole.hyps rec] by simp_all
  ultimately show ?case
    using create_chunks_loop_step [OF fits(2) b1(1) whole.prems(5)] by auto
next
  case (cut free d c rs)
  then obtain i rs' where r: "rows b = (i, d, c) # rs'" "map snd rs' = rs" by auto
  have n: "0 < free - 12" "free - 12 < length d" "12 \<le> free" using cut.hyps by auto
  have c: "- (2 ^ 31) < c" "c \<le> 0" using cut.prems(4) by simp_all
  from next_chunk_cut [OF \<open>inv b\<close> r(1) n(1,2) c] obtain b1 where
    b1: "next_chunk B (free - 12) b = (Ok \<lparr>chunk = take (free - 12) d, flags = c\<rparr>, b1)"
      "inv b1" "rows b1 = (i, drop (free - 12) d, c - 1) # rs'"
    by blast
  from create_chunks_loop_step [OF n(3) b1(1) cut.prems(5)] n cut b1 r(2) show ?case
    by (auto simp: fill_cut create_chunks_loop_stop min_def)
qed

end

end
