(* ===== verification/Redis_Queue.thy ===== *)
theory Redis_Queue
  imports Redis Base64 Chunker
begin

text \<open>
  The queues of \<open>server/src/storage/redis.rs\<close>. A queue is a sorted set of entries
  \<open>id:base64:order\<close> scored by id, a hash from guids to ids with a counter, and a reverse hash from
  ids to guids. Every function issues the source's commands in the source's order; the clock of
  \<open>insert\<close> is an argument.
\<close>

section \<open>Entries\<close>

definition PAGE_SIZE :: nat where "PAGE_SIZE = 100"

type_synonym 'a deserializer = "bytes \<Rightarrow> (error, 'a) outcome"

text \<open>
  \<open>Decoder::decode\<close>, the default implementation: a missing delimiter or text that is not base64
  panics, a failing \<open>bincode::deserialize\<close> is an error.
\<close>

definition decode_entry :: "base64 \<Rightarrow> 'a deserializer \<Rightarrow> string \<Rightarrow> (error, 'a) outcome" where
  "decode_entry b64 de v =
     (case nth_opt (split_char (CHR '':'') v) 1 of
        None \<Rightarrow> Panic
      | Some text \<Rightarrow> (case b64_decode b64 text of None \<Rightarrow> Panic | Some data \<Rightarrow> de data))"

fun decode_values :: "base64 \<Rightarrow> 'a deserializer \<Rightarrow> string list \<Rightarrow> (error, 'a list) outcome" where
  "decode_values b64 de [] = Ok []"
| "decode_values b64 de (v # vs) =
     bind (decode_entry b64 de v) (\<lambda>x. bind (decode_values b64 de vs) (\<lambda>xs. Ok (x # xs)))"

text \<open>\<open>impl Decoder<Vec<u8>> for Bytes\<close>: text that is not base64 is an error here.\<close>

definition decode_bytes_entry :: "base64 \<Rightarrow> string \<Rightarrow> (error, bytes) outcome" where
  "decode_bytes_entry b64 v =
     (case nth_opt (split_char (CHR '':'') v) 1 of
        None \<Rightarrow> Panic
      | Some text \<Rightarrow> ok_or ''Redis value not base64!'' (b64_decode b64 text))"

fun decode_bytes :: "base64 \<Rightarrow> string list \<Rightarrow> (error, bytes list) outcome" where
  "decode_bytes b64 [] = Ok []"
| "decode_bytes b64 (v # vs) =
     bind (decode_bytes_entry b64 v) (\<lambda>x. bind (decode_bytes b64 vs) (\<lambda>xs. Ok (x # xs)))"

definition get_field_metadata :: "string \<Rightarrow> (error, nat) outcome" where
  "get_field_metadata v =
     bind (ok_or ''Failed'' (nth_opt (split_char (CHR '':'') v) 0)) (\<lambda>f.
       ok_or ''invalid digit found in string'' (parse_u64 f))"

definition get_order_metadata :: "string \<Rightarrow> (error, int) outcome" where
  "get_order_metadata v =
     bind (ok_or ''Failed'' (nth_opt (split_char (CHR '':'') v) 2)) (\<lambda>f.
       ok_or ''invalid digit found in string'' (parse_i64 f))"

definition create_payload_entry :: "base64 \<Rightarrow> nat \<Rightarrow> bytes \<Rightarrow> int \<Rightarrow> string" where
  "create_payload_entry b64 i value ord =
     show_nat i @ '':'' @ b64_encode b64 value @ '':'' @ show_int ord"

definition rev_key :: "key \<Rightarrow> key" where
  "rev_key mk = mk @ '':rev''"

section \<open>Inserting and removing\<close>

definition redis_insert :: "'r redis \<Rightarrow> base64 \<Rightarrow> nat \<Rightarrow> key \<Rightarrow> key \<Rightarrow> key \<Rightarrow> string \<Rightarrow> bytes
    \<Rightarrow> ('r, error, nat) step" where
  "redis_insert R b64 now qk mk ik guid value =
     bindS (HEXISTS R mk guid) (\<lambda>ex.
     if ex then
       bindS (HGET R mk guid) (\<lambda>num.
         case num of
           None \<Rightarrow> failS ''Response type not string compatible''
         | Some n \<Rightarrow> (case parse_u64 n of None \<Rightarrow> liftS Panic | Some i \<Rightarrow> returnS i))
     else
       bindS (HINCRBY R mk ''counter'' 1) (\<lambda>i.
       if i < 0 then failS ''Response type not convertible to u64''
       else
         let value_id = nat i; value_unique = create_payload_entry b64 value_id value 0 in
         bindS (ZADD R True qk (int value_id) value_unique) (\<lambda>_.
         bindS (HSET R mk guid (show_nat value_id)) (\<lambda>_.
         bindS (HSET R (rev_key mk) (show_nat value_id) guid) (\<lambda>_.
         bindS (EXPIRE R qk 2678400) (\<lambda>_.
         bindS (EXPIRE R mk 2678400) (\<lambda>_.
         bindS (ZADD R True ik (int now) qk) (\<lambda>_.
         returnS value_id))))))))"

text \<open>The body of the loop of \<open>remove\<close> for one guid.\<close>

definition redis_remove_one :: "'r redis \<Rightarrow> (string list \<Rightarrow> (error, 'a list) outcome) \<Rightarrow> key \<Rightarrow> key
    \<Rightarrow> string \<Rightarrow> ('r, error, 'a list) step" where
  "redis_remove_one R dec qk mk guid =
     bindS (HGET R mk guid) (\<lambda>value_id.
     case value_id of
       None \<Rightarrow> returnS []
     | Some vid \<Rightarrow>
         (case parse_i64 vid of
            None \<Rightarrow> failS ''ERR min or max is not a float''
          | Some i \<Rightarrow>
              bindS (ZRANGE_BYSCORE R qk (Incl i) (Upto i) (Some (0, 1))) (\<lambda>values.
              bindS (ZREMRANGEBYSCORE R qk i i) (\<lambda>_.
              bindS (HDEL R mk guid) (\<lambda>_.
              bindS (HDEL R (rev_key mk) vid) (\<lambda>_.
              liftS (dec values)))))))"

definition redis_remove :: "'r redis \<Rightarrow> (string list \<Rightarrow> (error, 'a list) outcome) \<Rightarrow> key \<Rightarrow> key \<Rightarrow> key
    \<Rightarrow> string list \<Rightarrow> ('r, error, 'a list) step" where
  "redis_remove R dec qk mk ik guids =
     bindS (forS guids (redis_remove_one R dec qk mk)) (\<lambda>removed.
     bindS (ZCARD R qk) (\<lambda>n.
     if n = 0 then
       bindS (DEL R qk) (\<lambda>_. bindS (DEL R mk) (\<lambda>_. bindS (ZREM R ik [qk]) (\<lambda>_.
       returnS (concat removed))))
     else returnS (concat removed)))"

section \<open>Reading\<close>

definition get_values :: "'r redis \<Rightarrow> key \<Rightarrow> key \<Rightarrow> key \<Rightarrow> int \<Rightarrow> ('r, error, string list \<times> string list) step"
  where
  "get_values R qk lk mk stop_index =
     bindS (GET R lk) (\<lambda>locked.
     if locked \<noteq> None then returnS ([], [])
     else
       bindS (ZRANGE_BYSCORE R qk (Excl stop_index) PosInf (Some (0, PAGE_SIZE))) (\<lambda>values.
       bindS (forS values (\<lambda>v. liftS (get_field_metadata v))) (\<lambda>ids.
       bindS (forS ids (\<lambda>i. bindS (HGET R (rev_key mk) (show_nat i)) (\<lambda>g.
         returnS (case g of None \<Rightarrow> [] | Some g' \<Rightarrow> g')))) (\<lambda>guids.
       returnS (values, guids)))))"

definition get_first :: "'r redis \<Rightarrow> key \<Rightarrow> key \<Rightarrow> ('r, error, string) step" where
  "get_first R qk lk =
     bindS (GET R lk) (\<lambda>locked.
     if locked \<noteq> None then failS ''Failed to get first value: queue is locked.''
     else
       bindS (ZRANGE R qk 0 0) (\<lambda>vs.
       case vs of
         [] \<Rightarrow> failS ''Failed to get first value: empty value.''
       | v # _ \<Rightarrow> returnS v))"

section \<open>Taking bytes from the first value\<close>

text \<open>The truncating cast \<open>as i32\<close> of an \<open>i64\<close>.\<close>

definition as_i32 :: "int \<Rightarrow> int" where
  "as_i32 x = (x + 2 ^ 31) mod 2 ^ 32 - 2 ^ 31"

definition i64_pred :: "int \<Rightarrow> (error, int) outcome" where
  "i64_pred x = (if x = - (2 ^ 63) then Panic else Ok (x - 1))"

definition update_value :: "'r redis \<Rightarrow> base64 \<Rightarrow> key \<Rightarrow> nat \<Rightarrow> bytes \<Rightarrow> ('r, error, bool \<times> int) step" where
  "update_value R b64 qk field_id new_value =
     bindS (ZRANGE_BYSCORE R qk (Incl (int field_id)) (Upto (int field_id)) None) (\<lambda>vs.
     case vs of
       [] \<Rightarrow> failS ''Failed to update non-existent value.''
     | old_entry # _ \<Rightarrow>
         bindS (ZREM R qk [old_entry]) (\<lambda>removed.
         if removed \<noteq> 1 then failS ''Failed to remove value!''
         else
           bindS (liftS (get_order_metadata old_entry)) (\<lambda>ord.
           bindS (liftS (i64_pred ord)) (\<lambda>ord'.
           bindS (ZADD R False qk (int field_id)
                   (create_payload_entry b64 field_id new_value (as_i32 ord'))) (\<lambda>added.
           if added \<noteq> 1 then failS ''Failed to add value!''
           else if added = removed then returnS (True, as_i32 ord)
           else failS ''Update failed!'')))))"

text \<open>
  \<open>dequeue_bytes\<close>: the data, its length, the flag. A failure of \<open>get_first\<close> (locked or empty
  queue) is not an error here.
\<close>

definition dequeue_bytes_from :: "'r redis \<Rightarrow> base64 \<Rightarrow> key \<Rightarrow> key \<Rightarrow> key \<Rightarrow> nat \<Rightarrow> string
    \<Rightarrow> ('r, error, bytes \<times> nat \<times> int) step" where
  "dequeue_bytes_from R b64 qk mk ik amount entry =
     bindS (liftS (get_field_metadata entry)) (\<lambda>field_id.
     bindS (liftS (decode_bytes b64 [entry])) (\<lambda>values.
     case values of
       [] \<Rightarrow> failS ''Failed to decode value.''
     | value # _ \<Rightarrow>
         if amount < length value then
           bindS (update_value R b64 qk field_id (drop amount value)) (\<lambda>(updated, ord).
           if \<not> updated then failS ''Failed to update value.''
           else returnS (take amount value, length (take amount value), chunk_type_to_i32 (Data ord)))
         else
           bindS (HGET R (rev_key mk) (show_nat field_id)) (\<lambda>field_guid.
           case field_guid of
             None \<Rightarrow> failS ''Failed to take values: field guid not found.''
           | Some guid \<Rightarrow>
               bindS (redis_remove R (decode_bytes b64) qk mk ik [guid]) (\<lambda>removed.
               let v = concat removed in returnS (v, length v, chunk_type_to_i32 Final)))))"

definition dequeue_bytes :: "'r redis \<Rightarrow> base64 \<Rightarrow> key \<Rightarrow> key \<Rightarrow> key \<Rightarrow> key \<Rightarrow> nat
    \<Rightarrow> ('r, error, bytes \<times> nat \<times> int) step" where
  "dequeue_bytes R b64 qk mk ik lk amount s =
     (case get_first R qk lk s of
        (Err _, s') \<Rightarrow> (Ok ([], 0, chunk_type_to_i32 Dummy), s')
      | (Panic, s') \<Rightarrow> (Panic, s')
      | (Ok entry, s') \<Rightarrow> dequeue_bytes_from R b64 qk mk ik amount entry s')"

section \<open>Simulation of the operations\<close>

lemma sim_case_prod [sim_intros]:
  "(\<And>a b. simulates v (f a b) (g a b)) \<Longrightarrow>
    simulates v (case p of (a, b) \<Rightarrow> f a b) (case p of (a, b) \<Rightarrow> g a b)"
  by (cases p) simp

context redis_server
begin

lemma sim_redis_insert [sim_intros]:
  "simulates view (redis_insert R b64 now qk mk ik guid value)
     (redis_insert keyspace_redis b64 now qk mk ik guid value)"
  unfolding redis_insert_def by (intro sim_intros)

lemma sim_redis_remove [sim_intros]:
  "simulates view (redis_remove R dec qk mk ik guids) (redis_remove keyspace_redis dec qk mk ik guids)"
  unfolding redis_remove_def redis_remove_one_def by (intro sim_intros)

lemma sim_get_values [sim_intros]:
  "simulates view (get_values R qk lk mk i) (get_values keyspace_redis qk lk mk i)"
  unfolding get_values_def by (intro sim_intros)

lemma sim_get_first [sim_intros]:
  "simulates view (get_first R qk lk) (get_first keyspace_redis qk lk)"
  unfolding get_first_def by (intro sim_intros)

lemma sim_update_value [sim_intros]:
  "simulates view (update_value R b64 qk i v) (update_value keyspace_redis b64 qk i v)"
  unfolding update_value_def by (intro sim_intros)

lemma sim_dequeue_bytes_from [sim_intros]:
  "simulates view (dequeue_bytes_from R b64 qk mk ik n e)
     (dequeue_bytes_from keyspace_redis b64 qk mk ik n e)"
  unfolding dequeue_bytes_from_def by (intro sim_intros)

lemma sim_dequeue_bytes [sim_intros]:
  "simulates view (dequeue_bytes R b64 qk mk ik lk n) (dequeue_bytes keyspace_redis b64 qk mk ik lk n)"
proof -
  have "fst (dequeue_bytes R b64 qk mk ik lk n s) =
        fst (dequeue_bytes keyspace_redis b64 qk mk ik lk n (view s)) \<and>
      view (snd (dequeue_bytes R b64 qk mk ik lk n s)) =
        snd (dequeue_bytes keyspace_redis b64 qk mk ik lk n (view s))" for s
  proof -
    obtain r s' where "get_first R qk lk s = (r, s')" by fastforce
    moreover from this have "get_first keyspace_redis qk lk (view s) = (r, view s')"
      using sim_get_first [of qk lk] by (auto simp: simulates_def prod_eq_iff)
    ultimately show ?thesis
      using sim_dequeue_bytes_from [of b64 qk mk ik n]
      by (cases r) (simp_all add: dequeue_bytes_def simulates_def)
  qed
  then show ?thesis by (simp add: simulates_def)
qed

end

end
