(* ===== verification/Queue_Rep.thy ===== *)
theory Queue_Rep
  imports Redis_Queue
begin

text \<open>
  What the queues of \<open>server/src/storage/redis.rs\<close> represent. \<open>queue_rep\<close> relates the keyspace to
  a list of items (id, guid, remaining value, order), and each operation is shown to act on the
  list: \<open>insert\<close> appends, \<open>remove\<close> deletes the named items and returns their values, \<open>get_values\<close>
  reads a page, \<open>dequeue_bytes\<close> cuts the first item.
\<close>

section \<open>Items and representation\<close>

type_synonym item = "nat \<times> string \<times> bytes \<times> int"

abbreviation item_id :: "item \<Rightarrow> nat" where "item_id it \<equiv> fst it"
abbreviation item_guid :: "item \<Rightarrow> string" where "item_guid it \<equiv> fst (snd it)"
abbreviation item_value :: "item \<Rightarrow> bytes" where "item_value it \<equiv> fst (snd (snd it))"
abbreviation item_order :: "item \<Rightarrow> int" where "item_order it \<equiv> snd (snd (snd it))"

definition entry_of :: "base64 \<Rightarrow> item \<Rightarrow> string" where
  "entry_of b64 it = create_payload_entry b64 (item_id it) (item_value it) (item_order it)"

definition item_of :: "string \<Rightarrow> item list \<Rightarrow> item option" where
  "item_of g items = find (\<lambda>it. item_guid it = g) items"

definition item_ok :: "item \<Rightarrow> bool" where
  "item_ok it \<longleftrightarrow> item_id it < 2 ^ 63 \<and> item_guid it \<noteq> ''counter'' \<and>
     - (2 ^ 31) \<le> item_order it \<and> item_order it \<le> 0"

definition keys_typed :: "keyspace \<Rightarrow> key \<Rightarrow> key \<Rightarrow> key \<Rightarrow> bool" where
  "keys_typed K qk mk ik \<longleftrightarrow> distinct [qk, mk, rev_key mk, ik] \<and>
     zset_key K qk \<and> hash_key K mk \<and> hash_key K (rev_key mk) \<and> zset_key K ik"

definition counter_field :: "nat \<Rightarrow> string option" where
  "counter_field c = (if c = 0 then None else Some (show_nat c))"

definition queue_rep :: "base64 \<Rightarrow> key \<Rightarrow> key \<Rightarrow> key \<Rightarrow> keyspace \<Rightarrow> nat \<Rightarrow> item list \<Rightarrow> bool" where
  "queue_rep b64 qk mk ik K c items \<longleftrightarrow>
     keys_typed K qk mk ik \<and>
     zsets K qk = map (\<lambda>it. (int (item_id it), entry_of b64 it)) items \<and>
     sorted_wrt (<) (map item_id items) \<and> distinct (map item_guid items) \<and>
     list_all item_ok items \<and> (\<forall>it \<in> set items. item_id it \<le> c) \<and>
     hashes K mk ''counter'' = counter_field c \<and>
     (\<forall>g. g \<noteq> ''counter'' \<longrightarrow>
        hashes K mk g = map_option (\<lambda>it. show_nat (item_id it)) (item_of g items)) \<and>
     (\<forall>it \<in> set items. hashes K (rev_key mk) (show_nat (item_id it)) = Some (item_guid it))"

text \<open>The keys outside a set are as they were.\<close>

definition same_except :: "key set \<Rightarrow> keyspace \<Rightarrow> keyspace \<Rightarrow> bool" where
  "same_except S K K' \<longleftrightarrow> (\<forall>k. k \<notin> S \<longrightarrow> hashes K' k = hashes K k \<and> zsets K' k = zsets K k \<and>
     strs K' k = strs K k \<and> ssets K' k = ssets K k)"

lemma same_except_refl [simp]: "same_except S K K"
  by (simp add: same_except_def)

lemma same_except_trans: "same_except S K K' \<Longrightarrow> same_except S K' K'' \<Longrightarrow> same_except S K K''"
  by (simp add: same_except_def)

lemma same_except_updates [simp]:
  "same_except S K (set_hash k h K') \<longleftrightarrow> same_except S K K'" if "k \<in> S"
  using that by (auto simp: same_except_def)

lemma same_except_set_zset [simp]: "k \<in> S \<Longrightarrow> same_except S K (set_zset k z K') \<longleftrightarrow> same_except S K K'"
  by (auto simp: same_except_def)

lemma same_except_del_key [simp]: "k \<in> S \<Longrightarrow> same_except S K (del_key k K') \<longleftrightarrow> same_except S K K'"
  by (auto simp: same_except_def)

section \<open>Fields of entries\<close>

context base64_laws
begin

lemma entry_split:
  "split_char (CHR '':'') (create_payload_entry b64 i v r) = [show_nat i, b64_encode b64 v, show_int r]"
proof -
  have "CHR '':'' \<notin> set (show_nat i)" by (rule show_nat_no_char) simp
  then show ?thesis
    by (simp add: create_payload_entry_def split_char_append split_char_no_delim show_int_no_colon)
qed

lemma entry_fields:
  "i < 2 ^ 64 \<Longrightarrow> get_field_metadata (create_payload_entry b64 i v r) = Ok i"
  "\<lbrakk> - (2 ^ 63) \<le> r; r < 2 ^ 63 \<rbrakk> \<Longrightarrow> get_order_metadata (create_payload_entry b64 i v r) = Ok r"
  "decode_bytes_entry b64 (create_payload_entry b64 i v r) = Ok v"
  "decode_entry b64 de (create_payload_entry b64 i v r) = de v"
  by (simp_all add: get_field_metadata_def get_order_metadata_def decode_bytes_entry_def
      decode_entry_def entry_split ok_or_def parse_u64_show_nat parse_i64_show_int del: power_numeral)

lemma entry_id_eq:
  assumes "create_payload_entry b64 i v r = create_payload_entry b64 i' v' r'" shows "i = i'"
proof -
  have "show_nat i = show_nat i'" using entry_split [of i v r] entry_split [of i' v' r'] assms by simp
  then show ?thesis by (rule show_nat_inj)
qed

end

section \<open>Item lists\<close>

text \<open>What removing guids one after the other gives back.\<close>

fun taken :: "(item \<Rightarrow> 'a) \<Rightarrow> string list \<Rightarrow> item list \<Rightarrow> 'a list list" where
  "taken f [] items = []"
| "taken f (g # gs) items =
     (case item_of g items of None \<Rightarrow> [] | Some it \<Rightarrow> [f it]) #
     taken f gs (filter (\<lambda>x. item_guid x \<noteq> g) items)"

lemma item_of_None_iff: "item_of g items = None \<longleftrightarrow> g \<notin> set (map item_guid items)"
  by (force simp: item_of_def find_None_iff)

lemma item_of_Some: "item_of g items = Some it \<Longrightarrow> it \<in> set items \<and> item_guid it = g"
  by (auto simp: item_of_def find_Some_iff)

lemma item_of_mem: "distinct (map item_guid items) \<Longrightarrow> it \<in> set items \<Longrightarrow> item_of (item_guid it) items = Some it"
  by (induction items) (force simp: item_of_def)+

lemma item_of_append: "item_of g (xs @ ys) = (case item_of g xs of None \<Rightarrow> item_of g ys | Some x \<Rightarrow> Some x)"
  by (induction xs) (auto simp: item_of_def)

lemma item_of_single: "item_of g [it] = (if item_guid it = g then Some it else None)"
  by (simp add: item_of_def)

lemma item_of_filter:
  "item_of g (filter (\<lambda>it. item_guid it \<notin> S) items) = (if g \<in> S then None else item_of g items)"
  by (induction items) (auto simp: item_of_def)

lemma insort_greatest: "(\<And>y. y \<in> set xs \<Longrightarrow> y < x) \<Longrightarrow> insort x xs = xs @ [x]"
proof (induction xs)
  case (Cons y ys)
  from Cons.prems [of y] have "\<not> x \<le> y" by (simp add: not_le)
  with Cons show ?case by simp
qed simp

lemma filter_other_guids:
  assumes "item_guid it \<notin> item_guid ` set its"
  shows "filter (\<lambda>x. item_guid x \<noteq> item_guid it) its = its"
  by (rule filter_True) (use assms in \<open>metis image_eqI\<close>)

lemma entries_differ:
  assumes "e \<notin> f ` set its"
  shows "filter (\<lambda>x. snd x \<noteq> e) (map (\<lambda>x. (h x, f x)) its) = map (\<lambda>x. (h x, f x)) its"
  by (rule filter_True) (use assms in auto)

text \<open>Ids identify items.\<close>

lemma ids_unique:
  assumes "sorted_wrt (<) (map item_id items)" "a \<in> set items" "b \<in> set items" "item_id a = item_id b"
  shows "a = b"
proof -
  have "distinct (map item_id items)"
    using assms(1) by (simp add: strict_sorted_iff)
  with assms(2-4) show ?thesis by (auto simp: distinct_map inj_on_def)
qed

lemma filter_id:
  assumes "sorted_wrt (<) (map item_id items)" "it \<in> set items"
  shows "filter (\<lambda>x. item_id x = item_id it) items = [it]"
  using assms
proof (induction items)
  case (Cons a items)
  show ?case
  proof (cases "a = it")
    case True
    with Cons.prems(1) have "filter (\<lambda>x. item_id x = item_id it) items = []"
      by (auto simp: filter_empty_conv)
    with True show ?thesis by simp
  next
    case False
    with Cons.prems have "it \<in> set items" "item_id a \<noteq> item_id it" by auto
    with Cons show ?thesis by simp
  qed
qed simp

lemma filter_not_id:
  assumes "sorted_wrt (<) (map item_id items)" "distinct (map item_guid items)" "it \<in> set items"
  shows "filter (\<lambda>x. item_id x \<noteq> item_id it) items = filter (\<lambda>x. item_guid x \<noteq> item_guid it) items"
proof (rule filter_cong [OF refl])
  fix x assume "x \<in> set items"
  then show "(item_id x \<noteq> item_id it) = (item_guid x \<noteq> item_guid it)"
    using assms ids_unique [OF assms(1)] item_of_mem [OF assms(2)] by (metis option.inject)
qed

section \<open>Operations\<close>

lemma keys_typedD:
  assumes "keys_typed K qk mk ik"
  shows "zset_key K qk" "hash_key K mk" "hash_key K (rev_key mk)" "zset_key K ik"
    "qk \<noteq> mk" "qk \<noteq> rev_key mk" "qk \<noteq> ik" "mk \<noteq> rev_key mk" "mk \<noteq> ik" "rev_key mk \<noteq> ik"
    "mk \<noteq> qk" "rev_key mk \<noteq> qk" "ik \<noteq> qk" "rev_key mk \<noteq> mk" "ik \<noteq> mk" "ik \<noteq> rev_key mk"
  using assms by (auto simp: keys_typed_def)

lemma queue_repD:
  assumes "queue_rep b64 qk mk ik K c items"
  shows "keys_typed K qk mk ik" "zsets K qk = map (\<lambda>it. (int (item_id it), entry_of b64 it)) items"
    "sorted_wrt (<) (map item_id items)" "distinct (map item_guid items)" "list_all item_ok items"
    "\<And>it. it \<in> set items \<Longrightarrow> item_id it \<le> c" "hashes K mk ''counter'' = counter_field c"
    "\<And>g. g \<noteq> ''counter'' \<Longrightarrow> hashes K mk g = map_option (\<lambda>it. show_nat (item_id it)) (item_of g items)"
    "\<And>it. it \<in> set items \<Longrightarrow> hashes K (rev_key mk) (show_nat (item_id it)) = Some (item_guid it)"
  using assms by (auto simp: queue_rep_def)

lemma item_okD: "list_all item_ok items \<Longrightarrow> it \<in> set items \<Longrightarrow> item_ok it"
  by (simp add: list_all_iff)

lemma guids_not_counter: "list_all item_ok items \<Longrightarrow> ''counter'' \<notin> item_guid ` set items"
  by (auto simp: list_all_iff item_ok_def)

text \<open>The counter of a queue, incremented.\<close>

lemma hincrby_counter:
  assumes "hash_key K mk" "hashes K mk ''counter'' = counter_field c" "c + 1 < 2 ^ 63"
  shows "hincrby mk ''counter'' 1 K =
    (Ok (int (c + 1)), set_hash mk ((hashes K mk)(''counter'' \<mapsto> show_nat (c + 1))) K)"
proof -
  have "show_int (int (c + 1)) = show_nat (c + 1)" by (simp add: show_int_def nat_add_distrib)
  moreover have "parse_i64 (show_nat c) = Some (int c)"
    using parse_i64_show_int [of "int c"] assms(3) by (simp add: show_int_def)
  moreover have "int c + 1 < 2 ^ 63" using assms(3) by simp
  ultimately show ?thesis
    using assms(1,2)
    by (cases "c = 0") (simp_all add: hincrby_def counter_field_def ac_simps)
qed

context base64_laws
begin

lemma entry_notin:
  assumes "\<forall>it \<in> set items. item_id it \<noteq> i"
  shows "create_payload_entry b64 i v r \<notin> entry_of b64 ` set items"
  using assms by (auto simp: entry_of_def dest: entry_id_eq)

lemma insert_known:
  assumes rep: "queue_rep b64 qk mk ik K c items" and it: "it \<in> set items"
  shows "redis_insert keyspace_redis b64 now qk mk ik (item_guid it) v K = (Ok (item_id it), K)"
proof -
  note D = queue_repD [OF rep]
  have ok: "item_ok it" using D(5) it by (rule item_okD)
  have h: "hashes K mk (item_guid it) = Some (show_nat (item_id it))"
    using D(8) [of "item_guid it"] item_of_mem [OF D(4) it] ok by (simp add: item_ok_def)
  have "item_id it < 2 ^ 64" using ok by (simp add: item_ok_def)
  then have "parse_u64 (show_nat (item_id it)) = Some (item_id it)" by (rule parse_u64_show_nat)
  with h show ?thesis
    using keys_typedD [OF D(1)] by (simp add: redis_insert_def redis_simps)
qed

lemma insert_fresh:
  assumes rep: "queue_rep b64 qk mk ik K c items"
    and g: "g \<notin> set (map item_guid items)" "g \<noteq> ''counter''" and c: "c + 1 < 2 ^ 63"
  shows "\<exists>K'. redis_insert keyspace_redis b64 now qk mk ik g v K = (Ok (c + 1), K') \<and>
    queue_rep b64 qk mk ik K' (c + 1) (items @ [(c + 1, g, v, 0)]) \<and>
    same_except {qk, mk, rev_key mk, ik} K K'"
proof -
  note D = queue_repD [OF rep]
  note T = keys_typedD [OF D(1)]
  have none: "hashes K mk g = None"
    using D(8) [OF g(2)] g(1) by (simp add: item_of_None_iff)
  let ?e = "create_payload_entry b64 (c + 1) v 0"
  let ?K1 = "set_hash mk ((hashes K mk)(''counter'' \<mapsto> show_nat (c + 1))) K"
  have notin: "?e \<notin> entry_of b64 ` set items"
    using D(6) by (intro entry_notin) fastforce
  have add: "zset_add True (int (c + 1)) ?e (zsets K qk) = zsets K qk @ [(int (c + 1), ?e)]"
  proof -
    have mem: "\<not> zset_member ?e (zsets K qk)" using notin by (force simp: zset_member_def D(2))
    then have "zset_remove ?e (zsets K qk) = zsets K qk"
      by (force simp: zset_remove_def zset_member_def filter_id_conv)
    moreover have "insort (int (c + 1), ?e) (zsets K qk) = zsets K qk @ [(int (c + 1), ?e)]"
      using D(6) by (intro insort_greatest) (fastforce simp: D(2) less_prod_def)
    ultimately show ?thesis using mem by (simp add: zset_add_def)
  qed
  let ?K2 = "set_zset qk (zsets K qk @ [(int (c + 1), ?e)]) ?K1"
  let ?K3 = "set_hash mk ((hashes ?K2 mk)(g \<mapsto> show_nat (c + 1))) ?K2"
  let ?K4 = "set_hash (rev_key mk) ((hashes K (rev_key mk))(show_nat (c + 1) \<mapsto> g)) ?K3"
  let ?K5 = "set_zset ik (zset_add True (int now) qk (zsets K ik)) ?K4"
  have "redis_insert keyspace_redis b64 now qk mk ik g v K = (Ok (c + 1), ?K5)"
    using none T add hincrby_counter [OF T(2) D(7) c]
    by (simp add: redis_insert_def redis_simps Let_def nat_add_distrib)
  moreover have "queue_rep b64 qk mk ik ?K5 (c + 1) (items @ [(c + 1, g, v, 0)])"
  proof -
    have "keys_typed ?K5 qk mk ik" using D(1) T by (simp add: keys_typed_def)
    moreover have "list_all item_ok (items @ [(c + 1, g, v, 0)])"
      using D(5) g(2) c by (simp add: item_ok_def)
    moreover have "show_nat (item_id it) \<noteq> show_nat (c + 1)" if "it \<in> set items" for it
      using D(6) [OF that] by (auto dest: show_nat_inj)
    moreover have "hashes ?K5 mk x = map_option (\<lambda>it. show_nat (item_id it))
        (item_of x (items @ [(c + 1, g, v, 0)]))" if "x \<noteq> ''counter''" for x
    proof (cases "x = g")
      case True
      then have "item_of x items = None" using g(1) by (simp add: item_of_None_iff)
      with True T show ?thesis by (simp add: item_of_append item_of_single)
    next
      case False
      with that D(8) [OF that] T show ?thesis
        by (simp add: item_of_append item_of_single split: option.split)
    qed
    ultimately show ?thesis
      using D T g
      unfolding queue_rep_def
      by (auto simp: sorted_wrt_append counter_field_def entry_of_def less_Suc_eq_le
          intro: le_SucI)
  qed
  moreover have "same_except {qk, mk, rev_key mk, ik} K ?K5" by simp
  ultimately show ?thesis by blast
qed


lemma score_range:
  assumes "queue_rep b64 qk mk ik K c items" "it \<in> set items"
  shows "filter (\<lambda>e. int (item_id it) \<le> fst e \<and> fst e \<le> int (item_id it)) (zsets K qk) =
      [(int (item_id it), entry_of b64 it)]"
    and "filter (\<lambda>e. \<not> (int (item_id it) \<le> fst e \<and> fst e \<le> int (item_id it))) (zsets K qk) =
      map (\<lambda>x. (int (item_id x), entry_of b64 x)) (filter (\<lambda>x. item_guid x \<noteq> item_guid it) items)"
proof -
  note D = queue_repD [OF assms(1)]
  have eq: "(a \<le> b \<and> b \<le> a) = (b = a)" for a b :: nat by auto
  have neq: "(a \<le> b \<longrightarrow> b \<noteq> a) = (b \<noteq> a)" for a b :: nat by auto
  show "filter (\<lambda>e. int (item_id it) \<le> fst e \<and> fst e \<le> int (item_id it)) (zsets K qk) =
      [(int (item_id it), entry_of b64 it)]"
    using filter_id [OF D(3) assms(2)] by (simp add: D(2) filter_map o_def eq)
  show "filter (\<lambda>e. \<not> (int (item_id it) \<le> fst e \<and> fst e \<le> int (item_id it))) (zsets K qk) =
      map (\<lambda>x. (int (item_id x), entry_of b64 x)) (filter (\<lambda>x. item_guid x \<noteq> item_guid it) items)"
    using filter_not_id [OF D(3,4) assms(2)] by (simp add: D(2) filter_map o_def neq)
qed

text \<open>Deleting one item from all three structures.\<close>

lemma delete_item_rep:
  assumes rep: "queue_rep b64 qk mk ik K c items" and it: "it \<in> set items"
  defines "z \<equiv> map (\<lambda>x. (int (item_id x), entry_of b64 x))
    (filter (\<lambda>x. item_guid x \<noteq> item_guid it) items)"
  shows "queue_rep b64 qk mk ik
    (set_hash (rev_key mk) ((hashes K (rev_key mk))(show_nat (item_id it) := None))
      (set_hash mk ((hashes K mk)(item_guid it := None)) (set_zset qk z K))) c
    (filter (\<lambda>x. item_guid x \<noteq> item_guid it) items)"
proof -
  note D = queue_repD [OF rep]
  note T = keys_typedD [OF D(1)]
  have ok: "item_ok it" using D(5) it by (rule item_okD)
  have neq: "show_nat (item_id x) \<noteq> show_nat (item_id it)"
    if "x \<in> set items" "item_guid x \<noteq> item_guid it" for x
    using that ids_unique [OF D(3) that(1) it] by (auto dest: show_nat_inj)
  have "sorted_wrt (<) (map item_id (filter (\<lambda>x. item_guid x \<noteq> item_guid it) items))"
    using D(3) by (simp add: sorted_wrt_map sorted_wrt_filter)
  moreover have "list_all item_ok (filter (\<lambda>x. item_guid x \<noteq> item_guid it) items)"
    using D(5) by (simp add: list_all_iff)
  moreover have "item_of g (filter (\<lambda>x. item_guid x \<noteq> item_guid it) items) =
      (if g = item_guid it then None else item_of g items)" for g
    using item_of_filter [of g "{item_guid it}" items] by simp
  ultimately show ?thesis
    using D T neq ok unfolding queue_rep_def z_def
    by (auto simp: keys_typed_def item_ok_def distinct_map_filter)
qed

lemma remove_one:
  assumes rep: "queue_rep b64 qk mk ik K c items" and g: "g \<noteq> ''counter''"
  shows "\<exists>K'. redis_remove_one keyspace_redis dec qk mk g K =
      ((case item_of g items of None \<Rightarrow> Ok [] | Some it \<Rightarrow> dec [entry_of b64 it]), K') \<and>
    queue_rep b64 qk mk ik K' c (filter (\<lambda>x. item_guid x \<noteq> g) items) \<and>
    same_except {qk, mk, rev_key mk, ik} K K'"
proof (cases "item_of g items")
  case None
  then have "filter (\<lambda>x. item_guid x \<noteq> g) items = items"
    by (force simp: item_of_None_iff filter_id_conv)
  with None show ?thesis
    using rep queue_repD(8) [OF rep g] keys_typedD(2) [OF queue_repD(1) [OF rep]]
    by (simp add: redis_remove_one_def redis_simps)
next
  case (Some it)
  note D = queue_repD [OF rep]
  note T = keys_typedD [OF D(1)]
  from item_of_Some [OF Some] have it: "it \<in> set items" "item_guid it = g" by simp_all
  have "item_ok it" using D(5) it(1) by (rule item_okD)
  then have parse: "parse_i64 (show_nat (item_id it)) = Some (int (item_id it))"
    using parse_i64_show_int [of "int (item_id it)"] by (simp add: item_ok_def show_int_def)
  let ?z = "filter (\<lambda>e. \<not> (int (item_id it) \<le> fst e \<and> fst e \<le> int (item_id it))) (zsets K qk)"
  let ?K' = "set_hash (rev_key mk) ((hashes K (rev_key mk))(show_nat (item_id it) := None))
      (set_hash mk ((hashes K mk)(item_guid it := None)) (set_zset qk ?z K))"
  have "HGET keyspace_redis mk g K = (Ok (Some (show_nat (item_id it))), K)"
    using D(8) [OF g] Some T by (simp add: redis_simps)
  moreover have "ZRANGE_BYSCORE keyspace_redis qk (Incl (int (item_id it))) (Upto (int (item_id it)))
      (Some (0, 1)) K = (Ok [entry_of b64 it], K)"
    using score_range(1) [OF rep it(1)] T by (simp add: redis_simps limited_def)
  ultimately have "redis_remove_one keyspace_redis dec qk mk g K = (dec [entry_of b64 it], ?K')"
    using parse T it(2) by (simp add: redis_remove_one_def redis_simps del: not_le not_less de_Morgan_conj)
  moreover have "queue_rep b64 qk mk ik ?K' c (filter (\<lambda>x. item_guid x \<noteq> g) items)"
    using delete_item_rep [OF rep it(1)] unfolding score_range(2) [OF rep it(1)] it(2) .
  moreover have "same_except {qk, mk, rev_key mk, ik} K ?K'" by simp
  ultimately show ?thesis using Some by auto
qed

lemma remove_many:
  assumes "queue_rep b64 qk mk ik K c items" and "''counter'' \<notin> set gs"
    and "\<And>it. it \<in> set items \<Longrightarrow> dec [entry_of b64 it] = Ok [f it]"
  shows "\<exists>K'. forS gs (redis_remove_one keyspace_redis dec qk mk) K = (Ok (taken f gs items), K') \<and>
    queue_rep b64 qk mk ik K' c (filter (\<lambda>x. item_guid x \<notin> set gs) items) \<and>
    same_except {qk, mk, rev_key mk, ik} K K'"
  using assms
proof (induction gs arbitrary: K items)
  case Nil
  then show ?case by simp
next
  case (Cons g gs)
  from Cons.prems(2) have g: "g \<noteq> ''counter''" by auto
  have res: "(case item_of g items of None \<Rightarrow> Ok [] | Some it \<Rightarrow> dec [entry_of b64 it]) =
      Ok (case item_of g items of None \<Rightarrow> [] | Some it \<Rightarrow> [f it])"
    using Cons.prems(3) by (auto split: option.splits dest: item_of_Some)
  from remove_one [OF Cons.prems(1) g, of dec] res obtain K1 where
    K1: "redis_remove_one keyspace_redis dec qk mk g K =
        (Ok (case item_of g items of None \<Rightarrow> [] | Some it \<Rightarrow> [f it]), K1)"
      "queue_rep b64 qk mk ik K1 c (filter (\<lambda>x. item_guid x \<noteq> g) items)"
      "same_except {qk, mk, rev_key mk, ik} K K1" by auto
  from Cons.IH [OF K1(2)] Cons.prems(2,3) obtain K2 where
    K2: "forS gs (redis_remove_one keyspace_redis dec qk mk) K1 =
        (Ok (taken f gs (filter (\<lambda>x. item_guid x \<noteq> g) items)), K2)"
      "queue_rep b64 qk mk ik K2 c (filter (\<lambda>x. item_guid x \<notin> set (g # gs)) items)"
      "same_except {qk, mk, rev_key mk, ik} K1 K2"
    by (auto simp: conj_commute)
  with K1 show ?case by (auto intro: same_except_trans)
qed

text \<open>Removing the guids of a queue; an emptied queue also loses its counter.\<close>

lemma remove_guids:
  assumes rep: "queue_rep b64 qk mk ik K c items" and gs: "''counter'' \<notin> set gs"
    and dec: "\<And>it. it \<in> set items \<Longrightarrow> dec [entry_of b64 it] = Ok [f it]"
  defines "rest \<equiv> filter (\<lambda>x. item_guid x \<notin> set gs) items"
  shows "\<exists>K'. redis_remove keyspace_redis dec qk mk ik gs K = (Ok (concat (taken f gs items)), K') \<and>
    queue_rep b64 qk mk ik K' (if rest = [] then 0 else c) rest \<and>
    same_except {qk, mk, rev_key mk, ik} K K'"
proof -
  from remove_many [where dec = dec and f = f, OF rep gs dec] obtain K1 where
    K1: "forS gs (redis_remove_one keyspace_redis dec qk mk) K = (Ok (taken f gs items), K1)"
      "queue_rep b64 qk mk ik K1 c rest" "same_except {qk, mk, rev_key mk, ik} K K1"
    unfolding rest_def by auto
  note D = queue_repD [OF K1(2)]
  note T = keys_typedD [OF D(1)]
  show ?thesis
  proof (cases "rest = []")
    case False
    then have "zsets K1 qk \<noteq> []" by (simp add: D(2))
    with K1 T(1) False show ?thesis
      by (auto simp: redis_remove_def redis_simps)
  next
    case True
    let ?K2 = "del_key mk (del_key qk K1)"
    let ?K3 = "set_zset ik (filter (\<lambda>e. snd e \<noteq> qk) (zsets ?K2 ik)) ?K2"
    have "redis_remove keyspace_redis dec qk mk ik gs K = (Ok (concat (taken f gs items)), ?K3)"
      using K1(1) T True D(2) by (simp add: redis_remove_def redis_simps)
    moreover have "queue_rep b64 qk mk ik ?K3 0 []"
      using D(1) T by (simp add: queue_rep_def keys_typed_def counter_field_def item_of_def)
    moreover have "same_except {qk, mk, rev_key mk, ik} K ?K3" using K1(3) by simp
    ultimately show ?thesis using True by auto
  qed
qed

text \<open>A page of a queue that is not locked.\<close>

lemma page_guids:
  assumes "queue_rep b64 qk mk ik K c items" "set xs \<subseteq> set items"
  shows "forS (map (entry_of b64) xs) (\<lambda>v. liftS (get_field_metadata v)) K = (Ok (map item_id xs), K)"
    and "forS (map item_id xs) (\<lambda>i. bindS (HGET keyspace_redis (rev_key mk) (show_nat i)) (\<lambda>g.
      returnS (case g of None \<Rightarrow> [] | Some g' \<Rightarrow> g'))) K = (Ok (map item_guid xs), K)"
proof -
  note D = queue_repD [OF assms(1)]
  have "get_field_metadata (entry_of b64 it) = Ok (item_id it)" if "it \<in> set xs" for it
    using item_okD [OF D(5), of it] that assms(2) by (auto simp: entry_of_def item_ok_def intro!: entry_fields(1))
  then have "forS (map (entry_of b64) xs) (\<lambda>v. liftS (get_field_metadata v)) K =
      (Ok (map (\<lambda>v. ok_val (get_field_metadata v)) (map (entry_of b64) xs)), K)"
    by (intro forS_reads) auto
  moreover have "map (\<lambda>v. ok_val (get_field_metadata v)) (map (entry_of b64) xs) = map item_id xs"
    using \<open>\<And>it. it \<in> set xs \<Longrightarrow> get_field_metadata (entry_of b64 it) = Ok (item_id it)\<close> by simp
  ultimately show "forS (map (entry_of b64) xs) (\<lambda>v. liftS (get_field_metadata v)) K = (Ok (map item_id xs), K)"
    by simp
  have rev: "hashes K (rev_key mk) (show_nat (item_id it)) = Some (item_guid it)" if "it \<in> set xs" for it
    using that assms(2) by (intro D(9)) blast
  have "forS (map item_id xs) (\<lambda>i. bindS (HGET keyspace_redis (rev_key mk) (show_nat i)) (\<lambda>g.
      returnS (case g of None \<Rightarrow> [] | Some g' \<Rightarrow> g'))) K =
      (Ok (map (\<lambda>i. the (hashes K (rev_key mk) (show_nat i))) (map item_id xs)), K)"
    using rev keys_typedD(3) [OF D(1)] by (intro forS_reads) (auto simp: redis_simps)
  with rev show "forS (map item_id xs) (\<lambda>i. bindS (HGET keyspace_redis (rev_key mk) (show_nat i)) (\<lambda>g.
      returnS (case g of None \<Rightarrow> [] | Some g' \<Rightarrow> g'))) K = (Ok (map item_guid xs), K)" by simp
qed

lemma get_values_page:
  fixes stop :: int
  assumes rep: "queue_rep b64 qk mk ik K c items" and lock: "str_key K lk" "strs K lk = None"
  defines "page \<equiv> take PAGE_SIZE (filter (\<lambda>it. stop < int (item_id it)) items)"
  shows "get_values keyspace_redis qk lk mk stop K = (Ok (map (entry_of b64) page, map item_guid page), K)"
proof -
  note D = queue_repD [OF rep]
  have "set page \<subseteq> set items" using set_take_subset by (fastforce simp: page_def)
  note guids = page_guids [OF rep this]
  have "ZRANGE_BYSCORE keyspace_redis qk (Excl stop) PosInf (Some (0, PAGE_SIZE)) K =
      (Ok (map (entry_of b64) page), K)"
    using keys_typedD(1) [OF D(1)]
    by (simp add: redis_simps limited_def D(2) filter_map o_def page_def take_map)
  with guids lock show ?thesis
    by (simp add: get_values_def redis_simps)
qed

lemma get_values_locked:
  "\<lbrakk> str_key K lk; strs K lk \<noteq> None \<rbrakk> \<Longrightarrow> get_values keyspace_redis qk lk mk stop K = (Ok ([], []), K)"
  by (simp add: get_values_def redis_simps)

text \<open>Rewriting the first item.\<close>

lemma update_first:
  assumes rep: "queue_rep b64 qk mk ik K c ((i, g, v, r) # items)" and r: "- (2 ^ 31) < r"
  shows "\<exists>K'. update_value keyspace_redis b64 qk i v' K = (Ok (True, r), K') \<and>
    queue_rep b64 qk mk ik K' c ((i, g, v', r - 1) # items) \<and>
    same_except {qk, mk, rev_key mk, ik} K K'"
proof -
  let ?it = "(i, g, v, r)" and ?z = "map (\<lambda>x. (int (item_id x), entry_of b64 x)) items"
  let ?e = "create_payload_entry b64 i v r" and ?e' = "create_payload_entry b64 i v' (r - 1)"
  note D = queue_repD [OF rep]
  note T = keys_typedD [OF D(1)]
  have ok: "item_ok ?it" using D(5) by simp
  have r': "as_i32 r = r" "as_i32 (r - 1) = r - 1" "i64_pred r = Ok (r - 1)"
    using ok r by (simp_all add: item_ok_def as_i32_def i64_pred_def)
  have others: "\<forall>x \<in> set items. item_id x \<noteq> i" using D(3) by auto
  have notin: "?e \<notin> entry_of b64 ` set items" "?e' \<notin> entry_of b64 ` set items"
    using entry_notin [OF others] by blast+
  have z: "zsets K qk = (int i, ?e) # ?z" using D(2) by (simp add: entry_of_def)
  have range: "ZRANGE_BYSCORE keyspace_redis qk (Incl (int i)) (Upto (int i)) None K = (Ok [?e], K)"
    using score_range(1) [OF rep, of ?it] T by (simp add: redis_simps limited_def entry_of_def)
  have "filter (\<lambda>e. snd e = ?e) ?z = []"
    using notin(1) by (force simp: filter_empty_conv)
  with entries_differ [OF notin(1), of "\<lambda>x. int (item_id x)"] have rem: "ZREM keyspace_redis qk [?e] K = (Ok 1, set_zset qk ?z K)"
    using T by (simp add: redis_simps z)
  have "insort (int i, ?e') ?z = (int i, ?e') # ?z"
    using D(3) by (intro insort_is_Cons) (fastforce simp: less_eq_prod_def)
  then have "zset_add False (int i) ?e' ?z = (int i, ?e') # ?z"
    using entries_differ [OF notin(2), of "\<lambda>x. int (item_id x)"] by (simp add: zset_add_def zset_remove_def)
  moreover have "\<not> zset_member ?e' ?z" using notin(2) by (force simp: zset_member_def)
  ultimately have add: "ZADD keyspace_redis False qk (int i) ?e' (set_zset qk ?z K) =
      (Ok 1, set_zset qk ((int i, ?e') # ?z) (set_zset qk ?z K))"
    using T by (simp add: redis_simps)
  let ?K' = "set_zset qk ((int i, ?e') # ?z) (set_zset qk ?z K)"
  have "get_order_metadata ?e = Ok r"
    using ok by (intro entry_fields(2)) (simp_all add: item_ok_def)
  with range rem add r' have "update_value keyspace_redis b64 qk i v' K = (Ok (True, r), ?K')"
    by (simp add: update_value_def)
  moreover have "queue_rep b64 qk mk ik ?K' c ((i, g, v', r - 1) # items)"
    using D(1-5,7,8) D(6,9) [of ?it] D(6,9) T r
    by (auto simp: queue_rep_def keys_typed_def entry_of_def item_ok_def item_of_def)
  moreover have "same_except {qk, mk, rev_key mk, ik} K ?K'" by simp
  ultimately show ?thesis by blast
qed

text \<open>Taking bytes from the front of a queue.\<close>

lemma get_first_locked:
  "\<lbrakk> str_key K lk; strs K lk \<noteq> None \<rbrakk> \<Longrightarrow> \<exists>e. get_first keyspace_redis qk lk K = (Err e, K)"
  by (auto simp: get_first_def redis_simps)

lemma get_first_items:
  assumes "queue_rep b64 qk mk ik K c items" "str_key K lk" "strs K lk = None"
  shows "get_first keyspace_redis qk lk K = (case items of
      [] \<Rightarrow> (Err ''Failed to get first value: empty value.'', K) | it # _ \<Rightarrow> (Ok (entry_of b64 it), K))"
  using assms queue_repD(1,2) [OF assms(1)] keys_typedD(1) [OF queue_repD(1) [OF assms(1)]]
  by (cases items) (simp_all add: get_first_def redis_simps index_range_def)

lemma dequeue_locked:
  "\<lbrakk> str_key K lk; strs K lk \<noteq> None \<rbrakk> \<Longrightarrow>
    dequeue_bytes keyspace_redis b64 qk mk ik lk n K = (Ok ([], 0, 1), K)"
  using get_first_locked [of K lk qk] by (auto simp: dequeue_bytes_def)

lemma dequeue_empty:
  "\<lbrakk> queue_rep b64 qk mk ik K c []; str_key K lk; strs K lk = None \<rbrakk> \<Longrightarrow>
    dequeue_bytes keyspace_redis b64 qk mk ik lk n K = (Ok ([], 0, 1), K)"
  by (simp add: dequeue_bytes_def get_first_items)

lemma dequeue_from:
  assumes "queue_rep b64 qk mk ik K c ((i, g, v, r) # items)" "str_key K lk" "strs K lk = None"
  shows "dequeue_bytes keyspace_redis b64 qk mk ik lk n K =
    dequeue_bytes_from keyspace_redis b64 qk mk ik n (create_payload_entry b64 i v r) K"
  using get_first_items [OF assms] by (simp add: dequeue_bytes_def entry_of_def)

lemma dequeue_part:
  assumes rep: "queue_rep b64 qk mk ik K c ((i, g, v, r) # items)" and lock: "str_key K lk" "strs K lk = None"
    and n: "n < length v" and r: "- (2 ^ 31) < r"
  shows "\<exists>K'. dequeue_bytes keyspace_redis b64 qk mk ik lk n K = (Ok (take n v, n, r), K') \<and>
    queue_rep b64 qk mk ik K' c ((i, g, drop n v, r - 1) # items) \<and>
    same_except {qk, mk, rev_key mk, ik} K K'"
proof -
  from update_first [OF rep r] obtain K' where
    "update_value keyspace_redis b64 qk i (drop n v) K = (Ok (True, r), K')"
    "queue_rep b64 qk mk ik K' c ((i, g, drop n v, r - 1) # items)"
    "same_except {qk, mk, rev_key mk, ik} K K'" by blast
  moreover have "item_ok (i, g, v, r)" using queue_repD(5) [OF rep] by simp
  then have "get_field_metadata (create_payload_entry b64 i v r) = Ok i"
    by (intro entry_fields(1)) (simp add: item_ok_def)
  ultimately show ?thesis
    using n by (auto simp: dequeue_from [OF rep lock] dequeue_bytes_from_def entry_fields(3) min_def)
qed

lemma dequeue_whole:
  assumes rep: "queue_rep b64 qk mk ik K c ((i, g, v, r) # items)" and lock: "str_key K lk" "strs K lk = None"
    and n: "length v \<le> n"
  shows "\<exists>K'. dequeue_bytes keyspace_redis b64 qk mk ik lk n K = (Ok (v, length v, 2), K') \<and>
    queue_rep b64 qk mk ik K' (if items = [] then 0 else c) items \<and>
    same_except {qk, mk, rev_key mk, ik} K K'"
proof -
  note D = queue_repD [OF rep]
  have ok: "item_ok (i, g, v, r)" using D(5) by simp
  have rest: "filter (\<lambda>x. item_guid x \<notin> set [g]) ((i, g, v, r) # items) = items"
    using D(4) by (force simp: filter_id_conv)
  have dec: "decode_bytes b64 [entry_of b64 it] = Ok [item_value it]" for it
    by (simp add: entry_of_def entry_fields(3))
  have taken: "taken item_value [g] ((i, g, v, r) # items) = [[v]]" by (simp add: item_of_def)
  have "''counter'' \<notin> set [g]" using ok by (auto simp: item_ok_def)
  from remove_guids [where dec = "decode_bytes b64" and f = item_value, OF rep this dec]
  obtain K' where K': "redis_remove keyspace_redis (decode_bytes b64) qk mk ik [g] K = (Ok [v], K')"
      "queue_rep b64 qk mk ik K' (if items = [] then 0 else c) items"
      "same_except {qk, mk, rev_key mk, ik} K K'"
    unfolding rest taken by auto
  have "get_field_metadata (create_payload_entry b64 i v r) = Ok i"
    using ok by (intro entry_fields(1)) (simp add: item_ok_def)
  moreover have "HGET keyspace_redis (rev_key mk) (show_nat i) K = (Ok (Some g), K)"
    using D(9) [of "(i, g, v, r)"] keys_typedD(3) [OF D(1)] by (simp add: redis_simps)
  ultimately have "dequeue_bytes keyspace_redis b64 qk mk ik lk n K = (Ok (v, length v, 2), K')"
    using K'(1) n by (simp add: dequeue_from [OF rep lock] dequeue_bytes_from_def entry_fields(3))
  with K' show ?thesis by blast
qed

text \<open>The page of a queue, taken out again.\<close>

lemma taken_page:
  assumes "distinct (map item_guid items)"
  shows "concat (taken f (map item_guid (take n items)) items) = map f (take n items)"
  using assms
proof (induction n arbitrary: items)
  case (Suc n)
  show ?case
  proof (cases items)
    case (Cons it its)
    with Suc.prems have "filter (\<lambda>x. item_guid x \<noteq> item_guid it) its = its"
      by (intro filter_other_guids) simp
    with Suc Cons show ?thesis by (simp add: item_of_def)
  qed simp
qed simp

lemma rest_page:
  assumes "distinct (map item_guid items)"
  shows "filter (\<lambda>x. item_guid x \<notin> set (map item_guid (take n items))) items = drop n items"
proof -
  have "distinct (map item_guid (take n items @ drop n items))" using assms by simp
  then have "filter (\<lambda>x. item_guid x \<notin> set (map item_guid (take n items))) (take n items @ drop n items)
      = drop n items"
    unfolding filter_append map_append distinct_append
    by (force simp: filter_empty_conv filter_id_conv)
  then show ?thesis by simp
qed

end

end
