(* ===== verification/Ids.thy ===== *)
theory Ids
  imports Web_Api
begin

text \<open>
  The string forms of \<open>libsignal_core\<close>'s identifiers. Printing and parsing service ids and
  printing protocol addresses are library code, so they are parameters, collected in one record;
  the locale states what the program relies on: parsing inverts printing, printed ids are
  unambiguous inside the program's own formats (no dot, brace, comma or white space and no two
  adjacent colons, and no colon at all in an ACI), and addresses print injectively. The record also
  has \<open>PublicKey::deserialize\<close>, which may fail; a key is its serialisation.
\<close>

section \<open>The interface\<close>

record id_codec =
  service_id_string :: "service_id \<Rightarrow> string"
  parse_from_service_id_string :: "string \<Rightarrow> service_id option"
  fmt_address :: "protocol_address \<Rightarrow> string"
  public_key_deserialize :: "bytes \<Rightarrow> bytes option"

text \<open>Two adjacent colons, the separator of the cache keys.\<close>

fun has_sep :: "string \<Rightarrow> bool" where
  "has_sep (a # b # r) = ((a = CHR '':'' \<and> b = CHR '':'') \<or> has_sep (b # r))"
| "has_sep _ = False"

text \<open>Names that the cache keys embed without ambiguity.\<close>

definition clean_name :: "string \<Rightarrow> bool" where
  "clean_name s \<longleftrightarrow> s \<noteq> [] \<and> \<not> has_sep s \<and> hd s \<noteq> CHR '':'' \<and> last s \<noteq> CHR '':'' \<and>
     set s \<inter> {CHR ''.'', CHR ''{'', CHR ''}'', CHR '',''} = {}"

locale id_codec_laws =
  fixes ids :: id_codec
  assumes parse_string [simp]: "parse_from_service_id_string ids (service_id_string ids s) = Some s"
    and string_clean: "clean_name (service_id_string ids s)"
    and aci_no_colon: "CHR '':'' \<notin> set (service_id_string ids (Aci u))"
    and address_inj: "fmt_address ids a = fmt_address ids b \<Longrightarrow> a = b"
begin

lemma string_inj: "service_id_string ids s = service_id_string ids t \<Longrightarrow> s = t"
  by (metis parse_string option.inject)

lemma string_no_dot [simp]: "CHR ''.'' \<notin> set (service_id_string ids s)"
  using string_clean [of s] by (auto simp: clean_name_def)

end

section \<open>Hyphenated UUIDs\<close>

definition hex_char :: "nat \<Rightarrow> char" where
  "hex_char d = char_of (if d < 10 then 48 + d else 87 + d)"

definition char_hex :: "char \<Rightarrow> nat option" where
  "char_hex c = (let n = of_char c in
     if 48 \<le> n \<and> n < 58 then Some (n - 48) else if 97 \<le> n \<and> n < 103 then Some (n - 87) else None)"

fun hex_digits :: "nat \<Rightarrow> nat \<Rightarrow> string" where
  "hex_digits 0 n = []"
| "hex_digits (Suc k) n = hex_digits k (n div 16) @ [hex_char (n mod 16)]"

fun read_hex :: "nat \<Rightarrow> string \<Rightarrow> nat option" where
  "read_hex acc [] = Some acc"
| "read_hex acc (c # cs) =
     (case char_hex c of None \<Rightarrow> None | Some d \<Rightarrow> read_hex (16 * acc + d) cs)"

definition uuid_string :: "uuid \<Rightarrow> string" where
  "uuid_string u =
     (let h = hex_digits 32 (unat u) in
      take 8 h @ CHR ''-'' # take 4 (drop 8 h) @ CHR ''-'' # take 4 (drop 12 h) @ CHR ''-'' #
      take 4 (drop 16 h) @ CHR ''-'' # drop 20 h)"

definition parse_uuid :: "string \<Rightarrow> uuid option" where
  "parse_uuid s =
     (case read_hex 0 (filter (\<lambda>c. c \<noteq> CHR ''-'') s) of
        None \<Rightarrow> None
      | Some n \<Rightarrow> (let u = word_of_nat n in if uuid_string u = s then Some u else None))"

fun std_service_id_string :: "service_id \<Rightarrow> string" where
  "std_service_id_string (Aci u) = uuid_string u"
| "std_service_id_string (Pni u) = ''PNI:'' @ uuid_string u"

definition std_parse_service_id :: "string \<Rightarrow> service_id option" where
  "std_parse_service_id s =
     (if take 4 s = ''PNI:'' then map_option Pni (parse_uuid (drop 4 s))
      else map_option Aci (parse_uuid s))"

definition std_fmt_address :: "protocol_address \<Rightarrow> string" where
  "std_fmt_address a = addr_name a @ CHR ''.'' # show_nat (addr_device_id a)"

text \<open>The type byte 5 and 32 bytes.\<close>

definition std_public_key :: "bytes \<Rightarrow> bytes option" where
  "std_public_key bs = (case bs of [] \<Rightarrow> None | t # k \<Rightarrow> if t = 5 \<and> 32 \<le> length k then Some (t # take 32 k) else None)"

definition std_ids :: id_codec where
  "std_ids = \<lparr>service_id_string = std_service_id_string,
     parse_from_service_id_string = std_parse_service_id, fmt_address = std_fmt_address,
     public_key_deserialize = std_public_key\<rparr>"

lemma char_hex_hex_char [simp]: "d < 16 \<Longrightarrow> char_hex (hex_char d) = Some d"
  by (auto simp: char_hex_def hex_char_def)

lemma hex_digits_length [simp]: "length (hex_digits k n) = k"
  by (induction k arbitrary: n) auto

lemma hex_char_codes: "d < 16 \<Longrightarrow> of_char (hex_char d) \<in> {48..<58::nat} \<union> {97..<103}"
  by (auto simp: hex_char_def)

lemma hex_digits_codes: "c \<in> set (hex_digits k n) \<Longrightarrow> of_char c \<in> {48..<58::nat} \<union> {97..<103}"
proof (induction k arbitrary: n)
  case (Suc k)
  then show ?case using hex_char_codes [of "n mod 16"] by fastforce
qed simp

lemma read_hex_append:
  "read_hex a (xs @ ys) = (case read_hex a xs of None \<Rightarrow> None | Some b \<Rightarrow> read_hex b ys)"
  by (induction xs arbitrary: a) (auto split: option.splits)

lemma read_hex_digits: "read_hex 0 (hex_digits k n) = Some (n mod 16 ^ k)"
proof (induction k arbitrary: n)
  case (Suc k)
  have "16 * (n div 16 mod 16 ^ k) + n mod 16 = n mod 16 ^ Suc k"
    using mod_mult2_eq [of n 16 "16 ^ k"] by simp
  with Suc show ?case by (simp add: read_hex_append)
qed simp

lemma uuid_string_codes:
  "c \<in> set (uuid_string u) \<Longrightarrow> of_char c \<in> {48..<58::nat} \<union> {97..<103} \<union> {45}"
proof -
  assume c: "c \<in> set (uuid_string u)"
  have "c \<in> set (hex_digits 32 (unat u)) \<or> c = CHR ''-''"
    using c unfolding uuid_string_def Let_def by (auto dest: in_set_takeD in_set_dropD)
  then show ?thesis using hex_digits_codes [of c 32 "unat u"] by auto
qed

lemma uuid_string_filter:
  "filter (\<lambda>c. c \<noteq> CHR ''-'') (uuid_string u) = hex_digits 32 (unat u)"
proof -
  let ?h = "hex_digits 32 (unat u)"
  have hyphen: "CHR ''-'' \<notin> set ?h" using hex_digits_codes [of "CHR ''-''"] by fastforce
  have keep: "filter (\<lambda>c. c \<noteq> CHR ''-'') xs = xs" if "set xs \<subseteq> set ?h" for xs
    using that hyphen by (intro filter_True) blast
  have step: "take m (drop n ?h) @ drop (m + n) ?h = drop n ?h" for m n
    using append_take_drop_id [of m "drop n ?h"] by simp
  have "take 8 ?h @ take 4 (drop 8 ?h) @ take 4 (drop 12 ?h) @ take 4 (drop 16 ?h) @ drop 20 ?h = ?h"
    using step [of 4 16] step [of 4 12] step [of 4 8] append_take_drop_id [of 8 ?h] by simp
  then show ?thesis
    unfolding uuid_string_def Let_def
    by (simp add: keep set_take_subset set_drop_subset subset_trans [OF set_take_subset])
qed

lemma parse_uuid_string [simp]: "parse_uuid (uuid_string u) = Some u"
proof -
  have "unat u < 2 ^ 128" using unsigned_less [of u, where 'a = nat] by simp
  then have "unat u mod 16 ^ 32 = unat u" by simp
  then show ?thesis
    by (simp add: parse_uuid_def uuid_string_filter read_hex_digits)
qed

lemma no_colon_no_sep: "CHR '':'' \<notin> set s \<Longrightarrow> \<not> has_sep s"
  by (induction s rule: has_sep.induct) auto

lemma uuid_string_no_char:
  "of_char c \<notin> {48..<58::nat} \<union> {97..<103} \<union> {45} \<Longrightarrow> c \<notin> set (uuid_string u)"
  using uuid_string_codes by blast

lemma uuid_string_nonempty [simp]: "uuid_string u \<noteq> []"
  by (simp add: uuid_string_def Let_def)

lemma uuid_string_colon: "CHR '':'' \<notin> set (uuid_string u)"
  by (rule uuid_string_no_char) simp

lemma uuid_string_P: "CHR ''P'' \<notin> set (uuid_string u)"
  by (rule uuid_string_no_char) simp

lemma uuid_string_others:
  "set (uuid_string u) \<inter> {CHR ''.'', CHR ''{'', CHR ''}'', CHR '',''} = {}"
proof -
  have "c \<notin> set (uuid_string u)" if "c \<in> {CHR ''.'', CHR ''{'', CHR ''}'', CHR '',''}" for c
    using that by (intro uuid_string_no_char) auto
  then show ?thesis by blast
qed

lemma uuid_string_clean: "clean_name (uuid_string u)"
proof -
  have "hd (uuid_string u) \<noteq> CHR '':''" "last (uuid_string u) \<noteq> CHR '':''"
    using uuid_string_colon [of u] by (metis hd_in_set last_in_set uuid_string_nonempty)+
  with uuid_string_colon [of u] uuid_string_others [of u] show ?thesis
    by (simp add: clean_name_def no_colon_no_sep)
qed

lemma pni_string_clean: "clean_name (''PNI:'' @ uuid_string u)"
proof -
  obtain c cs where u: "uuid_string u = c # cs" by (cases "uuid_string u") auto
  have "\<not> has_sep (c # cs)" "c \<noteq> CHR '':''"
    using uuid_string_clean [of u] uuid_string_colon [of u] by (auto simp: clean_name_def u)
  then have "\<not> has_sep (''PNI:'' @ uuid_string u)" by (simp add: u)
  with uuid_string_clean [of u] show ?thesis by (auto simp: clean_name_def)
qed

lemma std_parse_service_id_string: "std_parse_service_id (std_service_id_string s) = Some s"
proof (cases s)
  case (Aci u)
  have "take 4 (uuid_string u) \<noteq> ''PNI:''"
    using uuid_string_P [of u] by (metis in_set_takeD list.set_intros(1))
  with Aci show ?thesis by (simp add: std_parse_service_id_def)
qed (simp add: std_parse_service_id_def)

lemma split_last_unique:
  assumes "xs @ d # ys = xs' @ d # ys'" "d \<notin> set ys" "d \<notin> set ys'"
  shows "xs = xs' \<and> ys = ys'"
proof -
  have *: "takeWhile (\<lambda>c. c \<noteq> d) (rev (zs @ d # ws)) = rev ws" if "d \<notin> set ws" for zs ws
    using that by (auto simp: takeWhile_tail intro: takeWhile_append2 [THEN trans])
  have "ys = ys'" using * [OF assms(2), of xs] * [OF assms(3), of xs'] assms(1) by simp
  with assms(1) show ?thesis by simp
qed

lemma std_fmt_address_inj: "std_fmt_address a = std_fmt_address b \<Longrightarrow> a = b"
proof -
  assume "std_fmt_address a = std_fmt_address b"
  then have "addr_name a = addr_name b \<and> show_nat (addr_device_id a) = show_nat (addr_device_id b)"
    unfolding std_fmt_address_def by (rule split_last_unique) (simp_all add: show_nat_no_char)
  then show ?thesis by (auto dest: show_nat_inj)
qed

interpretation std_ids: id_codec_laws std_ids
proof
  show "clean_name (service_id_string std_ids s)" for s
    by (cases s) (simp_all add: std_ids_def uuid_string_clean pni_string_clean
        del: append.simps(2))
qed (simp_all add: std_ids_def std_parse_service_id_string std_fmt_address_inj uuid_string_colon)

end
