(* ===== verification/Caches.thy ===== *)
theory Caches
  imports Queue_Rep Ids
begin

text \<open>
  The three caches of the server share one Redis server: \<open>MessageCache\<close>
  (\<open>server/src/managers/message/message_cache.rs\<close>), \<open>ChunkCache\<close> and \<open>PayloadCache\<close>
  (\<open>server/src/managers/denim/\<close>). The chunk and payload caches are made from the message cache and
  share its map of availability listeners (\<open>server/src/availability_listener.rs\<close>), which is only
  touched by tasks handed to \<open>tokio::spawn\<close>: a cache operation records the task, and a task runs at
  some later time.
\<close>

section \<open>Listeners and spawned tasks\<close>

datatype 'l task =
    Notify_cached string
  | Notify_persisted string
  | Add_listener string 'l
  | Remove_listener string

record ('r, 'l) caches =
  store :: 'r
  listeners :: "string \<rightharpoonup> 'l"
  spawned :: "'l task list"

text \<open>The calls a task makes on a listener.\<close>

datatype 'l call = Send_cached 'l | Send_persisted 'l

definition queue_name :: "protocol_address \<Rightarrow> string" where
  "queue_name a = addr_name a @ ''::'' @ show_nat (addr_device_id a)"

definition spawn :: "'l task \<Rightarrow> ('r, 'l) caches \<Rightarrow> ('r, 'l) caches" where
  "spawn t s = s\<lparr>spawned := spawned s @ [t]\<rparr>"

definition notify_cached :: "protocol_address \<Rightarrow> ('r, 'l) caches \<Rightarrow> ('r, 'l) caches" where
  "notify_cached a = spawn (Notify_cached (queue_name a))"

definition notify_persisted :: "protocol_address \<Rightarrow> ('r, 'l) caches \<Rightarrow> ('r, 'l) caches" where
  "notify_persisted a = spawn (Notify_persisted (queue_name a))"

definition add_listener :: "protocol_address \<Rightarrow> 'l \<Rightarrow> ('r, 'l) caches \<Rightarrow> ('r, 'l) caches" where
  "add_listener a l = spawn (Add_listener (queue_name a) l)"

definition remove_listener :: "protocol_address \<Rightarrow> ('r, 'l) caches \<Rightarrow> ('r, 'l) caches" where
  "remove_listener a = spawn (Remove_listener (queue_name a))"

fun run_task :: "'l task \<Rightarrow> ('r, 'l) caches \<Rightarrow> 'l call list \<times> ('r, 'l) caches" where
  "run_task (Notify_cached q) s =
     (case listeners s q of None \<Rightarrow> [] | Some l \<Rightarrow> [Send_cached l], s)"
| "run_task (Notify_persisted q) s =
     (case listeners s q of None \<Rightarrow> [] | Some l \<Rightarrow> [Send_persisted l], s)"
| "run_task (Add_listener q l) s =
     ([], s\<lparr>listeners := (listeners s)(q \<mapsto> l)\<rparr>)"
| "run_task (Remove_listener q) s =
     ([], s\<lparr>listeners := (listeners s)(q := None)\<rparr>)"

text \<open>The runtime may pick any spawned task.\<close>

inductive task_step :: "('r, 'l) caches \<Rightarrow> 'l call list \<Rightarrow> ('r, 'l) caches \<Rightarrow> bool" where
  run: "\<lbrakk> spawned s = us @ t # vs; run_task t (s\<lparr>spawned := us @ vs\<rparr>) = (cs, s') \<rbrakk> \<Longrightarrow> task_step s cs s'"

inductive tasks_run :: "('r, 'l) caches \<Rightarrow> 'l call list \<Rightarrow> ('r, 'l) caches \<Rightarrow> bool" where
  none: "tasks_run s [] s"
| more: "\<lbrakk> task_step s cs s1; tasks_run s1 ds s2 \<rbrakk> \<Longrightarrow> tasks_run s (cs @ ds) s2"

inductive_cases task_stepE: "task_step s cs s'"

text \<open>A step on the Redis server, as a step of the caches; a notification after a step that returned.\<close>

definition on_store :: "('r, 'e, 'a) step \<Rightarrow> (('r, 'l) caches, 'e, 'a) step" where
  "on_store m s = (case m (store s) of (r, st) \<Rightarrow> (r, s\<lparr>store := st\<rparr>))"

definition and_then :: "('s, 'e, 'a) step \<Rightarrow> ('s \<Rightarrow> 's) \<Rightarrow> ('s, 'e, 'a) step" where
  "and_then m f s = (case m s of (Panic, s') \<Rightarrow> (Panic, s') | (r, s') \<Rightarrow> (r, f s'))"

lemma on_store_apply [simp]: "m (store s) = (r, st) \<Longrightarrow> on_store m s = (r, s\<lparr>store := st\<rparr>)"
  by (simp add: on_store_def)

lemma and_then_Ok [simp]: "m s = (Ok x, s') \<Longrightarrow> and_then m f s = (Ok x, f s')"
  by (simp add: and_then_def)

lemma spawn_fields [simp]:
  "store (spawn t s) = store s" "listeners (spawn t s) = listeners s"
  "spawned (spawn t s) = spawned s @ [t]"
  by (simp_all add: spawn_def)

text \<open>Tasks leave the server alone.\<close>

lemma task_step_store: "task_step s cs s' \<Longrightarrow> store s' = store s"
  by (elim task_stepE, rename_tac us t vs) (case_tac t, auto)

lemma tasks_run_store: "tasks_run s cs s' \<Longrightarrow> store s' = store s"
  by (induction rule: tasks_run.induct) (auto dest: task_step_store)

section \<open>The chunk cache\<close>

datatype buffer = Sender | Receiver

fun buffer_display :: "buffer \<Rightarrow> string" where
  "buffer_display Sender = ''sender''"
| "buffer_display Receiver = ''receiver''"

definition braced :: "protocol_address \<Rightarrow> string" where
  "braced a = ''::{'' @ queue_name a @ ''}''"

definition chunk_queue_key :: "protocol_address \<Rightarrow> buffer \<Rightarrow> key" where
  "chunk_queue_key a b = ''chunk_'' @ buffer_display b @ ''_queue'' @ braced a"

definition chunk_persist_in_progress_key :: "protocol_address \<Rightarrow> buffer \<Rightarrow> key" where
  "chunk_persist_in_progress_key a b = ''chunk_'' @ buffer_display b @ ''_queue_persisting'' @ braced a"

definition chunk_queue_metadata_key :: "protocol_address \<Rightarrow> buffer \<Rightarrow> key" where
  "chunk_queue_metadata_key a b = ''chunk_'' @ buffer_display b @ ''_queue_metadata'' @ braced a"

definition chunk_queue_index_key :: "buffer \<Rightarrow> key" where
  "chunk_queue_index_key b = ''chunk_'' @ buffer_display b @ ''_queue_index_key''"

definition chunk_insert :: "'r redis \<Rightarrow> base64 \<Rightarrow> denim_chunk codec \<Rightarrow> nat \<Rightarrow> protocol_address \<Rightarrow> buffer
    \<Rightarrow> denim_chunk \<Rightarrow> string \<Rightarrow> (('r, 'l) caches, error, nat) step" where
  "chunk_insert R b64 C now a b c guid =
     bindS (on_store (CONNECT R)) (\<lambda>_.
     and_then (on_store (redis_insert R b64 now (chunk_queue_key a b) (chunk_queue_metadata_key a b)
         (chunk_queue_index_key b) guid (serialize C c)))
       (notify_cached a))"

definition chunk_remove :: "'r redis \<Rightarrow> base64 \<Rightarrow> denim_chunk codec \<Rightarrow> protocol_address \<Rightarrow> buffer
    \<Rightarrow> string list \<Rightarrow> (('r, 'l) caches, error, denim_chunk list) step" where
  "chunk_remove R b64 C a b guids =
     bindS (on_store (CONNECT R)) (\<lambda>_.
     on_store (redis_remove R (decode_values b64 (deserialize C)) (chunk_queue_key a b)
       (chunk_queue_metadata_key a b) (chunk_queue_index_key b) guids))"

text \<open>\<open>get_all_chunks\<close> reads the guids through the receiver's metadata key, whatever the buffer.\<close>

definition get_all_chunks :: "'r redis \<Rightarrow> base64 \<Rightarrow> denim_chunk codec \<Rightarrow> protocol_address \<Rightarrow> buffer
    \<Rightarrow> (('r, 'l) caches, error, denim_chunk list) step" where
  "get_all_chunks R b64 C a b =
     bindS (on_store (CONNECT R)) (\<lambda>_.
     bindS (on_store (get_values R (chunk_queue_key a b) (chunk_persist_in_progress_key a b)
         (chunk_queue_metadata_key a Receiver) (- 1))) (\<lambda>(vs, _).
     if vs = [] then returnS [] else liftS (decode_values b64 (deserialize C) vs)))"

text \<open>\<open>dequeue_incoming_chunks\<close> and \<open>dequeue_outgoing_chunks\<close> differ in the buffer.\<close>

definition dequeue_chunks :: "'r redis \<Rightarrow> base64 \<Rightarrow> denim_chunk codec \<Rightarrow> buffer \<Rightarrow> protocol_address
    \<Rightarrow> (('r, 'l) caches, error, denim_chunk list) step" where
  "dequeue_chunks R b64 C b a =
     bindS (on_store (CONNECT R)) (\<lambda>_.
     bindS (on_store (get_values R (chunk_queue_key a b) (chunk_persist_in_progress_key a b)
         (chunk_queue_metadata_key a b) (- 1))) (\<lambda>(vs, guids).
     if vs = [] then returnS [] else chunk_remove R b64 C a b guids))"

definition dequeue_incoming_chunks :: "'r redis \<Rightarrow> base64 \<Rightarrow> denim_chunk codec \<Rightarrow> protocol_address
    \<Rightarrow> (('r, 'l) caches, error, denim_chunk list) step" where
  "dequeue_incoming_chunks R b64 C sender = dequeue_chunks R b64 C Sender sender"

definition dequeue_outgoing_chunks :: "'r redis \<Rightarrow> base64 \<Rightarrow> denim_chunk codec \<Rightarrow> protocol_address
    \<Rightarrow> (('r, 'l) caches, error, denim_chunk list) step" where
  "dequeue_outgoing_chunks R b64 C receiver = dequeue_chunks R b64 C Receiver receiver"

section \<open>The payload cache\<close>

definition payload_queue_key :: "protocol_address \<Rightarrow> buffer \<Rightarrow> key" where
  "payload_queue_key a b = ''payload_'' @ buffer_display b @ ''_queue'' @ braced a"

definition payload_persist_in_progress_key :: "protocol_address \<Rightarrow> buffer \<Rightarrow> key" where
  "payload_persist_in_progress_key a b = ''payload_'' @ buffer_display b @ ''_queue_persisting'' @ braced a"

definition payload_queue_metadata_key :: "protocol_address \<Rightarrow> buffer \<Rightarrow> key" where
  "payload_queue_metadata_key a b = ''payload_'' @ buffer_display b @ ''_queue_metadata'' @ braced a"

definition payload_queue_index_key :: "buffer \<Rightarrow> key" where
  "payload_queue_index_key b = ''payload_'' @ buffer_display b @ ''_queue_index_key''"

definition payload_insert :: "'r redis \<Rightarrow> base64 \<Rightarrow> deniable_payload codec \<Rightarrow> nat \<Rightarrow> protocol_address
    \<Rightarrow> buffer \<Rightarrow> deniable_payload \<Rightarrow> string \<Rightarrow> (('r, 'l) caches, error, nat) step" where
  "payload_insert R b64 C now a b p guid =
     bindS (on_store (CONNECT R)) (\<lambda>_.
     and_then (on_store (redis_insert R b64 now (payload_queue_key a b) (payload_queue_metadata_key a b)
         (payload_queue_index_key b) guid (serialize C p)))
       (notify_cached a))"

definition payload_remove :: "'r redis \<Rightarrow> base64 \<Rightarrow> deniable_payload codec \<Rightarrow> protocol_address \<Rightarrow> buffer
    \<Rightarrow> string list \<Rightarrow> (('r, 'l) caches, error, deniable_payload list) step" where
  "payload_remove R b64 C a b guids =
     bindS (on_store (CONNECT R)) (\<lambda>_.
     on_store (redis_remove R (decode_values b64 (deserialize C)) (payload_queue_key a b)
       (payload_queue_metadata_key a b) (payload_queue_index_key b) guids))"

definition get_all_payloads :: "'r redis \<Rightarrow> base64 \<Rightarrow> deniable_payload codec \<Rightarrow> protocol_address \<Rightarrow> buffer
    \<Rightarrow> (('r, 'l) caches, error, deniable_payload list) step" where
  "get_all_payloads R b64 C a b =
     bindS (on_store (CONNECT R)) (\<lambda>_.
     bindS (on_store (get_values R (payload_queue_key a b) (payload_persist_in_progress_key a b)
         (payload_queue_metadata_key a b) (- 1))) (\<lambda>(vs, _).
     if vs = [] then returnS [] else liftS (decode_values b64 (deserialize C) vs)))"

definition get_all_payloads_raw :: "'r redis \<Rightarrow> base64 \<Rightarrow> protocol_address \<Rightarrow> buffer
    \<Rightarrow> (('r, 'l) caches, error, bytes list) step" where
  "get_all_payloads_raw R b64 a b =
     bindS (on_store (CONNECT R)) (\<lambda>_.
     bindS (on_store (get_values R (payload_queue_key a b) (payload_persist_in_progress_key a b)
         (payload_queue_metadata_key a b) (- 1))) (\<lambda>(vs, _).
     if vs = [] then returnS [] else liftS (decode_bytes b64 vs)))"

text \<open>The loop of \<open>dequeue_payload_data\<close>; \<open>n\<close> is the variable \<open>take\<close>.\<close>

function dequeue_payload_loop :: "'r redis \<Rightarrow> base64 \<Rightarrow> protocol_address \<Rightarrow> buffer \<Rightarrow> (bytes \<times> int) list
    \<Rightarrow> nat \<Rightarrow> ('r, error, (bytes \<times> int) list \<times> nat) step" where
  "dequeue_payload_loop R b64 a b result n s =
     (if EMPTY_DENIMCHUNK_SIZE \<le> n then
        let m = n - EMPTY_DENIMCHUNK_SIZE in
        (case CONNECT R s of
           (Err e, s1) \<Rightarrow> (Err e, s1)
         | (Panic, s1) \<Rightarrow> (Panic, s1)
         | (Ok _, s1) \<Rightarrow>
             (case dequeue_bytes R b64 (payload_queue_key a b) (payload_queue_metadata_key a b)
                 (payload_queue_index_key b) (payload_persist_in_progress_key a b) m s1 of
                (Err e, s2) \<Rightarrow> (Err e, s2)
              | (Panic, s2) \<Rightarrow> (Panic, s2)
              | (Ok (data, k, ord), s2) \<Rightarrow>
                  if k = 0 then
                    (Ok (result @ [(replicate m 0, chunk_type_to_i32 Dummy)], 0), s2)
                  else if k \<le> m then
                    dequeue_payload_loop R b64 a b (result @ [(data, ord)]) (m - k) s2
                  else (Panic, s2)))
      else (Ok (result, n), s))"
  by pat_completeness auto

termination
  by (relation "measure (\<lambda>(R, b64, a, b, result, n, s). n)") auto

declare dequeue_payload_loop.simps [simp del]

definition dequeue_payload_data :: "'r redis \<Rightarrow> base64 \<Rightarrow> protocol_address \<Rightarrow> buffer \<Rightarrow> nat
    \<Rightarrow> (('r, 'l) caches, error, (bytes \<times> int) list \<times> nat) step" where
  "dequeue_payload_data R b64 a b bytes_amount =
     on_store (dequeue_payload_loop R b64 a b [] bytes_amount)"

end
