(* ===== verification/Denim_Manager.thy ===== *)
theory Denim_Manager
  imports Caches
begin

text \<open>
  \<open>DenIMManager\<close> of \<open>server/src/managers/denim/denim_manager.rs\<close>: the chunks a client sent are
  queued, assembled into deniable payloads when a final chunk has arrived, and payloads for a
  client are cut into the free space of the messages sent to it. The \<open>k\<close>-th guid drawn from
  \<open>Uuid::new_v4\<close> is \<open>new_v4 k\<close>.
\<close>

section \<open>Chunk buffers\<close>

definition u64_add :: "nat \<Rightarrow> nat \<Rightarrow> ('e, nat) outcome" where
  "u64_add a b = (if a + b < 2 ^ 64 then Ok (a + b) else Panic)"

text \<open>The loop of \<open>enqueue_incoming_chunk_buffer\<close> and \<open>enqueue_outgoing_chunk_buffer\<close>.\<close>

fun enqueue_chunk_buffer :: "'r redis \<Rightarrow> base64 \<Rightarrow> denim_chunk codec \<Rightarrow> nat \<Rightarrow> (nat \<Rightarrow> string) \<Rightarrow> buffer
    \<Rightarrow> protocol_address \<Rightarrow> nat \<Rightarrow> nat \<Rightarrow> denim_chunk list \<Rightarrow> (('r, 'l) caches, error, nat) step" where
  "enqueue_chunk_buffer R b64 C now new_v4 b a k cnt [] = returnS cnt"
| "enqueue_chunk_buffer R b64 C now new_v4 b a k cnt (c # cs) =
     bindS (chunk_insert R b64 C now a b c (new_v4 k)) (\<lambda>i.
     bindS (liftS (u64_add cnt i)) (\<lambda>cnt'.
     enqueue_chunk_buffer R b64 C now new_v4 b a (k + 1) cnt' cs))"

definition enqueue_incoming_chunk_buffer :: "'r redis \<Rightarrow> base64 \<Rightarrow> denim_chunk codec \<Rightarrow> nat
    \<Rightarrow> (nat \<Rightarrow> string) \<Rightarrow> protocol_address \<Rightarrow> denim_chunk list \<Rightarrow> (('r, 'l) caches, error, nat) step" where
  "enqueue_incoming_chunk_buffer R b64 C now new_v4 sender cs =
     enqueue_chunk_buffer R b64 C now new_v4 Sender sender 0 0 cs"

definition enqueue_outgoing_chunk_buffer :: "'r redis \<Rightarrow> base64 \<Rightarrow> denim_chunk codec \<Rightarrow> nat
    \<Rightarrow> (nat \<Rightarrow> string) \<Rightarrow> protocol_address \<Rightarrow> denim_chunk list \<Rightarrow> (('r, 'l) caches, error, nat) step" where
  "enqueue_outgoing_chunk_buffer R b64 C now new_v4 receiver cs =
     enqueue_chunk_buffer R b64 C now new_v4 Receiver receiver 0 0 cs"

section \<open>Creating payloads\<close>

fun create_payloads_loop :: "'p deserializer \<Rightarrow> 'p list \<Rightarrow> denim_chunk list \<Rightarrow> denim_chunk list
    \<Rightarrow> (error, 'p list \<times> denim_chunk list) outcome" where
  "create_payloads_loop de payloads pending [] = Ok (payloads, pending)"
| "create_payloads_loop de payloads pending (c # cs) =
     bind (chunk_type_from_i32 (flags c)) (\<lambda>t.
     case t of
       Dummy \<Rightarrow> create_payloads_loop de payloads pending cs
     | Final \<Rightarrow>
         bind (de (concat (map chunk (sort_chunks pending)) @ chunk c)) (\<lambda>p.
         create_payloads_loop de (payloads @ [p]) [] cs)
     | Data _ \<Rightarrow> create_payloads_loop de payloads (pending @ [c]) cs)"

definition create_deniable_payloads :: "'p deserializer \<Rightarrow> denim_chunk list
    \<Rightarrow> (error, 'p list \<times> denim_chunk list) outcome" where
  "create_deniable_payloads de cs = create_payloads_loop de [] [] cs"

definition flush_chunk_buffer :: "'r redis \<Rightarrow> base64 \<Rightarrow> denim_chunk codec \<Rightarrow> 'p deserializer \<Rightarrow> nat
    \<Rightarrow> (nat \<Rightarrow> string) \<Rightarrow> buffer \<Rightarrow> protocol_address \<Rightarrow> (('r, 'l) caches, error, 'p list) step" where
  "flush_chunk_buffer R b64 C de now new_v4 b a =
     bindS (dequeue_chunks R b64 C b a) (\<lambda>cs.
     bindS (liftS (create_deniable_payloads de cs)) (\<lambda>(payloads, pending).
     if pending \<noteq> [] then
       bindS (enqueue_chunk_buffer R b64 C now new_v4 b a 0 0 pending) (\<lambda>_. returnS payloads)
     else returnS payloads))"

definition flush_incoming_chunk_buffer :: "'r redis \<Rightarrow> base64 \<Rightarrow> denim_chunk codec \<Rightarrow> 'p deserializer \<Rightarrow> nat
    \<Rightarrow> (nat \<Rightarrow> string) \<Rightarrow> protocol_address \<Rightarrow> (('r, 'l) caches, error, 'p list) step" where
  "flush_incoming_chunk_buffer R b64 C de now new_v4 sender =
     flush_chunk_buffer R b64 C de now new_v4 Sender sender"

definition flush_outgoing_chunk_buffer :: "'r redis \<Rightarrow> base64 \<Rightarrow> denim_chunk codec \<Rightarrow> 'p deserializer \<Rightarrow> nat
    \<Rightarrow> (nat \<Rightarrow> string) \<Rightarrow> protocol_address \<Rightarrow> (('r, 'l) caches, error, 'p list) step" where
  "flush_outgoing_chunk_buffer R b64 C de now new_v4 receiver =
     flush_chunk_buffer R b64 C de now new_v4 Receiver receiver"

section \<open>Payload buffers\<close>

fun enqueue_payloads :: "'r redis \<Rightarrow> base64 \<Rightarrow> deniable_payload codec \<Rightarrow> nat \<Rightarrow> (nat \<Rightarrow> string)
    \<Rightarrow> protocol_address \<Rightarrow> nat \<Rightarrow> nat \<Rightarrow> deniable_payload list \<Rightarrow> (('r, 'l) caches, error, nat) step" where
  "enqueue_payloads R b64 C now new_v4 a k cnt [] = returnS cnt"
| "enqueue_payloads R b64 C now new_v4 a k cnt (p # ps) =
     bindS (payload_insert R b64 C now a Receiver p (new_v4 k)) (\<lambda>i.
     bindS (liftS (u64_add cnt i)) (\<lambda>cnt'.
     enqueue_payloads R b64 C now new_v4 a (k + 1) cnt' ps))"

definition enqueue_outgoing_payload_buffer :: "'r redis \<Rightarrow> base64 \<Rightarrow> deniable_payload codec \<Rightarrow> nat
    \<Rightarrow> (nat \<Rightarrow> string) \<Rightarrow> protocol_address \<Rightarrow> deniable_payload list \<Rightarrow> (('r, 'l) caches, error, nat) step"
  where
  "enqueue_outgoing_payload_buffer R b64 C now new_v4 receiver ps =
     enqueue_payloads R b64 C now new_v4 receiver 0 0 ps"

definition dequeue_outgoing_payload_buffer :: "'r redis \<Rightarrow> base64 \<Rightarrow> protocol_address \<Rightarrow> nat
    \<Rightarrow> (('r, 'l) caches, error, denim_chunk list \<times> nat) step" where
  "dequeue_outgoing_payload_buffer R b64 receiver bytes_amount =
     bindS (dequeue_payload_data R b64 receiver Receiver bytes_amount) (\<lambda>(cs, rest).
     returnS (map (\<lambda>(d, f). \<lparr>chunk = d, flags = f\<rparr>) cs, rest))"

section \<open>Messages\<close>

definition create_denim_message :: "'r redis \<Rightarrow> base64 \<Rightarrow> (regular_payload \<Rightarrow> bytes) \<Rightarrow> chunker
    \<Rightarrow> protocol_address \<Rightarrow> envelope \<Rightarrow> (('r, 'l) caches, error, denim_message) step" where
  "create_denim_message R b64 ser_regular ck receiver env =
     (let regular = RegularEnvelope env;
          payload_size = usize_as_f32 (length (ser_regular regular)) in
      bindS (liftS (get_free_space_in_bytes ck payload_size)) (\<lambda>free_space.
      bindS (dequeue_outgoing_payload_buffer R b64 receiver free_space) (\<lambda>(cs, rest).
      returnS \<lparr>dm_regular_payload = regular, dm_chunks = cs, dm_counter = None,
        dm_q = Some (q_value ck), dm_ballast = replicate rest 0\<rparr>)))"

section \<open>Keys\<close>

lemmas chunk_key_defs = chunk_queue_key_def chunk_persist_in_progress_key_def
  chunk_queue_metadata_key_def chunk_queue_index_key_def braced_def rev_key_def

lemmas payload_key_defs = payload_queue_key_def payload_persist_in_progress_key_def
  payload_queue_metadata_key_def payload_queue_index_key_def braced_def rev_key_def

text \<open>The keys of one queue are different from each other, and the lock is none of them.\<close>

lemma chunk_keys_distinct:
  "distinct [chunk_persist_in_progress_key a b, chunk_queue_key a b, chunk_queue_metadata_key a b,
     rev_key (chunk_queue_metadata_key a b), chunk_queue_index_key b]"
  by (cases b) (simp_all add: chunk_key_defs)

lemma payload_keys_distinct:
  "distinct [payload_persist_in_progress_key a b, payload_queue_key a b, payload_queue_metadata_key a b,
     rev_key (payload_queue_metadata_key a b), payload_queue_index_key b]"
  by (cases b) (simp_all add: payload_key_defs)

section \<open>What a chunk queue holds\<close>

definition chunk_rep :: "base64 \<Rightarrow> denim_chunk codec \<Rightarrow> protocol_address \<Rightarrow> buffer \<Rightarrow> keyspace \<Rightarrow> nat
    \<Rightarrow> (string \<times> denim_chunk) list \<Rightarrow> bool" where
  "chunk_rep b64 C a b K c xs \<longleftrightarrow> (\<exists>items.
     queue_rep b64 (chunk_queue_key a b) (chunk_queue_metadata_key a b) (chunk_queue_index_key b) K c items \<and>
     map (\<lambda>it. (item_guid it, item_value it)) items = map (\<lambda>(g, x). (g, serialize C x)) xs \<and>
     str_key K (chunk_persist_in_progress_key a b) \<and> strs K (chunk_persist_in_progress_key a b) = None)"

lemma str_key_same: "\<lbrakk> same_except S K K'; k \<notin> S \<rbrakk> \<Longrightarrow> str_key K' k = str_key K k \<and> strs K' k = strs K k"
  by (simp add: same_except_def str_key_def)

lemma chunk_lock_same:
  assumes "same_except {chunk_queue_key a b, chunk_queue_metadata_key a b,
      rev_key (chunk_queue_metadata_key a b), chunk_queue_index_key b} K K'"
  shows "str_key K' (chunk_persist_in_progress_key a b) = str_key K (chunk_persist_in_progress_key a b)"
    "strs K' (chunk_persist_in_progress_key a b) = strs K (chunk_persist_in_progress_key a b)"
  using str_key_same [OF assms, of "chunk_persist_in_progress_key a b"] chunk_keys_distinct [of a b] by auto

end
