(* ===== verification/Reassembly.thy ===== *)
theory Reassembly
  imports Denim_Manager
begin

text \<open>
  The end of a deniable payload's way: \<open>create_deniable_payloads\<close> on the server against the
  specification \<open>assemble\<close>, and the flags that the chunkers put on the chunks of one payload, which
  make sorting the pending chunks the right thing to do.
\<close>

section \<open>Streams of chunks\<close>

text \<open>The flags of the data chunks of one payload decrease; \<open>hi\<close> bounds the next one.\<close>

fun well_ordered :: "int \<Rightarrow> denim_chunk list \<Rightarrow> bool" where
  "well_ordered hi [] = True"
| "well_ordered hi (c # cs) =
     (if is_dummy c then well_ordered hi cs
      else if is_final c then well_ordered 0 cs
      else flags c \<le> hi \<and> well_ordered (flags c - 1) cs)"

fun hi_after :: "int \<Rightarrow> denim_chunk list \<Rightarrow> int" where
  "hi_after hi [] = hi"
| "hi_after hi (c # cs) =
     (if is_dummy c then hi_after hi cs else if is_final c then hi_after 0 cs else hi_after (flags c - 1) cs)"

text \<open>The data chunks after the last final one.\<close>

fun pending_after :: "denim_chunk list \<Rightarrow> denim_chunk list \<Rightarrow> denim_chunk list" where
  "pending_after pend [] = pend"
| "pending_after pend (c # cs) =
     (if is_dummy c then pending_after pend cs
      else if is_final c then pending_after [] cs
      else pending_after (pend @ [c]) cs)"

lemma well_ordered_append:
  "well_ordered hi (cs @ ds) \<longleftrightarrow> well_ordered hi cs \<and> well_ordered (hi_after hi cs) ds"
  by (induction cs arbitrary: hi) auto

lemma hi_after_append: "hi_after hi (cs @ ds) = hi_after (hi_after hi cs) ds"
  by (induction cs arbitrary: hi) auto

lemma pending_after_append: "pending_after pend (cs @ ds) = pending_after (pending_after pend cs) ds"
  by (induction cs arbitrary: pend) auto

lemma assemble_append:
  "assemble acc (cs @ ds) =
     (case assemble acc cs of (ps, acc1) \<Rightarrow> case assemble acc1 ds of (qs, acc2) \<Rightarrow> (ps @ qs, acc2))"
  by (induction cs arbitrary: acc) (auto split: prod.splits)

lemma assemble_pending: "snd (assemble (concat (map chunk pend)) cs) = concat (map chunk (pending_after pend cs))"
proof (induction cs arbitrary: pend)
  case (Cons c cs)
  show ?case
    using Cons.IH [of pend] Cons.IH [of "[]"] Cons.IH [of "pend @ [c]"]
    by (auto split: prod.splits)
qed simp

section \<open>Creating payloads is reassembly\<close>

text \<open>A pending list in which later flags are smaller, all above \<open>hi\<close>.\<close>

definition pending_ok :: "int \<Rightarrow> denim_chunk list \<Rightarrow> bool" where
  "pending_ok hi pend \<longleftrightarrow> sorted_wrt (\<lambda>a b. flags b < flags a) pend \<and> (\<forall>c \<in> set pend. hi < flags c) \<and> hi \<le> 0"

lemma pending_ok_sorted:
  assumes "pending_ok hi pend" shows "sort_chunks pend = pend"
proof -
  have "sorted_wrt (\<lambda>a b. flags b \<le> flags a) pend"
    using assms by (auto simp: pending_ok_def intro: sorted_wrt_mono_rel [of pend "\<lambda>a b. flags b < flags a"])
  then show ?thesis by (rule sort_chunks_id)
qed

lemma pending_ok_snoc: "\<lbrakk> pending_ok hi pend; flags c \<le> hi \<rbrakk> \<Longrightarrow> pending_ok (flags c - 1) (pend @ [c])"
  by (fastforce simp: pending_ok_def sorted_wrt_append)

lemma pending_ok_Nil [simp]: "pending_ok hi [] \<longleftrightarrow> hi \<le> 0"
  by (simp add: pending_ok_def)

lemma chunk_type_data: "\<lbrakk> flags c \<le> 0 \<rbrakk> \<Longrightarrow> chunk_type_from_i32 (flags c) = Ok (Data (flags c))"
  by (simp add: chunk_type_from_i32_def)

lemma create_payloads_loop_assemble:
  assumes "well_ordered hi cs" "pending_ok hi pend"
  shows "create_payloads_loop de ps pend cs =
    bind (map_outcome de (fst (assemble (concat (map chunk pend)) cs))) (\<lambda>qs.
      Ok (ps @ qs, pending_after pend cs))"
  using assms
proof (induction cs arbitrary: hi ps pend)
  case (Cons c cs)
  consider "is_dummy c" | "is_final c" | "\<not> is_dummy c" "\<not> is_final c" by blast
  then show ?case
  proof cases
    case 1
    with Cons show ?thesis by (auto simp: is_dummy_def chunk_type_from_i32_def)
  next
    case 2
    then have "well_ordered 0 cs" using Cons.prems(1) by (auto simp: is_dummy_def is_final_def)
    with Cons.IH [of 0 "[]"] 2 pending_ok_sorted [OF Cons.prems(2)] show ?thesis
      by (auto simp: is_dummy_def is_final_def chunk_type_from_i32_def outcome_simps split: prod.splits
          intro!: bind_cong)
  next
    case 3
    with Cons.prems have le: "flags c \<le> hi" "well_ordered (flags c - 1) cs" "hi \<le> 0"
      by (auto simp: pending_ok_def)
    with 3 Cons.IH [OF le(2) pending_ok_snoc [OF Cons.prems(2) le(1)], of ps] show ?thesis
      by (simp add: chunk_type_data)
  qed
qed simp

lemma create_payloads_data_final:
  assumes "list_all (\<lambda>c. flags c \<le> 0) cs" "is_final c"
  shows "create_payloads_loop de ps pend (cs @ [c]) =
    bind (de (concat (map chunk (sort_chunks (pend @ cs))) @ chunk c)) (\<lambda>p. Ok (ps @ [p], []))"
  using assms
proof (induction cs arbitrary: pend)
  case Nil
  then show ?case by (simp add: is_final_def chunk_type_from_i32_def)
next
  case (Cons d cs)
  then show ?case by (simp add: chunk_type_data)
qed

lemma create_payloads_loop_pending:
  "create_payloads_loop de ps pend cs = Ok (qs, pend') \<Longrightarrow> length pend' \<le> length pend + length cs"
proof (induction cs arbitrary: ps pend)
  case (Cons c cs)
  then show ?case
    by (auto simp: outcome_simps chunk_type_from_i32_def split: if_splits dest!: Cons.IH)
qed simp

lemma create_deniable_payloads_pending:
  "create_deniable_payloads de cs = Ok (ps, pend) \<Longrightarrow> length pend \<le> length cs"
  unfolding create_deniable_payloads_def by (drule create_payloads_loop_pending) simp

section \<open>The chunks of several messages\<close>

text \<open>A queue of payloads, emptied into the free space of one message after the other.\<close>

fun fill_rounds :: "(int \<Rightarrow> int) \<Rightarrow> nat list \<Rightarrow> row list \<Rightarrow> denim_chunk list \<times> row list" where
  "fill_rounds bump [] rows = ([], rows)"
| "fill_rounds bump (free # frees) rows =
     (let (cs, _, rows1) = fill bump free rows; (ds, rows2) = fill_rounds bump frees rows1 in (cs @ ds, rows2))"

definition head_le :: "int \<Rightarrow> row list \<Rightarrow> bool" where
  "head_le hi rows \<longleftrightarrow> hi \<le> 0 \<and> (case rows of [] \<Rightarrow> True | (d, c) # _ \<Rightarrow> c \<le> hi)"

lemma head_le_0: "rows_data rows \<Longrightarrow> head_le 0 rows"
  by (auto simp: head_le_def rows_data_def split: list.split)

lemma fill_well_ordered:
  assumes "fill bump free rows = (cs, f, rows')" "rows_data rows" "head_le hi rows" "\<And>c. bump c \<le> c"
  shows "well_ordered hi cs \<and> head_le (hi_after hi cs) rows' \<and> rows_data rows'"
  using assms(1-3)
proof (induction free rows arbitrary: cs f rows' hi rule: fill_cases)
  case (whole free d c rs)
  obtain cs1 f1 rs1 where rec: "fill bump (free - 12 - length d) rs = (cs1, f1, rs1)"
    by (cases "fill bump (free - 12 - length d) rs") auto
  have "well_ordered 0 cs1 \<and> head_le (hi_after 0 cs1) rs1 \<and> rows_data rs1"
    using whole.prems(2) by (intro whole.IH [OF rec]) (simp_all add: head_le_0)
  then show ?case
    using whole.prems(1) fill_whole [OF whole.hyps rec] by (auto simp: is_dummy_def is_final_def)
next
  case (zero d c rs)
  then show ?case
    using assms(4) [of c] by (auto simp: fill_zero head_le_def dummy_chunk_def is_dummy_def)
qed (auto simp: fill_none fill_empty fill_blocked fill_cut dummy_chunk_def is_dummy_def is_final_def head_le_def)

text \<open>When the queue is empty nothing is left to be completed.\<close>

lemma fill_assemble_done:
  assumes "fill bump free rows = (cs, f, rows')" "rows_data rows" "rows = [] \<Longrightarrow> acc = []" "rows' = []"
  shows "snd (assemble acc cs) = []"
  using assms
proof (induction free rows arbitrary: cs f rows' acc rule: fill_cases)
  case (whole free d c rs)
  obtain cs1 f1 rs1 where rec: "fill bump (free - 12 - length d) rs = (cs1, f1, rs1)"
    by (cases "fill bump (free - 12 - length d) rs") auto
  have "rs1 = []" using whole.prems(1,4) fill_whole [OF whole.hyps rec] by auto
  then have "snd (assemble [] cs1) = []" using whole.prems(2) by (intro whole.IH [OF rec]) simp_all
  then show ?case
    using whole.prems(1) fill_whole [OF whole.hyps rec]
    by (auto simp: is_dummy_def is_final_def split: prod.splits)
qed (auto simp: fill_none fill_empty fill_zero fill_blocked fill_cut dummy_chunk_def is_dummy_def is_final_def)

lemma fill_rounds_assemble:
  assumes "fill_rounds bump frees rows = (cs, rows')" "rows_data rows" "head_le hi rows" "\<And>c. bump c \<le> c"
    "rows = [] \<Longrightarrow> acc = []"
  shows "well_ordered hi cs" and "fst (assemble acc cs) @ outstanding (snd (assemble acc cs)) rows' =
    outstanding acc rows"
proof -
  have "well_ordered hi cs \<and> fst (assemble acc cs) @ outstanding (snd (assemble acc cs)) rows' = outstanding acc rows"
    using assms(1-3,5)
  proof (induction frees arbitrary: rows cs hi acc)
    case (Cons free frees)
    obtain cs1 f1 rows1 where fl: "fill bump free rows = (cs1, f1, rows1)"
      by (cases "fill bump free rows") auto
    obtain cs2 where rs: "fill_rounds bump frees rows1 = (cs2, rows')" and cs: "cs = cs1 @ cs2"
      using Cons.prems(1) fl by (auto split: prod.splits)
    note wo = fill_well_ordered [OF fl Cons.prems(2,3) assms(4)]
    obtain ps acc1 where as: "assemble acc cs1 = (ps, acc1)" by fastforce
    have step: "ps @ outstanding acc1 rows1 = outstanding acc rows"
      using fill_assemble [OF fl Cons.prems(2) _ as] Cons.prems(4) by blast
    have "rows1 = [] \<Longrightarrow> acc1 = []"
      using fill_assemble_done [OF fl Cons.prems(2)] Cons.prems(4) as by (metis snd_conv)
    with Cons.IH [OF rs, of "hi_after hi cs1" acc1] wo
    have "well_ordered (hi_after hi cs1) cs2 \<and>
        fst (assemble acc1 cs2) @ outstanding (snd (assemble acc1 cs2)) rows' = outstanding acc1 rows1" by blast
    then show ?case
      using wo step by (auto simp: cs well_ordered_append assemble_append as split: prod.splits)
  qed simp
  then show "well_ordered hi cs"
    and "fst (assemble acc cs) @ outstanding (snd (assemble acc cs)) rows' = outstanding acc rows" by auto
qed

text \<open>Whatever the sizes of the messages, the chunks of the queue are the payloads in order.\<close>

lemma rounds_rebuild:
  assumes "fill_rounds (\<lambda>c. c) frees rows = (cs, rows')" and "rows_data rows"
  shows "\<exists>sent pend. create_deniable_payloads de cs =
      bind (map_outcome de sent) (\<lambda>ps. Ok (ps, pend)) \<and>
    sent @ outstanding (concat (map chunk pend)) rows' = map fst rows"
proof -
  note rounds = fill_rounds_assemble [OF assms head_le_0 [OF assms(2)], of "[]"]
  have "create_deniable_payloads de cs =
      bind (map_outcome de (fst (assemble [] cs))) (\<lambda>ps. Ok (ps, pending_after [] cs))"
    using create_payloads_loop_assemble [of 0 cs "[]" de "[]"] rounds(1)
    by (simp add: create_deniable_payloads_def)
  moreover have "fst (assemble [] cs) @ outstanding (concat (map chunk (pending_after [] cs))) rows' = map fst rows"
    using rounds(2) assemble_pending [of "[]" cs] by (simp add: outstanding_Nil_acc)
  ultimately show ?thesis by blast
qed

section \<open>Chunks out of order\<close>

text \<open>
  Two neighbours of a stream that may change places: a dummy and any chunk, and two data chunks with
  different flags. A data chunk and a final chunk may not, and neither may chunks with the same flag.
\<close>

definition may_swap :: "denim_chunk \<Rightarrow> denim_chunk \<Rightarrow> bool" where
  "may_swap c d \<longleftrightarrow> is_dummy c \<or> is_dummy d \<or> (flags c \<le> 0 \<and> flags d \<le> 0 \<and> flags c \<noteq> flags d)"

inductive reordered :: "denim_chunk list \<Rightarrow> denim_chunk list \<Rightarrow> bool" where
  in_order: "reordered cs cs"
| swap: "\<lbrakk> may_swap c d; reordered (xs @ d # c # ys) ds \<rbrakk> \<Longrightarrow> reordered (xs @ c # d # ys) ds"

text \<open>The same answer: the same payloads or the same error, and pending chunks that sort to the same.\<close>

definition same_rebuild :: "('e, 'p list \<times> denim_chunk list) outcome \<Rightarrow> ('e, 'p list \<times> denim_chunk list) outcome \<Rightarrow> bool" where
  "same_rebuild r r' \<longleftrightarrow>
     (case r of
        Ok (ps, pend) \<Rightarrow> (\<exists>pend'. r' = Ok (ps, pend') \<and> mset pend' = mset pend \<and> sort_chunks pend' = sort_chunks pend)
      | _ \<Rightarrow> r' = r)"

lemma same_rebuild_refl [simp]: "same_rebuild r r"
  by (auto simp: same_rebuild_def split: outcome.split)

lemma same_rebuild_trans: "same_rebuild r r' \<Longrightarrow> same_rebuild r' r'' \<Longrightarrow> same_rebuild r r''"
  by (cases r; cases r') (auto simp: same_rebuild_def)

lemma same_rebuild_bind: "(\<And>x. same_rebuild (f x) (g x)) \<Longrightarrow> same_rebuild (bind m f) (bind m g)"
  by (cases m) simp_all

text \<open>Sorting is stable: its result depends on the chunks of each flag only.\<close>

lemma sort_chunks_cong:
  fixes cs ds :: "denim_chunk list"
  assumes "\<And>i. filter (\<lambda>c. flags c = i) cs = filter (\<lambda>c. flags c = i) ds"
  shows "sort_chunks cs = sort_chunks ds" and "mset cs = mset ds"
proof -
  have stable: "filter (\<lambda>c. flags c = i) (sort_chunks es) = filter (\<lambda>c. flags c = i) es" for i es
    using sort_key_stable [of "\<lambda>c. - flags c" "- i" es] by (simp add: sort_chunks_def)
  show ms: "mset cs = mset ds"
  proof (rule multiset_eqI)
    fix x :: denim_chunk
    have count: "Multiset.count (mset es) x = Multiset.count (mset (filter (\<lambda>c. flags c = flags x) es)) x" for es :: "denim_chunk list" by simp
    show "Multiset.count (mset cs) x = Multiset.count (mset ds) x" by (subst (1 2) count) (simp only: assms)
  qed
  have "sort_key (\<lambda>c. - flags c) cs = sort_chunks ds"
  proof (rule properties_for_sort_key)
    show "mset (sort_chunks ds) = mset cs" by (simp add: ms)
    show "filter (\<lambda>c. - flags k = - flags c) (sort_chunks ds) = filter (\<lambda>c. - flags k = - flags c) cs" for k
      using stable [of "flags k" ds] assms [of "flags k"] by (simp add: eq_commute [of "flags k"])
    show "sorted (map (\<lambda>c. - flags c) (sort_chunks ds))" by (simp add: sort_chunks_def)
  qed
  then show "sort_chunks cs = sort_chunks ds" by (simp add: sort_chunks_def)
qed

definition same_pending :: "denim_chunk list \<Rightarrow> denim_chunk list \<Rightarrow> bool" where
  "same_pending cs ds \<longleftrightarrow> (\<forall>i. filter (\<lambda>c. flags c = i) cs = filter (\<lambda>c. flags c = i) ds)"

lemma same_pending_sorted: "same_pending cs ds \<Longrightarrow> sort_chunks cs = sort_chunks ds \<and> mset cs = mset ds"
  using sort_chunks_cong [of cs ds] unfolding same_pending_def by blast

lemma same_pending_snoc: "same_pending cs ds \<Longrightarrow> same_pending (cs @ [c]) (ds @ [c])"
  by (simp add: same_pending_def)

lemma same_pending_swap: "flags c \<noteq> flags d \<Longrightarrow> same_pending (cs @ [c, d]) (cs @ [d, c])"
  by (auto simp: same_pending_def)

lemma create_payloads_same_pending:
  "same_pending pend pend' \<Longrightarrow> same_rebuild (create_payloads_loop de ps pend cs) (create_payloads_loop de ps pend' cs)"
proof (induction cs arbitrary: ps pend pend')
  case Nil
  then show ?case using same_pending_sorted [OF Nil] by (simp add: same_rebuild_def)
next
  case (Cons c cs)
  have "same_rebuild (create_payloads_loop de ps (pend @ [c]) cs) (create_payloads_loop de ps (pend' @ [c]) cs)"
    by (rule Cons.IH [OF same_pending_snoc [OF Cons.prems]])
  then show ?case
    using Cons.IH [OF Cons.prems] same_pending_sorted [OF Cons.prems]
    by (auto intro!: same_rebuild_bind split: chunk_type.split)
qed

lemma create_payloads_dummy: "is_dummy c \<Longrightarrow> create_payloads_loop de ps pend (c # cs) = create_payloads_loop de ps pend cs"
  by (simp add: is_dummy_def chunk_type_from_i32_def)

lemma create_payloads_skip:
  assumes "is_dummy c"
  shows "create_payloads_loop de ps pend (d # c # cs) = create_payloads_loop de ps pend (d # cs)"
  unfolding create_payloads_loop.simps(2) [of de ps pend d] create_payloads_dummy [OF assms] by (rule refl)

lemma create_payloads_swap:
  assumes "may_swap c d"
  shows "same_rebuild (create_payloads_loop de ps pend (xs @ c # d # ys)) (create_payloads_loop de ps pend (xs @ d # c # ys))"
proof (induction xs arbitrary: ps pend)
  case Nil
  consider "is_dummy c" | "is_dummy d" | "flags c \<le> 0" "flags d \<le> 0" "flags c \<noteq> flags d"
    using assms by (auto simp: may_swap_def)
  then show ?case
  proof cases
    case 1
    show ?thesis by (simp only: append_Nil create_payloads_dummy [OF 1] create_payloads_skip [OF 1] same_rebuild_refl)
  next
    case 2
    show ?thesis by (simp only: append_Nil create_payloads_dummy [OF 2] create_payloads_skip [OF 2] same_rebuild_refl)
  next
    case 3
    then show ?thesis
      using create_payloads_same_pending [OF same_pending_swap [OF 3(3), of pend], of de ps ys]
      by (simp add: chunk_type_data)
  qed
next
  case (Cons x xs)
  then show ?case by (auto intro!: same_rebuild_bind split: chunk_type.split)
qed

section \<open>Properties\<close>

text \<open>
  C1 (roundtrip). The payloads in a client's queue reach the server complete and in order: when
  the queue is cut into the free space of any sequence of messages, \<open>create_deniable_payloads\<close> on
  all the chunks sent so far yields exactly the payloads deserialised from the first entries of
  the queue, and the chunks it leaves pending together with what is still queued are the rest.
\<close>

theorem create_deniable_payloads_end_to_end:
  assumes "fill_rounds (\<lambda>c. c) frees rows = (cs, rows')" and "rows_data rows"
  shows "\<exists>sent pend. create_deniable_payloads de cs =
      bind (map_outcome de sent) (\<lambda>ps. Ok (ps, pend)) \<and>
    sent @ outstanding (concat (map chunk pend)) rows' = map fst rows"
  using assms by (rule rounds_rebuild)

theorem create_deniable_payloads_end_to_end_witness:
  "\<exists>sent pend. create_deniable_payloads Ok
      [\<lparr>chunk = [1, 2], flags = 2\<rparr>, \<lparr>chunk = [3, 4, 5], flags = 0\<rparr>, \<lparr>chunk = [6], flags = 2\<rparr>,
       \<lparr>chunk = [], flags = 1\<rparr>, \<lparr>chunk = [7], flags = 0\<rparr>] = bind (map_outcome Ok sent) (\<lambda>ps. Ok (ps, pend)) \<and>
    sent @ outstanding (concat (map chunk pend)) [([8], - 1)] = [[1, 2], [3, 4, 5, 6], [7, 8]]"
proof -
  let ?rows = "[([1, 2], 0), ([3, 4, 5, 6], 0), ([7, 8], 0)] :: row list"
  have "fill_rounds (\<lambda>c. c) [29, 25, 13] ?rows =
      ([\<lparr>chunk = [1, 2], flags = 2\<rparr>, \<lparr>chunk = [3, 4, 5], flags = 0\<rparr>, \<lparr>chunk = [6], flags = 2\<rparr>,
        \<lparr>chunk = [], flags = 1\<rparr>, \<lparr>chunk = [7], flags = 0\<rparr>], [([8], - 1)])"
    by (simp add: fill.simps dummy_chunk_def Let_def)
  from create_deniable_payloads_end_to_end [OF this, of Ok] show ?thesis by simp
qed

text \<open>
  C6 (functional). How far chunks may be stored out of order: a stream in which dummies have moved
  anywhere, and data chunks with different flags have changed places without passing a final
  chunk, however often, is rebuilt to the same payloads or fails with the same error, and leaves the
  same chunks pending, in another order at most, which sorting removes. A chunk that passes the
  final chunk of its payload is outside of this, and so are chunks with the same flag, whose order
  sorting keeps.
\<close>

theorem create_deniable_payloads_permute:
  assumes "reordered cs ds"
  shows "same_rebuild (create_deniable_payloads de cs) (create_deniable_payloads de ds)"
  using assms
proof (induction rule: reordered.induct)
  case (swap c d xs ys ds)
  show ?case
    by (rule same_rebuild_trans [OF _ swap.IH])
      (simp add: create_deniable_payloads_def create_payloads_swap [OF swap.hyps(1)])
qed simp

theorem create_deniable_payloads_permute_witness:
  "\<exists>pend. create_deniable_payloads Ok [\<lparr>chunk = [3], flags = - 1\<rparr>, \<lparr>chunk = [1, 2], flags = 0\<rparr>, \<lparr>chunk = [], flags = 1\<rparr>,
      \<lparr>chunk = [4], flags = 2\<rparr>, \<lparr>chunk = [6], flags = - 1\<rparr>, \<lparr>chunk = [5], flags = 0\<rparr>] = Ok ([[1, 2, 3, 4]], pend) \<and>
    sort_chunks pend = [\<lparr>chunk = [5], flags = 0\<rparr>, \<lparr>chunk = [6], flags = - 1\<rparr>]"
proof -
  let ?a = "\<lparr>chunk = [1, 2], flags = 0\<rparr> :: denim_chunk" and ?b = "\<lparr>chunk = [3], flags = - 1\<rparr> :: denim_chunk"
    and ?x = "\<lparr>chunk = [], flags = 1\<rparr> :: denim_chunk" and ?f = "\<lparr>chunk = [4], flags = 2\<rparr> :: denim_chunk"
    and ?c = "\<lparr>chunk = [5], flags = 0\<rparr> :: denim_chunk" and ?d = "\<lparr>chunk = [6], flags = - 1\<rparr> :: denim_chunk"
  have swaps: "may_swap ?a ?b" "may_swap ?f ?x" "may_swap ?c ?d" by (simp_all add: may_swap_def is_dummy_def)
  have "reordered ([] @ ?a # ?b # [?f, ?x, ?c, ?d]) [?b, ?a, ?x, ?f, ?d, ?c]"
    using swaps(2,3) reordered.swap [OF swaps(2), of "[?b, ?a]" "[?c, ?d]"]
      reordered.swap [OF swaps(3), of "[?b, ?a, ?x, ?f]" "[]"] reordered.in_order
    by (intro reordered.swap [OF swaps(1)]) simp
  from create_deniable_payloads_permute [OF this, of Ok] show ?thesis
    by (auto simp: same_rebuild_def create_deniable_payloads_def chunk_type_from_i32_def sort_chunks_def)
qed

end
