(* ===== verification/Bincode.thy ===== *)
theory Bincode
  imports Chunker
begin

text \<open>
  The format bincode documents for the types of the chunks: integers little-endian at their
  width, a vector as its length in eight bytes followed by its elements, a struct as its fields in
  order. It satisfies what the chunker relies on (\<open>chunk_codec\<close>) and reads back what it wrote.
\<close>

section \<open>Little-endian integers\<close>

fun le_bytes :: "nat \<Rightarrow> nat \<Rightarrow> bytes" where
  "le_bytes 0 n = []"
| "le_bytes (Suc k) n = word_of_nat (n mod 256) # le_bytes k (n div 256)"

fun le_value :: "bytes \<Rightarrow> nat" where
  "le_value [] = 0"
| "le_value (b # bs) = unat b + 256 * le_value bs"

lemma le_bytes_length [simp]: "length (le_bytes k n) = k"
  by (induction k arbitrary: n) auto

lemma le_value_bytes: "n < 256 ^ k \<Longrightarrow> le_value (le_bytes k n) = n"
proof (induction k arbitrary: n)
  case (Suc k)
  have "n div 256 < 256 ^ k" using Suc.prems by (simp add: less_mult_imp_div_less mult.commute)
  moreover have "unat (word_of_nat (n mod 256) :: byte) = n mod 256"
    by (simp add: unat_of_nat)
  ultimately show ?case using Suc.IH by simp
qed simp

definition i32_bytes :: "int \<Rightarrow> bytes" where
  "i32_bytes x = le_bytes 4 (nat (x mod 2 ^ 32))"

definition i32_value :: "bytes \<Rightarrow> int" where
  "i32_value bs = (let n = int (le_value bs) in if n < 2 ^ 31 then n else n - 2 ^ 32)"

lemma i32_bytes_length [simp]: "length (i32_bytes x) = 4"
  by (simp add: i32_bytes_def)

lemma i32_value_bytes:
  assumes "in_i32 x" shows "i32_value (i32_bytes x) = x"
proof -
  have "le_value (i32_bytes x) = nat (x mod 2 ^ 32)"
    unfolding i32_bytes_def by (rule le_value_bytes) simp
  moreover have "x mod 2 ^ 32 = (if x < 0 then x + 2 ^ 32 else x)"
  proof (cases "x < 0")
    case True
    have "x mod 2 ^ 32 = (x + 2 ^ 32) mod 2 ^ 32" by simp
    also have "\<dots> = x + 2 ^ 32" using assms True by (intro mod_pos_pos_trivial) (auto simp: in_i32_def)
    finally show ?thesis using True by simp
  next
    case False
    then show ?thesis using assms by (simp add: in_i32_def)
  qed
  ultimately show ?thesis
    using assms by (auto simp: i32_value_def in_i32_def Let_def)
qed

section \<open>Chunks\<close>

definition bincode_chunk :: "denim_chunk \<Rightarrow> bytes" where
  "bincode_chunk c = le_bytes 8 (length (chunk c)) @ chunk c @ i32_bytes (flags c)"

definition bincode_chunks :: "denim_chunk list \<Rightarrow> bytes" where
  "bincode_chunks cs = le_bytes 8 (length cs) @ concat (map bincode_chunk cs)"

definition bincode_read_chunk :: "bytes \<Rightarrow> (error, denim_chunk) outcome" where
  "bincode_read_chunk bs =
     (if length bs < 8 then Err ''io error: unexpected end of file''
      else let n = le_value (take 8 bs); rest = drop 8 bs in
        if length rest < n + 4 then Err ''io error: unexpected end of file''
        else Ok \<lparr>chunk = take n rest, flags = i32_value (take 4 (drop n rest))\<rparr>)"

lemma bincode_chunks_length: "length (bincode_chunks cs) = chunks_size cs"
proof -
  have "length (concat (map bincode_chunk cs)) = (\<Sum>c\<leftarrow>cs. 12 + length (chunk c))"
    by (induction cs) (simp_all add: bincode_chunk_def)
  then show ?thesis by (simp add: bincode_chunks_def chunks_size_def)
qed

interpretation bincode: chunk_codec bincode_chunks
  by unfold_locales (rule bincode_chunks_length)

definition chunk_encodable :: "denim_chunk \<Rightarrow> bool" where
  "chunk_encodable c \<longleftrightarrow> length (chunk c) < 2 ^ 64 \<and> in_i32 (flags c)"

lemma bincode_read_write:
  assumes "chunk_encodable c" shows "bincode_read_chunk (bincode_chunk c) = Ok c"
proof -
  have "le_value (le_bytes 8 (length (chunk c))) = length (chunk c)"
    using assms by (intro le_value_bytes) (simp add: chunk_encodable_def)
  moreover have "i32_value (i32_bytes (flags c)) = flags c"
    using assms by (intro i32_value_bytes) (simp add: chunk_encodable_def)
  ultimately show ?thesis
    by (simp add: bincode_read_chunk_def bincode_chunk_def)
qed

section \<open>One payload\<close>

text \<open>The rows left of one payload: none when it was sent to its end.\<close>

definition row_of :: "payload_data \<Rightarrow> row list" where
  "row_of p = (if chunk p = [] then [] else [(chunk p, flags p)])"

context chunk_codec
begin

lemma ordered_step:
  assumes "12 \<le> free" "next_ordered_chunk (free - 12) data cnt = Ok (c, data', cnt')"
    "chunks_size out + free = tot"
  shows "create_ordered_chunks_loop ser tot out free data cnt =
    create_ordered_chunks_loop ser tot (out @ [c]) (free - 12 - length (chunk c)) data' cnt'"
proof -
  have "length (chunk c) \<le> free - 12" using assms(2) by (rule next_ordered_chunk_fits)
  moreover have "chunks_size (out @ [c]) = chunks_size out + 12 + length (chunk c)"
    using chunks_size_append [of out "[c]"] by simp
  ultimately have "usize_sub tot (length (ser (out @ [c]))) =
      (Ok (free - 12 - length (chunk c)) :: (error, nat) outcome)"
    using assms(1,3) by (auto simp: ser_len usize_sub_def)
  with assms(1,2) show ?thesis by (subst create_ordered_chunks_loop.simps) simp
qed

lemma ordered_stop:
  "free < 12 \<Longrightarrow> create_ordered_chunks_loop ser tot out free data cnt =
    Some (Ok (out, free, \<lparr>chunk = data, flags = cnt\<rparr>))"
  by (subst create_ordered_chunks_loop.simps) simp

lemma ordered_dummy:
  assumes "12 \<le> free" "data = [] \<or> free = 12" "chunks_size out + free = tot"
  shows "create_ordered_chunks_loop ser tot out free data cnt =
    Some (Ok (out @ [dummy_chunk (free - 12)], 0, \<lparr>chunk = data, flags = cnt\<rparr>))"
proof -
  have "next_ordered_chunk (free - 12) data cnt = Ok (dummy_chunk (free - 12), data, cnt)"
    using assms(2) by (auto simp: next_ordered_chunk_def dummy_chunk_def)
  from ordered_step [OF assms(1) this assms(3)] show ?thesis
    by (simp add: ordered_stop dummy_chunk_def)
qed

text \<open>\<open>create_ordered_chunks\<close> fills the space as the specification says for a queue of one payload.\<close>

lemma ordered_loop_refines:
  assumes fill: "fill (\<lambda>c. c) free (row_of \<lparr>chunk = data, flags = cnt\<rparr>) = (cs, f, rows')"
    and cnt: "- (2 ^ 31) < cnt" "cnt \<le> 0" and "chunks_size out + free = tot"
  shows "\<exists>p. create_ordered_chunks_loop ser tot out free data cnt = Some (Ok (out @ cs, f, p)) \<and>
    row_of p = rows'"
proof -
  consider "free < 12" | "12 \<le> free" "data = [] \<or> free = 12"
    | "data \<noteq> []" "12 + length data \<le> free" | "12 < free" "free < 12 + length data" "data \<noteq> []"
    by (cases "data = []"; linarith)
  then show ?thesis
  proof cases
    case 1
    then show ?thesis using fill by (auto simp: fill_none ordered_stop)
  next
    case 2
    then have "fill (\<lambda>c. c) free (row_of \<lparr>chunk = data, flags = cnt\<rparr>) =
        ([dummy_chunk (free - 12)], 0, row_of \<lparr>chunk = data, flags = cnt\<rparr>)"
      by (auto simp: row_of_def fill_empty fill_zero)
    with 2 fill assms(4) show ?thesis by (auto simp: ordered_dummy)
  next
    case 3
    let ?c = "\<lparr>chunk = data, flags = 2\<rparr>"
    have n: "12 \<le> free" "length data \<le> free - 12" "free - 12 \<noteq> 0" using 3 by (cases data; simp)+
    then have nxt: "next_ordered_chunk (free - 12) data cnt = Ok (?c, [], cnt)"
      using 3 by (simp add: next_ordered_chunk_def)
    let ?rest = "free - 12 - length data"
    have tot: "chunks_size (out @ [?c]) + ?rest = tot"
      using 3 assms(4) chunks_size_append [of out "[?c]"] by simp
    obtain cs1 f1 rs1 where rec: "fill (\<lambda>c. c) ?rest [] = (cs1, f1, rs1)"
      by (cases "fill (\<lambda>c. c) ?rest []") auto
    have eq: "cs = ?c # cs1" "f = f1" "rows' = rs1"
      using fill 3 fill_whole [OF 3 rec] by (auto simp: row_of_def)
    have "create_ordered_chunks_loop ser tot (out @ [?c]) ?rest [] cnt =
        Some (Ok ((out @ [?c]) @ cs1, f1, \<lparr>chunk = [], flags = cnt\<rparr>)) \<and> rs1 = []"
      using rec tot by (cases "?rest < 12") (auto simp: fill_none fill_empty ordered_stop ordered_dummy)
    with ordered_step [OF n(1) nxt assms(4)] eq show ?thesis by (simp add: row_of_def)
  next
    case 4
    let ?c = "\<lparr>chunk = take (free - 12) data, flags = cnt\<rparr>"
    have "i32_sub cnt 1 = (Ok (cnt - 1) :: (error, int) outcome)"
      using cnt by (simp add: i32_sub_def in_i32_def)
    with 4 have nxt: "next_ordered_chunk (free - 12) data cnt = Ok (?c, drop (free - 12) data, cnt - 1)"
      by (simp add: next_ordered_chunk_def)
    have "12 \<le> free" using 4 by simp
    from ordered_step [OF this nxt assms(4)] 4 fill show ?thesis
      by (auto simp: row_of_def fill_cut ordered_stop min_def)
  qed
qed

end

section \<open>Sizes of the deniable part\<close>

lemma total_free_space_between:
  assumes n: "n < 2 ^ 24" and q: "q_value ck = F32 q" "0 \<le> q" "q \<le> 1"
  shows "\<lfloor>of_nat n * q\<rfloor> \<le> int (total_free_space ck (usize_as_f32 n))"
    and "int (total_free_space ck (usize_as_f32 n)) \<le> \<lceil>of_nat n * q\<rceil>"
proof -
  let ?x = "of_nat n * q"
  have x: "0 \<le> ?x" "?x \<le> of_nat n" using q by (simp_all add: mult_left_le)
  have lo: "0 \<le> \<lfloor>?x\<rfloor>" using x(1) by simp
  have hi: "\<lceil>?x\<rceil> < 2 ^ 24"
  proof -
    have "\<lceil>?x\<rceil> \<le> int n" using x(2) by (simp add: ceiling_le_iff)
    moreover have "int n < 2 ^ 24" using n by simp
    ultimately show ?thesis by linarith
  qed
  obtain r where r: "round_f32 ?x = F32 r" "of_int \<lfloor>?x\<rfloor> \<le> r" "r \<le> of_int \<lceil>?x\<rceil>"
    using round_f32_between [of "\<lfloor>?x\<rfloor>" ?x "\<lceil>?x\<rceil>"] lo hi by (metis of_int_floor_le le_of_int_ceiling)
  have c: "\<lfloor>?x\<rfloor> \<le> \<lceil>r\<rceil>" using r(2) by (simp add: le_ceiling_iff)
  moreover have c': "\<lceil>r\<rceil> \<le> \<lceil>?x\<rceil>" using r(3) by (simp add: ceiling_le_iff)
  ultimately have "0 \<le> \<lceil>r\<rceil>" "\<lceil>r\<rceil> < 2 ^ 24" using lo hi by linarith+
  moreover have "nat k \<le> 2 ^ 64 - 1" if "k < 2 ^ 24" for k using that by simp
  ultimately have "0 \<le> (of_int \<lceil>r\<rceil> :: rat)" "nat \<lceil>r\<rceil> \<le> 2 ^ 64 - 1" by (simp, blast)
  then have "f32_as_usize (F32 (of_int \<lceil>r\<rceil>)) = nat \<lceil>r\<rceil>"
    by (simp only: f32_as_usize.simps floor_of_int not_less [symmetric] if_False min_def simp_thms if_True)
  then have "total_free_space ck (usize_as_f32 n) = nat \<lceil>r\<rceil>"
    by (simp add: total_free_space_def usize_as_f32_small [OF n] q(1) r(1))
  moreover have "int (nat \<lceil>r\<rceil>) = \<lceil>r\<rceil>" using c lo by linarith
  ultimately show "\<lfloor>?x\<rfloor> \<le> int (total_free_space ck (usize_as_f32 n))"
    and "int (total_free_space ck (usize_as_f32 n)) \<le> \<lceil>?x\<rceil>" using c c' by linarith+
qed

lemma total_ratio_1: "n < 2 ^ 24 \<Longrightarrow> total_free_space (Chunker_new (F32 1)) (usize_as_f32 n) = n"
  using total_free_space_between [of n "Chunker_new (F32 1)" 1] by (simp add: Chunker_new_def)

text \<open>The default ratio is the value of \<open>f32\<close> next to 0.6.\<close>

lemma Chunker_default_q: "q_value Chunker_default = F32 (10066330 / 2 ^ 24)"
proof -
  have "f32_ulp (6 / 10) = 1 / 2 ^ 149 * 2 ^ 125"
    unfolding f32_ulp_def by (rule f32_ulp_from_eq) simp_all
  then have ulp: "f32_ulp (3 / 5) = 1 / 2 ^ 24" by simp
  have "round_half_even (50331648 / 5) = 10066330"
  proof -
    have "\<lfloor>50331648 / 5 :: rat\<rfloor> = 10066329" by (simp add: floor_eq_iff)
    then show ?thesis by (simp add: round_half_even_def Let_def)
  qed
  then show ?thesis
    by (simp add: Chunker_default_def round_f32_def ulp Let_def)
qed

section \<open>The whole of \<open>create_ordered_chunks\<close>\<close>

lemma fill_row_data:
  assumes "fill bump free (row_of p) = (cs, f, rows')" "flags p \<le> 0"
  shows "concat (map chunk (filter (\<lambda>c. \<not> is_dummy c) cs)) @ concat (map fst rows') = chunk p"
proof (cases "chunk p = []")
  case True
  with assms show ?thesis
    by (cases "free < 12") (auto simp: row_of_def fill_none fill_empty dummy_chunk_def is_dummy_def)
next
  case False
  consider "free < 12" | "free = 12" | "12 + length (chunk p) \<le> free" | "12 < free" "free < 12 + length (chunk p)"
    by linarith
  then show ?thesis
  proof cases
    case 3
    obtain cs1 f1 rs1 where rec: "fill bump (free - 12 - length (chunk p)) [] = (cs1, f1, rs1)"
      by (cases "fill bump (free - 12 - length (chunk p)) []") auto
    have "filter (\<lambda>c. \<not> is_dummy c) cs1 = [] \<and> rs1 = []"
      using rec by (cases "free - 12 - length (chunk p) < 12")
        (auto simp: fill_none fill_empty dummy_chunk_def is_dummy_def)
    with assms(1) False fill_whole [OF False 3 rec] show ?thesis
      by (auto simp: row_of_def is_dummy_def)
  qed (use assms False in \<open>auto simp: row_of_def fill_none fill_zero fill_cut dummy_chunk_def is_dummy_def\<close>)
qed

lemma create_ordered_chunks_spec:
  assumes ser: "chunk_codec ser" and tot: "8 \<le> total_free_space ck psize"
    and cnt: "- (2 ^ 31) < flags p" "flags p \<le> 0"
  shows "\<exists>cs f p'. create_ordered_chunks ser ck psize p = Some (Ok (cs, f, p')) \<and>
    fill (\<lambda>c. c) (total_free_space ck psize - 8) (row_of p) = (cs, f, row_of p') \<and>
    length (ser cs) + f = total_free_space ck psize \<and> f < 12 \<and>
    concat (map chunk (filter (\<lambda>c. \<not> is_dummy c) cs)) @ chunk p' = chunk p"
proof -
  let ?T = "total_free_space ck psize"
  obtain cs f rows' where fl: "fill (\<lambda>c. c) (?T - 8) (row_of p) = (cs, f, rows')"
    by (cases "fill (\<lambda>c. c) (?T - 8) (row_of p)") auto
  have "chunks_size [] + (?T - 8) = ?T" using tot by simp
  moreover have "row_of \<lparr>chunk = chunk p, flags = flags p\<rparr> = row_of p" by (simp add: row_of_def)
  ultimately
  obtain p' where p': "create_ordered_chunks_loop ser ?T [] (?T - 8) (chunk p) (flags p) = Some (Ok (cs, f, p'))"
    "row_of p' = rows'"
    using chunk_codec.ordered_loop_refines [OF ser, of "?T - 8" "chunk p" "flags p" cs f rows' "[]" ?T] cnt fl by auto
  have "concat (map fst (row_of p')) = chunk p'" by (simp add: row_of_def)
  with fill_row_data [OF fl cnt(2)] p'(2)
  have "concat (map chunk (filter (\<lambda>c. \<not> is_dummy c) cs)) @ chunk p' = chunk p" by simp
  moreover have "length (ser cs) + f = ?T" "f < 12"
    using fill_size [OF fl] tot by (simp_all add: chunk_codec.ser_len [OF ser])
  ultimately show ?thesis
    using p' fl tot by (auto simp: create_ordered_chunks_def usize_sub_def Let_def)
qed

section \<open>Properties\<close>

text \<open>
  C8 (bounds). For a regular payload of less than \<open>2 ^ 24\<close> bytes and a ratio \<open>q\<close> between 0 and 1,
  the size that \<open>(len as f32 * q).ceil() as usize\<close> gives to the deniable part lies between the
  floor and the ceiling of the exact product: rounding to \<open>f32\<close> moves it by less than one byte,
  and nothing saturates.
\<close>

theorem total_free_space_bounds:
  assumes "n < 2 ^ 24" and "q_value ck = F32 q" and "0 \<le> q" and "q \<le> 1"
  shows "\<lfloor>of_nat n * q\<rfloor> \<le> int (total_free_space ck (usize_as_f32 n)) \<and>
    int (total_free_space ck (usize_as_f32 n)) \<le> \<lceil>of_nat n * q\<rceil>"
  using total_free_space_between [OF assms] by blast

theorem total_free_space_bounds_witness:
  "600 \<le> int (total_free_space Chunker_default (usize_as_f32 1000)) \<and>
   int (total_free_space Chunker_default (usize_as_f32 1000)) \<le> 601"
proof -
  have f: "\<lfloor>of_nat 1000 * (10066330 / 2 ^ 24) :: rat\<rfloor> = 600" by (simp add: floor_eq_iff)
  have c: "\<lceil>of_nat 1000 * (10066330 / 2 ^ 24) :: rat\<rceil> = 601" by (simp add: ceiling_eq_iff)
  show ?thesis
    using total_free_space_bounds [of 1000 Chunker_default "10066330 / 2 ^ 24", OF _ Chunker_default_q]
    unfolding f c by simp
qed

text \<open>
  C5 (refinement). \<open>create_ordered_chunks\<close> always returns, and for a payload whose chunk count is
  in range it produces exactly the chunks of the specification \<open>fill\<close> on a queue holding that one
  payload: the serialised chunks and the unused rest have the size of the deniable part, at most
  11 bytes are unused, and the data of the chunks followed by the returned remainder is the data
  of the payload.
\<close>

theorem create_ordered_chunks_refines:
  assumes ser: "chunk_codec ser" and tot: "8 \<le> total_free_space ck psize"
    and cnt: "- (2 ^ 31) < flags p" "flags p \<le> 0"
  shows "\<exists>cs f p'. create_ordered_chunks ser ck psize p = Some (Ok (cs, f, p')) \<and>
    fill (\<lambda>c. c) (total_free_space ck psize - 8) (row_of p) = (cs, f, row_of p') \<and>
    length (ser cs) + f = total_free_space ck psize \<and> f < 12 \<and>
    concat (map chunk (filter (\<lambda>c. \<not> is_dummy c) cs)) @ chunk p' = chunk p"
  using create_ordered_chunks_spec [OF assms] by blast

theorem create_ordered_chunks_refines_witness:
  "\<exists>p'. create_ordered_chunks bincode_chunks (Chunker_new (F32 1)) (usize_as_f32 40)
      \<lparr>chunk = replicate 30 7, flags = - 3\<rparr> =
      Some (Ok ([\<lparr>chunk = replicate 20 7, flags = - 3\<rparr>], 0, p')) \<and> chunk p' = replicate 10 7"
proof -
  let ?p = "\<lparr>chunk = replicate 30 7, flags = - 3\<rparr>"
  have tot: "total_free_space (Chunker_new (F32 1)) (usize_as_f32 40) = 40" by (rule total_ratio_1) simp
  have fl: "fill (\<lambda>c. c) 32 (row_of ?p) =
      ([\<lparr>chunk = replicate 20 7, flags = - 3\<rparr>], 0, [(replicate 10 7, - 4)])"
    by (simp add: row_of_def fill_cut)
  have row: "row_of p' = [(replicate 10 7, - 4)] \<Longrightarrow> chunk p' = replicate 10 7" for p'
    by (simp add: row_of_def split: if_splits)
  from create_ordered_chunks_refines [OF bincode.chunk_codec_axioms, of "Chunker_new (F32 1)" "usize_as_f32 40" ?p]
  show ?thesis using fl row by (auto simp: tot)
qed

end
