(* ===== verification/Denim_Queues.thy ===== *)
theory Denim_Queues
  imports Reassembly Bincode
begin

text \<open>
  The buffers of \<open>DenIMManager\<close> as lists: what enqueueing, flushing and dequeueing do to the queues
  that the keyspace holds. The lemmas are proved for the documented Redis commands and carried
  over to every server that implements them.
\<close>

section \<open>Simulation of the caches\<close>

definition map_store :: "('r \<Rightarrow> 'k) \<Rightarrow> ('r, 'l) caches \<Rightarrow> ('k, 'l) caches" where
  "map_store f s = \<lparr>store = f (store s), listeners = listeners s, spawned = spawned s\<rparr>"

lemma map_store_fields [simp]:
  "store (map_store f s) = f (store s)" "listeners (map_store f s) = listeners s"
  "spawned (map_store f s) = spawned s"
  by (simp_all add: map_store_def)

lemma sim_on_store [sim_intros]:
  "simulates view m a \<Longrightarrow> simulates (map_store view) (on_store m) (on_store a)"
  by (simp add: simulates_def on_store_def map_store_def split_def)

lemma sim_storeD:
  assumes "simulates (map_store view) m a" "a (map_store view s) = (r, t)"
  shows "\<exists>s'. m s = (r, s') \<and> view (store s') = store t"
  using simD [OF assms] by auto

lemma sim_and_then [sim_intros]:
  assumes "simulates (map_store view) m a"
  shows "simulates (map_store view) (and_then m (spawn t)) (and_then a (spawn t))"
  unfolding simulates_def
proof
  fix s
  obtain r s' where "m s = (r, s')" by fastforce
  moreover from this assms have "a (map_store view s) = (r, map_store view s')"
    by (auto simp: simulates_def prod_eq_iff)
  ultimately show "fst (and_then m (spawn t) s) = fst (and_then a (spawn t) (map_store view s)) \<and>
      map_store view (snd (and_then m (spawn t) s)) = snd (and_then a (spawn t) (map_store view s))"
    by (cases r) (simp_all add: and_then_def spawn_def map_store_def)
qed

context redis_server
begin

lemma sim_chunk_insert [sim_intros]:
  "simulates (map_store view) (chunk_insert R b64 C now a b x g) (chunk_insert keyspace_redis b64 C now a b x g)"
  unfolding chunk_insert_def notify_cached_def by (intro sim_intros)

lemma sim_dequeue_chunks [sim_intros]:
  "simulates (map_store view) (dequeue_chunks R b64 C b a) (dequeue_chunks keyspace_redis b64 C b a)"
  unfolding dequeue_chunks_def chunk_remove_def by (intro sim_intros)

lemma sim_enqueue_chunk_buffer [sim_intros]:
  "simulates (map_store view) (enqueue_chunk_buffer R b64 C now new_v4 b a k cnt cs)
     (enqueue_chunk_buffer keyspace_redis b64 C now new_v4 b a k cnt cs)"
  by (induction cs arbitrary: k cnt) (auto intro!: sim_intros)

lemma sim_flush_chunk_buffer [sim_intros]:
  "simulates (map_store view) (flush_chunk_buffer R b64 C de now new_v4 b a)
     (flush_chunk_buffer keyspace_redis b64 C de now new_v4 b a)"
  unfolding flush_chunk_buffer_def by (intro sim_intros)

lemma sim_payload_insert [sim_intros]:
  "simulates (map_store view) (payload_insert R b64 C now a b x g) (payload_insert keyspace_redis b64 C now a b x g)"
  unfolding payload_insert_def notify_cached_def by (intro sim_intros)

lemma sim_enqueue_payloads [sim_intros]:
  "simulates (map_store view) (enqueue_payloads R b64 C now new_v4 a k cnt ps)
     (enqueue_payloads keyspace_redis b64 C now new_v4 a k cnt ps)"
  by (induction ps arbitrary: k cnt) (auto intro!: sim_intros)

lemma sim_stepD: "simulates view m a \<Longrightarrow> m s = (r, s') \<Longrightarrow> a (view s) = (r, view s')"
  by (auto simp: simulates_def prod_eq_iff)

lemma sim_dequeue_payload_loop:
  "fst (dequeue_payload_loop R b64 a b out n s) = fst (dequeue_payload_loop keyspace_redis b64 a b out n (view s)) \<and>
   view (snd (dequeue_payload_loop R b64 a b out n s)) =
     snd (dequeue_payload_loop keyspace_redis b64 a b out n (view s))"
proof (induction n arbitrary: out s rule: less_induct)
  case (less n)
  show ?case
  proof (cases "12 \<le> n")
    case False
    then show ?thesis by (simp add: dequeue_payload_loop.simps)
  next
    case True
    obtain r1 s1 where c: "CONNECT R s = (r1, s1)" by fastforce
    note c' = sim_stepD [OF sim_CONNECT c]
    obtain r2 s2 where d: "dequeue_bytes R b64 (payload_queue_key a b) (payload_queue_metadata_key a b)
        (payload_queue_index_key b) (payload_persist_in_progress_key a b) (n - 12) s1 = (r2, s2)" by fastforce
    note d' = sim_stepD [OF sim_dequeue_bytes d]
    show ?thesis
    proof (cases r1)
      case (Ok u)
      show ?thesis
      proof (cases r2)
        case r2: (Ok x)
        obtain dat k ord where x: "x = (dat, k, ord)" by (cases x) auto
        show ?thesis
          using less.IH [of "n - 12 - k" "out @ [(dat, ord)]" s2] True c c' d d' Ok r2 x
          by (subst (1 2 3 4) dequeue_payload_loop.simps) (simp add: Let_def)
      qed (use True c c' d d' Ok in \<open>simp_all add: dequeue_payload_loop.simps Let_def\<close>)
    qed (use True c c' in \<open>simp_all add: dequeue_payload_loop.simps Let_def\<close>)
  qed
qed

lemma sim_dequeue_payload_data [sim_intros]:
  "simulates (map_store view) (dequeue_payload_data R b64 a b n) (dequeue_payload_data keyspace_redis b64 a b n)"
  unfolding dequeue_payload_data_def
  by (intro sim_on_store) (simp add: simulates_def sim_dequeue_payload_loop)

lemma sim_create_denim_message [sim_intros]:
  "simulates (map_store view) (create_denim_message R b64 sr ck a e) (create_denim_message keyspace_redis b64 sr ck a e)"
  unfolding create_denim_message_def dequeue_outgoing_payload_buffer_def by (intro sim_intros)

end

section \<open>Chunk queues\<close>

context base64_laws
begin

lemma chunk_insert_rep:
  assumes rep: "chunk_rep b64 C a b (store s) c xs"
    and g: "g \<notin> fst ` set xs" "g \<noteq> ''counter''" and c: "c + 1 < 2 ^ 63"
  shows "\<exists>s'. chunk_insert keyspace_redis b64 C now a b x g s = (Ok (c + 1), s') \<and>
    chunk_rep b64 C a b (store s') (c + 1) (xs @ [(g, x)])"
proof -
  from rep obtain items where
    q: "queue_rep b64 (chunk_queue_key a b) (chunk_queue_metadata_key a b) (chunk_queue_index_key b) (store s) c items"
    and it: "map (\<lambda>it. (item_guid it, item_value it)) items = map (\<lambda>(g, x). (g, serialize C x)) xs"
    and lock: "str_key (store s) (chunk_persist_in_progress_key a b)"
      "strs (store s) (chunk_persist_in_progress_key a b) = None"
    by (auto simp: chunk_rep_def)
  have "map fst (map (\<lambda>it. (item_guid it, item_value it)) items) = map fst xs"
    by (simp add: it split_def o_def)
  then have "map item_guid items = map fst xs" by (simp add: o_def)
  then have "g \<notin> set (map item_guid items)" using g(1) by simp
  from insert_fresh [OF q this g(2) c, of now "serialize C x"] obtain K' where
    K': "redis_insert keyspace_redis b64 now (chunk_queue_key a b) (chunk_queue_metadata_key a b)
        (chunk_queue_index_key b) g (serialize C x) (store s) = (Ok (c + 1), K')"
      "queue_rep b64 (chunk_queue_key a b) (chunk_queue_metadata_key a b) (chunk_queue_index_key b) K' (c + 1)
        (items @ [(c + 1, g, serialize C x, 0)])"
      "same_except {chunk_queue_key a b, chunk_queue_metadata_key a b,
        rev_key (chunk_queue_metadata_key a b), chunk_queue_index_key b} (store s) K'" by blast
  have "chunk_rep b64 C a b K' (c + 1) (xs @ [(g, x)])"
    unfolding chunk_rep_def
    using K'(2) it lock chunk_lock_same [OF K'(3)]
    by (intro exI [of _ "items @ [(c + 1, g, serialize C x, 0)]"]) simp
  with K'(1) show ?thesis
    by (simp add: chunk_insert_def redis_simps notify_cached_def)
qed

lemma enqueue_chunk_buffer_rep:
  assumes "chunk_rep b64 C a b (store s) c xs" "inj new_v4" "\<And>k. new_v4 k \<noteq> ''counter''"
    and "fst ` set xs \<inter> new_v4 ` {k..} = {}" "cnt + length cs * (c + length cs) < 2 ^ 63"
  shows "\<exists>n s' ys. enqueue_chunk_buffer keyspace_redis b64 C now new_v4 b a k cnt cs s = (Ok n, s') \<and>
    chunk_rep b64 C a b (store s') (c + length cs) (xs @ ys) \<and> map snd ys = cs \<and> fst ` set ys \<subseteq> range new_v4"
  using assms
proof (induction cs arbitrary: s c xs k cnt)
  case (Cons x cs)
  let ?n = "length cs" and ?xs = "xs @ [(new_v4 k, x)]"
  have bound: "cnt + (c + 1) + ?n * (c + 1 + ?n) < 2 ^ 63"
    using Cons.prems(5) by (simp add: algebra_simps)
  have c: "c + 1 < 2 ^ 63" using bound by linarith
  have k: "new_v4 k \<notin> fst ` set xs" using Cons.prems(4) by auto
  from chunk_insert_rep [OF Cons.prems(1) k Cons.prems(3) c, of now x] obtain s1 where
    s1: "chunk_insert keyspace_redis b64 C now a b x (new_v4 k) s = (Ok (c + 1), s1)"
      "chunk_rep b64 C a b (store s1) (c + 1) ?xs" by auto
  have "new_v4 k \<notin> new_v4 ` {k + 1..}" using injD [OF Cons.prems(2)] by fastforce
  moreover have "fst ` set xs \<inter> new_v4 ` {k + 1..} = {}" using Cons.prems(4) by auto
  ultimately have fresh: "fst ` set ?xs \<inter> new_v4 ` {k + 1..} = {}" by auto
  from Cons.IH [OF s1(2) Cons.prems(2,3) fresh bound] obtain n s' ys where
    s': "enqueue_chunk_buffer keyspace_redis b64 C now new_v4 b a (k + 1) (cnt + (c + 1)) cs s1 = (Ok n, s')"
      "chunk_rep b64 C a b (store s') (c + 1 + ?n) (?xs @ ys)" "map snd ys = cs" "fst ` set ys \<subseteq> range new_v4"
    by blast
  have "u64_add cnt (c + 1) = (Ok (cnt + (c + 1)) :: (error, nat) outcome)"
    using bound by (simp add: u64_add_def)
  with s1(1) s'(1)
  have "enqueue_chunk_buffer keyspace_redis b64 C now new_v4 b a k cnt (x # cs) s = (Ok n, s')" by simp
  with s'(2-4) show ?case by (intro exI [of _ n] exI [of _ s'] exI [of _ "(new_v4 k, x) # ys"]) simp
qed simp

text \<open>The items of a queue of chunks are decoded to the chunks.\<close>

lemma chunk_items_decoded:
  assumes it: "map (\<lambda>it. (item_guid it, item_value it)) items = map (\<lambda>(g, x). (g, serialize C x)) xs"
    and codec: "\<And>x. x \<in> snd ` set xs \<Longrightarrow> codec_ok C x"
  shows "it \<in> set items \<Longrightarrow> decode_values b64 (deserialize C) [entry_of b64 it] = Ok [ok_val (deserialize C (item_value it))]"
    and "map (\<lambda>it. ok_val (deserialize C (item_value it))) (take n items) = map snd (take n xs)"
proof -
  assume "it \<in> set items"
  then have "(item_guid it, item_value it) \<in> set (map (\<lambda>(g, x). (g, serialize C x)) xs)"
    unfolding it [symmetric] by (auto intro: image_eqI [where x = it])
  then obtain x where "x \<in> snd ` set xs" "item_value it = serialize C x" by force
  then show "decode_values b64 (deserialize C) [entry_of b64 it] = Ok [ok_val (deserialize C (item_value it))]"
    using codec [of x] by (simp add: entry_of_def entry_fields(4) codec_ok_def)
next
  have codec': "(g, x) \<in> set xs \<Longrightarrow> deserialize C (serialize C x) = Ok x" for g x
    using codec [of x] by (force simp: codec_ok_def)
  have "map (\<lambda>it. ok_val (deserialize C (item_value it))) (take n items) = map (\<lambda>(g, v). ok_val (deserialize C v))
      (take n (map (\<lambda>it. (item_guid it, item_value it)) items))"
    by (simp add: take_map o_def)
  also have "\<dots> = map snd (take n xs)"
    unfolding it using codec' by (auto simp: take_map dest!: in_set_takeD)
  finally show "map (\<lambda>it. ok_val (deserialize C (item_value it))) (take n items) = map snd (take n xs)" .
qed

lemma dequeue_chunks_rep:
  assumes rep: "chunk_rep b64 C a b (store s) c xs" and codec: "\<And>x. x \<in> snd ` set xs \<Longrightarrow> codec_ok C x"
  shows "\<exists>s' c'. dequeue_chunks keyspace_redis b64 C b a s = (Ok (map snd (take PAGE_SIZE xs)), s') \<and>
    chunk_rep b64 C a b (store s') c' (drop PAGE_SIZE xs) \<and> c' \<le> c"
proof -
  from rep obtain items where
    q: "queue_rep b64 (chunk_queue_key a b) (chunk_queue_metadata_key a b) (chunk_queue_index_key b) (store s) c items"
    and it: "map (\<lambda>it. (item_guid it, item_value it)) items = map (\<lambda>(g, x). (g, serialize C x)) xs"
    and lock: "str_key (store s) (chunk_persist_in_progress_key a b)"
      "strs (store s) (chunk_persist_in_progress_key a b) = None"
    by (auto simp: chunk_rep_def)
  note D = queue_repD [OF q]
  let ?page = "take PAGE_SIZE items"
  have get: "get_values keyspace_redis (chunk_queue_key a b) (chunk_persist_in_progress_key a b)
      (chunk_queue_metadata_key a b) (- 1) (store s) =
      (Ok (map (entry_of b64) ?page, map item_guid ?page), store s)"
    using get_values_page [OF q lock, of "- 1"] by simp
  show ?thesis
  proof (cases "xs = []")
    case True
    with it have "items = []" by simp
    with get rep True show ?thesis by (auto simp: dequeue_chunks_def redis_simps intro!: exI [of _ c])
  next
    case False
    have len: "length items = length xs" using arg_cong [OF it, of length] by simp
    with False have ne: "?page \<noteq> []" by (auto simp: PAGE_SIZE_def)
    let ?de = "\<lambda>it. ok_val (deserialize C (item_value it))"
    note dec = chunk_items_decoded(1) [OF it codec] and vals = chunk_items_decoded(2) [OF it codec]
    have "''counter'' \<notin> set (map item_guid ?page)"
      using guids_not_counter [OF D(5)] set_take_subset [of PAGE_SIZE items] by auto
    from remove_guids [OF q this, of "decode_values b64 (deserialize C)" ?de] dec obtain K' where
      K': "redis_remove keyspace_redis (decode_values b64 (deserialize C)) (chunk_queue_key a b)
          (chunk_queue_metadata_key a b) (chunk_queue_index_key b) (map item_guid ?page) (store s) =
          (Ok (map ?de ?page), K')"
        "queue_rep b64 (chunk_queue_key a b) (chunk_queue_metadata_key a b) (chunk_queue_index_key b) K'
          (if drop PAGE_SIZE items = [] then 0 else c) (drop PAGE_SIZE items)"
        "same_except {chunk_queue_key a b, chunk_queue_metadata_key a b,
          rev_key (chunk_queue_metadata_key a b), chunk_queue_index_key b} (store s) K'"
      unfolding taken_page [OF D(4)] rest_page [OF D(4)] by blast
    have "chunk_rep b64 C a b K' (if drop PAGE_SIZE items = [] then 0 else c) (drop PAGE_SIZE xs)"
      unfolding chunk_rep_def using K'(2) lock chunk_lock_same [OF K'(3)] arg_cong [OF it, of "drop PAGE_SIZE"]
      by (intro exI [of _ "drop PAGE_SIZE items"]) (simp add: drop_map)
    with K'(1) get ne show ?thesis
      by (intro exI [of _ "s\<lparr>store := K'\<rparr>"] exI [of _ "if drop PAGE_SIZE items = [] then 0 else c"])
        (simp add: dequeue_chunks_def chunk_remove_def redis_simps vals)
  qed
qed

text \<open>Flushing: a page is taken out, what it leaves pending goes to the end of the queue.\<close>

lemma flush_chunk_buffer_rep:
  assumes rep: "chunk_rep b64 C a b (store s) c xs" and codec: "\<And>x. x \<in> snd ` set xs \<Longrightarrow> codec_ok C x"
    and guids: "inj new_v4" "\<And>k. new_v4 k \<noteq> ''counter''" "fst ` set xs \<inter> range new_v4 = {}"
    and c: "c < 2 ^ 56"
    and pay: "create_deniable_payloads de (map snd (take PAGE_SIZE xs)) = Ok (ps, pend)"
  shows "\<exists>s' c' ys. flush_chunk_buffer keyspace_redis b64 C de now new_v4 b a s = (Ok ps, s') \<and>
    chunk_rep b64 C a b (store s') c' ys \<and> map snd ys = map snd (drop PAGE_SIZE xs) @ pend"
proof -
  from dequeue_chunks_rep [OF rep codec] obtain s1 c1 where
    s1: "dequeue_chunks keyspace_redis b64 C b a s = (Ok (map snd (take PAGE_SIZE xs)), s1)"
      "chunk_rep b64 C a b (store s1) c1 (drop PAGE_SIZE xs)" "c1 \<le> c" by blast
  show ?thesis
  proof (cases "pend = []")
    case True
    with s1 pay show ?thesis by (intro exI [of _ s1] exI [of _ c1] exI [of _ "drop PAGE_SIZE xs"])
        (simp add: flush_chunk_buffer_def)
  next
    case False
    have "length pend \<le> 100"
      using create_deniable_payloads_pending [OF pay] by (simp add: PAGE_SIZE_def)
    then have "length pend * (c1 + length pend) \<le> 100 * (c1 + 100)" by (intro mult_le_mono) simp_all
    then have bound: "0 + length pend * (c1 + length pend) < 2 ^ 63" using s1(3) c by simp
    have fresh: "fst ` set (drop PAGE_SIZE xs) \<inter> new_v4 ` {0..} = {}"
      using guids(3) set_drop_subset [of PAGE_SIZE xs] by fastforce
    from enqueue_chunk_buffer_rep [OF s1(2) guids(1,2) fresh bound, of now] obtain n s' ys where
      "enqueue_chunk_buffer keyspace_redis b64 C now new_v4 b a 0 0 pend s1 = (Ok n, s')"
      "chunk_rep b64 C a b (store s') (c1 + length pend) (drop PAGE_SIZE xs @ ys)" "map snd ys = pend" by blast
    with s1(1) pay False show ?thesis
      by (intro exI [of _ s'] exI [of _ "c1 + length pend"] exI [of _ "drop PAGE_SIZE xs @ ys"])
        (simp add: flush_chunk_buffer_def)
  qed
qed

end

section \<open>Payload queues\<close>

definition payload_rep :: "base64 \<Rightarrow> protocol_address \<Rightarrow> buffer \<Rightarrow> keyspace \<Rightarrow> nat \<Rightarrow> row list \<Rightarrow> bool" where
  "payload_rep b64 a b K c rows \<longleftrightarrow> (\<exists>items.
     queue_rep b64 (payload_queue_key a b) (payload_queue_metadata_key a b) (payload_queue_index_key b) K c items \<and>
     map (\<lambda>it. (item_value it, item_order it)) items = rows \<and>
     str_key K (payload_persist_in_progress_key a b) \<and> strs K (payload_persist_in_progress_key a b) = None)"

lemma payload_lock_same:
  assumes "same_except {payload_queue_key a b, payload_queue_metadata_key a b,
      rev_key (payload_queue_metadata_key a b), payload_queue_index_key b} K K'"
  shows "str_key K' (payload_persist_in_progress_key a b) = str_key K (payload_persist_in_progress_key a b)"
    "strs K' (payload_persist_in_progress_key a b) = strs K (payload_persist_in_progress_key a b)"
  using str_key_same [OF assms, of "payload_persist_in_progress_key a b"] payload_keys_distinct [of a b] by auto

abbreviation payload_dequeue :: "base64 \<Rightarrow> protocol_address \<Rightarrow> buffer \<Rightarrow> nat
    \<Rightarrow> (keyspace, error, bytes \<times> nat \<times> int) step" where
  "payload_dequeue b64 a b \<equiv> dequeue_bytes keyspace_redis b64 (payload_queue_key a b)
     (payload_queue_metadata_key a b) (payload_queue_index_key b) (payload_persist_in_progress_key a b)"

context base64_laws
begin

lemma payload_dequeue_empty:
  "payload_rep b64 a b K c [] \<Longrightarrow> payload_dequeue b64 a b n K = (Ok ([], 0, 1), K)"
  by (auto simp: payload_rep_def dequeue_empty)

lemma payload_dequeue_part:
  assumes "payload_rep b64 a b K c ((d, r) # rs)" "n < length d" "- (2 ^ 31) < r"
  shows "\<exists>K'. payload_dequeue b64 a b n K = (Ok (take n d, n, r), K') \<and>
    payload_rep b64 a b K' c ((drop n d, r - 1) # rs)"
proof -
  from assms(1) obtain i g items where
    q: "queue_rep b64 (payload_queue_key a b) (payload_queue_metadata_key a b) (payload_queue_index_key b) K c
        ((i, g, d, r) # items)" and rs: "map (\<lambda>it. (item_value it, item_order it)) items = rs"
    and lock: "str_key K (payload_persist_in_progress_key a b)" "strs K (payload_persist_in_progress_key a b) = None"
    by (auto simp: payload_rep_def)
  from dequeue_part [OF q lock assms(2,3)] obtain K' where
    K': "payload_dequeue b64 a b n K = (Ok (take n d, n, r), K')"
      "queue_rep b64 (payload_queue_key a b) (payload_queue_metadata_key a b) (payload_queue_index_key b) K' c
        ((i, g, drop n d, r - 1) # items)"
      "same_except {payload_queue_key a b, payload_queue_metadata_key a b,
        rev_key (payload_queue_metadata_key a b), payload_queue_index_key b} K K'" by blast
  have "payload_rep b64 a b K' c ((drop n d, r - 1) # rs)"
    unfolding payload_rep_def using K'(2) rs lock payload_lock_same [OF K'(3)]
    by (intro exI [of _ "(i, g, drop n d, r - 1) # items"]) simp
  with K'(1) show ?thesis by blast
qed

lemma payload_dequeue_whole:
  assumes "payload_rep b64 a b K c ((d, r) # rs)" "length d \<le> n"
  shows "\<exists>K' c'. payload_dequeue b64 a b n K = (Ok (d, length d, 2), K') \<and> payload_rep b64 a b K' c' rs"
proof -
  from assms(1) obtain i g items where
    q: "queue_rep b64 (payload_queue_key a b) (payload_queue_metadata_key a b) (payload_queue_index_key b) K c
        ((i, g, d, r) # items)" and rs: "map (\<lambda>it. (item_value it, item_order it)) items = rs"
    and lock: "str_key K (payload_persist_in_progress_key a b)" "strs K (payload_persist_in_progress_key a b) = None"
    by (auto simp: payload_rep_def)
  from dequeue_whole [OF q lock assms(2)] obtain K' where
    K': "payload_dequeue b64 a b n K = (Ok (d, length d, 2), K')"
      "queue_rep b64 (payload_queue_key a b) (payload_queue_metadata_key a b) (payload_queue_index_key b) K'
        (if items = [] then 0 else c) items"
      "same_except {payload_queue_key a b, payload_queue_metadata_key a b,
        rev_key (payload_queue_metadata_key a b), payload_queue_index_key b} K K'" by blast
  have "payload_rep b64 a b K' (if items = [] then 0 else c) rs"
    unfolding payload_rep_def using K'(2) rs lock payload_lock_same [OF K'(3)]
    by (intro exI [of _ items]) simp
  with K'(1) show ?thesis by blast
qed

abbreviation pairs :: "denim_chunk list \<Rightarrow> (bytes \<times> int) list" where
  "pairs cs \<equiv> map (\<lambda>c. (chunk c, flags c)) cs"

text \<open>The loop of \<open>dequeue_payload_data\<close> does what the specification of filling says.\<close>

lemma dequeue_payload_loop_refines:
  assumes "fill (\<lambda>c. c - 1) n rows = (cs, f, rows')" "payload_rep b64 a b K c rows" "rows_ok rows"
  shows "\<exists>K' c'. dequeue_payload_loop keyspace_redis b64 a b out n K =
      (Ok (out @ pairs cs, f), K') \<and> payload_rep b64 a b K' c' rows'"
  using assms
proof (induction n rows arbitrary: cs f rows' out K c rule: fill_cases)
  case (none n rows)
  then show ?case by (auto simp: fill_none dequeue_payload_loop.simps)
next
  case (empty n)
  then show ?case
    using payload_dequeue_empty [OF empty.prems(2), of "n - 12"]
    by (auto simp: fill_empty dequeue_payload_loop.simps redis_simps dummy_chunk_def Let_def)
next
  case (zero d r rs)
  then have "0 < length d" "- (2 ^ 31) < r" by auto
  from payload_dequeue_part [OF zero.prems(2) this] zero.prems(1) show ?case
    by (auto simp: fill_zero dequeue_payload_loop.simps redis_simps dummy_chunk_def Let_def)
next
  case (blocked n r rs)
  then show ?case by simp
next
  case (whole n d r rs)
  have n: "length d \<le> n - 12" "12 \<le> n" "length d \<noteq> 0" using whole.hyps by auto
  obtain cs1 f1 rs1 where rec: "fill (\<lambda>c. c - 1) (n - 12 - length d) rs = (cs1, f1, rs1)"
    by (cases "fill (\<lambda>c. c - 1) (n - 12 - length d) rs") auto
  from payload_dequeue_whole [OF whole.prems(2) n(1)] obtain K1 c1 where
    K1: "payload_dequeue b64 a b (n - 12) K = (Ok (d, length d, 2), K1)" "payload_rep b64 a b K1 c1 rs" by blast
  have "rows_ok rs" using whole.prems(3) by simp
  from whole.IH [OF rec K1(2) this, of "out @ [(d, 2)]"] obtain K' c' where
    "dequeue_payload_loop keyspace_redis b64 a b (out @ [(d, 2)]) (n - 12 - length d) K1 =
      (Ok ((out @ [(d, 2)]) @ pairs cs1, f1), K')" "payload_rep b64 a b K' c' rs1" by blast
  then show ?case
    using whole.prems(1) fill_whole [OF whole.hyps rec] n K1(1)
    by (subst dequeue_payload_loop.simps) (auto simp: redis_simps Let_def)
next
  case (cut n d r rs)
  have n: "n - 12 < length d" "12 \<le> n" "n - 12 \<noteq> 0" using cut.hyps by auto
  have r: "- (2 ^ 31) < r" using cut.prems(3) by simp
  from payload_dequeue_part [OF cut.prems(2) n(1) r] cut.prems(1) n show ?case
    by (subst dequeue_payload_loop.simps)
      (auto simp: fill_cut redis_simps Let_def dequeue_payload_loop.simps [of _ _ _ _ _ 0])
qed

end

section \<open>From nothing\<close>

lemma queue_rep_empty:
  "distinct [qk, mk, rev_key mk, ik] \<Longrightarrow> queue_rep b64 qk mk ik empty_keyspace 0 []"
  by (auto simp: queue_rep_def keys_typed_def empty_keyspace_def zset_key_def hash_key_def counter_field_def
      item_of_def)

lemma str_key_empty [simp]: "str_key empty_keyspace k" "strs empty_keyspace k = None"
  by (simp_all add: empty_keyspace_def str_key_def)

lemma chunk_rep_empty: "chunk_rep b64 C a b empty_keyspace 0 []"
  unfolding chunk_rep_def using chunk_keys_distinct [of a b] by (simp add: queue_rep_empty)

lemma payload_rep_empty: "payload_rep b64 a b empty_keyspace 0 []"
  unfolding payload_rep_def using payload_keys_distinct [of a b] by (simp add: queue_rep_empty)

definition init_caches :: "(keyspace, 'l) caches" where
  "init_caches = \<lparr>store = empty_keyspace, listeners = Map.empty, spawned = []\<rparr>"

lemma store_init [simp]: "store init_caches = empty_keyspace"
  by (simp add: init_caches_def)

context base64_laws
begin

lemma payload_insert_rep:
  assumes rep: "queue_rep b64 (payload_queue_key a b) (payload_queue_metadata_key a b) (payload_queue_index_key b)
      (store s) c items"
    and lock: "str_key (store s) (payload_persist_in_progress_key a b)"
      "strs (store s) (payload_persist_in_progress_key a b) = None"
    and g: "g \<notin> set (map item_guid items)" "g \<noteq> ''counter''" and c: "c + 1 < 2 ^ 63"
  shows "\<exists>s'. payload_insert keyspace_redis b64 C now a b p g s = (Ok (c + 1), s') \<and>
    payload_rep b64 a b (store s') (c + 1) (map (\<lambda>it. (item_value it, item_order it)) items @ [(serialize C p, 0)])"
proof -
  from insert_fresh [OF rep g c, of now "serialize C p"] obtain K' where
    K': "redis_insert keyspace_redis b64 now (payload_queue_key a b) (payload_queue_metadata_key a b)
        (payload_queue_index_key b) g (serialize C p) (store s) = (Ok (c + 1), K')"
      "queue_rep b64 (payload_queue_key a b) (payload_queue_metadata_key a b) (payload_queue_index_key b) K' (c + 1)
        (items @ [(c + 1, g, serialize C p, 0)])"
      "same_except {payload_queue_key a b, payload_queue_metadata_key a b,
        rev_key (payload_queue_metadata_key a b), payload_queue_index_key b} (store s) K'" by blast
  have "payload_rep b64 a b K' (c + 1) (map (\<lambda>it. (item_value it, item_order it)) items @ [(serialize C p, 0)])"
    unfolding payload_rep_def using K'(2) lock payload_lock_same [OF K'(3)]
    by (intro exI [of _ "items @ [(c + 1, g, serialize C p, 0)]"]) simp
  with K'(1) show ?thesis by (simp add: payload_insert_def redis_simps notify_cached_def)
qed

lemma payload_rep_single: "\<exists>s :: (keyspace, 'l) caches. payload_rep b64 a b (store s) 1 [(v, 0)]"
proof -
  let ?C = "\<lparr>serialize = (\<lambda>_. v), deserialize = (\<lambda>_. Panic)\<rparr> :: deniable_payload codec"
  have "queue_rep b64 (payload_queue_key a b) (payload_queue_metadata_key a b) (payload_queue_index_key b)
      empty_keyspace 0 []"
    using payload_keys_distinct [of a b] by (simp add: queue_rep_empty)
  from payload_insert_rep [where s = "init_caches :: (keyspace, 'l) caches" and C = ?C and g = "''a''",
      unfolded store_init, OF this str_key_empty]
  show ?thesis by auto
qed

end

section \<open>Properties\<close>

text \<open>
  C3 (refinement). Dequeueing \<open>n\<close> bytes of deniable data for a client takes from the queue of
  payloads in Redis exactly what the specification \<open>fill\<close> takes from the list of payloads that the
  queue represents: the same chunks, the same number of bytes left over, and a queue that
  represents the remaining payloads. In particular the call returns without an error.
\<close>

theorem dequeue_payload_data_refines:
  assumes "redis_server R view" and "base64_laws b64"
    and "payload_rep b64 a b (view (store s)) c rows" and "rows_ok rows"
    and "fill (\<lambda>c. c - 1) n rows = (cs, f, rows')"
  shows "\<exists>s' c'. dequeue_payload_data R b64 a b n s = (Ok (map (\<lambda>c. (chunk c, flags c)) cs, f), s') \<and>
    payload_rep b64 a b (view (store s')) c' rows'"
proof -
  from base64_laws.dequeue_payload_loop_refines [OF assms(2,5,3,4), of "[]"] obtain K' c' where
    K': "dequeue_payload_data keyspace_redis b64 a b n (map_store view s) =
        (Ok (map (\<lambda>c. (chunk c, flags c)) cs, f), (map_store view s)\<lparr>store := K'\<rparr>)"
      "payload_rep b64 a b K' c' rows'"
    by (auto simp: dequeue_payload_data_def on_store_def)
  from sim_storeD [OF redis_server.sim_dequeue_payload_data [OF assms(1)] K'(1)] K'(2)
  show ?thesis by auto
qed

theorem dequeue_payload_data_refines_witness:
  "\<exists>s :: (keyspace, unit) caches. payload_rep BASE64_STANDARD \<lparr>addr_name = ''alice'', addr_device_id = 1\<rparr> Receiver (store s) 1 [([1, 2, 3], 0)] \<and>
    (\<exists>s' c'. dequeue_payload_data keyspace_redis BASE64_STANDARD \<lparr>addr_name = ''alice'', addr_device_id = 1\<rparr> Receiver 14 s =
        (Ok ([([1, 2], 0)], 0), s') \<and>
      payload_rep BASE64_STANDARD \<lparr>addr_name = ''alice'', addr_device_id = 1\<rparr> Receiver (store s') c' [([3], - 1)])"
proof -
  let ?a = "\<lparr>addr_name = ''alice'', addr_device_id = 1\<rparr>"
  obtain s :: "(keyspace, unit) caches" where
    s: "payload_rep BASE64_STANDARD ?a Receiver (store s) 1 [([1, 2, 3], 0)]"
    using rfc4648.payload_rep_single by blast
  have "fill (\<lambda>c. c - 1) 14 [([1, 2, 3], 0)] = ([\<lparr>chunk = [1, 2], flags = 0\<rparr>], 0, [([3], - 1)])"
    by (simp add: fill_cut)
  from dequeue_payload_data_refines [OF keyspace.redis_server_axioms rfc4648.base64_laws_axioms s _ this]
  show ?thesis using s by auto
qed

end
