(* ===== verification/Account.thy ===== *)
theory Account
  imports Ids Base64
begin

text \<open>
  Accounts and devices (\<open>server/src/account.rs\<close>), the validators of \<open>server/src/validators/\<close>, and
  \<open>ToEnvelope\<close> (\<open>server/src/envelope.rs\<close>). An ACI or PNI is its UUID; identity keys are their
  serialised bytes, and \<open>verify_signature\<close> of libsignal is a parameter.
\<close>

section \<open>Accounts\<close>

record device =
  device_id :: nat
  dev_name :: string
  last_seen :: nat
  created :: nat
  auth_token :: string
  salt :: string
  registration_id :: nat
  pni_registration_id :: nat
  capabilities :: "device_capability_type list"

record account =
  aci :: uuid
  pni :: uuid
  aci_identity_key :: bytes
  pni_identity_key :: bytes
  devices :: "device list"
  phone_number :: string

record authenticated_device =
  auth_account :: account
  auth_device :: device

text \<open>\<open>Account::new\<close>; \<open>u\<close> is the fresh UUID.\<close>

definition Account_new :: "uuid \<Rightarrow> uuid \<Rightarrow> bytes \<Rightarrow> bytes \<Rightarrow> device \<Rightarrow> string \<Rightarrow> account" where
  "Account_new u p aik pik d phone =
     \<lparr>aci = u, pni = p, aci_identity_key = aik, pni_identity_key = pik, devices = [d], phone_number = phone\<rparr>"

definition Account_from_db :: "uuid \<Rightarrow> uuid \<Rightarrow> bytes \<Rightarrow> bytes \<Rightarrow> device list \<Rightarrow> string \<Rightarrow> account" where
  "Account_from_db u p aik pik ds phone =
     \<lparr>aci = u, pni = p, aci_identity_key = aik, pni_identity_key = pik, devices = ds, phone_number = phone\<rparr>"

definition Account_add_device :: "device \<Rightarrow> account \<Rightarrow> (error, account) outcome" where
  "Account_add_device d a =
     (if d \<in> set (devices a) then Err ''Device is already registered on the account''
      else Ok (a\<lparr>devices := devices a @ [d]\<rparr>))"

definition device_has_capability :: "device_capability_type \<Rightarrow> device \<Rightarrow> bool" where
  "device_has_capability c d \<longleftrightarrow> c \<in> set (capabilities d)"

definition account_has_capability :: "device_capability_type \<Rightarrow> account \<Rightarrow> (error, bool) outcome" where
  "account_has_capability c a =
     (case account_capability_mode (capability_value c) of
        PrimaryDevice \<Rightarrow>
          (case find (\<lambda>d. device_id d = 1) (devices a) of
             None \<Rightarrow> Panic
           | Some d \<Rightarrow> Ok (device_has_capability c d))
      | AnyDevice \<Rightarrow> Ok (list_ex (device_has_capability c) (devices a))
      | AllDevices \<Rightarrow> Ok (list_all (device_has_capability c) (devices a)))"

text \<open>The largest device id plus one; no device and an id of \<open>u32::MAX\<close> panic.\<close>

definition get_next_device_id :: "account \<Rightarrow> (error, nat) outcome" where
  "get_next_device_id a =
     (if devices a = [] then Panic
      else let m = Max (device_id ` set (devices a)) in if m + 1 < 2 ^ 32 then Ok (m + 1) else Panic)"

fun account_protocol_address :: "id_codec \<Rightarrow> account \<Rightarrow> service_id_kind \<Rightarrow> nat \<Rightarrow> protocol_address" where
  "account_protocol_address ids a KindAci d = \<lparr>addr_name = service_id_string ids (Aci (aci a)), addr_device_id = d\<rparr>"
| "account_protocol_address ids a KindPni d = \<lparr>addr_name = service_id_string ids (Pni (pni a)), addr_device_id = d\<rparr>"

definition auth_protocol_address :: "id_codec \<Rightarrow> authenticated_device \<Rightarrow> service_id_kind \<Rightarrow> protocol_address" where
  "auth_protocol_address ids ad k = account_protocol_address ids (auth_account ad) k (device_id (auth_device ad))"

section \<open>Validators\<close>

record mismatched_devices_error =
  missing_devices :: "nat list"
  extra_devices :: "nat list"

definition registration_matches :: "account \<Rightarrow> bool \<Rightarrow> nat \<times> nat \<Rightarrow> bool" where
  "registration_matches a use_pni p =
     (case find (\<lambda>d. device_id d = fst p) (devices a) of
        None \<Rightarrow> False
      | Some d \<Rightarrow> snd p = (if use_pni then pni_registration_id d else registration_id d))"

definition validate_registration_id_from_id_tuple :: "account \<Rightarrow> (nat \<times> nat) list \<Rightarrow> bool \<Rightarrow> (nat list, unit) outcome"
  where
  "validate_registration_id_from_id_tuple a ps use_pni =
     (let stale = map fst (filter (\<lambda>p. \<not> registration_matches a use_pni p) (filter (\<lambda>p. 0 < snd p) ps))
      in if stale \<noteq> [] then Err stale else Ok ())"

definition validate_registration_id_from_messages :: "account \<Rightarrow> signal_message list \<Rightarrow> bool \<Rightarrow> (nat list, unit) outcome"
  where
  "validate_registration_id_from_messages a ms use_pni =
     validate_registration_id_from_id_tuple a
       (map (\<lambda>m. (destination_device_id m, destination_registration_id m)) ms) use_pni"

definition validate_complete_device_list :: "account \<Rightarrow> nat list \<Rightarrow> nat list \<Rightarrow> (mismatched_devices_error, unit) outcome"
  where
  "validate_complete_device_list a message_ids excluded =
     (let account_ids = filter (\<lambda>i. i \<notin> set excluded) (map device_id (devices a));
          missing = filter (\<lambda>i. i \<notin> set message_ids) account_ids;
          extra = filter (\<lambda>i. i \<notin> set account_ids) message_ids
      in if missing \<noteq> [] \<or> extra \<noteq> [] then Err \<lparr>missing_devices = missing, extra_devices = extra\<rparr> else Ok ())"

text \<open>libsignal's \<open>verify_signature key data signature\<close>, which can fail; a failure counts as false.\<close>

type_synonym verifier = "bytes \<Rightarrow> bytes \<Rightarrow> bytes \<Rightarrow> (error, bool) outcome"

definition signature_valid :: "verifier \<Rightarrow> bytes \<Rightarrow> upload_signed_pre_key \<Rightarrow> bool" where
  "signature_valid verify ik k = (verify ik (usk_public_key k) (usk_signature k) = Ok True)"

definition validate_pre_key_signatures :: "verifier \<Rightarrow> bytes \<Rightarrow> upload_signed_pre_key list \<Rightarrow> bool" where
  "validate_pre_key_signatures verify ik ks = list_all (signature_valid verify ik) ks"

section \<open>Envelopes\<close>

text \<open>Content that is not base64 panics; \<open>now\<close> is the clock in milliseconds.\<close>

definition to_envelope :: "id_codec \<Rightarrow> base64 \<Rightarrow> nat \<Rightarrow> signal_message \<Rightarrow> service_id \<Rightarrow> account \<Rightarrow> nat \<Rightarrow> nat \<Rightarrow> bool
    \<Rightarrow> (error, envelope) outcome" where
  "to_envelope ids b64 now m dest src src_device timestamp urg =
     (case b64_decode b64 (sm_content m) of
        None \<Rightarrow> Panic
      | Some content \<Rightarrow> Ok \<lparr>env_type = Some (sm_type m),
          source_service_id = Some (service_id_string ids (Aci (aci src))), source_device = Some src_device,
          env_timestamp = Some timestamp, env_content = Some content, server_guid = None,
          server_timestamp = Some now, ephemeral = None,
          env_destination_service_id = Some (service_id_string ids dest), urgent = Some urg,
          updated_pni = None, story = None, reporting_token = None\<rparr>)"

section \<open>Properties\<close>

text \<open>The account has a device with this id and this registration id.\<close>

definition registered :: "account \<Rightarrow> bool \<Rightarrow> nat \<times> nat \<Rightarrow> bool" where
  "registered a use_pni p \<longleftrightarrow> (\<exists>d \<in> set (devices a). device_id d = fst p \<and>
     (if use_pni then pni_registration_id d else registration_id d) = snd p)"

lemma registration_matches_iff:
  assumes "distinct (map device_id (devices a))"
  shows "registration_matches a use_pni p \<longleftrightarrow> registered a use_pni p"
proof (cases "find (\<lambda>d. device_id d = fst p) (devices a)")
  case None
  then have "\<forall>d \<in> set (devices a). device_id d \<noteq> fst p" by (auto simp: find_None_iff)
  with None show ?thesis by (auto simp: registration_matches_def registered_def)
next
  case (Some d)
  then have d: "d \<in> set (devices a)" "device_id d = fst p" by (auto simp: find_Some_iff)
  have uniq: "e = d" if "e \<in> set (devices a)" "device_id e = fst p" for e
    using assms that d by (auto simp: distinct_map inj_on_def)
  have "registered a use_pni p \<longleftrightarrow> (if use_pni then pni_registration_id d else registration_id d) = snd p"
    unfolding registered_def using uniq d by blast
  with Some show ?thesis by (auto simp: registration_matches_def)
qed

text \<open>
  C29 (equivalence). \<open>validate_complete_device_list\<close> accepts a set of messages exactly when they
  address every device of the account that is not excluded, and no other device; otherwise the
  error lists precisely the devices that were left out and the ones that do not belong.
\<close>

theorem validate_complete_device_list_iff:
  "case validate_complete_device_list a ms ex of
     Ok _ \<Rightarrow> set ms = device_id ` set (devices a) - set ex
   | Err e \<Rightarrow> set ms \<noteq> device_id ` set (devices a) - set ex \<and>
       set (missing_devices e) = device_id ` set (devices a) - set ex - set ms \<and>
       set (extra_devices e) = set ms - (device_id ` set (devices a) - set ex)
   | Panic \<Rightarrow> False"
  by (auto simp: validate_complete_device_list_def Let_def filter_empty_conv)

text \<open>
  \<open>validate_registration_id_from_id_tuple\<close> accepts the pairs exactly when every
  positive registration id is that of the device it is given for, and otherwise returns the ids
  of precisely the devices for which it is not.
\<close>

theorem validate_registration_ids_stale:
  assumes "distinct (map device_id (devices a))"
  shows "case validate_registration_id_from_id_tuple a ps use_pni of
      Ok _ \<Rightarrow> {p \<in> set ps. 0 < snd p \<and> \<not> registered a use_pni p} = {}
    | Err stale \<Rightarrow> stale \<noteq> [] \<and> set stale = fst ` {p \<in> set ps. 0 < snd p \<and> \<not> registered a use_pni p}
    | Panic \<Rightarrow> False"
  unfolding validate_registration_id_from_id_tuple_def Let_def registration_matches_iff [OF assms]
  by (simp add: filter_empty_conv)

definition example_account :: account where
  "example_account = \<lparr>aci = 1, pni = 2, aci_identity_key = 5 # replicate 32 1, pni_identity_key = 5 # replicate 32 2, devices =
     [\<lparr>device_id = 1, dev_name = ''phone'', last_seen = 0, created = 0, auth_token = ''t1'', salt = ''s1'',
       registration_id = 7, pni_registration_id = 8, capabilities = []\<rparr>,
      \<lparr>device_id = 2, dev_name = ''laptop'', last_seen = 0, created = 0, auth_token = ''t2'', salt = ''s2'',
       registration_id = 9, pni_registration_id = 10, capabilities = []\<rparr>], phone_number = ''123''\<rparr>"

theorem validate_registration_ids_stale_witness:
  "\<exists>stale. validate_registration_id_from_id_tuple example_account [(1, 7), (2, 8), (3, 0)] False = Err stale \<and>
     set stale = {2}"
proof -
  let ?ps = "[(1, 7), (2, 8), (3, 0)] :: (nat \<times> nat) list"
  have "{p \<in> set ?ps. 0 < snd p \<and> \<not> registered example_account False p} = {(2, 8)}"
    by (auto simp: registered_def example_account_def)
  with validate_registration_ids_stale [of example_account ?ps False] show ?thesis
    by (auto simp: example_account_def split: outcome.splits)
qed

text \<open>
  The id for a new device is larger than the id of every device of the account,
  so linking never reuses an id; the computation fails only for an account without devices or
  when the ids of \<open>u32\<close> are exhausted.
\<close>

theorem get_next_device_id_fresh:
  "case get_next_device_id a of
     Ok n \<Rightarrow> n < 2 ^ 32 \<and> list_all (\<lambda>d. device_id d < n) (devices a)
   | Err _ \<Rightarrow> False
   | Panic \<Rightarrow> devices a = [] \<or> list_ex (\<lambda>d. 2 ^ 32 - 1 \<le> device_id d) (devices a)"
  by (auto simp: get_next_device_id_def Let_def less_Suc_eq_le not_less list_all_iff list_ex_iff
      dest!: Max_in [rotated])

end
