(* ===== verification/Message_Cache.thy ===== *)
theory Message_Cache
  imports Denim_Queues Account
begin

text \<open>
  \<open>MessageCache\<close> of \<open>server/src/managers/message/message_cache.rs\<close>: one queue of envelopes per
  device in Redis, an index of the queues by the time of their first message, and a lock that hides
  a queue while it is moved to the database.
\<close>

section \<open>Keys\<close>

definition get_message_queue_key :: "protocol_address \<Rightarrow> key" where
  "get_message_queue_key a = ''user_queue'' @ braced a"

definition get_persist_in_progress_key :: "protocol_address \<Rightarrow> key" where
  "get_persist_in_progress_key a = ''user_queue_persisting'' @ braced a"

definition get_message_queue_metadata_key :: "protocol_address \<Rightarrow> key" where
  "get_message_queue_metadata_key a = ''user_queue_metadata'' @ braced a"

definition get_queue_index_key :: key where
  "get_queue_index_key = ''user_queue_index_key''"

text \<open>\<open>str::split("::")\<close>, \<open>trim_matches\<close> and \<open>trim_end_matches\<close> with one character.\<close>

fun split_colons :: "string \<Rightarrow> string list" where
  "split_colons (a # b # r) =
     (if a = CHR '':'' \<and> b = CHR '':'' then [] # split_colons r
      else case split_colons (b # r) of [] \<Rightarrow> [[a]] | p # ps \<Rightarrow> (a # p) # ps)"
| "split_colons s = [s]"

definition trim_end_matches :: "char \<Rightarrow> string \<Rightarrow> string" where
  "trim_end_matches c s = rev (dropWhile (\<lambda>x. x = c) (rev s))"

definition trim_matches :: "char \<Rightarrow> string \<Rightarrow> string" where
  "trim_matches c s = trim_end_matches c (dropWhile (\<lambda>x. x = c) s)"

text \<open>Indexing past the end of the pieces panics.\<close>

definition get_account_and_device_id_from_queue_key :: "key \<Rightarrow> ('e, string \<times> string) outcome" where
  "get_account_and_device_id_from_queue_key qk =
     (let parts = split_colons qk in
      case (nth_opt parts 1, nth_opt parts 2) of
        (Some p1, Some p2) \<Rightarrow> Ok (trim_matches (CHR ''{'') p1, trim_end_matches (CHR ''}'') p2)
      | _ \<Rightarrow> Panic)"

section \<open>Operations\<close>

definition message_insert :: "'r redis \<Rightarrow> base64 \<Rightarrow> envelope codec \<Rightarrow> nat \<Rightarrow> protocol_address \<Rightarrow> envelope
    \<Rightarrow> string \<Rightarrow> (('r, 'l) caches, error, nat) step" where
  "message_insert R b64 C now a env guid =
     bindS (on_store (CONNECT R)) (\<lambda>_.
     and_then (on_store (redis_insert R b64 now (get_message_queue_key a) (get_message_queue_metadata_key a)
         get_queue_index_key guid (serialize C (env\<lparr>server_guid := Some guid\<rparr>))))
       (notify_cached a))"

definition message_remove :: "'r redis \<Rightarrow> base64 \<Rightarrow> envelope codec \<Rightarrow> protocol_address \<Rightarrow> string list
    \<Rightarrow> (('r, 'l) caches, error, envelope list) step" where
  "message_remove R b64 C a guids =
     bindS (on_store (CONNECT R)) (\<lambda>_.
     on_store (redis_remove R (decode_values b64 (deserialize C)) (get_message_queue_key a)
       (get_message_queue_metadata_key a) get_queue_index_key guids))"

text \<open>The count is read as a \<open>u32\<close>; asking notifies the listener.\<close>

definition has_messages :: "'r redis \<Rightarrow> protocol_address \<Rightarrow> (('r, 'l) caches, error, bool) step" where
  "has_messages R a =
     bindS (on_store (CONNECT R)) (\<lambda>_.
     bindS (on_store (ZCARD R (get_message_queue_key a))) (\<lambda>n.
     if 2 ^ 32 \<le> n then failS ''Response type not convertible to u32''
     else and_then (returnS (0 < n)) (notify_cached a)))"

definition get_all_messages :: "'r redis \<Rightarrow> base64 \<Rightarrow> envelope codec \<Rightarrow> protocol_address
    \<Rightarrow> (('r, 'l) caches, error, envelope list) step" where
  "get_all_messages R b64 C a =
     bindS (on_store (CONNECT R)) (\<lambda>_.
     bindS (on_store (get_values R (get_message_queue_key a) (get_persist_in_progress_key a)
         (get_message_queue_metadata_key a) (- 1))) (\<lambda>(vs, _).
     if vs = [] then returnS [] else liftS (decode_values b64 (deserialize C) vs)))"

text \<open>A value that cannot be decoded is unwrapped here.\<close>

definition get_messages_to_persist :: "'r redis \<Rightarrow> base64 \<Rightarrow> envelope codec \<Rightarrow> protocol_address \<Rightarrow> int
    \<Rightarrow> (('r, 'l) caches, error, envelope list) step" where
  "get_messages_to_persist R b64 C a lmt =
     bindS (on_store (CONNECT R)) (\<lambda>_.
     bindS (on_store (ZRANGE R (get_message_queue_key a) 0 lmt)) (\<lambda>vs.
     liftS (expect (decode_values b64 (deserialize C) vs))))"

definition get_message_queues_to_persist :: "'r redis \<Rightarrow> nat \<Rightarrow> nat \<Rightarrow> (('r, 'l) caches, error, key list) step"
  where
  "get_message_queues_to_persist R max_time lmt =
     bindS (on_store (CONNECT R)) (\<lambda>_.
     bindS (on_store (ZRANGE_BYSCORE R get_queue_index_key (Incl 0) (Upto (int max_time)) (Some (0, lmt)))) (\<lambda>ks.
     if ks \<noteq> [] then bindS (on_store (ZREM R get_queue_index_key ks)) (\<lambda>_. returnS ks) else returnS ks))"

definition lock_queue_for_persistence :: "'r redis \<Rightarrow> protocol_address \<Rightarrow> (('r, 'l) caches, error, unit) step" where
  "lock_queue_for_persistence R a =
     bindS (on_store (CONNECT R)) (\<lambda>_. on_store (SETEX R (get_persist_in_progress_key a) 30 ''1''))"

definition unlock_queue_for_persistence :: "'r redis \<Rightarrow> protocol_address \<Rightarrow> (('r, 'l) caches, error, unit) step" where
  "unlock_queue_for_persistence R a =
     bindS (on_store (CONNECT R)) (\<lambda>_.
     bindS (on_store (DEL R (get_persist_in_progress_key a))) (\<lambda>_.
     and_then (returnS ()) (notify_persisted a)))"

definition add_message_availability_listener :: "protocol_address \<Rightarrow> 'l \<Rightarrow> ('r, 'l) caches \<Rightarrow> ('r, 'l) caches" where
  "add_message_availability_listener = add_listener"

definition remove_message_availability_listener :: "protocol_address \<Rightarrow> ('r, 'l) caches \<Rightarrow> ('r, 'l) caches" where
  "remove_message_availability_listener = remove_listener"

section \<open>Keys of different devices\<close>

lemma split_colons_clean:
  "\<lbrakk> \<not> has_sep s; s \<noteq> []; last s \<noteq> CHR '':'' \<rbrakk> \<Longrightarrow> split_colons (s @ ''::'' @ t) = s # split_colons t"
  by (induction s rule: split_colons.induct) (auto split: if_splits)

lemma split_colons_no_colon: "CHR '':'' \<notin> set s \<Longrightarrow> split_colons s = [s]"
  by (induction s rule: split_colons.induct) auto

lemma trim_end_none: "c \<notin> set s \<Longrightarrow> trim_end_matches c s = s"
  by (cases s rule: rev_cases) (auto simp: trim_end_matches_def)

lemma trim_end_one: "c \<notin> set s \<Longrightarrow> trim_end_matches c (s @ [c]) = s"
  using trim_end_none [of c s] by (simp add: trim_end_matches_def)

lemma trim_none: "c \<notin> set s \<Longrightarrow> trim_matches c (c # s) = s"
  by (cases s) (auto simp: trim_matches_def trim_end_none)

text \<open>
  The address that \<open>persist\<close> reads out of a queue key is the address that the key was
  made for: splitting \<open>user_queue::{name::device}\<close> gives back the name and the decimal device id of
  every name without the separator, braces and colons at its ends, as the printed service ids are.
\<close>

theorem queue_key_round_trip:
  assumes "clean_name (addr_name a)"
  shows "get_account_and_device_id_from_queue_key (get_message_queue_key a)
    = Ok (addr_name a, show_nat (addr_device_id a))"
proof -
  let ?n = "addr_name a" and ?d = "show_nat (addr_device_id a) @ ''}''"
  have n: "\<not> has_sep ?n" "?n \<noteq> []" "hd ?n \<noteq> CHR '':''" "last ?n \<noteq> CHR '':''" "CHR ''{'' \<notin> set ?n"
    using assms by (auto simp: clean_name_def)
  have "\<not> has_sep (CHR ''{'' # ?n)" using n(1,2) by (cases ?n) auto
  then have "split_colons (''{'' @ ?n @ ''::'' @ ?d) = (''{'' @ ?n) # split_colons ?d"
    using split_colons_clean [of "''{'' @ ?n" ?d] n(2,4) by simp
  moreover have "split_colons ?d = [?d]" by (rule split_colons_no_colon) (simp add: show_nat_no_char)
  moreover have "get_message_queue_key a = ''user_queue'' @ ''::'' @ ''{'' @ ?n @ ''::'' @ ?d"
    by (simp add: get_message_queue_key_def braced_def queue_name_def)
  ultimately have "split_colons (get_message_queue_key a) = [''user_queue'', ''{'' @ ?n, ?d]"
    using split_colons_clean [of "''user_queue''" "''{'' @ ?n @ ''::'' @ ?d"] by simp
  then show ?thesis
    using n(5) by (simp add: get_account_and_device_id_from_queue_key_def Let_def trim_none trim_end_one
        show_nat_no_char)
qed

theorem queue_key_round_trip_witness:
  "get_account_and_device_id_from_queue_key (get_message_queue_key \<lparr>addr_name = ''PNI:ab'', addr_device_id = 12\<rparr>)
    = Ok (''PNI:ab'', show_nat 12)"
  using queue_key_round_trip [of "\<lparr>addr_name = ''PNI:ab'', addr_device_id = 12\<rparr>"] by (simp add: clean_name_def)

lemmas message_key_defs = get_message_queue_key_def get_persist_in_progress_key_def
  get_message_queue_metadata_key_def get_queue_index_key_def braced_def rev_key_def

lemma message_keys_distinct:
  "distinct [get_persist_in_progress_key a, get_message_queue_key a, get_message_queue_metadata_key a,
     rev_key (get_message_queue_metadata_key a), get_queue_index_key]"
  by (simp add: message_key_defs)

end
