(* ===== verification/Message_Queues.thy ===== *)
theory Message_Queues
  imports Message_Cache
begin

text \<open>
  The queue of a device in the message cache as a list of guids and envelopes, and what the
  operations of \<open>MessageCache\<close> do to it. Like for the chunk queues, everything is proved for the
  documented Redis commands and carried over to the servers that implement them.
\<close>

section \<open>Representation\<close>

text \<open>The lock is not part of it: whether the queue is locked is said separately.\<close>

definition message_rep :: "base64 \<Rightarrow> envelope codec \<Rightarrow> protocol_address \<Rightarrow> keyspace \<Rightarrow> nat
    \<Rightarrow> (string \<times> envelope) list \<Rightarrow> bool" where
  "message_rep b64 C a K c xs \<longleftrightarrow> (\<exists>items.
     queue_rep b64 (get_message_queue_key a) (get_message_queue_metadata_key a) get_queue_index_key K c items \<and>
     map (\<lambda>it. (item_guid it, item_value it)) items = map (\<lambda>(g, e). (g, serialize C e)) xs \<and>
     str_key K (get_persist_in_progress_key a))"

abbreviation queue_lock :: "protocol_address \<Rightarrow> keyspace \<Rightarrow> string option" where
  "queue_lock a K \<equiv> strs K (get_persist_in_progress_key a)"

text \<open>Every message carries the guid it is stored under, and survives the encoding.\<close>

definition stamped :: "envelope codec \<Rightarrow> (string \<times> envelope) list \<Rightarrow> bool" where
  "stamped C xs \<longleftrightarrow> list_all (\<lambda>(g, e). server_guid e = Some g \<and> codec_ok C e) xs"

lemma message_repE:
  assumes "message_rep b64 C a K c xs"
  obtains items where
    "queue_rep b64 (get_message_queue_key a) (get_message_queue_metadata_key a) get_queue_index_key K c items"
    "map (\<lambda>it. (item_guid it, item_value it)) items = map (\<lambda>(g, e). (g, serialize C e)) xs"
    "str_key K (get_persist_in_progress_key a)" "length items = length xs" "map item_guid items = map fst xs"
proof -
  obtain items where
    q: "queue_rep b64 (get_message_queue_key a) (get_message_queue_metadata_key a) get_queue_index_key K c items"
      "map (\<lambda>it. (item_guid it, item_value it)) items = map (\<lambda>(g, e). (g, serialize C e)) xs"
      "str_key K (get_persist_in_progress_key a)"
    using assms by (auto simp: message_rep_def)
  moreover have "map item_guid items = map fst xs"
    using arg_cong [OF q(2), of "map fst"] by (simp add: o_def split_def)
  moreover have "length items = length xs" using arg_cong [OF q(2), of length] by simp
  ultimately show ?thesis using that by blast
qed

abbreviation message_keys :: "protocol_address \<Rightarrow> key set" where
  "message_keys a \<equiv> {get_message_queue_key a, get_message_queue_metadata_key a,
     rev_key (get_message_queue_metadata_key a), get_queue_index_key}"

lemma message_lock_same:
  assumes "same_except (message_keys a) K K'"
  shows "str_key K' (get_persist_in_progress_key a) = str_key K (get_persist_in_progress_key a)"
    "queue_lock a K' = queue_lock a K"
  using str_key_same [OF assms, of "get_persist_in_progress_key a"] message_keys_distinct [of a] by auto

lemma stamped_sub: "stamped C xs \<Longrightarrow> set ys \<subseteq> set xs \<Longrightarrow> stamped C ys"
  by (auto simp: stamped_def list_all_iff)

lemma stamped_guids: "stamped C xs \<Longrightarrow> map (\<lambda>e. case server_guid e of None \<Rightarrow> '''' | Some g \<Rightarrow> g) (map snd xs) = map fst xs"
  by (induction xs) (auto simp: stamped_def)

text \<open>The lock does not touch the queue.\<close>

lemma queue_rep_other_key:
  assumes "queue_rep b64 qk mk ik K c items" "same_except {k} K K'" "k \<notin> {qk, mk, rev_key mk, ik}"
  shows "queue_rep b64 qk mk ik K' c items"
proof -
  have "hashes K' x = hashes K x \<and> zsets K' x = zsets K x \<and> strs K' x = strs K x \<and> ssets K' x = ssets K x"
    if "x \<in> {qk, mk, rev_key mk, ik}" for x
    using assms(2,3) that by (auto simp: same_except_def)
  with assms(1) show ?thesis unfolding queue_rep_def keys_typed_def zset_key_def hash_key_def by simp
qed

context base64_laws
begin

lemma decode_message_items:
  assumes it: "map (\<lambda>it. (item_guid it, item_value it)) items = map (\<lambda>(g, e). (g, serialize C e)) xs"
    and codec: "stamped C xs"
  shows "decode_values b64 (deserialize C) (map (entry_of b64) items) = Ok (map snd xs)"
  using assms
proof (induction items arbitrary: xs)
  case (Cons i items)
  then obtain g e ys where xs: "xs = (g, e) # ys" "item_value i = serialize C e"
      "map (\<lambda>it. (item_guid it, item_value it)) items = map (\<lambda>(g, e). (g, serialize C e)) ys"
    by (cases xs) auto
  moreover from this Cons.prems(2) have "stamped C ys" "codec_ok C e" by (auto simp: stamped_def)
  ultimately show ?case using Cons.IH [of ys] by (simp add: entry_of_def entry_fields(4) codec_ok_def)
qed simp

lemma message_insert_rep:
  assumes rep: "message_rep b64 C a (store s) c xs"
    and g: "g \<notin> fst ` set xs" "g \<noteq> ''counter''" and c: "c + 1 < 2 ^ 63"
  shows "\<exists>s'. message_insert keyspace_redis b64 C now a e g s = (Ok (c + 1), s') \<and>
    message_rep b64 C a (store s') (c + 1) (xs @ [(g, e\<lparr>server_guid := Some g\<rparr>)]) \<and>
    queue_lock a (store s') = queue_lock a (store s) \<and>
    spawned s' = spawned s @ [Notify_cached (queue_name a)] \<and> listeners s' = listeners s"
proof -
  let ?e = "e\<lparr>server_guid := Some g\<rparr>"
  obtain items where
    q: "queue_rep b64 (get_message_queue_key a) (get_message_queue_metadata_key a) get_queue_index_key (store s) c items"
    and it: "map (\<lambda>it. (item_guid it, item_value it)) items = map (\<lambda>(g, e). (g, serialize C e)) xs"
      "str_key (store s) (get_persist_in_progress_key a)" "map item_guid items = map fst xs"
    by (rule message_repE [OF rep]) blast
  have "g \<notin> set (map item_guid items)" using g(1) it(3) by simp
  from insert_fresh [OF q this g(2) c, of now "serialize C ?e"] obtain K' where
    K': "redis_insert keyspace_redis b64 now (get_message_queue_key a) (get_message_queue_metadata_key a)
        get_queue_index_key g (serialize C ?e) (store s) = (Ok (c + 1), K')"
      "queue_rep b64 (get_message_queue_key a) (get_message_queue_metadata_key a) get_queue_index_key K' (c + 1)
        (items @ [(c + 1, g, serialize C ?e, 0)])" "same_except (message_keys a) (store s) K'" by blast
  have "message_rep b64 C a K' (c + 1) (xs @ [(g, ?e)])"
    unfolding message_rep_def using K'(2) it message_lock_same [OF K'(3)]
    by (intro exI [of _ "items @ [(c + 1, g, serialize C ?e, 0)]"]) simp
  with K'(1) message_lock_same [OF K'(3)] show ?thesis
    by (simp add: message_insert_def redis_simps notify_cached_def)
qed

text \<open>Removing the first messages by their guids.\<close>

lemma message_remove_rep:
  assumes rep: "message_rep b64 C a (store s) c xs" and codec: "stamped C xs"
  shows "\<exists>s' c'. message_remove keyspace_redis b64 C a (map fst (take n xs)) s = (Ok (map snd (take n xs)), s') \<and>
    message_rep b64 C a (store s') c' (drop n xs) \<and> queue_lock a (store s') = queue_lock a (store s) \<and>
    spawned s' = spawned s \<and> listeners s' = listeners s"
proof -
  obtain items where
    q: "queue_rep b64 (get_message_queue_key a) (get_message_queue_metadata_key a) get_queue_index_key (store s) c items"
    and it: "map (\<lambda>it. (item_guid it, item_value it)) items = map (\<lambda>(g, e). (g, serialize C e)) xs"
    and lock: "str_key (store s) (get_persist_in_progress_key a)" and guids: "map item_guid items = map fst xs"
    by (rule message_repE [OF rep]) blast
  note D = queue_repD [OF q]
  let ?de = "\<lambda>it. ok_val (deserialize C (item_value it))"
  have pair: "\<exists>g e. (g, e) \<in> set xs \<and> item_value it = serialize C e" if "it \<in> set items" for it
  proof -
    have "(item_guid it, item_value it) \<in> set (map (\<lambda>(g, e). (g, serialize C e)) xs)"
      using that unfolding it [symmetric] by (auto intro: image_eqI [where x = it])
    then show ?thesis by force
  qed
  have dec: "decode_values b64 (deserialize C) [entry_of b64 it] = Ok [?de it]" if "it \<in> set items" for it
    using pair [OF that] codec
    by (auto simp: entry_of_def entry_fields(4) stamped_def list_all_iff codec_ok_def)
  have "map ?de (take n items) = map (\<lambda>(g, v). ok_val (deserialize C v))
      (take n (map (\<lambda>it. (item_guid it, item_value it)) items))"
    by (simp add: take_map o_def)
  also have "\<dots> = map snd (take n xs)"
    unfolding it using codec by (auto simp: take_map stamped_def list_all_iff codec_ok_def dest!: in_set_takeD)
  finally have vals: "map ?de (take n items) = map snd (take n xs)" .
  have "map item_guid (take n items) = take n (map item_guid items)" by (simp add: take_map)
  then have gs: "map fst (take n xs) = map item_guid (take n items)" by (simp add: guids take_map)
  have "''counter'' \<notin> set (map item_guid (take n items))"
    using guids_not_counter [OF D(5)] set_take_subset [of n items] by auto
  from remove_guids [OF q this, of "decode_values b64 (deserialize C)" ?de] dec obtain K' where
    K': "redis_remove keyspace_redis (decode_values b64 (deserialize C)) (get_message_queue_key a)
        (get_message_queue_metadata_key a) get_queue_index_key (map item_guid (take n items)) (store s) =
        (Ok (map ?de (take n items)), K')"
      "queue_rep b64 (get_message_queue_key a) (get_message_queue_metadata_key a) get_queue_index_key K'
        (if drop n items = [] then 0 else c) (drop n items)"
      "same_except (message_keys a) (store s) K'"
    unfolding taken_page [OF D(4)] rest_page [OF D(4)] by blast
  have "message_rep b64 C a K' (if drop n items = [] then 0 else c) (drop n xs)"
    unfolding message_rep_def using K'(2) lock message_lock_same [OF K'(3)] arg_cong [OF it, of "drop n"]
    by (intro exI [of _ "drop n items"]) (simp add: drop_map)
  with K'(1) message_lock_same [OF K'(3)] show ?thesis
    unfolding gs
    by (intro exI [of _ "s\<lparr>store := K'\<rparr>"] exI [of _ "if drop n items = [] then 0 else c"])
      (simp add: message_remove_def redis_simps vals)
qed

lemma index_range_prefix: "0 \<le> n \<Longrightarrow> index_range 0 (int n) xs = take (n + 1) xs"
  by (simp add: index_range_def Let_def nat_add_distrib)

lemma messages_to_persist_rep:
  assumes rep: "message_rep b64 C a (store s) c xs" and codec: "stamped C xs"
  shows "get_messages_to_persist keyspace_redis b64 C a (int n) s = (Ok (map snd (take (n + 1) xs)), s)"
proof -
  obtain items where
    q: "queue_rep b64 (get_message_queue_key a) (get_message_queue_metadata_key a) get_queue_index_key (store s) c items"
    and it: "map (\<lambda>it. (item_guid it, item_value it)) items = map (\<lambda>(g, e). (g, serialize C e)) xs"
    by (rule message_repE [OF rep]) blast
  note D = queue_repD [OF q]
  have "map snd (index_range 0 (int n) (zsets (store s) (get_message_queue_key a))) = map (entry_of b64) (take (n + 1) items)"
    by (simp add: D(2) index_range_prefix take_map)
  moreover have "decode_values b64 (deserialize C) (map (entry_of b64) (take (n + 1) items)) = Ok (map snd (take (n + 1) xs))"
    using arg_cong [OF it, of "take (n + 1)"] stamped_sub [OF codec set_take_subset]
    by (intro decode_message_items) (simp_all add: take_map)
  ultimately show ?thesis
    using keys_typedD(1) [OF D(1)] by (simp add: get_messages_to_persist_def redis_simps expect_def)
qed

lemma get_all_messages_rep:
  assumes rep: "message_rep b64 C a (store s) c xs" and codec: "stamped C xs"
  shows "get_all_messages keyspace_redis b64 C a s =
    (Ok (if queue_lock a (store s) = None then map snd (take PAGE_SIZE xs) else []), s)"
proof -
  obtain items where
    q: "queue_rep b64 (get_message_queue_key a) (get_message_queue_metadata_key a) get_queue_index_key (store s) c items"
    and it: "map (\<lambda>it. (item_guid it, item_value it)) items = map (\<lambda>(g, e). (g, serialize C e)) xs"
    and lock: "str_key (store s) (get_persist_in_progress_key a)" and len: "length items = length xs"
    by (rule message_repE [OF rep]) blast
  show ?thesis
  proof (cases "queue_lock a (store s)")
    case None
    have "decode_values b64 (deserialize C) (map (entry_of b64) (take PAGE_SIZE items)) = Ok (map snd (take PAGE_SIZE xs))"
      using arg_cong [OF it, of "take PAGE_SIZE"] stamped_sub [OF codec set_take_subset]
      by (intro decode_message_items) (simp_all add: take_map)
    moreover have "take PAGE_SIZE items = [] \<longleftrightarrow> take PAGE_SIZE xs = []" using len by (cases items; cases xs) auto
    ultimately show ?thesis
      using get_values_page [OF q lock None, of "- 1"] None
      by (auto simp: get_all_messages_def redis_simps)
  next
    case (Some v)
    with get_values_locked [OF lock, of "get_message_queue_key a" "get_message_queue_metadata_key a" "- 1"]
    show ?thesis by (simp add: get_all_messages_def redis_simps)
  qed
qed

lemma lock_rep:
  assumes "message_rep b64 C a (store s) c xs"
  shows "\<exists>s'. lock_queue_for_persistence keyspace_redis a s = (Ok (), s') \<and> message_rep b64 C a (store s') c xs \<and>
    queue_lock a (store s') \<noteq> None \<and> spawned s' = spawned s \<and> listeners s' = listeners s"
proof -
  let ?k = "get_persist_in_progress_key a"
  let ?K = "(del_key ?k (store s))\<lparr>strs := (strs (store s))(?k \<mapsto> ''1'')\<rparr>"
  have same: "same_except {?k} (store s) ?K" by (auto simp: same_except_def)
  have "message_rep b64 C a ?K c xs"
    using assms queue_rep_other_key [OF _ same] message_keys_distinct [of a]
    unfolding message_rep_def by (fastforce simp: str_key_def)
  then show ?thesis by (simp add: lock_queue_for_persistence_def redis_simps)
qed

lemma unlock_rep:
  assumes "message_rep b64 C a (store s) c xs"
  shows "\<exists>s'. unlock_queue_for_persistence keyspace_redis a s = (Ok (), s') \<and> message_rep b64 C a (store s') c xs \<and>
    queue_lock a (store s') = None \<and> spawned s' = spawned s @ [Notify_persisted (queue_name a)] \<and>
    listeners s' = listeners s"
proof -
  let ?k = "get_persist_in_progress_key a"
  have same: "same_except {?k} (store s) (del_key ?k (store s))" by (auto simp: same_except_def)
  have "message_rep b64 C a (del_key ?k (store s)) c xs"
    using assms queue_rep_other_key [OF _ same] message_keys_distinct [of a]
    unfolding message_rep_def by (fastforce simp: str_key_def)
  then show ?thesis by (simp add: unlock_queue_for_persistence_def redis_simps notify_persisted_def)
qed

lemma message_rep_empty: "message_rep b64 C a empty_keyspace 0 []"
  unfolding message_rep_def using message_keys_distinct [of a] by (simp add: queue_rep_empty)

end

section \<open>Other servers\<close>

context redis_server
begin

lemma sim_message_insert [sim_intros]:
  "simulates (map_store view) (message_insert R b64 C now a e g) (message_insert keyspace_redis b64 C now a e g)"
  unfolding message_insert_def notify_cached_def by (intro sim_intros)

lemma sim_message_remove [sim_intros]:
  "simulates (map_store view) (message_remove R b64 C a gs) (message_remove keyspace_redis b64 C a gs)"
  unfolding message_remove_def by (intro sim_intros)

lemma sim_has_messages [sim_intros]:
  "simulates (map_store view) (has_messages R a) (has_messages keyspace_redis a)"
  unfolding has_messages_def notify_cached_def by (intro sim_intros)

lemma sim_get_all_messages [sim_intros]:
  "simulates (map_store view) (get_all_messages R b64 C a) (get_all_messages keyspace_redis b64 C a)"
  unfolding get_all_messages_def by (intro sim_intros)

lemma sim_get_messages_to_persist [sim_intros]:
  "simulates (map_store view) (get_messages_to_persist R b64 C a n) (get_messages_to_persist keyspace_redis b64 C a n)"
  unfolding get_messages_to_persist_def by (intro sim_intros)

lemma sim_lock_queue [sim_intros]:
  "simulates (map_store view) (lock_queue_for_persistence R a) (lock_queue_for_persistence keyspace_redis a)"
  unfolding lock_queue_for_persistence_def by (intro sim_intros)

lemma sim_unlock_queue [sim_intros]:
  "simulates (map_store view) (unlock_queue_for_persistence R a) (unlock_queue_for_persistence keyspace_redis a)"
  unfolding unlock_queue_for_persistence_def notify_persisted_def by (intro sim_intros)

end

end
