(* ===== verification/Signal_Database.thy ===== *)
theory Signal_Database
  imports Account
begin

text \<open>
  The trait \<open>SignalDatabase\<close> of \<open>server/src/storage/database.rs\<close> as a record of steps on the
  database's state \<open>'d\<close>. The managers take such a record; \<open>Postgres\<close> provides one.
\<close>

section \<open>The trait\<close>

text \<open>
  The errors that the callers can tell apart: sqlx's \<open>RowNotFound\<close>, a database error with the name
  of the violated constraint, and any other error with its message.
\<close>

datatype db_error = RowNotFound | Database string | Anyhow string

record 'd signal_database =
  add_account :: "account \<Rightarrow> ('d, db_error, unit) step"
  get_account :: "service_id \<Rightarrow> ('d, db_error, account) step"
  get_account_from_phonenumber_without_devices :: "string \<Rightarrow> ('d, db_error, account) step"
  add_device :: "service_id \<Rightarrow> device \<Rightarrow> ('d, db_error, unit) step"
  get_all_devices :: "service_id \<Rightarrow> ('d, db_error, device list) step"
  get_device :: "protocol_address \<Rightarrow> ('d, db_error, device) step"
  delete_device :: "protocol_address \<Rightarrow> ('d, db_error, unit) step"
  update_account_aci :: "service_id \<Rightarrow> uuid \<Rightarrow> ('d, db_error, unit) step"
  update_account_pni :: "service_id \<Rightarrow> uuid \<Rightarrow> ('d, db_error, unit) step"
  delete_account :: "service_id \<Rightarrow> ('d, db_error, unit) step"
  get_device_capabilities :: "protocol_address \<Rightarrow> ('d, db_error, device_capability_type list) step"
  get_all_device_capabilities :: "service_id \<Rightarrow> ('d, db_error, (nat \<times> device_capability_type) list) step"
  add_used_device_link_token :: "string \<Rightarrow> ('d, db_error, unit) step"
  push_message_queue :: "protocol_address \<Rightarrow> envelope list \<Rightarrow> ('d, db_error, unit) step"
  pop_msg_queue :: "protocol_address \<Rightarrow> ('d, db_error, envelope list) step"
  store_signed_pre_key :: "upload_signed_pre_key \<Rightarrow> protocol_address \<Rightarrow> ('d, db_error, unit) step"
  store_pq_signed_pre_key :: "upload_signed_pre_key \<Rightarrow> protocol_address \<Rightarrow> ('d, db_error, unit) step"
  store_key_bundle :: "device_pre_key_bundle \<Rightarrow> protocol_address \<Rightarrow> ('d, db_error, unit) step"
  get_key_bundle :: "protocol_address \<Rightarrow> ('d, db_error, device_pre_key_bundle) step"
  get_one_time_ec_pre_key_count :: "service_id \<Rightarrow> ('d, db_error, nat) step"
  get_one_time_pq_pre_key_count :: "service_id \<Rightarrow> ('d, db_error, nat) step"
  store_one_time_ec_pre_keys :: "upload_pre_key list \<Rightarrow> protocol_address \<Rightarrow> ('d, db_error, unit) step"
  store_one_time_pq_pre_keys :: "upload_signed_pre_key list \<Rightarrow> protocol_address \<Rightarrow> ('d, db_error, unit) step"
  get_one_time_ec_pre_key :: "protocol_address \<Rightarrow> ('d, db_error, upload_pre_key option) step"
  get_one_time_pq_pre_key :: "protocol_address \<Rightarrow> ('d, db_error, upload_signed_pre_key) step"
  count_messages :: "protocol_address \<Rightarrow> ('d, db_error, nat) step"
  get_messages :: "protocol_address \<Rightarrow> ('d, db_error, envelope list) step"
  delete_messages :: "protocol_address \<Rightarrow> ('d, db_error, envelope list) step"

section \<open>What the managers rely on\<close>

text \<open>
  The queue of messages of a device. \<open>known\<close> says that the address names a device of the database,
  \<open>storable\<close> which envelopes survive being stored.
\<close>

locale message_store =
  fixes D :: "'d signal_database"
    and inv :: "'d \<Rightarrow> bool"
    and known :: "'d \<Rightarrow> protocol_address \<Rightarrow> bool"
    and storable :: "envelope \<Rightarrow> bool"
    and msgs :: "'d \<Rightarrow> protocol_address \<Rightarrow> envelope list"
  assumes push: "\<lbrakk> inv d; known d a; list_all storable ms \<rbrakk> \<Longrightarrow>
      \<exists>d'. push_message_queue D a ms d = (Ok (), d') \<and> inv d' \<and> known d' a \<and> msgs d' a = msgs d a @ ms"
    and count: "\<lbrakk> inv d; known d a; length (msgs d a) < 2 ^ 32 \<rbrakk> \<Longrightarrow>
      count_messages D a d = (Ok (length (msgs d a)), d)"
    and get: "\<lbrakk> inv d; known d a \<rbrakk> \<Longrightarrow> get_messages D a d = (Ok (msgs d a), d)"
    and delete: "\<lbrakk> inv d; known d a \<rbrakk> \<Longrightarrow>
      \<exists>d'. delete_messages D a d = (Ok (msgs d a), d') \<and> inv d' \<and> known d' a \<and> msgs d' a = []"

end
