(* ===== verification/Account_Manager.thy ===== *)
theory Account_Manager
  imports Signal_Database Bincode
begin

text \<open>
  \<open>AccountManager\<close>, \<open>KeyManager\<close> (\<open>server/src/managers/\<close>) and the authentication of requests
  (\<open>server/src/account_authenticator.rs\<close>), over any \<open>SignalDatabase\<close>. Random UUIDs and salts are
  arguments; libsignal's signatures, SHA-256, HKDF and the hex encoding are parameters.
\<close>

section \<open>Errors of the API\<close>

record api_error =
  status_code :: nat
  body :: string

abbreviation (input) BAD_REQUEST :: nat where "BAD_REQUEST \<equiv> 400"
abbreviation (input) UNAUTHORIZED :: nat where "UNAUTHORIZED \<equiv> 401"
abbreviation (input) NOT_FOUND :: nat where "NOT_FOUND \<equiv> 404"
abbreviation (input) UNPROCESSABLE_ENTITY :: nat where "UNPROCESSABLE_ENTITY \<equiv> 422"
abbreviation (input) INTERNAL_SERVER_ERROR :: nat where "INTERNAL_SERVER_ERROR \<equiv> 500"

definition api :: "nat \<Rightarrow> string \<Rightarrow> api_error" where
  "api code b = \<lparr>status_code = code, body = b\<rparr>"

text \<open>\<open>map_err\<close> on a step.\<close>

definition map_errS :: "('e \<Rightarrow> 'f) \<Rightarrow> ('s, 'e, 'a) step \<Rightarrow> ('s, 'f, 'a) step" where
  "map_errS f m s = (case m s of (r, s') \<Rightarrow> (map_err f r, s'))"

lemma map_errS_apply [simp]: "m s = (r, s') \<Longrightarrow> map_errS f m s = (map_err f r, s')"
  by (simp add: map_errS_def)

section \<open>Accounts\<close>

text \<open>\<open>u\<close> and \<open>p\<close> are the fresh UUIDs of the ACI and the PNI.\<close>

definition create_account_error :: "db_error \<Rightarrow> api_error" where
  "create_account_error e =
     (if e = Database ''phone_number''
      then api BAD_REQUEST (''Could not create account'' @ '', phone number already in use'')
      else api INTERNAL_SERVER_ERROR ''Could not create account'')"

definition create_account :: "'d signal_database \<Rightarrow> uuid \<Rightarrow> uuid \<Rightarrow> string \<Rightarrow> bytes \<Rightarrow> bytes \<Rightarrow> device
    \<Rightarrow> ('d, api_error, account) step" where
  "create_account D u p phone aik pik primary =
     (let a = Account_new u p aik pik primary phone in
      bindS (map_errS create_account_error (add_account D a)) (\<lambda>_. returnS a))"

section \<open>Keys\<close>

definition database_fault :: "db_error \<Rightarrow> api_error" where
  "database_fault e = api INTERNAL_SERVER_ERROR ''Database fault''"

text \<open>The closure \<open>verify_key\<close>: a key or signature that libsignal cannot read is unwrapped.\<close>

definition verify_key :: "verifier \<Rightarrow> bytes \<Rightarrow> upload_signed_pre_key \<Rightarrow> (api_error, unit) outcome" where
  "verify_key verify ik k =
     (case verify ik (usk_public_key k) (usk_signature k) of
        Ok valid \<Rightarrow> if \<not> valid then Err (api UNPROCESSABLE_ENTITY ''Invalid signature'') else Ok ()
      | _ \<Rightarrow> Panic)"

definition verify_opt :: "verifier \<Rightarrow> bytes \<Rightarrow> upload_signed_pre_key option \<Rightarrow> (api_error, unit) outcome" where
  "verify_opt verify ik k = (case k of None \<Rightarrow> Ok () | Some x \<Rightarrow> verify_key verify ik x)"

fun verify_keys :: "verifier \<Rightarrow> bytes \<Rightarrow> upload_signed_pre_key list \<Rightarrow> (api_error, unit) outcome" where
  "verify_keys verify ik [] = Ok ()"
| "verify_keys verify ik (k # ks) = bind (verify_key verify ik k) (\<lambda>_. verify_keys verify ik ks)"

fun account_identity_key :: "account \<Rightarrow> service_id_kind \<Rightarrow> bytes" where
  "account_identity_key a KindAci = aci_identity_key a"
| "account_identity_key a KindPni = pni_identity_key a"

definition whenS :: "'x option \<Rightarrow> ('x \<Rightarrow> ('s, 'e, unit) step) \<Rightarrow> ('s, 'e, unit) step" where
  "whenS x f = (case x of None \<Rightarrow> returnS () | Some v \<Rightarrow> f v)"

definition handle_put_keys :: "'d signal_database \<Rightarrow> id_codec \<Rightarrow> verifier \<Rightarrow> authenticated_device
    \<Rightarrow> set_key_request \<Rightarrow> service_id_kind \<Rightarrow> ('d, api_error, unit) step" where
  "handle_put_keys D ids verify ad b k =
     (let address = auth_protocol_address ids ad k;
          ik = account_identity_key (auth_account ad) k in
      bindS (liftS (verify_opt verify ik (skr_signed_pre_key b))) (\<lambda>_.
      bindS (liftS (verify_opt verify ik (skr_pq_last_resort_pre_key b))) (\<lambda>_.
      bindS (liftS (case skr_pq_pre_key b of None \<Rightarrow> Ok () | Some ks \<Rightarrow> verify_keys verify ik ks)) (\<lambda>_.
      bindS (whenS (skr_pre_key b) (\<lambda>ks. map_errS database_fault (store_one_time_ec_pre_keys D ks address))) (\<lambda>_.
      bindS (whenS (skr_signed_pre_key b) (\<lambda>x. map_errS database_fault (store_signed_pre_key D x address))) (\<lambda>_.
      bindS (whenS (skr_pq_pre_key b) (\<lambda>ks. map_errS database_fault (store_one_time_pq_pre_keys D ks address))) (\<lambda>_.
      bindS (whenS (skr_pq_last_resort_pre_key b)
        (\<lambda>x. map_errS database_fault (store_pq_signed_pre_key D x address))) (\<lambda>_.
      returnS ()))))))))"

text \<open>The nested \<open>get_key\<close>; \<open>disp\<close> is the printed form of a database error.\<close>

definition get_key :: "'d signal_database \<Rightarrow> (db_error \<Rightarrow> string) \<Rightarrow> service_id \<Rightarrow> protocol_address \<Rightarrow> nat
    \<Rightarrow> ('d, api_error, pre_key_response_item) step" where
  "get_key D disp sid address reg =
     bindS (map_errS (\<lambda>e. api INTERNAL_SERVER_ERROR (''Could not fetch user key bundle: '' @ disp e))
       (get_key_bundle D address)) (\<lambda>bundle.
     let (pq, spk) = (case sid of
         Aci _ \<Rightarrow> (aci_pq_pre_key bundle, aci_signed_pre_key bundle)
       | Pni _ \<Rightarrow> (pni_pq_pre_key bundle, pni_signed_pre_key bundle)) in
     bindS (map_errS (\<lambda>_. api INTERNAL_SERVER_ERROR ''Could not fetch user pre key'')
       (get_one_time_ec_pre_key D address)) (\<lambda>prekey.
     returnS \<lparr>pki_device_id = addr_device_id address, pki_registration_id = reg, pki_pre_key = prekey,
       pki_pq_pre_key = pq, pki_signed_pre_key = spk\<rparr>))"

definition key_targets :: "'d signal_database \<Rightarrow> id_codec \<Rightarrow> service_id \<Rightarrow> string \<Rightarrow> ('d, api_error, device list) step"
  where
  "key_targets D ids target target_device_id =
     (case parse_u32 target_device_id of
        Some i \<Rightarrow>
          bindS (map_errS (\<lambda>_. api NOT_FOUND (''Device id does not exist: '' @ show_nat i))
            (get_device D \<lparr>addr_name = service_id_string ids target, addr_device_id = i\<rparr>)) (\<lambda>d. returnS [d])
      | None \<Rightarrow>
          if target_device_id = ''*'' then
            map_errS (\<lambda>_. api INTERNAL_SERVER_ERROR ''Could not get all targets devices'') (get_all_devices D target)
          else failS (api UNPROCESSABLE_ENTITY (''Target device id is not a u32 or '' @ [CHR 0x27] @ ''*'' @ [CHR 0x27])))"

definition handle_get_keys_id_device_id :: "'d signal_database \<Rightarrow> id_codec \<Rightarrow> (db_error \<Rightarrow> string)
    \<Rightarrow> authenticated_device \<Rightarrow> service_id \<Rightarrow> string \<Rightarrow> ('d, api_error, pre_key_response) step" where
  "handle_get_keys_id_device_id D ids disp ad target target_device_id =
     bindS (map_errS (\<lambda>_. api UNAUTHORIZED '''') (get_account D (Aci (aci (auth_account ad))))) (\<lambda>_.
     bindS (map_errS (\<lambda>_. api NOT_FOUND (''Could not find account for service id: '' @ service_id_string ids target))
       (get_account D target)) (\<lambda>target_account.
     bindS (key_targets D ids target target_device_id) (\<lambda>ds.
     bindS (forS ds (\<lambda>d. get_key D disp target
       \<lparr>addr_name = service_id_string ids target, addr_device_id = device_id d\<rparr> (registration_id d))) (\<lambda>ks.
     returnS \<lparr>pks_service_id = service_id_string ids target,
       pks_identity_key = account_identity_key target_account (kind target), pks_devices = ks\<rparr>))))"

text \<open>\<open>to_be_bytes\<close> of a \<open>u32\<close>, and the check of the digest of the signed keys.\<close>

definition to_be_bytes :: "nat \<Rightarrow> bytes" where
  "to_be_bytes n = rev (le_bytes 4 n)"

definition key_digest :: "(bytes \<Rightarrow> bytes) \<Rightarrow> bytes \<Rightarrow> upload_signed_pre_key \<Rightarrow> upload_signed_pre_key \<Rightarrow> bytes" where
  "key_digest sha256 ikb spk pq =
     sha256 (ikb @ to_be_bytes (usk_key_id spk) @ usk_public_key spk @ to_be_bytes (usk_key_id pq) @ usk_public_key pq)"

definition handle_post_keycheck :: "'d signal_database \<Rightarrow> id_codec \<Rightarrow> (bytes \<Rightarrow> bytes) \<Rightarrow> (bytes \<Rightarrow> (error, bytes) outcome)
    \<Rightarrow> authenticated_device \<Rightarrow> service_id_kind \<Rightarrow> bytes \<Rightarrow> ('d, api_error, bool) step" where
  "handle_post_keycheck D ids sha256 public_key_bytes ad k usr_digest =
     bindS (map_errS (\<lambda>_. api INTERNAL_SERVER_ERROR ''Could not fetch user key bundle'')
       (get_key_bundle D (auth_protocol_address ids ad k))) (\<lambda>b.
     bindS (liftS (map_err (\<lambda>_. api INTERNAL_SERVER_ERROR ''Could not convert key to bytes'')
       (public_key_bytes (account_identity_key (auth_account ad) k)))) (\<lambda>ikb.
     returnS ((case k of
         KindAci \<Rightarrow> key_digest sha256 ikb (aci_signed_pre_key b) (aci_pq_pre_key b)
       | KindPni \<Rightarrow> key_digest sha256 ikb (pni_signed_pre_key b) (pni_pq_pre_key b)) = usr_digest)))"

definition get_one_time_pre_key_count :: "'d signal_database \<Rightarrow> service_id \<Rightarrow> ('d, db_error, nat \<times> nat) step" where
  "get_one_time_pre_key_count D sid =
     bindS (get_one_time_ec_pre_key_count D sid) (\<lambda>ec.
     bindS (get_one_time_pq_pre_key_count D sid) (\<lambda>pq. returnS (ec, pq)))"

section \<open>Authentication\<close>

text \<open>HKDF with salt, key material, label and output length; \<open>None\<close> is an output that is too long.\<close>

type_synonym hkdf = "bytes \<Rightarrow> bytes \<Rightarrow> bytes \<Rightarrow> nat \<Rightarrow> bytes option"

record salted_token_hash =
  token_hash :: string
  token_salt :: string

definition as_bytes :: "string \<Rightarrow> bytes" where
  "as_bytes s = map of_char s"

definition HKDF_DeriveSecrets :: "hkdf \<Rightarrow> nat \<Rightarrow> bytes \<Rightarrow> bytes option \<Rightarrow> bytes \<Rightarrow> (api_error, bytes) outcome" where
  "HKDF_DeriveSecrets kdf output_length ikm label slt =
     ok_or (api INTERNAL_SERVER_ERROR (''output too long ('' @ show_nat output_length @ '')''))
       (kdf slt ikm (case label of None \<Rightarrow> [] | Some l \<Rightarrow> l) output_length)"

definition SaltedTokenHash_calculate :: "hkdf \<Rightarrow> (bytes \<Rightarrow> string) \<Rightarrow> string \<Rightarrow> string \<Rightarrow> (api_error, string) outcome" where
  "SaltedTokenHash_calculate kdf hex slt token =
     bind (HKDF_DeriveSecrets kdf 32 (as_bytes token) (Some (as_bytes ''authtoken'')) (as_bytes slt)) (\<lambda>b. Ok (hex b))"

text \<open>\<open>random\<close> is the sixteen bytes that \<open>OsRng\<close> fills in.\<close>

definition SaltedTokenHash_generate_for :: "hkdf \<Rightarrow> (bytes \<Rightarrow> string) \<Rightarrow> bytes \<Rightarrow> string
    \<Rightarrow> (api_error, salted_token_hash) outcome" where
  "SaltedTokenHash_generate_for kdf hex random credentials =
     (let slt = hex random in
      bind (SaltedTokenHash_calculate kdf hex slt credentials) (\<lambda>t. Ok \<lparr>token_hash = t, token_salt = slt\<rparr>))"

definition SaltedTokenHash_verify :: "hkdf \<Rightarrow> (bytes \<Rightarrow> string) \<Rightarrow> salted_token_hash \<Rightarrow> string \<Rightarrow> (api_error, bool) outcome"
  where
  "SaltedTokenHash_verify kdf hex t credentials =
     bind (SaltedTokenHash_calculate kdf hex (token_salt t) credentials) (\<lambda>their. Ok (token_hash t = their))"

definition authenticate_device :: "'d signal_database \<Rightarrow> hkdf \<Rightarrow> (bytes \<Rightarrow> string) \<Rightarrow> service_id \<Rightarrow> nat \<Rightarrow> string
    \<Rightarrow> ('d, api_error, authenticated_device) step" where
  "authenticate_device D kdf hex sid i password =
     bindS (map_errS (\<lambda>_. api INTERNAL_SERVER_ERROR ''Error getting account'') (get_account D sid)) (\<lambda>a.
     case find (\<lambda>d. device_id d = i) (devices a) of
       None \<Rightarrow> failS (api NOT_FOUND ''Device not found'')
     | Some d \<Rightarrow>
         bindS (liftS (SaltedTokenHash_verify kdf hex \<lparr>token_hash = auth_token d, token_salt = salt d\<rparr> password)) (\<lambda>valid.
         if valid then returnS \<lparr>auth_account = a, auth_device = d\<rparr>
         else failS (api UNAUTHORIZED ''Wrong password'')))"

text \<open>What axum's \<open>TypedHeader<Authorization<Basic>>\<close> reads from the request.\<close>

datatype basic_header = Missing_header | Bad_header | Basic string string

definition from_request_parts :: "'d signal_database \<Rightarrow> id_codec \<Rightarrow> hkdf \<Rightarrow> (bytes \<Rightarrow> string) \<Rightarrow> basic_header
    \<Rightarrow> ('d, api_error, authenticated_device) step" where
  "from_request_parts D ids kdf hex h =
     (case h of
        Missing_header \<Rightarrow> failS (api UNAUTHORIZED ''Authorization header is missing'')
      | Bad_header \<Rightarrow> failS (api INTERNAL_SERVER_ERROR ''Error parsing Authorization header'')
      | Basic username password \<Rightarrow>
          (case find_char (CHR ''.'') username of
             Some v \<Rightarrow>
               bindS (liftS (ok_or (api INTERNAL_SERVER_ERROR ''Error parsing service id'')
                 (parse_from_service_id_string ids (take v username)))) (\<lambda>sid.
               bindS (liftS (ok_or (api INTERNAL_SERVER_ERROR ''Error parsing device id'')
                 (parse_u32 (drop (v + 1) username)))) (\<lambda>i.
               authenticate_device D kdf hex sid i password))
           | None \<Rightarrow>
               bindS (liftS (ok_or (api INTERNAL_SERVER_ERROR ''Error parsing service id'')
                 (parse_from_service_id_string ids username))) (\<lambda>sid.
               authenticate_device D kdf hex sid 1 password)))"

end
