(* ===== verification/Messages_Manager.thy ===== *)
theory Messages_Manager
  imports Message_Queues Account_Manager
begin

text \<open>
  \<open>MessagesManager\<close> (\<open>server/src/managers/message/messages_manager.rs\<close>) and \<open>MessagePersister\<close>
  (\<open>server/src/persisters/message_persister.rs\<close>): messages wait in the cache, are moved to the
  database when they have waited for ten minutes, and are read from both.
\<close>

section \<open>The two stores\<close>

text \<open>The database and the caches; their errors meet in \<open>anyhow::Error\<close>.\<close>

record ('d, 'r, 'l) backend =
  database :: 'd
  cache :: "('r, 'l) caches"

definition on_db :: "('d, 'e, 'a) step \<Rightarrow> (('d, 'r, 'l) backend, 'e, 'a) step" where
  "on_db m s = (case m (database s) of (r, d) \<Rightarrow> (r, s\<lparr>database := d\<rparr>))"

definition on_cache :: "(('r, 'l) caches, error, 'a) step \<Rightarrow> (('d, 'r, 'l) backend, db_error, 'a) step" where
  "on_cache m s = (case m (cache s) of (r, c) \<Rightarrow> (map_err Anyhow r, s\<lparr>cache := c\<rparr>))"

lemma on_db_apply [simp]: "m (database s) = (r, d) \<Longrightarrow> on_db m s = (r, s\<lparr>database := d\<rparr>)"
  by (simp add: on_db_def)

lemma on_cache_apply [simp]: "m (cache s) = (r, c) \<Longrightarrow> on_cache m s = (map_err Anyhow r, s\<lparr>cache := c\<rparr>)"
  by (simp add: on_cache_def)

section \<open>MessagesManager\<close>

text \<open>\<open>guid\<close> is the fresh UUID, \<open>now\<close> the clock of the cache's index.\<close>

definition manager_insert :: "'r redis \<Rightarrow> base64 \<Rightarrow> envelope codec \<Rightarrow> nat \<Rightarrow> string \<Rightarrow> protocol_address \<Rightarrow> envelope
    \<Rightarrow> (('d, 'r, 'l) backend, db_error, nat) step" where
  "manager_insert R b64 C now guid a env = on_cache (message_insert R b64 C now a env guid)"

definition manager_has_messages :: "'d signal_database \<Rightarrow> protocol_address
    \<Rightarrow> (('d, 'r, 'l) backend, db_error, bool) step" where
  "manager_has_messages D a = bindS (on_db (count_messages D a)) (\<lambda>n. returnS (0 < n))"

definition may_have_persisted_messages :: "'d signal_database \<Rightarrow> 'r redis \<Rightarrow> protocol_address
    \<Rightarrow> (('d, 'r, 'l) backend, db_error, bool \<times> string) step" where
  "may_have_persisted_messages D R a =
     bindS (on_cache (has_messages R a)) (\<lambda>cached.
     bindS (manager_has_messages D a) (\<lambda>persisted.
     returnS (cached \<or> persisted,
       if cached \<and> persisted then ''both'' else if cached then ''cached''
       else if persisted then ''persisted'' else ''none'')))"

definition get_messages_for_device :: "'d signal_database \<Rightarrow> 'r redis \<Rightarrow> base64 \<Rightarrow> envelope codec \<Rightarrow> protocol_address
    \<Rightarrow> bool \<Rightarrow> (('d, 'r, 'l) backend, db_error, envelope list) step" where
  "get_messages_for_device D R b64 C a cached_msg_only =
     bindS (on_cache (get_all_messages R b64 C a)) (\<lambda>cached.
     bindS (if \<not> cached_msg_only then on_db (get_messages D a) else returnS []) (\<lambda>persisted.
     returnS (cached @ persisted)))"

definition manager_delete :: "'d signal_database \<Rightarrow> 'r redis \<Rightarrow> base64 \<Rightarrow> envelope codec \<Rightarrow> protocol_address
    \<Rightarrow> string list \<Rightarrow> (('d, 'r, 'l) backend, db_error, envelope list) step" where
  "manager_delete D R b64 C a guids =
     bindS (on_cache (message_remove R b64 C a guids)) (\<lambda>cached.
     bindS (on_db (delete_messages D a)) (\<lambda>persisted.
     returnS (cached @ persisted)))"

text \<open>prost's getter of an optional string.\<close>

definition server_guid_of :: "envelope \<Rightarrow> string" where
  "server_guid_of e = (case server_guid e of None \<Rightarrow> '''' | Some g \<Rightarrow> g)"

definition persist_messages :: "'d signal_database \<Rightarrow> 'r redis \<Rightarrow> base64 \<Rightarrow> envelope codec \<Rightarrow> protocol_address
    \<Rightarrow> envelope list \<Rightarrow> (('d, 'r, 'l) backend, db_error, nat) step" where
  "persist_messages D R b64 C a ms =
     (let guids = map server_guid_of ms in
      bindS (on_db (push_message_queue D a ms)) (\<lambda>_.
      bindS (on_cache (message_remove R b64 C a guids)) (\<lambda>removed.
      returnS (length removed))))"

section \<open>MessagePersister\<close>

definition QUEUE_BATCH_LIMIT :: nat where "QUEUE_BATCH_LIMIT = 100"
definition MESSAGE_BATCH_LIMIT :: nat where "MESSAGE_BATCH_LIMIT = 100"
definition PERSIST_DELAY :: nat where "PERSIST_DELAY = 600"

text \<open>The loop of \<open>persist_queue\<close>; it may run for ever, so not returning is \<open>None\<close>.\<close>

partial_function (option) persist_queue_loop :: "'d signal_database \<Rightarrow> 'r redis \<Rightarrow> base64 \<Rightarrow> envelope codec
    \<Rightarrow> protocol_address \<Rightarrow> ('d, 'r, 'l) backend \<Rightarrow> ((db_error, unit) outcome \<times> ('d, 'r, 'l) backend) option" where
  "persist_queue_loop D R b64 C a s =
     (case on_cache (get_messages_to_persist R b64 C a (int MESSAGE_BATCH_LIMIT)) s of
        (Err e, s1) \<Rightarrow> Some (Err e, s1)
      | (Panic, s1) \<Rightarrow> Some (Panic, s1)
      | (Ok ms, s1) \<Rightarrow>
          if ms = [] then Some (Ok (), s1)
          else (case persist_messages D R b64 C a ms s1 of
                  (Err e, s2) \<Rightarrow> Some (Err e, s2)
                | (Panic, s2) \<Rightarrow> Some (Panic, s2)
                | (Ok _, s2) \<Rightarrow> persist_queue_loop D R b64 C a s2))"

definition persist_queue :: "'d signal_database \<Rightarrow> 'r redis \<Rightarrow> base64 \<Rightarrow> envelope codec \<Rightarrow> id_codec \<Rightarrow> account \<Rightarrow> device
    \<Rightarrow> ('d, 'r, 'l) backend \<Rightarrow> ((db_error, unit) outcome \<times> ('d, 'r, 'l) backend) option" where
  "persist_queue D R b64 C ids acc dev s =
     (let a = \<lparr>addr_name = service_id_string ids (Aci (aci acc)), addr_device_id = device_id dev\<rparr> in
      case on_cache (lock_queue_for_persistence R a) s of
        (Err e, s1) \<Rightarrow> Some (Err e, s1)
      | (Panic, s1) \<Rightarrow> Some (Panic, s1)
      | (Ok _, s1) \<Rightarrow>
          (case persist_queue_loop D R b64 C a s1 of
             None \<Rightarrow> None
           | Some (Err e, s2) \<Rightarrow> Some (Err e, s2)
           | Some (Panic, s2) \<Rightarrow> Some (Panic, s2)
           | Some (Ok _, s2) \<Rightarrow> Some (on_cache (unlock_queue_for_persistence R a) s2)))"

text \<open>The account and device of a queue key, as \<open>persist\<close> looks them up.\<close>

definition queue_owner :: "'d signal_database \<Rightarrow> id_codec \<Rightarrow> key
    \<Rightarrow> (('d, 'r, 'l) backend, db_error, account \<times> device) step" where
  "queue_owner D ids qk =
     bindS (liftS (get_account_and_device_id_from_queue_key qk)) (\<lambda>(account_id, dev).
     bindS (liftS (ok_or (Anyhow (''Failed to parse service id from queue: '' @ qk))
       (parse_from_service_id_string ids account_id))) (\<lambda>sid.
     bindS (on_db (get_account D sid)) (\<lambda>acc.
     bindS (liftS (ok_or (Anyhow ''invalid digit found in string'') (parse_u32 dev))) (\<lambda>i.
     bindS (liftS (ok_or (Anyhow ''Could not find device in account.'')
       (find (\<lambda>d. device_id d = i) (devices acc)))) (\<lambda>d.
     returnS (acc, d))))))"

text \<open>The \<open>for\<close> loop over the queues.\<close>

fun persist_queues :: "'d signal_database \<Rightarrow> 'r redis \<Rightarrow> base64 \<Rightarrow> envelope codec \<Rightarrow> id_codec \<Rightarrow> key list
    \<Rightarrow> ('d, 'r, 'l) backend \<Rightarrow> ((db_error, unit) outcome \<times> ('d, 'r, 'l) backend) option" where
  "persist_queues D R b64 C ids [] s = Some (Ok (), s)"
| "persist_queues D R b64 C ids (qk # qks) s =
     (case queue_owner D ids qk s of
        (Err e, s1) \<Rightarrow> Some (Err e, s1)
      | (Panic, s1) \<Rightarrow> Some (Panic, s1)
      | (Ok (acc, d), s1) \<Rightarrow>
          (case persist_queue D R b64 C ids acc d s1 of
             None \<Rightarrow> None
           | Some (Err e, s2) \<Rightarrow> Some (Err e, s2)
           | Some (Panic, s2) \<Rightarrow> Some (Panic, s2)
           | Some (Ok _, s2) \<Rightarrow> persist_queues D R b64 C ids qks s2))"

text \<open>\<open>persist\<close>; \<open>clock k\<close> is the time, in seconds, that the \<open>k\<close>-th round reads. The subtraction is checked.\<close>

partial_function (option) persist :: "'d signal_database \<Rightarrow> 'r redis \<Rightarrow> base64 \<Rightarrow> envelope codec \<Rightarrow> id_codec
    \<Rightarrow> (nat \<Rightarrow> nat) \<Rightarrow> nat \<Rightarrow> ('d, 'r, 'l) backend \<Rightarrow> ((db_error, unit) outcome \<times> ('d, 'r, 'l) backend) option" where
  "persist D R b64 C ids clock k s =
     (if clock k < PERSIST_DELAY then Some (Panic, s)
      else case on_cache (get_message_queues_to_persist R (clock k - PERSIST_DELAY) QUEUE_BATCH_LIMIT) s of
        (Err e, s1) \<Rightarrow> Some (Err e, s1)
      | (Panic, s1) \<Rightarrow> Some (Panic, s1)
      | (Ok qks, s1) \<Rightarrow>
          if qks = [] then Some (Ok (), s1)
          else (case persist_queues D R b64 C ids qks s1 of
                  None \<Rightarrow> None
                | Some (Err e, s2) \<Rightarrow> Some (Err e, s2)
                | Some (Panic, s2) \<Rightarrow> Some (Panic, s2)
                | Some (Ok _, s2) \<Rightarrow> persist D R b64 C ids clock (k + 1) s2))"

end
