(* ===== verification/Utf8.thy ===== *)
theory Utf8
  imports Web_Api
begin

text \<open>
  Text as bytes: the UTF-8 check of \<open>str::from_utf8\<close> and \<open>String::from_utf8\<close>. A string of the model is
  the UTF-8 bytes of the Rust string, one character per byte.
\<close>

section \<open>The check\<close>

definition cont_byte :: "nat \<Rightarrow> bool" where
  "cont_byte b \<longleftrightarrow> 128 \<le> b \<and> b < 192"

fun utf8_valid :: "nat list \<Rightarrow> bool" where
  "utf8_valid [] = True"
| "utf8_valid (a # r) =
     (if a < 128 then utf8_valid r
      else if 194 \<le> a \<and> a < 224 then
        (case r of b # r' \<Rightarrow> cont_byte b \<and> utf8_valid r' | _ \<Rightarrow> False)
      else if 224 \<le> a \<and> a < 240 then
        (case r of b # c # r' \<Rightarrow> cont_byte b \<and> cont_byte c \<and> (a = 224 \<longrightarrow> 160 \<le> b) \<and> (a = 237 \<longrightarrow> b < 160) \<and>
           utf8_valid r' | _ \<Rightarrow> False)
      else if 240 \<le> a \<and> a < 245 then
        (case r of b # c # d # r' \<Rightarrow> cont_byte b \<and> cont_byte c \<and> cont_byte d \<and> (a = 240 \<longrightarrow> 144 \<le> b) \<and>
           (a = 244 \<longrightarrow> b < 144) \<and> utf8_valid r' | _ \<Rightarrow> False)
      else False)"

definition from_utf8 :: "bytes \<Rightarrow> string option" where
  "from_utf8 bs = (if utf8_valid (map unat bs) then Some (map (\<lambda>b. char_of (unat b)) bs) else None)"

definition string_bytes :: "string \<Rightarrow> bytes" where
  "string_bytes s = map (\<lambda>c. word_of_nat (of_char c)) s"

definition is_text :: "string \<Rightarrow> bool" where
  "is_text s \<longleftrightarrow> utf8_valid (map of_char s)"

lemma utf8_valid_append: "utf8_valid xs \<Longrightarrow> utf8_valid (xs @ ys) = utf8_valid ys"
  by (induction xs rule: utf8_valid.induct) (auto split: if_splits list.splits)

lemma unat_char: "unat (word_of_nat (of_char c) :: byte) = of_char c"
  by (simp add: unat_of_nat take_bit_eq_mod)

lemma from_utf8_string_bytes: "is_text s \<Longrightarrow> from_utf8 (string_bytes s) = Some s"
  by (simp add: from_utf8_def string_bytes_def is_text_def o_def unat_char)

lemma is_text_append: "is_text a \<Longrightarrow> is_text b \<Longrightarrow> is_text (a @ b)"
  by (simp add: is_text_def utf8_valid_append)

lemma is_text_ascii: "(\<And>c. c \<in> set s \<Longrightarrow> of_char c < (128 :: nat)) \<Longrightarrow> is_text s"
proof (induction s)
  case (Cons c s)
  then show ?case by (auto simp: is_text_def)
qed (simp add: is_text_def)

lemma is_text_show_nat: "is_text (show_nat n)"
  using show_nat_chars by (fastforce intro!: is_text_ascii)

end
