(* ===== verification/Postgres.thy ===== *)
theory Postgres
  imports Signal_Database Utf8
begin

text \<open>
  \<open>PostgresDatabase\<close> of \<open>server/src/storage/postgres.rs\<close>, over the tables of
  \<open>server/database/\<close>. A table is its rows with their generated ids, in order of insertion, which is
  also the order in which a query that returns all its rows is taken to return them (no query has an
  \<open>ORDER BY\<close>); a query with \<open>LIMIT 1\<close> may return any row that matches. The ids come from a
  sequence. Every definition carries out the statements of the source: a failing statement changes
  nothing, a transaction that is not committed changes nothing, and a deleted row takes the rows
  that reference it along. Errors of the connection are not modelled.
\<close>

section \<open>Tables\<close>

record 'a table =
  trows :: "(nat \<times> 'a) list"
  tseq :: nat

definition empty_table :: "'a table" where
  "empty_table = \<lparr>trows = [], tseq = 1\<rparr>"

definition t_insert :: "'a \<Rightarrow> 'a table \<Rightarrow> 'a table" where
  "t_insert r t = t\<lparr>trows := trows t @ [(tseq t, r)], tseq := tseq t + 1\<rparr>"

definition t_select :: "(nat \<times> 'a \<Rightarrow> bool) \<Rightarrow> 'a table \<Rightarrow> (nat \<times> 'a) list" where
  "t_select P t = filter P (trows t)"

definition t_delete :: "(nat \<times> 'a \<Rightarrow> bool) \<Rightarrow> 'a table \<Rightarrow> 'a table" where
  "t_delete P t = t\<lparr>trows := filter (\<lambda>r. \<not> P r) (trows t)\<rparr>"

definition t_update :: "(nat \<times> 'a \<Rightarrow> bool) \<Rightarrow> ('a \<Rightarrow> 'a) \<Rightarrow> 'a table \<Rightarrow> 'a table" where
  "t_update P f t = t\<lparr>trows := map (\<lambda>r. if P r then (fst r, f (snd r)) else r) (trows t)\<rparr>"

record account_row =
  ar_aci :: string
  ar_pni :: string
  ar_aci_identity_key :: bytes
  ar_pni_identity_key :: bytes
  ar_phone_number :: string

record device_row =
  dr_owner :: nat
  dr_device_id :: string
  dr_name :: bytes
  dr_auth_token :: string
  dr_salt :: string
  dr_registration_id :: string
  dr_pni_registration_id :: string

record capability_row =
  cr_owner :: nat
  cr_type :: int

record msg_row =
  mr_receiver :: nat
  mr_msg :: bytes

record key_row =
  kr_owner :: nat
  kr_key_id :: string
  kr_public_key :: bytes
  kr_signature :: bytes

record keys_row =
  dk_owner :: nat
  dk_aci :: nat
  dk_pni :: nat
  dk_aci_pq :: nat
  dk_pni_pq :: nat

record ec_row =
  er_owner :: nat
  er_key_id :: string
  er_public_key :: bytes

record pq_row =
  qr_owner :: nat
  qr_key_id :: string
  qr_public_key :: bytes
  qr_signature :: "bytes option"

record pg =
  accounts :: "account_row table"
  pg_devices :: "device_row table"
  device_capabilities :: "capability_row table"
  used_device_link_tokens :: "string table"
  msq_queue :: "msg_row table"
  aci_signed_pre_key_store :: "key_row table"
  pni_signed_pre_key_store :: "key_row table"
  aci_pq_last_resort_pre_key_store :: "key_row table"
  pni_pq_last_resort_pre_key_store :: "key_row table"
  device_keys :: "keys_row table"
  one_time_ec_pre_key_store :: "ec_row table"
  one_time_pq_pre_key_store :: "pq_row table"
  ec_choice :: "nat list \<Rightarrow> nat"
  pq_choice :: "nat list \<Rightarrow> nat"

text \<open>
  The last two fields are not tables: a \<open>LIMIT 1\<close> without an \<open>ORDER BY\<close> returns whichever of the
  matching rows the server meets first, so the row is chosen by an arbitrary function of their ids.
\<close>

definition fresh_pg :: "(nat list \<Rightarrow> nat) \<Rightarrow> (nat list \<Rightarrow> nat) \<Rightarrow> pg" where
  "fresh_pg f g = \<lparr>accounts = empty_table, pg_devices = empty_table, device_capabilities = empty_table,
     used_device_link_tokens = empty_table, msq_queue = empty_table, aci_signed_pre_key_store = empty_table,
     pni_signed_pre_key_store = empty_table, aci_pq_last_resort_pre_key_store = empty_table,
     pni_pq_last_resort_pre_key_store = empty_table, device_keys = empty_table,
     one_time_ec_pre_key_store = empty_table, one_time_pq_pre_key_store = empty_table,
     ec_choice = f, pq_choice = g\<rparr>"

definition empty_pg :: pg where
  "empty_pg = fresh_pg hd hd"

section \<open>Queries that many statements share\<close>

text \<open>\<open>SELECT id FROM accounts WHERE aci = $1 OR pni = $1\<close>, as a scalar subquery: no row is \<open>NULL\<close>, two rows are an error.\<close>

definition account_rows :: "string \<Rightarrow> pg \<Rightarrow> (nat \<times> account_row) list" where
  "account_rows name db = t_select (\<lambda>(i, r). ar_aci r = name \<or> ar_pni r = name) (accounts db)"

definition owner_id :: "string \<Rightarrow> pg \<Rightarrow> (db_error, nat option) outcome" where
  "owner_id name db =
     (case account_rows name db of
        [] \<Rightarrow> Ok None
      | [r] \<Rightarrow> Ok (Some (fst r))
      | _ \<Rightarrow> Err (Database ''more than one row returned by a subquery used as an expression''))"

definition owner_devices :: "string \<Rightarrow> pg \<Rightarrow> (db_error, (nat \<times> device_row) list) outcome" where
  "owner_devices name db =
     bind (owner_id name db) (\<lambda>ow. Ok (t_select (\<lambda>(i, r). ow = Some (dr_owner r)) (pg_devices db)))"

definition address_devices :: "protocol_address \<Rightarrow> pg \<Rightarrow> (db_error, (nat \<times> device_row) list) outcome" where
  "address_devices a db =
     bind (owner_id (addr_name a) db) (\<lambda>ow.
       Ok (t_select (\<lambda>(i, r). ow = Some (dr_owner r) \<and> dr_device_id r = show_nat (addr_device_id a)) (pg_devices db)))"

text \<open>A statement that reads, one that writes, and a transaction.\<close>

definition queryS :: "(pg \<Rightarrow> (db_error, 'a) outcome) \<Rightarrow> (pg, db_error, 'a) step" where
  "queryS f db = (f db, db)"

definition executeS :: "(pg \<Rightarrow> (db_error, pg) outcome) \<Rightarrow> (pg, db_error, unit) step" where
  "executeS f db = (case f db of Ok db' \<Rightarrow> (Ok (), db') | Err e \<Rightarrow> (Err e, db) | Panic \<Rightarrow> (Panic, db))"

definition transaction :: "(pg, db_error, 'a) step \<Rightarrow> (pg, db_error, 'a) step" where
  "transaction m db = (case m db of (Ok x, db') \<Rightarrow> (Ok x, db') | (r, _) \<Rightarrow> (r, db))"

definition unwrap :: "'a option \<Rightarrow> (db_error, 'a) outcome" where
  "unwrap x = (case x of None \<Rightarrow> Panic | Some v \<Rightarrow> Ok v)"

definition fetch_one :: "'a list \<Rightarrow> (db_error, 'a) outcome" where
  "fetch_one xs = (case xs of [] \<Rightarrow> Err RowNotFound | x # _ \<Rightarrow> Ok x)"

section \<open>Accounts and devices\<close>

definition parse_aci :: "id_codec \<Rightarrow> string \<Rightarrow> uuid option" where
  "parse_aci ids s = (case parse_from_service_id_string ids s of Some (Aci u) \<Rightarrow> Some u | _ \<Rightarrow> None)"

definition parse_pni :: "id_codec \<Rightarrow> string \<Rightarrow> uuid option" where
  "parse_pni ids s = (case parse_from_service_id_string ids s of Some (Pni u) \<Rightarrow> Some u | _ \<Rightarrow> None)"

text \<open>The constraints of \<open>accounts\<close>, by the names that Postgres gives them.\<close>

definition account_conflict :: "account_row \<Rightarrow> account_row list \<Rightarrow> string option" where
  "account_conflict r rs =
     (if ar_aci r \<in> ar_aci ` set rs then Some ''accounts_aci_key''
      else if ar_pni r \<in> ar_pni ` set rs then Some ''accounts_pni_key''
      else if ar_phone_number r \<in> ar_phone_number ` set rs then Some ''accounts_phone_number_key''
      else None)"

definition account_row_of :: "id_codec \<Rightarrow> account \<Rightarrow> account_row" where
  "account_row_of ids a = \<lparr>ar_aci = service_id_string ids (Aci (aci a)), ar_pni = service_id_string ids (Pni (pni a)),
     ar_aci_identity_key = aci_identity_key a, ar_pni_identity_key = pni_identity_key a,
     ar_phone_number = phone_number a\<rparr>"

definition device_row_of :: "nat \<Rightarrow> device \<Rightarrow> device_row" where
  "device_row_of ow d = \<lparr>dr_owner = ow, dr_device_id = show_nat (device_id d), dr_name = string_bytes (dev_name d),
     dr_auth_token = auth_token d, dr_salt = salt d, dr_registration_id = show_nat (registration_id d),
     dr_pni_registration_id = show_nat (pni_registration_id d)\<rparr>"

fun insert_devices :: "device_row list \<Rightarrow> device_row table \<Rightarrow> (db_error, device_row table) outcome" where
  "insert_devices [] t = Ok t"
| "insert_devices (r # rs) t =
     (if (dr_device_id r, dr_owner r) \<in> (\<lambda>(i, x). (dr_device_id x, dr_owner x)) ` set (trows t)
      then Err (Database ''devices_device_id_owner_key'') else insert_devices rs (t_insert r t))"

definition pg_add_device :: "id_codec \<Rightarrow> service_id \<Rightarrow> device \<Rightarrow> (pg, db_error, unit) step" where
  "pg_add_device ids sid d = executeS (\<lambda>db.
     bind (insert_devices (map (\<lambda>r. device_row_of (fst r) d) (account_rows (service_id_string ids sid) db))
       (pg_devices db)) (\<lambda>t. Ok (db\<lparr>pg_devices := t\<rparr>)))"

definition pg_add_account :: "id_codec \<Rightarrow> account \<Rightarrow> (pg, db_error, unit) step" where
  "pg_add_account ids a =
     bindS (executeS (\<lambda>db.
       case account_conflict (account_row_of ids a) (map snd (trows (accounts db))) of
         Some c \<Rightarrow> Err (Database c)
       | None \<Rightarrow> Ok (db\<lparr>accounts := t_insert (account_row_of ids a) (accounts db)\<rparr>))) (\<lambda>_.
     case devices a of [] \<Rightarrow> liftS Panic | d # _ \<Rightarrow> pg_add_device ids (Aci (aci a)) d)"

definition read_capabilities :: "(nat \<times> capability_row) list \<Rightarrow> (db_error, (nat \<times> device_capability_type) list) outcome" where
  "read_capabilities rs =
     map_outcome (\<lambda>(i, r). bind (capability_from_i32 (cr_type r)) (\<lambda>c. Ok (cr_owner r, c))) rs"

definition pg_get_all_device_capabilities :: "id_codec \<Rightarrow> service_id
    \<Rightarrow> (pg, db_error, (nat \<times> device_capability_type) list) step" where
  "pg_get_all_device_capabilities ids sid = queryS (\<lambda>db.
     bind (owner_devices (service_id_string ids sid) db) (\<lambda>ds.
     read_capabilities (t_select (\<lambda>(i, r). cr_owner r \<in> fst ` set ds) (device_capabilities db))))"

definition pg_get_device_capabilities :: "protocol_address \<Rightarrow> (pg, db_error, device_capability_type list) step" where
  "pg_get_device_capabilities a = queryS (\<lambda>db.
     bind (address_devices a db) (\<lambda>ds.
     bind (read_capabilities (t_select (\<lambda>(i, r). cr_owner r \<in> fst ` set ds) (device_capabilities db))) (\<lambda>cs.
     Ok (map snd cs))))"

text \<open>The device of a row, with the capabilities given.\<close>

definition device_of_row :: "device_row \<Rightarrow> device_capability_type list \<Rightarrow> (db_error, device) outcome" where
  "device_of_row r cs =
     bind (unwrap (parse_u32 (dr_device_id r))) (\<lambda>i.
     bind (unwrap (from_utf8 (dr_name r))) (\<lambda>name.
     bind (unwrap (parse_u32 (dr_registration_id r))) (\<lambda>reg.
     bind (unwrap (parse_u32 (dr_pni_registration_id r))) (\<lambda>preg.
     Ok \<lparr>device_id = i, dev_name = name, last_seen = 0, created = 0, auth_token = dr_auth_token r,
       salt = dr_salt r, registration_id = reg, pni_registration_id = preg, capabilities = cs\<rparr>))))"

definition pg_get_all_devices :: "id_codec \<Rightarrow> service_id \<Rightarrow> (pg, db_error, device list) step" where
  "pg_get_all_devices ids sid =
     bindS (pg_get_all_device_capabilities ids sid) (\<lambda>cs.
     queryS (\<lambda>db.
       bind (owner_devices (service_id_string ids sid) db) (\<lambda>ds.
       map_outcome (\<lambda>(i, r). device_of_row r (map snd (filter (\<lambda>c. fst c = i) cs))) ds)))"

definition pg_get_device :: "protocol_address \<Rightarrow> (pg, db_error, device) step" where
  "pg_get_device a =
     bindS (pg_get_device_capabilities a) (\<lambda>cs.
     queryS (\<lambda>db.
       bind (address_devices a db) (\<lambda>ds. bind (fetch_one ds) (\<lambda>(i, r). device_of_row r cs))))"

definition account_of_row :: "id_codec \<Rightarrow> account_row \<Rightarrow> device list \<Rightarrow> (db_error, account) outcome" where
  "account_of_row ids r ds =
     bind (unwrap (parse_aci ids (ar_aci r))) (\<lambda>u.
     bind (unwrap (parse_pni ids (ar_pni r))) (\<lambda>p.
     bind (unwrap (public_key_deserialize ids (ar_aci_identity_key r))) (\<lambda>ak.
     bind (unwrap (public_key_deserialize ids (ar_pni_identity_key r))) (\<lambda>pk.
     Ok (Account_from_db u p ak pk ds (ar_phone_number r))))))"

definition pg_get_account :: "id_codec \<Rightarrow> service_id \<Rightarrow> (pg, db_error, account) step" where
  "pg_get_account ids sid =
     bindS (pg_get_all_devices ids sid) (\<lambda>ds.
     queryS (\<lambda>db.
       bind (fetch_one (account_rows (service_id_string ids sid) db)) (\<lambda>(i, r). account_of_row ids r ds)))"

definition pg_get_account_from_phonenumber_without_devices :: "id_codec \<Rightarrow> string \<Rightarrow> (pg, db_error, account) step" where
  "pg_get_account_from_phonenumber_without_devices ids phone = queryS (\<lambda>db.
     bind (fetch_one (t_select (\<lambda>(i, r). ar_phone_number r = phone) (accounts db))) (\<lambda>(i, r).
     account_of_row ids r []))"

text \<open>\<open>UPDATE accounts\<close>: the new value must not occur in another row.\<close>

definition pg_update_account_aci :: "id_codec \<Rightarrow> service_id \<Rightarrow> uuid \<Rightarrow> (pg, db_error, unit) step" where
  "pg_update_account_aci ids sid u = executeS (\<lambda>db.
     let new = service_id_string ids (Aci u);
         hit = (\<lambda>(i, r). ar_aci r = service_id_string ids sid \<or> ar_pni r = service_id_string ids sid);
         t = t_update hit (\<lambda>r. r\<lparr>ar_aci := new\<rparr>) (accounts db)
     in if distinct (map (\<lambda>(i, r). ar_aci r) (trows t)) then Ok (db\<lparr>accounts := t\<rparr>)
        else Err (Database ''accounts_aci_key''))"

definition pg_update_account_pni :: "id_codec \<Rightarrow> service_id \<Rightarrow> uuid \<Rightarrow> (pg, db_error, unit) step" where
  "pg_update_account_pni ids sid u = executeS (\<lambda>db.
     let new = service_id_string ids (Pni u);
         hit = (\<lambda>(i, r). ar_aci r = service_id_string ids sid \<or> ar_pni r = service_id_string ids sid);
         t = t_update hit (\<lambda>r. r\<lparr>ar_pni := new\<rparr>) (accounts db)
     in if distinct (map (\<lambda>(i, r). ar_pni r) (trows t)) then Ok (db\<lparr>accounts := t\<rparr>)
        else Err (Database ''accounts_pni_key''))"

text \<open>
  Deleting devices, and with them every row that belongs to them (a row of \<open>device_keys\<close> references
  keys of its own device only, so the cascade through its keys adds nothing).
\<close>

definition delete_devices :: "(nat \<times> device_row \<Rightarrow> bool) \<Rightarrow> pg \<Rightarrow> pg" where
  "delete_devices P db =
     (let gone = fst ` set (t_select P (pg_devices db)) in
      db\<lparr>pg_devices := t_delete P (pg_devices db),
         device_capabilities := t_delete (\<lambda>(i, r). cr_owner r \<in> gone) (device_capabilities db),
         msq_queue := t_delete (\<lambda>(i, r). mr_receiver r \<in> gone) (msq_queue db),
         aci_signed_pre_key_store := t_delete (\<lambda>(i, r). kr_owner r \<in> gone) (aci_signed_pre_key_store db),
         pni_signed_pre_key_store := t_delete (\<lambda>(i, r). kr_owner r \<in> gone) (pni_signed_pre_key_store db),
         aci_pq_last_resort_pre_key_store :=
           t_delete (\<lambda>(i, r). kr_owner r \<in> gone) (aci_pq_last_resort_pre_key_store db),
         pni_pq_last_resort_pre_key_store :=
           t_delete (\<lambda>(i, r). kr_owner r \<in> gone) (pni_pq_last_resort_pre_key_store db),
         device_keys := t_delete (\<lambda>(i, r). dk_owner r \<in> gone) (device_keys db),
         one_time_ec_pre_key_store := t_delete (\<lambda>(i, r). er_owner r \<in> gone) (one_time_ec_pre_key_store db),
         one_time_pq_pre_key_store := t_delete (\<lambda>(i, r). qr_owner r \<in> gone) (one_time_pq_pre_key_store db)\<rparr>)"

definition pg_delete_device :: "protocol_address \<Rightarrow> (pg, db_error, unit) step" where
  "pg_delete_device a = executeS (\<lambda>db.
     bind (owner_id (addr_name a) db) (\<lambda>ow.
     Ok (delete_devices (\<lambda>(i, r). ow = Some (dr_owner r) \<and> dr_device_id r = show_nat (addr_device_id a)) db)))"

definition pg_delete_account :: "id_codec \<Rightarrow> service_id \<Rightarrow> (pg, db_error, unit) step" where
  "pg_delete_account ids sid = executeS (\<lambda>db.
     let hit = (\<lambda>(i, r). ar_aci r = service_id_string ids sid \<or> ar_pni r = service_id_string ids sid);
         gone = fst ` set (t_select hit (accounts db))
     in Ok (delete_devices (\<lambda>(i, r). dr_owner r \<in> gone) (db\<lparr>accounts := t_delete hit (accounts db)\<rparr>)))"

definition pg_add_used_device_link_token :: "string \<Rightarrow> (pg, db_error, unit) step" where
  "pg_add_used_device_link_token tok = executeS (\<lambda>db.
     if tok \<in> snd ` set (trows (used_device_link_tokens db))
     then Err (Database ''used_device_link_tokens_device_link_token_key'')
     else Ok (db\<lparr>used_device_link_tokens := t_insert tok (used_device_link_tokens db)\<rparr>))"

section \<open>Messages\<close>

text \<open>The body of the loop of \<open>push_message_queue\<close>.\<close>

definition push_one :: "envelope codec \<Rightarrow> protocol_address \<Rightarrow> envelope \<Rightarrow> (pg, db_error, unit) step" where
  "push_one C a m = executeS (\<lambda>db.
     bind (address_devices a db) (\<lambda>ds.
     Ok (db\<lparr>msq_queue := fold (\<lambda>d. t_insert \<lparr>mr_receiver = fst d, mr_msg = serialize C m\<rparr>) ds (msq_queue db)\<rparr>)))"

definition pg_push_message_queue :: "envelope codec \<Rightarrow> protocol_address \<Rightarrow> envelope list \<Rightarrow> (pg, db_error, unit) step" where
  "pg_push_message_queue C a ms = bindS (forS ms (push_one C a)) (\<lambda>_. returnS ())"

text \<open>The rows of \<open>msq_queue\<close> joined with the devices of an address.\<close>

definition message_rows :: "protocol_address \<Rightarrow> pg \<Rightarrow> (db_error, (nat \<times> msg_row) list) outcome" where
  "message_rows a db =
     bind (address_devices a db) (\<lambda>ds. Ok (t_select (\<lambda>(i, r). mr_receiver r \<in> fst ` set ds) (msq_queue db)))"

definition read_messages :: "envelope codec \<Rightarrow> (nat \<times> msg_row) list \<Rightarrow> (db_error, envelope list) outcome" where
  "read_messages C rs = map_outcome (\<lambda>(i, r). map_err Anyhow (deserialize C (mr_msg r))) rs"

definition pg_get_messages :: "envelope codec \<Rightarrow> protocol_address \<Rightarrow> (pg, db_error, envelope list) step" where
  "pg_get_messages C a = queryS (\<lambda>db. bind (message_rows a db) (read_messages C))"

definition pg_pop_msg_queue :: "envelope codec \<Rightarrow> protocol_address \<Rightarrow> (pg, db_error, envelope list) step" where
  "pg_pop_msg_queue C a = queryS (\<lambda>db. bind (message_rows a db) (read_messages C))"

definition pg_count_messages :: "protocol_address \<Rightarrow> (pg, db_error, nat) step" where
  "pg_count_messages a = queryS (\<lambda>db. bind (message_rows a db) (\<lambda>rs. Ok (length rs mod 2 ^ 32)))"

text \<open>The rows are gone before they are deserialised.\<close>

definition pg_delete_messages :: "envelope codec \<Rightarrow> protocol_address \<Rightarrow> (pg, db_error, envelope list) step" where
  "pg_delete_messages C a =
     bindS (queryS (message_rows a)) (\<lambda>rs.
     bindS (executeS (\<lambda>db. Ok (db\<lparr>msq_queue := t_delete (\<lambda>r. r \<in> set rs) (msq_queue db)\<rparr>))) (\<lambda>_.
     liftS (read_messages C rs)))"

section \<open>Keys\<close>

text \<open>\<open>INSERT ... ON CONFLICT (key_id, owner) DO UPDATE\<close>\<close>

definition upsert_key :: "upload_signed_pre_key \<Rightarrow> nat \<Rightarrow> key_row table \<Rightarrow> key_row table" where
  "upsert_key k ow t =
     (let hit = (\<lambda>(i, r). kr_key_id r = show_nat (usk_key_id k) \<and> kr_owner r = ow) in
      if t_select hit t \<noteq> [] then
        t_update hit (\<lambda>r. r\<lparr>kr_key_id := show_nat (usk_key_id k), kr_public_key := usk_public_key k,
          kr_signature := usk_signature k\<rparr>) t
      else t_insert \<lparr>kr_owner = ow, kr_key_id = show_nat (usk_key_id k), kr_public_key = usk_public_key k,
        kr_signature = usk_signature k\<rparr> t)"

definition store_aci_signed_pre_key :: "upload_signed_pre_key \<Rightarrow> protocol_address \<Rightarrow> (pg, db_error, unit) step" where
  "store_aci_signed_pre_key k a = executeS (\<lambda>db. bind (address_devices a db) (\<lambda>ds.
     Ok (db\<lparr>aci_signed_pre_key_store := fold (\<lambda>d. upsert_key k (fst d)) ds (aci_signed_pre_key_store db)\<rparr>)))"

definition store_pni_signed_pre_key :: "upload_signed_pre_key \<Rightarrow> protocol_address \<Rightarrow> (pg, db_error, unit) step" where
  "store_pni_signed_pre_key k a = executeS (\<lambda>db. bind (address_devices a db) (\<lambda>ds.
     Ok (db\<lparr>pni_signed_pre_key_store := fold (\<lambda>d. upsert_key k (fst d)) ds (pni_signed_pre_key_store db)\<rparr>)))"

definition store_pq_aci_signed_pre_key :: "upload_signed_pre_key \<Rightarrow> protocol_address \<Rightarrow> (pg, db_error, unit) step" where
  "store_pq_aci_signed_pre_key k a = executeS (\<lambda>db. bind (address_devices a db) (\<lambda>ds.
     Ok (db\<lparr>aci_pq_last_resort_pre_key_store :=
       fold (\<lambda>d. upsert_key k (fst d)) ds (aci_pq_last_resort_pre_key_store db)\<rparr>)))"

definition store_pq_pni_signed_pre_key :: "upload_signed_pre_key \<Rightarrow> protocol_address \<Rightarrow> (pg, db_error, unit) step" where
  "store_pq_pni_signed_pre_key k a = executeS (\<lambda>db. bind (address_devices a db) (\<lambda>ds.
     Ok (db\<lparr>pni_pq_last_resort_pre_key_store :=
       fold (\<lambda>d. upsert_key k (fst d)) ds (pni_pq_last_resort_pre_key_store db)\<rparr>)))"

definition pg_store_signed_pre_key :: "id_codec \<Rightarrow> upload_signed_pre_key \<Rightarrow> protocol_address \<Rightarrow> (pg, db_error, unit) step" where
  "pg_store_signed_pre_key ids k a =
     (case parse_from_service_id_string ids (addr_name a) of
        None \<Rightarrow> failS (Anyhow ''Invalid service id'')
      | Some (Aci _) \<Rightarrow> store_aci_signed_pre_key k a
      | Some (Pni _) \<Rightarrow> store_pni_signed_pre_key k a)"

definition pg_store_pq_signed_pre_key :: "id_codec \<Rightarrow> upload_signed_pre_key \<Rightarrow> protocol_address \<Rightarrow> (pg, db_error, unit) step" where
  "pg_store_pq_signed_pre_key ids k a =
     (case parse_from_service_id_string ids (addr_name a) of
        None \<Rightarrow> failS (Anyhow ''Invalid service id'')
      | Some (Aci _) \<Rightarrow> store_pq_aci_signed_pre_key k a
      | Some (Pni _) \<Rightarrow> store_pq_pni_signed_pre_key k a)"

text \<open>The ids of the keys of a device in a key table.\<close>

definition keys_of :: "nat \<Rightarrow> key_row table \<Rightarrow> nat list" where
  "keys_of ow t = map fst (t_select (\<lambda>(i, r). kr_owner r = ow) t)"

definition joined_keys :: "pg \<Rightarrow> nat \<Rightarrow> keys_row list" where
  "joined_keys db d =
     concat (map (\<lambda>ka. concat (map (\<lambda>kp. concat (map (\<lambda>qa. map (\<lambda>qp.
       \<lparr>dk_owner = d, dk_aci = ka, dk_pni = kp, dk_aci_pq = qa, dk_pni_pq = qp\<rparr>)
       (keys_of d (pni_pq_last_resort_pre_key_store db)))
       (keys_of d (aci_pq_last_resort_pre_key_store db))))
       (keys_of d (pni_signed_pre_key_store db))))
       (keys_of d (aci_signed_pre_key_store db)))"

definition pg_store_key_bundle :: "device_pre_key_bundle \<Rightarrow> protocol_address \<Rightarrow> (pg, db_error, unit) step" where
  "pg_store_key_bundle b a = transaction (
     bindS (store_aci_signed_pre_key (aci_signed_pre_key b) a) (\<lambda>_.
     bindS (store_pni_signed_pre_key (pni_signed_pre_key b) a) (\<lambda>_.
     bindS (store_pq_aci_signed_pre_key (aci_pq_pre_key b) a) (\<lambda>_.
     bindS (store_pq_pni_signed_pre_key (pni_pq_pre_key b) a) (\<lambda>_.
     executeS (\<lambda>db. bind (address_devices a db) (\<lambda>ds.
       Ok (db\<lparr>device_keys := fold t_insert (concat (map (\<lambda>d. joined_keys db (fst d)) ds)) (device_keys db)\<rparr>))))))))"

definition key_by_id :: "nat \<Rightarrow> key_row table \<Rightarrow> key_row list" where
  "key_by_id i t = map snd (t_select (\<lambda>r. fst r = i) t)"

definition read_key :: "key_row \<Rightarrow> (db_error, upload_signed_pre_key) outcome" where
  "read_key r = bind (unwrap (parse_u32 (kr_key_id r))) (\<lambda>i.
     Ok \<lparr>usk_key_id = i, usk_public_key = kr_public_key r, usk_signature = kr_signature r\<rparr>)"

definition bundle_rows :: "protocol_address \<Rightarrow> pg \<Rightarrow> (db_error, (key_row \<times> key_row \<times> key_row \<times> key_row) list) outcome" where
  "bundle_rows a db = bind (address_devices a db) (\<lambda>ds.
     Ok (concat (map (\<lambda>(i, dk).
       concat (map (\<lambda>ka. concat (map (\<lambda>kp. concat (map (\<lambda>qa. map (\<lambda>qp. (ka, kp, qa, qp))
         (key_by_id (dk_pni_pq dk) (pni_pq_last_resort_pre_key_store db)))
         (key_by_id (dk_aci_pq dk) (aci_pq_last_resort_pre_key_store db))))
         (key_by_id (dk_pni dk) (pni_signed_pre_key_store db))))
         (key_by_id (dk_aci dk) (aci_signed_pre_key_store db))))
       (t_select (\<lambda>(i, dk). dk_owner dk \<in> fst ` set ds) (device_keys db)))))"

definition pg_get_key_bundle :: "protocol_address \<Rightarrow> (pg, db_error, device_pre_key_bundle) step" where
  "pg_get_key_bundle a = queryS (\<lambda>db.
     bind (bundle_rows a db) (\<lambda>rs.
     bind (fetch_one rs) (\<lambda>(ka, kp, qa, qp).
     bind (read_key ka) (\<lambda>x. bind (read_key kp) (\<lambda>y. bind (read_key qa) (\<lambda>z. bind (read_key qp) (\<lambda>w.
     Ok \<lparr>aci_signed_pre_key = x, pni_signed_pre_key = y, aci_pq_pre_key = z, pni_pq_pre_key = w\<rparr>)))))))"

section \<open>One-time keys\<close>

definition pg_get_one_time_ec_pre_key_count :: "id_codec \<Rightarrow> service_id \<Rightarrow> (pg, db_error, nat) step" where
  "pg_get_one_time_ec_pre_key_count ids sid = queryS (\<lambda>db.
     bind (owner_devices (service_id_string ids sid) db) (\<lambda>ds.
     Ok (length (t_select (\<lambda>(i, r). er_owner r \<in> fst ` set ds) (one_time_ec_pre_key_store db)) mod 2 ^ 32)))"

definition pg_get_one_time_pq_pre_key_count :: "id_codec \<Rightarrow> service_id \<Rightarrow> (pg, db_error, nat) step" where
  "pg_get_one_time_pq_pre_key_count ids sid = queryS (\<lambda>db.
     bind (owner_devices (service_id_string ids sid) db) (\<lambda>ds.
     Ok (length (t_select (\<lambda>(i, r). qr_owner r \<in> fst ` set ds) (one_time_pq_pre_key_store db)) mod 2 ^ 32)))"

fun insert_ec :: "ec_row list \<Rightarrow> ec_row table \<Rightarrow> (db_error, ec_row table) outcome" where
  "insert_ec [] t = Ok t"
| "insert_ec (r # rs) t =
     (if (er_owner r, er_key_id r) \<in> (\<lambda>(i, x). (er_owner x, er_key_id x)) ` set (trows t)
      then Err (Database ''one_time_ec_pre_key_store_owner_key_id_key'') else insert_ec rs (t_insert r t))"

fun insert_pq :: "pq_row list \<Rightarrow> pq_row table \<Rightarrow> (db_error, pq_row table) outcome" where
  "insert_pq [] t = Ok t"
| "insert_pq (r # rs) t =
     (if (qr_owner r, qr_key_id r) \<in> (\<lambda>(i, x). (qr_owner x, qr_key_id x)) ` set (trows t)
      then Err (Database ''one_time_pq_pre_key_store_owner_key_id_key'') else insert_pq rs (t_insert r t))"

definition pg_store_one_time_ec_pre_keys :: "upload_pre_key list \<Rightarrow> protocol_address \<Rightarrow> (pg, db_error, unit) step" where
  "pg_store_one_time_ec_pre_keys ks a = transaction (
     bindS (executeS (\<lambda>db. bind (address_devices a db) (\<lambda>ds.
       Ok (db\<lparr>one_time_ec_pre_key_store :=
         t_delete (\<lambda>(i, r). er_owner r \<in> fst ` set ds) (one_time_ec_pre_key_store db)\<rparr>)))) (\<lambda>_.
     bindS (forS ks (\<lambda>k. executeS (\<lambda>db. bind (address_devices a db) (\<lambda>ds.
       bind (insert_ec (map (\<lambda>d. \<lparr>er_owner = fst d, er_key_id = show_nat (upk_key_id k),
           er_public_key = upk_public_key k\<rparr>) ds) (one_time_ec_pre_key_store db)) (\<lambda>t.
       Ok (db\<lparr>one_time_ec_pre_key_store := t\<rparr>)))))) (\<lambda>_.
     returnS ())))"

definition pg_store_one_time_pq_pre_keys :: "upload_signed_pre_key list \<Rightarrow> protocol_address \<Rightarrow> (pg, db_error, unit) step"
  where
  "pg_store_one_time_pq_pre_keys ks a = transaction (
     bindS (executeS (\<lambda>db. bind (address_devices a db) (\<lambda>ds.
       Ok (db\<lparr>one_time_pq_pre_key_store :=
         t_delete (\<lambda>(i, r). qr_owner r \<in> fst ` set ds) (one_time_pq_pre_key_store db)\<rparr>)))) (\<lambda>_.
     bindS (forS ks (\<lambda>k. executeS (\<lambda>db. bind (address_devices a db) (\<lambda>ds.
       bind (insert_pq (map (\<lambda>d. \<lparr>qr_owner = fst d, qr_key_id = show_nat (usk_key_id k),
           qr_public_key = usk_public_key k, qr_signature = Some (usk_signature k)\<rparr>) ds)
         (one_time_pq_pre_key_store db)) (\<lambda>t.
       Ok (db\<lparr>one_time_pq_pre_key_store := t\<rparr>)))))) (\<lambda>_.
     returnS ())))"

text \<open>
  \<open>LIMIT 1\<close>: one of the rows, if there is one; the one that \<open>f\<close> names, when it names one of them.
\<close>

definition limit_1 :: "(nat list \<Rightarrow> nat) \<Rightarrow> (nat \<times> 'a) list \<Rightarrow> (nat \<times> 'a) list" where
  "limit_1 f rs = (case filter (\<lambda>r. fst r = f (map fst rs)) rs of [] \<Rightarrow> take 1 rs | r # _ \<Rightarrow> [r])"

text \<open>\<open>DELETE ... LIMIT 1 RETURNING\<close>: the row is deleted before its key id is parsed.\<close>

definition pg_get_one_time_ec_pre_key :: "protocol_address \<Rightarrow> (pg, db_error, upload_pre_key option) step" where
  "pg_get_one_time_ec_pre_key a =
     bindS (queryS (\<lambda>db. bind (address_devices a db) (\<lambda>ds.
       Ok (limit_1 (ec_choice db) (t_select (\<lambda>(i, r). er_owner r \<in> fst ` set ds) (one_time_ec_pre_key_store db)))))) (\<lambda>rs.
     bindS (executeS (\<lambda>db. Ok (db\<lparr>one_time_ec_pre_key_store :=
       t_delete (\<lambda>r. fst r \<in> fst ` set rs) (one_time_ec_pre_key_store db)\<rparr>))) (\<lambda>_.
     case rs of
       [] \<Rightarrow> returnS None
     | (i, r) # _ \<Rightarrow> liftS (bind (unwrap (parse_u32 (er_key_id r))) (\<lambda>k.
         Ok (Some \<lparr>upk_key_id = k, upk_public_key = er_public_key r\<rparr>)))))"

definition pg_get_one_time_pq_pre_key :: "protocol_address \<Rightarrow> (pg, db_error, upload_signed_pre_key) step" where
  "pg_get_one_time_pq_pre_key a =
     bindS (queryS (\<lambda>db. bind (address_devices a db) (\<lambda>ds.
       Ok (limit_1 (pq_choice db) (t_select (\<lambda>(i, r). qr_owner r \<in> fst ` set ds) (one_time_pq_pre_key_store db)))))) (\<lambda>rs.
     bindS (executeS (\<lambda>db. Ok (db\<lparr>one_time_pq_pre_key_store :=
       t_delete (\<lambda>r. fst r \<in> fst ` set rs) (one_time_pq_pre_key_store db)\<rparr>))) (\<lambda>_.
     case rs of
       [] \<Rightarrow> failS RowNotFound
     | (i, r) # _ \<Rightarrow> liftS (bind (unwrap (parse_u32 (qr_key_id r))) (\<lambda>k.
         bind (unwrap (qr_signature r)) (\<lambda>sg.
         Ok \<lparr>usk_key_id = k, usk_public_key = qr_public_key r, usk_signature = sg\<rparr>)))))"

section \<open>The database\<close>

definition postgres :: "id_codec \<Rightarrow> envelope codec \<Rightarrow> pg signal_database" where
  "postgres ids C = \<lparr>
     add_account = pg_add_account ids, get_account = pg_get_account ids,
     get_account_from_phonenumber_without_devices = pg_get_account_from_phonenumber_without_devices ids,
     add_device = pg_add_device ids, get_all_devices = pg_get_all_devices ids, get_device = pg_get_device,
     delete_device = pg_delete_device, update_account_aci = pg_update_account_aci ids,
     update_account_pni = pg_update_account_pni ids, delete_account = pg_delete_account ids,
     get_device_capabilities = pg_get_device_capabilities,
     get_all_device_capabilities = pg_get_all_device_capabilities ids,
     add_used_device_link_token = pg_add_used_device_link_token,
     push_message_queue = pg_push_message_queue C, pop_msg_queue = pg_pop_msg_queue C,
     store_signed_pre_key = pg_store_signed_pre_key ids, store_pq_signed_pre_key = pg_store_pq_signed_pre_key ids,
     store_key_bundle = pg_store_key_bundle, get_key_bundle = pg_get_key_bundle,
     get_one_time_ec_pre_key_count = pg_get_one_time_ec_pre_key_count ids,
     get_one_time_pq_pre_key_count = pg_get_one_time_pq_pre_key_count ids,
     store_one_time_ec_pre_keys = pg_store_one_time_ec_pre_keys,
     store_one_time_pq_pre_keys = pg_store_one_time_pq_pre_keys,
     get_one_time_ec_pre_key = pg_get_one_time_ec_pre_key, get_one_time_pq_pre_key = pg_get_one_time_pq_pre_key,
     count_messages = pg_count_messages, get_messages = pg_get_messages C, delete_messages = pg_delete_messages C\<rparr>"

end
