(* ===== verification/Postgres_Inv.thy ===== *)
theory Postgres_Inv
  imports Postgres
begin

text \<open>
  The constraints of the schema as an invariant of the model, that every operation keeps it, and
  what it gives: the scalar subqueries find at most one account, addresses name at most one
  device, and no stored text fails to parse.
\<close>

section \<open>Tables\<close>

abbreviation tids :: "'a table \<Rightarrow> nat set" where "tids t \<equiv> fst ` set (trows t)"
abbreviation tvals :: "'a table \<Rightarrow> 'a set" where "tvals t \<equiv> snd ` set (trows t)"

definition table_ok :: "'a table \<Rightarrow> bool" where
  "table_ok t \<longleftrightarrow> distinct (map fst (trows t)) \<and> (\<forall>i \<in> tids t. i < tseq t)"

definition unique_on :: "('a \<Rightarrow> 'k) \<Rightarrow> 'a table \<Rightarrow> bool" where
  "unique_on f t \<longleftrightarrow> distinct (map (\<lambda>r. f (snd r)) (trows t))"

definition rows_all :: "('a \<Rightarrow> bool) \<Rightarrow> 'a table \<Rightarrow> bool" where
  "rows_all P t \<longleftrightarrow> list_all (\<lambda>r. P (snd r)) (trows t)"

lemma empty_table_simps [simp]: "trows empty_table = []" "table_ok empty_table" "unique_on f empty_table"
  "rows_all P empty_table"
  by (simp_all add: empty_table_def table_ok_def unique_on_def rows_all_def)

lemma t_insert_simps [simp]:
  "trows (t_insert r t) = trows t @ [(tseq t, r)]" "tseq (t_insert r t) = tseq t + 1"
  by (simp_all add: t_insert_def)

lemma t_delete_simps [simp]:
  "trows (t_delete P t) = filter (\<lambda>r. \<not> P r) (trows t)" "tseq (t_delete P t) = tseq t"
  by (simp_all add: t_delete_def)

lemma t_update_simps [simp]:
  "trows (t_update P f t) = map (\<lambda>r. if P r then (fst r, f (snd r)) else r) (trows t)"
  "tseq (t_update P f t) = tseq t"
  by (simp_all add: t_update_def)

lemma t_select_set: "set (t_select P t) = {r \<in> set (trows t). P r}"
  by (auto simp: t_select_def)

lemma table_ok_insert [simp]: "table_ok t \<Longrightarrow> table_ok (t_insert r t)"
  by (force simp: table_ok_def)

lemma table_ok_delete [simp]: "table_ok t \<Longrightarrow> table_ok (t_delete P t)"
  by (auto simp: table_ok_def distinct_map_filter)

lemma map_fst_update: "map fst (trows (t_update P f t)) = map fst (trows t)"
  by simp

lemma tids_update [simp]: "tids (t_update P f t) = tids t"
  using arg_cong [OF map_fst_update, of set P f t] by (simp only: set_map)

lemma table_ok_update [simp]: "table_ok t \<Longrightarrow> table_ok (t_update P f t)"
  unfolding table_ok_def map_fst_update tids_update t_update_simps(2) .

lemma rows_all_insert [simp]: "rows_all P (t_insert r t) \<longleftrightarrow> rows_all P t \<and> P r"
  by (simp add: rows_all_def)

lemma rows_all_delete: "\<lbrakk> rows_all P t; \<And>i r. P r \<Longrightarrow> \<not> D (i, r) \<Longrightarrow> Q r \<rbrakk> \<Longrightarrow> rows_all Q (t_delete D t)"
  by (auto simp: rows_all_def list_all_iff)

lemma rows_all_update: "\<lbrakk> rows_all P t; \<And>r. P r \<Longrightarrow> P (f r) \<rbrakk> \<Longrightarrow> rows_all P (t_update D f t)"
  by (auto simp: rows_all_def list_all_iff)

lemma rows_all_mono: "\<lbrakk> rows_all P t; \<And>r. P r \<Longrightarrow> Q r \<rbrakk> \<Longrightarrow> rows_all Q t"
  by (auto simp: rows_all_def list_all_iff)

lemma rows_allI: "(\<And>i r. (i, r) \<in> set (trows t) \<Longrightarrow> P r) \<Longrightarrow> rows_all P t"
  by (force simp: rows_all_def list_all_iff)

lemma rows_allD: "\<lbrakk> rows_all P t; (i, r) \<in> set (trows t) \<rbrakk> \<Longrightarrow> P r"
  by (force simp: rows_all_def list_all_iff)

lemma unique_on_insert [simp]: "unique_on f (t_insert r t) \<longleftrightarrow> unique_on f t \<and> f r \<notin> f ` tvals t"
  by (auto simp: unique_on_def)

lemma unique_on_delete [simp]: "unique_on f t \<Longrightarrow> unique_on f (t_delete P t)"
  by (simp add: unique_on_def distinct_map_filter)

lemma unique_on_update [simp]: "(\<And>r. f (g r) = f r) \<Longrightarrow> unique_on f (t_update P g t) = unique_on f t"
proof -
  assume "\<And>r. f (g r) = f r"
  then have "map (\<lambda>r. f (snd r)) (trows (t_update P g t)) = map (\<lambda>r. f (snd r)) (trows t)" by simp
  then show ?thesis by (simp only: unique_on_def)
qed

lemma unique_onD:
  assumes "unique_on f t" "(i, r) \<in> set (trows t)" "(j, q) \<in> set (trows t)" "f r = f q"
  shows "(i, r) = (j, q)"
proof -
  have "inj_on (\<lambda>r. f (snd r)) (set (trows t))" using assms(1) by (simp add: unique_on_def distinct_map)
  from inj_onD [OF this _ assms(2,3)] assms(4) show ?thesis by simp
qed

lemma table_okD:
  assumes "table_ok t" "(i, r) \<in> set (trows t)" "(i, q) \<in> set (trows t)" shows "r = q"
proof -
  have "inj_on fst (set (trows t))" using assms(1) by (simp add: table_ok_def distinct_map)
  from inj_onD [OF this _ assms(2,3)] show ?thesis by simp
qed

text \<open>A filter that at most one element passes.\<close>

lemma filter_unique:
  assumes "distinct (map f xs)" "\<And>x y. x \<in> set xs \<Longrightarrow> y \<in> set xs \<Longrightarrow> P x \<Longrightarrow> P y \<Longrightarrow> f x = f y"
  shows "length (filter P xs) \<le> 1"
  using assms
proof (induction xs)
  case (Cons a xs)
  then show ?case
  proof (cases "P a")
    case True
    have "\<not> P x" if "x \<in> set xs" for x
    proof
      assume "P x"
      with Cons.prems(2) [of a x] that True have "f a = f x" by simp
      with that have "f a \<in> set (map f xs)" by simp
      with Cons.prems(1) show False by simp
    qed
    then have "filter P xs = []" by (simp add: filter_empty_conv)
    with True show ?thesis by simp
  qed simp
qed simp

section \<open>The invariant\<close>

definition text_u32 :: "string \<Rightarrow> bool" where
  "text_u32 s \<longleftrightarrow> (\<exists>n < 2 ^ 32. s = show_nat n)"

lemma text_u32_parse: "text_u32 s \<Longrightarrow> \<exists>n. parse_u32 s = Some n \<and> s = show_nat n"
  by (auto simp: text_u32_def parse_u32_show_nat simp del: power_numeral)

definition account_typed :: "id_codec \<Rightarrow> account_row \<Rightarrow> bool" where
  "account_typed ids r \<longleftrightarrow>
     (\<exists>u. ar_aci r = service_id_string ids (Aci u)) \<and> (\<exists>p. ar_pni r = service_id_string ids (Pni p)) \<and>
     public_key_deserialize ids (ar_aci_identity_key r) = Some (ar_aci_identity_key r) \<and>
     public_key_deserialize ids (ar_pni_identity_key r) = Some (ar_pni_identity_key r)"

text \<open>A stored name is a text.\<close>

definition text_bytes :: "bytes \<Rightarrow> bool" where
  "text_bytes bs \<longleftrightarrow> (\<exists>s. is_text s \<and> bs = string_bytes s)"

lemma text_bytes_read: "text_bytes bs \<Longrightarrow> \<exists>s. from_utf8 bs = Some s"
  by (auto simp: text_bytes_def from_utf8_string_bytes)

definition accounts_ok :: "id_codec \<Rightarrow> account_row table \<Rightarrow> bool" where
  "accounts_ok ids t \<longleftrightarrow> table_ok t \<and> unique_on ar_aci t \<and> unique_on ar_pni t \<and> unique_on ar_phone_number t \<and>
     rows_all (account_typed ids) t"

definition devices_ok :: "nat set \<Rightarrow> device_row table \<Rightarrow> bool" where
  "devices_ok owners t \<longleftrightarrow> table_ok t \<and> unique_on (\<lambda>r. (dr_device_id r, dr_owner r)) t \<and>
     rows_all (\<lambda>r. dr_owner r \<in> owners \<and> text_u32 (dr_device_id r) \<and> text_bytes (dr_name r) \<and>
       text_u32 (dr_registration_id r) \<and> text_u32 (dr_pni_registration_id r)) t"

definition msgs_ok :: "nat set \<Rightarrow> msg_row table \<Rightarrow> bool" where
  "msgs_ok owners t \<longleftrightarrow> table_ok t \<and> rows_all (\<lambda>r. mr_receiver r \<in> owners) t"

definition keys_ok :: "nat set \<Rightarrow> key_row table \<Rightarrow> bool" where
  "keys_ok owners t \<longleftrightarrow> table_ok t \<and> unique_on (\<lambda>r. (kr_owner r, kr_key_id r)) t \<and>
     rows_all (\<lambda>r. kr_owner r \<in> owners \<and> text_u32 (kr_key_id r)) t"

definition refers :: "key_row table \<Rightarrow> nat \<Rightarrow> nat \<Rightarrow> bool" where
  "refers t ow i \<longleftrightarrow> (\<exists>r. (i, r) \<in> set (trows t) \<and> kr_owner r = ow)"

definition device_keys_ok :: "pg \<Rightarrow> bool" where
  "device_keys_ok db \<longleftrightarrow> rows_all (\<lambda>k.
     refers (aci_signed_pre_key_store db) (dk_owner k) (dk_aci k) \<and>
     refers (pni_signed_pre_key_store db) (dk_owner k) (dk_pni k) \<and>
     refers (aci_pq_last_resort_pre_key_store db) (dk_owner k) (dk_aci_pq k) \<and>
     refers (pni_pq_last_resort_pre_key_store db) (dk_owner k) (dk_pni_pq k)) (device_keys db)"

definition ec_ok :: "nat set \<Rightarrow> ec_row table \<Rightarrow> bool" where
  "ec_ok owners t \<longleftrightarrow> table_ok t \<and> unique_on (\<lambda>r. (er_owner r, er_key_id r)) t \<and>
     rows_all (\<lambda>r. er_owner r \<in> owners \<and> text_u32 (er_key_id r)) t"

definition pq_ok :: "nat set \<Rightarrow> pq_row table \<Rightarrow> bool" where
  "pq_ok owners t \<longleftrightarrow> table_ok t \<and> unique_on (\<lambda>r. (qr_owner r, qr_key_id r)) t \<and>
     rows_all (\<lambda>r. qr_owner r \<in> owners \<and> text_u32 (qr_key_id r) \<and> qr_signature r \<noteq> None) t"

text \<open>No operation of the program inserts a capability.\<close>

definition pg_inv :: "id_codec \<Rightarrow> pg \<Rightarrow> bool" where
  "pg_inv ids db \<longleftrightarrow> accounts_ok ids (accounts db) \<and> devices_ok (tids (accounts db)) (pg_devices db) \<and>
     trows (device_capabilities db) = [] \<and> unique_on (\<lambda>s. s) (used_device_link_tokens db) \<and>
     msgs_ok (tids (pg_devices db)) (msq_queue db) \<and>
     keys_ok (tids (pg_devices db)) (aci_signed_pre_key_store db) \<and>
     keys_ok (tids (pg_devices db)) (pni_signed_pre_key_store db) \<and>
     keys_ok (tids (pg_devices db)) (aci_pq_last_resort_pre_key_store db) \<and>
     keys_ok (tids (pg_devices db)) (pni_pq_last_resort_pre_key_store db) \<and>
     device_keys_ok db \<and>
     ec_ok (tids (pg_devices db)) (one_time_ec_pre_key_store db) \<and>
     pq_ok (tids (pg_devices db)) (one_time_pq_pre_key_store db)"

lemma pg_inv_fresh: "pg_inv ids (fresh_pg f g)"
  by (simp add: pg_inv_def fresh_pg_def accounts_ok_def devices_ok_def msgs_ok_def keys_ok_def device_keys_ok_def
      ec_ok_def pq_ok_def)

lemma pg_invD:
  assumes "pg_inv ids db"
  shows "accounts_ok ids (accounts db)" "devices_ok (tids (accounts db)) (pg_devices db)"
    "trows (device_capabilities db) = []"
  using assms by (simp_all add: pg_inv_def)

section \<open>At most one account and one device\<close>

context id_codec_laws
begin

lemma account_rows_unique:
  assumes "accounts_ok ids (accounts db)" shows "length (account_rows name db) \<le> 1"
proof -
  let ?P = "\<lambda>(i, r). ar_aci r = name \<or> ar_pni r = name"
  have no_mix: "\<not> (ar_aci r = name \<and> ar_pni q = name)" if "(i, r) \<in> set (trows (accounts db))" "(j, q) \<in> set (trows (accounts db))" for i j r q
  proof
    assume eq: "ar_aci r = name \<and> ar_pni q = name"
    from assms that have "account_typed ids r" "account_typed ids q"
      by (auto simp: accounts_ok_def dest: rows_allD)
    then obtain u p where "ar_aci r = service_id_string ids (Aci u)" "ar_pni q = service_id_string ids (Pni p)"
      unfolding account_typed_def by blast
    with eq have "service_id_string ids (Aci u) = service_id_string ids (Pni p)" by simp
    then show False by (metis string_inj service_id.distinct(1))
  qed
  have "x = y" if xy: "x \<in> set (trows (accounts db))" "y \<in> set (trows (accounts db))" "?P x" "?P y" for x y
  proof -
    obtain i r j q where x: "x = (i, r)" and y: "y = (j, q)" by (cases x, cases y) auto
    have "(ar_aci r = name \<and> ar_aci q = name) \<or> (ar_pni r = name \<and> ar_pni q = name)"
      using xy no_mix [of i r j q] no_mix [of j q i r] unfolding x y by auto
    then show ?thesis
      using assms xy(1,2) unfolding x y accounts_ok_def
      by (metis unique_onD)
  qed
  then show ?thesis
    using assms unfolding account_rows_def t_select_def
    by (intro filter_unique [of fst]) (auto simp: accounts_ok_def table_ok_def)
qed

lemma owner_id_Ok:
  assumes "accounts_ok ids (accounts db)"
  shows "owner_id name db = Ok (case account_rows name db of [] \<Rightarrow> None | r # _ \<Rightarrow> Some (fst r))"
proof -
  consider "account_rows name db = []" | r where "account_rows name db = [r]"
    using account_rows_unique [OF assms, of name] by (cases "account_rows name db") auto
  then show ?thesis by cases (simp_all add: owner_id_def)
qed

end

lemma devices_unique:
  assumes "devices_ok owners t"
  shows "length (t_select (\<lambda>(i, r). ow = Some (dr_owner r) \<and> dr_device_id r = d) t) \<le> 1"
  unfolding t_select_def
proof (rule filter_unique [of fst])
  show "distinct (map fst (trows t))" using assms by (simp add: devices_ok_def table_ok_def)
next
  fix x y
  assume xy: "x \<in> set (trows t)" "y \<in> set (trows t)"
    "(\<lambda>(i, r). ow = Some (dr_owner r) \<and> dr_device_id r = d) x"
    "(\<lambda>(i, r). ow = Some (dr_owner r) \<and> dr_device_id r = d) y"
  obtain i r j q where x: "x = (i, r)" and y: "y = (j, q)" by (cases x, cases y) auto
  have "unique_on (\<lambda>r. (dr_device_id r, dr_owner r)) t" using assms by (simp add: devices_ok_def)
  from unique_onD [OF this, of i r j q] xy show "fst x = fst y" unfolding x y by auto
qed

section \<open>Every operation keeps the invariant\<close>

lemma executeS_keeps: "\<lbrakk> P db; \<And>db'. f db = Ok db' \<Longrightarrow> P db' \<rbrakk> \<Longrightarrow> P (snd (executeS f db))"
  by (auto simp: executeS_def split: outcome.splits)

lemma queryS_keeps [simp]: "snd (queryS f db) = db"
  by (simp add: queryS_def)

lemma transaction_keeps: "\<lbrakk> P db; P (snd (m db)) \<rbrakk> \<Longrightarrow> P (snd (transaction m db))"
  by (auto simp: transaction_def split: prod.splits outcome.splits)

text \<open>More owners do no harm.\<close>

lemma owners_mono:
  "msgs_ok S m \<Longrightarrow> S \<subseteq> T \<Longrightarrow> msgs_ok T m" "keys_ok S k \<Longrightarrow> S \<subseteq> T \<Longrightarrow> keys_ok T k"
  "ec_ok S e \<Longrightarrow> S \<subseteq> T \<Longrightarrow> ec_ok T e" "pq_ok S q \<Longrightarrow> S \<subseteq> T \<Longrightarrow> pq_ok T q"
  "devices_ok S d \<Longrightarrow> S \<subseteq> T \<Longrightarrow> devices_ok T d"
  unfolding msgs_ok_def keys_ok_def ec_ok_def pq_ok_def devices_ok_def by (auto intro: rows_all_mono)

text \<open>A new device, a new account.\<close>

definition device_typed :: "device \<Rightarrow> bool" where
  "device_typed d \<longleftrightarrow> device_id d < 2 ^ 32 \<and> is_text (dev_name d) \<and> registration_id d < 2 ^ 32 \<and>
     pni_registration_id d < 2 ^ 32"

text \<open>The identity keys of an \<open>Account\<close> are \<open>IdentityKey\<close>s: their serialisation deserialises.\<close>

definition identity_keys_typed :: "id_codec \<Rightarrow> account \<Rightarrow> bool" where
  "identity_keys_typed ids a \<longleftrightarrow> public_key_deserialize ids (aci_identity_key a) = Some (aci_identity_key a) \<and>
     public_key_deserialize ids (pni_identity_key a) = Some (pni_identity_key a)"

lemma insert_devices_ok:
  assumes "insert_devices rs t = Ok t'" "devices_ok owners t"
    "\<forall>r \<in> set rs. dr_owner r \<in> owners \<and> text_u32 (dr_device_id r) \<and> text_bytes (dr_name r) \<and>
       text_u32 (dr_registration_id r) \<and> text_u32 (dr_pni_registration_id r)"
  shows "devices_ok owners t' \<and> tids t \<subseteq> tids t'"
  using assms
proof (induction rs arbitrary: t)
  case (Cons r rs)
  from Cons.prems(1) have new: "(dr_device_id r, dr_owner r) \<notin> (\<lambda>(i, x). (dr_device_id x, dr_owner x)) ` set (trows t)"
    and rec: "insert_devices rs (t_insert r t) = Ok t'" by (auto split: if_splits)
  have "(\<lambda>(i, x). (dr_device_id x, dr_owner x)) ` set (trows t) = (\<lambda>x. (dr_device_id x, dr_owner x)) ` tvals t"
    by force
  with new have "devices_ok owners (t_insert r t)" using Cons.prems(2,3) by (auto simp: devices_ok_def)
  from Cons.IH [OF rec this] Cons.prems(3) show ?case by auto
qed simp

lemma pg_add_device_keeps:
  assumes "pg_inv ids db" "device_typed d" shows "pg_inv ids (snd (pg_add_device ids sid d db))"
  unfolding pg_add_device_def
proof (rule executeS_keeps [where P = "pg_inv ids", OF assms(1)])
  fix db' assume "bind (insert_devices (map (\<lambda>r. device_row_of (fst r) d) (account_rows (service_id_string ids sid) db))
       (pg_devices db)) (\<lambda>t. Ok (db\<lparr>pg_devices := t\<rparr>)) = Ok db'"
  then obtain t where t: "insert_devices (map (\<lambda>r. device_row_of (fst r) d)
      (account_rows (service_id_string ids sid) db)) (pg_devices db) = Ok t" "db' = db\<lparr>pg_devices := t\<rparr>"
    by (auto simp: outcome_simps)
  have "devices_ok (tids (accounts db)) t \<and> tids (pg_devices db) \<subseteq> tids t"
    using assms by (intro insert_devices_ok [OF t(1)])
      (auto simp: pg_inv_def device_row_of_def account_rows_def t_select_def text_u32_def text_bytes_def device_typed_def
        simp del: power_numeral)
  then show "pg_inv ids db'"
    using assms(1) unfolding t(2) pg_inv_def device_keys_ok_def by (auto intro: owners_mono)
qed

lemma account_conflict_None:
  assumes "account_conflict r (map snd (trows t)) = None"
  shows "ar_aci r \<notin> ar_aci ` tvals t" "ar_pni r \<notin> ar_pni ` tvals t" "ar_phone_number r \<notin> ar_phone_number ` tvals t"
  using assms by (auto simp: account_conflict_def split: if_splits)

lemma accounts_ok_insert:
  assumes "accounts_ok ids t" "account_conflict (account_row_of ids a) (map snd (trows t)) = None" "identity_keys_typed ids a"
  shows "accounts_ok ids (t_insert (account_row_of ids a) t)"
  using assms(1,3) account_conflict_None [OF assms(2)]
  by (auto simp: accounts_ok_def account_typed_def account_row_of_def identity_keys_typed_def)

lemma pg_add_account_keeps:
  assumes "pg_inv ids db" "list_all device_typed (devices a)" "identity_keys_typed ids a"
  shows "pg_inv ids (snd (pg_add_account ids a db))"
  unfolding pg_add_account_def
proof (rule bindS_keeps [where P = "pg_inv ids", OF assms(1)])
  fix db assume inv: "pg_inv ids db"
  show "pg_inv ids (snd (executeS (\<lambda>db.
       case account_conflict (account_row_of ids a) (map snd (trows (accounts db))) of
         Some c \<Rightarrow> Err (Database c)
       | None \<Rightarrow> Ok (db\<lparr>accounts := t_insert (account_row_of ids a) (accounts db)\<rparr>)) db))"
  proof (rule executeS_keeps [where P = "pg_inv ids", OF inv], goal_cases)
    case (1 db')
    then have c: "account_conflict (account_row_of ids a) (map snd (trows (accounts db))) = None"
      and db': "db' = db\<lparr>accounts := t_insert (account_row_of ids a) (accounts db)\<rparr>"
      by (auto split: option.splits)
    have "tids (accounts db) \<subseteq> tids (t_insert (account_row_of ids a) (accounts db))" by auto
    with inv accounts_ok_insert [OF _ c assms(3)] show ?case
      unfolding db' pg_inv_def device_keys_ok_def by (auto intro: owners_mono)
  qed
next
  fix x db assume "pg_inv ids db"
  with assms(2) show "pg_inv ids (snd ((case devices a of [] \<Rightarrow> liftS Panic
      | d # _ \<Rightarrow> pg_add_device ids (Aci (aci a)) d) db))"
    by (auto simp: pg_add_device_keeps split: list.split)
qed

text \<open>Changed identifiers.\<close>

lemma accounts_ok_update:
  assumes "accounts_ok ids t" and keep: "\<And>r. ar_phone_number (f r) = ar_phone_number r"
    and "unique_on ar_aci (t_update P f t)" "unique_on ar_pni (t_update P f t)"
    and typed: "\<And>r. account_typed ids r \<Longrightarrow> account_typed ids (f r)"
  shows "accounts_ok ids (t_update P f t)"
proof -
  have "rows_all (account_typed ids) (t_update P f t)"
    using assms(1) typed by (auto simp: accounts_ok_def intro: rows_all_update)
  with assms(1,3,4) keep show ?thesis
    unfolding accounts_ok_def by (simp del: t_update_simps)
qed

lemma pg_update_account_aci_keeps:
  assumes "pg_inv ids db" shows "pg_inv ids (snd (pg_update_account_aci ids sid u db))"
  unfolding pg_update_account_aci_def
proof (rule executeS_keeps [where P = "pg_inv ids", OF assms], goal_cases)
  case (1 db')
  let ?t = "t_update (\<lambda>(i, r). ar_aci r = service_id_string ids sid \<or> ar_pni r = service_id_string ids sid)
      (\<lambda>r. r\<lparr>ar_aci := service_id_string ids (Aci u)\<rparr>) (accounts db)"
  from 1 have db': "db' = db\<lparr>accounts := ?t\<rparr>" and d: "distinct (map (\<lambda>(i, r). ar_aci r) (trows ?t))"
    by (auto simp: Let_def split: if_splits)
  have "unique_on ar_aci ?t" using d by (simp only: unique_on_def split_def)
  moreover have "accounts_ok ids (accounts db)" using assms by (simp add: pg_inv_def)
  moreover from this have "unique_on ar_pni ?t" by (simp add: accounts_ok_def del: t_update_simps)
  ultimately have "accounts_ok ids ?t"
    by (intro accounts_ok_update) (auto simp: account_typed_def)
  then show ?case using assms unfolding db' pg_inv_def device_keys_ok_def by (simp del: t_update_simps)
qed

lemma pg_update_account_pni_keeps:
  assumes "pg_inv ids db" shows "pg_inv ids (snd (pg_update_account_pni ids sid u db))"
  unfolding pg_update_account_pni_def
proof (rule executeS_keeps [where P = "pg_inv ids", OF assms], goal_cases)
  case (1 db')
  let ?t = "t_update (\<lambda>(i, r). ar_aci r = service_id_string ids sid \<or> ar_pni r = service_id_string ids sid)
      (\<lambda>r. r\<lparr>ar_pni := service_id_string ids (Pni u)\<rparr>) (accounts db)"
  from 1 have db': "db' = db\<lparr>accounts := ?t\<rparr>" and d: "distinct (map (\<lambda>(i, r). ar_pni r) (trows ?t))"
    by (auto simp: Let_def split: if_splits)
  have "unique_on ar_pni ?t" using d by (simp only: unique_on_def split_def)
  moreover have "accounts_ok ids (accounts db)" using assms by (simp add: pg_inv_def)
  moreover from this have "unique_on ar_aci ?t" by (simp add: accounts_ok_def del: t_update_simps)
  ultimately have "accounts_ok ids ?t"
    by (intro accounts_ok_update) (auto simp: account_typed_def)
  then show ?case using assms unfolding db' pg_inv_def device_keys_ok_def by (simp del: t_update_simps)
qed

text \<open>Deleted devices take their rows along.\<close>

lemma survivors: "\<lbrakk> i \<in> tids t; i \<notin> fst ` set (t_select P t) \<rbrakk> \<Longrightarrow> i \<in> tids (t_delete P t)"
  by (force simp: t_select_def)

lemma refers_delete: "\<lbrakk> refers t ow i; ow \<notin> S \<rbrakk> \<Longrightarrow> refers (t_delete (\<lambda>(i, r). kr_owner r \<in> S) t) ow i"
  by (auto simp: refers_def)

lemma owned_delete:
  assumes S: "S = fst ` set (t_select P d)"
  shows "msgs_ok (tids d) m \<Longrightarrow> msgs_ok (tids (t_delete P d)) (t_delete (\<lambda>(i, r). mr_receiver r \<in> S) m)"
    and "keys_ok (tids d) k \<Longrightarrow> keys_ok (tids (t_delete P d)) (t_delete (\<lambda>(i, r). kr_owner r \<in> S) k)"
    and "ec_ok (tids d) e \<Longrightarrow> ec_ok (tids (t_delete P d)) (t_delete (\<lambda>(i, r). er_owner r \<in> S) e)"
    and "pq_ok (tids d) q \<Longrightarrow> pq_ok (tids (t_delete P d)) (t_delete (\<lambda>(i, r). qr_owner r \<in> S) q)"
  unfolding S msgs_ok_def keys_ok_def ec_ok_def pq_ok_def
  by (auto simp del: t_delete_simps elim!: rows_all_delete intro!: survivors)

lemma device_keys_ok_delete:
  assumes "device_keys_ok db"
  shows "device_keys_ok (delete_devices P db)"
  using assms unfolding device_keys_ok_def delete_devices_def Let_def
  by (auto simp del: t_delete_simps elim!: rows_all_delete intro!: refers_delete)

lemma devices_ok_delete:
  assumes "devices_ok S t" "\<And>i r. (i, r) \<in> set (trows t) \<Longrightarrow> \<not> P (i, r) \<Longrightarrow> dr_owner r \<in> A"
  shows "devices_ok A (t_delete P t)"
proof -
  have "dr_owner r \<in> A \<and> text_u32 (dr_device_id r) \<and> text_bytes (dr_name r) \<and> text_u32 (dr_registration_id r) \<and>
      text_u32 (dr_pni_registration_id r)" if "(i, r) \<in> set (trows (t_delete P t))" for i r
    using assms that by (auto simp: devices_ok_def dest: rows_allD)
  with assms(1) show ?thesis
    by (auto simp: devices_ok_def simp del: t_delete_simps intro!: rows_allI)
qed

lemma delete_devices_keeps:
  assumes inv: "pg_inv ids db" and "accounts_ok ids acc"
    "\<And>i r. (i, r) \<in> set (trows (pg_devices db)) \<Longrightarrow> \<not> P (i, r) \<Longrightarrow> dr_owner r \<in> tids acc"
  shows "pg_inv ids (delete_devices P (db\<lparr>accounts := acc\<rparr>))"
proof -
  have "device_keys_ok (db\<lparr>accounts := acc\<rparr>)" using inv by (simp add: pg_inv_def device_keys_ok_def)
  note keys = device_keys_ok_delete [OF this, of P]
  have "devices_ok (tids acc) (t_delete P (pg_devices db))"
    using inv assms(3) by (intro devices_ok_delete [of "tids (accounts db)"]) (auto simp: pg_inv_def)
  with inv assms(2) keys show ?thesis
    unfolding pg_inv_def by (simp add: delete_devices_def Let_def owned_delete del: t_delete_simps(1))
      (simp add: t_delete_def)
qed

lemma pg_delete_device_keeps:
  assumes "pg_inv ids db" shows "pg_inv ids (snd (pg_delete_device a db))"
  unfolding pg_delete_device_def
proof (rule executeS_keeps [where P = "pg_inv ids", OF assms], goal_cases)
  case (1 db')
  then obtain ow where db': "db' = delete_devices (\<lambda>(i, r). ow = Some (dr_owner r) \<and>
      dr_device_id r = show_nat (addr_device_id a)) (db\<lparr>accounts := accounts db\<rparr>)"
    by (auto simp: outcome_simps)
  show ?case unfolding db'
    using assms by (intro delete_devices_keeps) (auto simp: pg_inv_def devices_ok_def dest: rows_allD)
qed

lemma pg_delete_account_keeps:
  assumes "pg_inv ids db" shows "pg_inv ids (snd (pg_delete_account ids sid db))"
  unfolding pg_delete_account_def
proof (rule executeS_keeps [where P = "pg_inv ids", OF assms], goal_cases)
  case (1 db')
  let ?hit = "\<lambda>(i, r). ar_aci r = service_id_string ids sid \<or> ar_pni r = service_id_string ids sid"
  let ?gone = "fst ` set (t_select ?hit (accounts db))"
  from 1 have db': "db' = delete_devices (\<lambda>(i, r). dr_owner r \<in> ?gone)
      (db\<lparr>accounts := t_delete ?hit (accounts db)\<rparr>)" by (simp add: Let_def)
  have acc: "accounts_ok ids (t_delete ?hit (accounts db))"
    using assms by (auto simp: pg_inv_def accounts_ok_def simp del: t_delete_simps elim!: rows_all_delete)
  have "dr_owner r \<in> tids (accounts db)" if "(i, r) \<in> set (trows (pg_devices db))" for i r
    using assms that by (auto simp: pg_inv_def devices_ok_def dest: rows_allD)
  then show ?case unfolding db'
    by (intro delete_devices_keeps [OF assms acc] survivors) (simp_all del: t_delete_simps)
qed

text \<open>Messages and keys go to devices that exist.\<close>

lemma address_devices_sub: "address_devices a db = Ok ds \<Longrightarrow> fst ` set ds \<subseteq> tids (pg_devices db)"
  by (auto simp: address_devices_def outcome_simps t_select_def)

lemma fold_keeps: "\<lbrakk> P t; \<And>x t. x \<in> set xs \<Longrightarrow> P t \<Longrightarrow> P (f x t) \<rbrakk> \<Longrightarrow> P (fold f xs t)"
  by (induction xs arbitrary: t) auto

lemma push_one_keeps:
  assumes "pg_inv ids db" shows "pg_inv ids (snd (push_one C a m db))"
  unfolding push_one_def
proof (rule executeS_keeps [where P = "pg_inv ids", OF assms], goal_cases)
  case (1 db')
  then obtain ds where ds: "address_devices a db = Ok ds"
    and db': "db' = db\<lparr>msq_queue := fold (\<lambda>d. t_insert \<lparr>mr_receiver = fst d, mr_msg = serialize C m\<rparr>) ds (msq_queue db)\<rparr>"
    by (auto simp: outcome_simps)
  have "msgs_ok (tids (pg_devices db)) (fold (\<lambda>d. t_insert \<lparr>mr_receiver = fst d, mr_msg = serialize C m\<rparr>) ds (msq_queue db))"
  proof (rule fold_keeps [where P = "msgs_ok (tids (pg_devices db))"])
    show "msgs_ok (tids (pg_devices db)) (msq_queue db)" using assms by (simp add: pg_inv_def)
  next
    fix d t assume "d \<in> set ds" "msgs_ok (tids (pg_devices db)) t"
    with address_devices_sub [OF ds] show "msgs_ok (tids (pg_devices db))
        (t_insert \<lparr>mr_receiver = fst d, mr_msg = serialize C m\<rparr> t)" by (auto simp: msgs_ok_def)
  qed
  with assms show ?case by (simp add: db' pg_inv_def device_keys_ok_def)
qed

lemma pg_push_message_queue_keeps:
  assumes "pg_inv ids db" shows "pg_inv ids (snd (pg_push_message_queue C a ms db))"
  unfolding pg_push_message_queue_def
proof (rule bindS_keeps [where P = "pg_inv ids", OF assms])
  fix s assume "pg_inv ids s"
  then show "pg_inv ids (snd (forS ms (push_one C a) s))"
    using push_one_keeps by (rule forS_invariant [where P = "pg_inv ids", rotated])
qed simp

lemma pg_delete_messages_keeps: "pg_inv ids db \<Longrightarrow> pg_inv ids (snd (pg_delete_messages C a db))"
  unfolding pg_delete_messages_def
  by (intro bindS_keeps [where P = "pg_inv ids"] executeS_keeps [where P = "pg_inv ids"])
    (auto simp: pg_inv_def device_keys_ok_def msgs_ok_def simp del: t_delete_simps elim!: rows_all_delete)

lemma upsert_key_ok:
  assumes "keys_ok S t" "ow \<in> S" "usk_key_id k < 2 ^ 32"
  shows "keys_ok S (upsert_key k ow t)"
proof -
  let ?hit = "\<lambda>(i, r). kr_key_id r = show_nat (usk_key_id k) \<and> kr_owner r = ow"
  have u32: "text_u32 (show_nat (usk_key_id k))" using assms(3) by (auto simp: text_u32_def)
  show ?thesis
  proof (cases "t_select ?hit t = []")
    case True
    then have "(ow, show_nat (usk_key_id k)) \<notin> (\<lambda>r. (kr_owner r, kr_key_id r)) ` tvals t"
      by (auto simp: t_select_def filter_empty_conv)
    with True assms u32 show ?thesis by (simp add: upsert_key_def keys_ok_def)
  next
    case False
    let ?f = "\<lambda>r. r\<lparr>kr_key_id := show_nat (usk_key_id k), kr_public_key := usk_public_key k,
        kr_signature := usk_signature k\<rparr>"
    have "map (\<lambda>r. (kr_owner (snd r), kr_key_id (snd r))) (trows (t_update ?hit ?f t)) =
        map (\<lambda>r. (kr_owner (snd r), kr_key_id (snd r))) (trows t)" by auto
    then have "unique_on (\<lambda>r. (kr_owner r, kr_key_id r)) (t_update ?hit ?f t)"
      using assms(1) by (simp only: unique_on_def keys_ok_def)
    with False assms(1) u32 show ?thesis
      by (auto simp: upsert_key_def keys_ok_def simp del: t_update_simps intro!: rows_all_update)
  qed
qed

lemma upsert_key_refers:
  assumes "refers t o' i" shows "refers (upsert_key k ow t) o' i"
proof -
  from assms obtain r where r: "(i, r) \<in> set (trows t)" "kr_owner r = o'" by (auto simp: refers_def)
  let ?hit = "\<lambda>(i, r). kr_key_id r = show_nat (usk_key_id k) \<and> kr_owner r = ow"
  let ?f = "\<lambda>r. r\<lparr>kr_key_id := show_nat (usk_key_id k), kr_public_key := usk_public_key k,
      kr_signature := usk_signature k\<rparr>"
  have "(if ?hit (i, r) then (i, ?f r) else (i, r)) \<in> set (trows (t_update ?hit ?f t))"
    using r(1) by (auto intro!: image_eqI [where x = "(i, r)"])
  moreover have "kr_owner (?f r) = o'" using r(2) by simp
  ultimately have "refers (t_update ?hit ?f t) o' i"
    unfolding refers_def using r(2) by (cases "?hit (i, r)") (auto simp del: t_update_simps)
  with r show ?thesis by (auto simp: upsert_key_def refers_def Let_def)
qed

lemma fold_upsert_ok:
  assumes "keys_ok S t" "fst ` set ds \<subseteq> S" "usk_key_id k < 2 ^ 32"
  shows "keys_ok S (fold (\<lambda>d. upsert_key k (fst d)) ds t)"
proof (rule fold_keeps [where P = "keys_ok S", OF assms(1)])
  fix d t assume "d \<in> set ds" "keys_ok S t"
  with assms(2,3) show "keys_ok S (upsert_key k (fst d) t)" by (intro upsert_key_ok) auto
qed

lemma fold_upsert_refers:
  assumes "refers t o' i" shows "refers (fold (\<lambda>d. upsert_key k (fst d)) ds t) o' i"
  by (rule fold_keeps [where P = "\<lambda>t. refers t o' i", OF assms]) (rule upsert_key_refers)

lemma device_keys_ok_stores:
  assumes "device_keys_ok db"
  shows "device_keys_ok (db\<lparr>aci_signed_pre_key_store := fold (\<lambda>d. upsert_key k (fst d)) ds (aci_signed_pre_key_store db)\<rparr>)"
    "device_keys_ok (db\<lparr>pni_signed_pre_key_store := fold (\<lambda>d. upsert_key k (fst d)) ds (pni_signed_pre_key_store db)\<rparr>)"
    "device_keys_ok (db\<lparr>aci_pq_last_resort_pre_key_store :=
       fold (\<lambda>d. upsert_key k (fst d)) ds (aci_pq_last_resort_pre_key_store db)\<rparr>)"
    "device_keys_ok (db\<lparr>pni_pq_last_resort_pre_key_store :=
       fold (\<lambda>d. upsert_key k (fst d)) ds (pni_pq_last_resort_pre_key_store db)\<rparr>)"
  using assms unfolding device_keys_ok_def by (auto elim!: rows_all_mono intro!: fold_upsert_refers)

text \<open>One signed key in one of the four stores.\<close>

lemma store_signed_keeps:
  assumes inv: "pg_inv ids db" and k: "usk_key_id k < 2 ^ 32"
  shows "pg_inv ids (snd (store_aci_signed_pre_key k a db))" "pg_inv ids (snd (store_pni_signed_pre_key k a db))"
    "pg_inv ids (snd (store_pq_aci_signed_pre_key k a db))" "pg_inv ids (snd (store_pq_pni_signed_pre_key k a db))"
proof -
  note D = inv [unfolded pg_inv_def]
  have dk: "device_keys_ok db" using D by blast
  have ok: "keys_ok (tids (pg_devices db)) (fold (\<lambda>d. upsert_key k (fst d)) ds t)"
    if "address_devices a db = Ok ds" "keys_ok (tids (pg_devices db)) t" for ds t
    by (rule fold_upsert_ok [OF that(2) address_devices_sub [OF that(1)] k])
  show "pg_inv ids (snd (store_aci_signed_pre_key k a db))" "pg_inv ids (snd (store_pni_signed_pre_key k a db))"
    "pg_inv ids (snd (store_pq_aci_signed_pre_key k a db))" "pg_inv ids (snd (store_pq_pni_signed_pre_key k a db))"
    unfolding store_aci_signed_pre_key_def store_pni_signed_pre_key_def store_pq_aci_signed_pre_key_def
      store_pq_pni_signed_pre_key_def
    by (rule executeS_keeps [where P = "pg_inv ids", OF inv],
        clarsimp simp: outcome_simps, insert D ok,
        simp add: pg_inv_def device_keys_ok_stores [OF dk])+
qed

lemma pg_store_signed_keeps:
  assumes "pg_inv ids db" "usk_key_id k < 2 ^ 32"
  shows "pg_inv ids (snd (pg_store_signed_pre_key ids k a db))"
    "pg_inv ids (snd (pg_store_pq_signed_pre_key ids k a db))"
  using assms by (auto simp: pg_store_signed_pre_key_def pg_store_pq_signed_pre_key_def store_signed_keeps
      split: option.split service_id.split)

definition bundle_typed :: "device_pre_key_bundle \<Rightarrow> bool" where
  "bundle_typed b \<longleftrightarrow> usk_key_id (aci_signed_pre_key b) < 2 ^ 32 \<and> usk_key_id (pni_signed_pre_key b) < 2 ^ 32 \<and>
     usk_key_id (aci_pq_pre_key b) < 2 ^ 32 \<and> usk_key_id (pni_pq_pre_key b) < 2 ^ 32"

lemma keys_of_refers: "i \<in> set (keys_of ow t) \<Longrightarrow> refers t ow i"
  by (auto simp: keys_of_def t_select_def refers_def)

lemma joined_keys_refer:
  "k \<in> set (joined_keys db d) \<Longrightarrow> refers (aci_signed_pre_key_store db) (dk_owner k) (dk_aci k) \<and>
     refers (pni_signed_pre_key_store db) (dk_owner k) (dk_pni k) \<and>
     refers (aci_pq_last_resort_pre_key_store db) (dk_owner k) (dk_aci_pq k) \<and>
     refers (pni_pq_last_resort_pre_key_store db) (dk_owner k) (dk_pni_pq k)"
  by (auto simp: joined_keys_def intro: keys_of_refers)

lemma insert_device_keys_keeps:
  assumes "pg_inv ids db"
  shows "pg_inv ids (db\<lparr>device_keys := fold t_insert (concat (map (\<lambda>d. joined_keys db (fst d)) ds)) (device_keys db)\<rparr>)"
proof -
  let ?Q = "\<lambda>k :: keys_row. refers (aci_signed_pre_key_store db) (dk_owner k) (dk_aci k) \<and>
     refers (pni_signed_pre_key_store db) (dk_owner k) (dk_pni k) \<and>
     refers (aci_pq_last_resort_pre_key_store db) (dk_owner k) (dk_aci_pq k) \<and>
     refers (pni_pq_last_resort_pre_key_store db) (dk_owner k) (dk_pni_pq k)"
  have "rows_all ?Q (fold t_insert (concat (map (\<lambda>d. joined_keys db (fst d)) ds)) (device_keys db))"
  proof (rule fold_keeps [where P = "rows_all ?Q"])
    show "rows_all ?Q (device_keys db)" using assms by (simp add: pg_inv_def device_keys_ok_def)
  next
    fix k t assume "k \<in> set (concat (map (\<lambda>d. joined_keys db (fst d)) ds))" "rows_all ?Q t"
    then show "rows_all ?Q (t_insert k t)" using joined_keys_refer [of k db] by auto
  qed
  with assms show ?thesis by (simp add: pg_inv_def device_keys_ok_def)
qed

lemma pg_store_key_bundle_keeps:
  assumes "pg_inv ids db" "bundle_typed b" shows "pg_inv ids (snd (pg_store_key_bundle b a db))"
  unfolding pg_store_key_bundle_def
proof (rule transaction_keeps [where P = "pg_inv ids", OF assms(1)])
  note typed = assms(2) [unfolded bundle_typed_def]
  have last: "pg_inv ids (snd (executeS (\<lambda>db. bind (address_devices a db) (\<lambda>ds.
       Ok (db\<lparr>device_keys := fold t_insert (concat (map (\<lambda>d. joined_keys db (fst d)) ds)) (device_keys db)\<rparr>))) db))"
    if "pg_inv ids db" for db
    by (rule executeS_keeps [where P = "pg_inv ids", OF that])
      (auto simp: outcome_simps insert_device_keys_keeps [OF that])
  show "pg_inv ids (snd (bindS (store_aci_signed_pre_key (aci_signed_pre_key b) a) (\<lambda>_.
     bindS (store_pni_signed_pre_key (pni_signed_pre_key b) a) (\<lambda>_.
     bindS (store_pq_aci_signed_pre_key (aci_pq_pre_key b) a) (\<lambda>_.
     bindS (store_pq_pni_signed_pre_key (pni_pq_pre_key b) a) (\<lambda>_.
     executeS (\<lambda>db. bind (address_devices a db) (\<lambda>ds.
       Ok (db\<lparr>device_keys := fold t_insert (concat (map (\<lambda>d. joined_keys db (fst d)) ds)) (device_keys db)\<rparr>))))))) db))"
    using typed
    by (intro bindS_keeps [where P = "pg_inv ids"] assms(1) last) (simp_all add: store_signed_keeps)
qed

text \<open>One-time keys and tokens.\<close>

lemma insert_ec_ok:
  assumes "insert_ec rs t = Ok t'" "ec_ok S t" "\<forall>r \<in> set rs. er_owner r \<in> S \<and> text_u32 (er_key_id r)"
  shows "ec_ok S t'"
  using assms
proof (induction rs arbitrary: t)
  case (Cons r rs)
  from Cons.prems(1) have new: "(er_owner r, er_key_id r) \<notin> (\<lambda>(i, x). (er_owner x, er_key_id x)) ` set (trows t)"
    and rec: "insert_ec rs (t_insert r t) = Ok t'" by (auto split: if_splits)
  have "(\<lambda>(i, x). (er_owner x, er_key_id x)) ` set (trows t) = (\<lambda>x. (er_owner x, er_key_id x)) ` tvals t" by force
  with new have "ec_ok S (t_insert r t)" using Cons.prems(2,3) by (auto simp: ec_ok_def)
  from Cons.IH [OF rec this] Cons.prems(3) show ?case by auto
qed simp

lemma insert_pq_ok:
  assumes "insert_pq rs t = Ok t'" "pq_ok S t"
    "\<forall>r \<in> set rs. qr_owner r \<in> S \<and> text_u32 (qr_key_id r) \<and> qr_signature r \<noteq> None"
  shows "pq_ok S t'"
  using assms
proof (induction rs arbitrary: t)
  case (Cons r rs)
  from Cons.prems(1) have new: "(qr_owner r, qr_key_id r) \<notin> (\<lambda>(i, x). (qr_owner x, qr_key_id x)) ` set (trows t)"
    and rec: "insert_pq rs (t_insert r t) = Ok t'" by (auto split: if_splits)
  have "(\<lambda>(i, x). (qr_owner x, qr_key_id x)) ` set (trows t) = (\<lambda>x. (qr_owner x, qr_key_id x)) ` tvals t" by force
  with new have "pq_ok S (t_insert r t)" using Cons.prems(2,3) by (auto simp: pq_ok_def)
  from Cons.IH [OF rec this] Cons.prems(3) show ?case by auto
qed simp

lemma pg_inv_one_time:
  "pg_inv ids db \<Longrightarrow> ec_ok (tids (pg_devices db)) t \<Longrightarrow> pg_inv ids (db\<lparr>one_time_ec_pre_key_store := t\<rparr>)"
  "pg_inv ids db \<Longrightarrow> pq_ok (tids (pg_devices db)) q \<Longrightarrow> pg_inv ids (db\<lparr>one_time_pq_pre_key_store := q\<rparr>)"
  by (simp_all add: pg_inv_def device_keys_ok_def)

lemma one_time_delete:
  assumes "pg_inv ids db"
  shows "pg_inv ids (db\<lparr>one_time_ec_pre_key_store := t_delete P (one_time_ec_pre_key_store db)\<rparr>)"
    "pg_inv ids (db\<lparr>one_time_pq_pre_key_store := t_delete Q (one_time_pq_pre_key_store db)\<rparr>)"
proof -
  have "ec_ok (tids (pg_devices db)) (t_delete P (one_time_ec_pre_key_store db))"
    "pq_ok (tids (pg_devices db)) (t_delete Q (one_time_pq_pre_key_store db))"
    using assms by (auto simp: pg_inv_def ec_ok_def pq_ok_def simp del: t_delete_simps elim!: rows_all_delete)
  then show "pg_inv ids (db\<lparr>one_time_ec_pre_key_store := t_delete P (one_time_ec_pre_key_store db)\<rparr>)"
    "pg_inv ids (db\<lparr>one_time_pq_pre_key_store := t_delete Q (one_time_pq_pre_key_store db)\<rparr>)"
    using pg_inv_one_time [OF assms] by blast+
qed

lemma store_ec_one_keeps:
  assumes "pg_inv ids db" "upk_key_id k < 2 ^ 32"
  shows "pg_inv ids (snd (executeS (\<lambda>db. bind (address_devices a db) (\<lambda>ds.
       bind (insert_ec (map (\<lambda>d. \<lparr>er_owner = fst d, er_key_id = show_nat (upk_key_id k),
           er_public_key = upk_public_key k\<rparr>) ds) (one_time_ec_pre_key_store db)) (\<lambda>t.
       Ok (db\<lparr>one_time_ec_pre_key_store := t\<rparr>)))) db))"
proof (rule executeS_keeps [where P = "pg_inv ids", OF assms(1)], goal_cases)
  case (1 db')
  then obtain ds t where ds: "address_devices a db = Ok ds" and db': "db' = db\<lparr>one_time_ec_pre_key_store := t\<rparr>"
    and t: "insert_ec (map (\<lambda>d. \<lparr>er_owner = fst d, er_key_id = show_nat (upk_key_id k),
      er_public_key = upk_public_key k\<rparr>) ds) (one_time_ec_pre_key_store db) = Ok t"
    by (auto simp: outcome_simps)
  have "ec_ok (tids (pg_devices db)) t"
    using assms address_devices_sub [OF ds]
    by (intro insert_ec_ok [OF t]) (auto simp: pg_inv_def text_u32_def simp del: power_numeral)
  then show ?case unfolding db' by (rule pg_inv_one_time(1) [OF assms(1)])
qed

lemma store_pq_one_keeps:
  assumes "pg_inv ids db" "usk_key_id k < 2 ^ 32"
  shows "pg_inv ids (snd (executeS (\<lambda>db. bind (address_devices a db) (\<lambda>ds.
       bind (insert_pq (map (\<lambda>d. \<lparr>qr_owner = fst d, qr_key_id = show_nat (usk_key_id k),
           qr_public_key = usk_public_key k, qr_signature = Some (usk_signature k)\<rparr>) ds)
         (one_time_pq_pre_key_store db)) (\<lambda>t.
       Ok (db\<lparr>one_time_pq_pre_key_store := t\<rparr>)))) db))"
proof (rule executeS_keeps [where P = "pg_inv ids", OF assms(1)], goal_cases)
  case (1 db')
  then obtain ds t where ds: "address_devices a db = Ok ds" and db': "db' = db\<lparr>one_time_pq_pre_key_store := t\<rparr>"
    and t: "insert_pq (map (\<lambda>d. \<lparr>qr_owner = fst d, qr_key_id = show_nat (usk_key_id k),
      qr_public_key = usk_public_key k, qr_signature = Some (usk_signature k)\<rparr>) ds)
      (one_time_pq_pre_key_store db) = Ok t"
    by (auto simp: outcome_simps)
  have "pq_ok (tids (pg_devices db)) t"
    using assms address_devices_sub [OF ds]
    by (intro insert_pq_ok [OF t]) (auto simp: pg_inv_def text_u32_def simp del: power_numeral)
  then show ?case unfolding db' by (rule pg_inv_one_time(2) [OF assms(1)])
qed

lemma pg_store_one_time_ec_keeps:
  assumes "pg_inv ids db" "list_all (\<lambda>k. upk_key_id k < 2 ^ 32) ks"
  shows "pg_inv ids (snd (pg_store_one_time_ec_pre_keys ks a db))"
  unfolding pg_store_one_time_ec_pre_keys_def
proof (rule transaction_keeps [where P = "pg_inv ids", OF assms(1)],
    rule bindS_keeps [where P = "pg_inv ids", OF assms(1)])
  fix db assume inv: "pg_inv ids db"
  show "pg_inv ids (snd (executeS (\<lambda>db. bind (address_devices a db) (\<lambda>ds. Ok (db\<lparr>one_time_ec_pre_key_store :=
      t_delete (\<lambda>(i, r). er_owner r \<in> fst ` set ds) (one_time_ec_pre_key_store db)\<rparr>))) db))"
    by (rule executeS_keeps [where P = "pg_inv ids", OF inv])
      (auto simp: outcome_simps one_time_delete [OF inv] simp del: t_delete_simps)
next
  fix x db assume "pg_inv ids db"
  then show "pg_inv ids (snd (bindS (forS ks (\<lambda>k. executeS (\<lambda>db. bind (address_devices a db) (\<lambda>ds.
       bind (insert_ec (map (\<lambda>d. \<lparr>er_owner = fst d, er_key_id = show_nat (upk_key_id k),
           er_public_key = upk_public_key k\<rparr>) ds) (one_time_ec_pre_key_store db)) (\<lambda>t.
       Ok (db\<lparr>one_time_ec_pre_key_store := t\<rparr>)))))) (\<lambda>_. returnS ()) db))"
  proof (rule bindS_keeps [where P = "pg_inv ids"], goal_cases)
    case (1 db)
    then show ?case using assms(2) by (intro forS_invariant [where P = "pg_inv ids"])
        (auto simp: list_all_iff intro: store_ec_one_keeps simp del: power_numeral)
  qed simp
qed

lemma pg_store_one_time_pq_keeps:
  assumes "pg_inv ids db" "list_all (\<lambda>k. usk_key_id k < 2 ^ 32) ks"
  shows "pg_inv ids (snd (pg_store_one_time_pq_pre_keys ks a db))"
  unfolding pg_store_one_time_pq_pre_keys_def
proof (rule transaction_keeps [where P = "pg_inv ids", OF assms(1)],
    rule bindS_keeps [where P = "pg_inv ids", OF assms(1)])
  fix db assume inv: "pg_inv ids db"
  show "pg_inv ids (snd (executeS (\<lambda>db. bind (address_devices a db) (\<lambda>ds. Ok (db\<lparr>one_time_pq_pre_key_store :=
      t_delete (\<lambda>(i, r). qr_owner r \<in> fst ` set ds) (one_time_pq_pre_key_store db)\<rparr>))) db))"
    by (rule executeS_keeps [where P = "pg_inv ids", OF inv])
      (auto simp: outcome_simps one_time_delete [OF inv] simp del: t_delete_simps)
next
  fix x db assume "pg_inv ids db"
  then show "pg_inv ids (snd (bindS (forS ks (\<lambda>k. executeS (\<lambda>db. bind (address_devices a db) (\<lambda>ds.
       bind (insert_pq (map (\<lambda>d. \<lparr>qr_owner = fst d, qr_key_id = show_nat (usk_key_id k),
           qr_public_key = usk_public_key k, qr_signature = Some (usk_signature k)\<rparr>) ds)
         (one_time_pq_pre_key_store db)) (\<lambda>t.
       Ok (db\<lparr>one_time_pq_pre_key_store := t\<rparr>)))))) (\<lambda>_. returnS ()) db))"
  proof (rule bindS_keeps [where P = "pg_inv ids"], goal_cases)
    case (1 db)
    then show ?case using assms(2) by (intro forS_invariant [where P = "pg_inv ids"])
        (auto simp: list_all_iff intro: store_pq_one_keeps simp del: power_numeral)
  qed simp
qed

lemma one_time_taken_keeps:
  assumes inv: "pg_inv ids db"
  shows "pg_inv ids (snd (executeS (\<lambda>db. Ok (db\<lparr>one_time_ec_pre_key_store := t_delete P (one_time_ec_pre_key_store db)\<rparr>)) db))"
    "pg_inv ids (snd (executeS (\<lambda>db. Ok (db\<lparr>one_time_pq_pre_key_store := t_delete Q (one_time_pq_pre_key_store db)\<rparr>)) db))"
  by (simp_all add: executeS_def one_time_delete [OF inv])

lemma pg_get_one_time_keeps:
  assumes "pg_inv ids db"
  shows "pg_inv ids (snd (pg_get_one_time_ec_pre_key a db))" "pg_inv ids (snd (pg_get_one_time_pq_pre_key a db))"
  unfolding pg_get_one_time_ec_pre_key_def pg_get_one_time_pq_pre_key_def using assms
  by (auto intro!: bindS_keeps [where P = "pg_inv ids"] one_time_taken_keeps split: list.split)

lemma pg_add_token_keeps:
  assumes "pg_inv ids db" shows "pg_inv ids (snd (pg_add_used_device_link_token tok db))"
  unfolding pg_add_used_device_link_token_def
  by (rule executeS_keeps [where P = "pg_inv ids", OF assms])
    (use assms in \<open>auto simp: pg_inv_def device_keys_ok_def split: if_splits\<close>)

section \<open>Reachable databases\<close>

text \<open>
  Every call the program can make that may change the database, at arguments of the types of the source,
  from empty tables and with any choice of the rows that \<open>LIMIT 1\<close> returns.
\<close>

inductive pg_reachable :: "id_codec \<Rightarrow> envelope codec \<Rightarrow> pg \<Rightarrow> bool" for ids C where
  init: "pg_reachable ids C (fresh_pg f g)"
| add_account: "\<lbrakk> pg_reachable ids C db; list_all device_typed (devices a); identity_keys_typed ids a \<rbrakk> \<Longrightarrow>
    pg_reachable ids C (snd (pg_add_account ids a db))"
| add_device: "\<lbrakk> pg_reachable ids C db; device_typed d \<rbrakk> \<Longrightarrow> pg_reachable ids C (snd (pg_add_device ids sid d db))"
| update_aci: "pg_reachable ids C db \<Longrightarrow> pg_reachable ids C (snd (pg_update_account_aci ids sid u db))"
| update_pni: "pg_reachable ids C db \<Longrightarrow> pg_reachable ids C (snd (pg_update_account_pni ids sid u db))"
| delete_account: "pg_reachable ids C db \<Longrightarrow> pg_reachable ids C (snd (pg_delete_account ids sid db))"
| delete_device: "pg_reachable ids C db \<Longrightarrow> pg_reachable ids C (snd (pg_delete_device addr db))"
| add_token: "pg_reachable ids C db \<Longrightarrow> pg_reachable ids C (snd (pg_add_used_device_link_token tok db))"
| push: "pg_reachable ids C db \<Longrightarrow> pg_reachable ids C (snd (pg_push_message_queue C addr ms db))"
| delete_messages: "pg_reachable ids C db \<Longrightarrow> pg_reachable ids C (snd (pg_delete_messages C addr db))"
| store_signed: "\<lbrakk> pg_reachable ids C db; usk_key_id k < 2 ^ 32 \<rbrakk> \<Longrightarrow>
    pg_reachable ids C (snd (pg_store_signed_pre_key ids k addr db))"
| store_pq_signed: "\<lbrakk> pg_reachable ids C db; usk_key_id k < 2 ^ 32 \<rbrakk> \<Longrightarrow>
    pg_reachable ids C (snd (pg_store_pq_signed_pre_key ids k addr db))"
| store_bundle: "\<lbrakk> pg_reachable ids C db; bundle_typed b \<rbrakk> \<Longrightarrow>
    pg_reachable ids C (snd (pg_store_key_bundle b addr db))"
| store_ec: "\<lbrakk> pg_reachable ids C db; list_all (\<lambda>k. upk_key_id k < 2 ^ 32) eks \<rbrakk> \<Longrightarrow>
    pg_reachable ids C (snd (pg_store_one_time_ec_pre_keys eks addr db))"
| store_pq: "\<lbrakk> pg_reachable ids C db; list_all (\<lambda>k. usk_key_id k < 2 ^ 32) qks \<rbrakk> \<Longrightarrow>
    pg_reachable ids C (snd (pg_store_one_time_pq_pre_keys qks addr db))"
| take_ec: "pg_reachable ids C db \<Longrightarrow> pg_reachable ids C (snd (pg_get_one_time_ec_pre_key addr db))"
| take_pq: "pg_reachable ids C db \<Longrightarrow> pg_reachable ids C (snd (pg_get_one_time_pq_pre_key addr db))"

lemma pg_reachable_inv: "pg_reachable ids C db \<Longrightarrow> pg_inv ids db"
  by (induction rule: pg_reachable.induct)
    (simp_all add: pg_inv_fresh pg_add_account_keeps pg_add_device_keeps pg_update_account_aci_keeps
      pg_update_account_pni_keeps pg_delete_account_keeps pg_delete_device_keeps pg_add_token_keeps
      pg_push_message_queue_keeps pg_delete_messages_keeps pg_store_signed_keeps pg_store_key_bundle_keeps
      pg_store_one_time_ec_keeps pg_store_one_time_pq_keeps pg_get_one_time_keeps del: power_numeral)

lemma pg_reachable_empty: "pg_reachable ids C empty_pg"
  unfolding empty_pg_def by (rule pg_reachable.init)

lemma pg_inv_empty: "pg_inv ids empty_pg"
  unfolding empty_pg_def by (rule pg_inv_fresh)

lemma empty_pg_tables [simp]: "accounts empty_pg = empty_table" "pg_devices empty_pg = empty_table"
  "used_device_link_tokens empty_pg = empty_table" "msq_queue empty_pg = empty_table"
  "aci_signed_pre_key_store empty_pg = empty_table" "pni_signed_pre_key_store empty_pg = empty_table"
  "aci_pq_last_resort_pre_key_store empty_pg = empty_table" "pni_pq_last_resort_pre_key_store empty_pg = empty_table"
  "one_time_ec_pre_key_store empty_pg = empty_table" "one_time_pq_pre_key_store empty_pg = empty_table"
  by (simp_all add: empty_pg_def fresh_pg_def)

end
