(* ===== verification/Postgres_Props.thy ===== *)
theory Postgres_Props
  imports Postgres_Inv Caches
begin

text \<open>
  What the callers of the database rely on: reads of a reachable database do not panic, accounts
  come back as they were stored, one-time keys are handed out once, messages are a queue. The last
  is the contract \<open>message_store\<close>, which the Postgres model satisfies.
\<close>

section \<open>Reading\<close>

definition no_panic :: "('e, 'a) outcome \<Rightarrow> bool" where
  "no_panic r \<longleftrightarrow> r \<noteq> Panic"

named_theorems no_panic_intros \<open>outcomes that are not a panic\<close>

lemma no_panic_Ok [simp, no_panic_intros]: "no_panic (Ok x)"
  by (simp add: no_panic_def)

lemma no_panic_Err [simp, no_panic_intros]: "no_panic (Err e)"
  by (simp add: no_panic_def)

lemma no_panic_bind [no_panic_intros]: "\<lbrakk> no_panic r; \<And>x. r = Ok x \<Longrightarrow> no_panic (f x) \<rbrakk> \<Longrightarrow> no_panic (bind r f)"
  by (cases r) (auto simp: no_panic_def)

lemma no_panic_map_outcome [no_panic_intros]: "(\<And>x. x \<in> set xs \<Longrightarrow> no_panic (f x)) \<Longrightarrow> no_panic (map_outcome f xs)"
  by (induction xs) (auto intro!: no_panic_bind)

lemma no_panic_fetch_one [no_panic_intros]: "no_panic (fetch_one xs)"
  by (simp add: fetch_one_def split: list.split)

lemma no_panic_owner_id [no_panic_intros]: "no_panic (owner_id name db)"
  by (simp add: owner_id_def split: list.split)

lemma no_panic_owner_devices [no_panic_intros]: "no_panic (owner_devices name db)"
  unfolding owner_devices_def by (intro no_panic_intros)

lemma no_panic_address_devices [no_panic_intros]: "no_panic (address_devices a db)"
  unfolding address_devices_def by (intro no_panic_intros)

lemma no_panic_parse [no_panic_intros]: "text_u32 s \<Longrightarrow> no_panic (unwrap (parse_u32 s))"
  by (auto simp: unwrap_def dest!: text_u32_parse)

lemma no_panic_text [no_panic_intros]: "text_bytes bs \<Longrightarrow> no_panic (unwrap (from_utf8 bs))"
  by (auto simp: unwrap_def dest!: text_bytes_read)

lemma no_panic_query [no_panic_intros]: "no_panic (f db) \<Longrightarrow> no_panic (fst (queryS f db))"
  by (simp add: queryS_def)

lemma map_outcome_length: "map_outcome f xs = Ok ys \<Longrightarrow> length ys = length xs"
  by (induction xs arbitrary: ys) (auto simp: outcome_simps)

lemma fetch_one_mem: "fetch_one xs = Ok x \<Longrightarrow> x \<in> set xs"
  by (auto simp: fetch_one_def split: list.splits)

text \<open>A query followed by a query.\<close>

lemma bindS_query: "bindS (queryS f) (\<lambda>x. queryS (g x)) = queryS (\<lambda>db. bind (f db) (\<lambda>x. g x db))"
proof
  fix db
  show "bindS (queryS f) (\<lambda>x. queryS (g x)) db = queryS (\<lambda>db. bind (f db) (\<lambda>x. g x db)) db"
    by (cases "f db") (simp_all add: bindS_def queryS_def)
qed

lemma device_of_row_typed [no_panic_intros]:
  "\<lbrakk> text_u32 (dr_device_id r); text_bytes (dr_name r); text_u32 (dr_registration_id r);
     text_u32 (dr_pni_registration_id r) \<rbrakk>
    \<Longrightarrow> no_panic (device_of_row r cs)"
  unfolding device_of_row_def by (intro no_panic_intros)

lemma device_row_typed:
  assumes "pg_inv ids db" "(i, r) \<in> set (trows (pg_devices db))"
  shows "text_u32 (dr_device_id r)" "text_bytes (dr_name r)" "text_u32 (dr_registration_id r)"
    "text_u32 (dr_pni_registration_id r)"
  using assms by (auto simp: pg_inv_def devices_ok_def dest: rows_allD)

lemma device_of_stored_row:
  "\<lbrakk> pg_inv ids db; x \<in> set (trows (pg_devices db)) \<rbrakk> \<Longrightarrow> no_panic (device_of_row (snd x) cs)"
  by (cases x) (auto intro!: no_panic_intros dest: device_row_typed)

lemma address_devices_rows: "address_devices a db = Ok ds \<Longrightarrow> set ds \<subseteq> set (trows (pg_devices db))"
  by (auto simp: address_devices_def outcome_simps t_select_def)

lemma owner_devices_rows: "owner_devices n db = Ok ds \<Longrightarrow> set ds \<subseteq> set (trows (pg_devices db))"
  by (auto simp: owner_devices_def outcome_simps t_select_def)

text \<open>There are no capabilities to read.\<close>

lemma read_no_capabilities: "pg_inv ids db \<Longrightarrow> read_capabilities (t_select P (device_capabilities db)) = Ok []"
  by (simp add: pg_inv_def t_select_def read_capabilities_def)

lemma pg_get_device_query:
  "pg_inv ids db \<Longrightarrow> pg_get_device a db =
    (bind (address_devices a db) (\<lambda>ds. bind (fetch_one ds) (\<lambda>x. device_of_row (snd x) [])), db)"
  by (cases "address_devices a db")
    (simp_all add: pg_get_device_def pg_get_device_capabilities_def bindS_def queryS_def read_no_capabilities split_def)

lemma pg_get_all_devices_query:
  "pg_inv ids db \<Longrightarrow> pg_get_all_devices ids sid db =
    (bind (owner_devices (service_id_string ids sid) db) (map_outcome (\<lambda>x. device_of_row (snd x) [])), db)"
  by (cases "owner_devices (service_id_string ids sid) db")
    (simp_all add: pg_get_all_devices_def pg_get_all_device_capabilities_def bindS_def queryS_def
      read_no_capabilities split_def)

lemma get_device_no_panic: "pg_inv ids db \<Longrightarrow> no_panic (fst (pg_get_device a db))"
  by (auto simp: pg_get_device_query intro!: no_panic_intros device_of_stored_row
      dest!: address_devices_rows fetch_one_mem)

lemma get_all_devices_no_panic: "pg_inv ids db \<Longrightarrow> no_panic (fst (pg_get_all_devices ids sid db))"
  by (auto simp: pg_get_all_devices_query intro!: no_panic_intros device_of_stored_row dest!: owner_devices_rows)

lemma pg_get_account_query:
  "pg_inv ids db \<Longrightarrow> pg_get_account ids sid db =
    (bind (fst (pg_get_all_devices ids sid db)) (\<lambda>ds.
     bind (fetch_one (account_rows (service_id_string ids sid) db)) (\<lambda>x. account_of_row ids (snd x) ds)), db)"
  by (cases "fst (pg_get_all_devices ids sid db)")
    (auto simp: pg_get_account_def bindS_def queryS_def split_def pg_get_all_devices_query)

context id_codec_laws
begin

lemma account_of_row_typed: "account_typed ids r \<Longrightarrow> no_panic (account_of_row ids r ds)"
  by (auto simp: account_typed_def account_of_row_def parse_aci_def parse_pni_def unwrap_def)

lemma get_account_no_panic:
  assumes "pg_inv ids db" shows "no_panic (fst (pg_get_account ids sid db))"
proof -
  have "account_typed ids (snd x)" if "x \<in> set (account_rows name db)" for x name
    using assms that by (cases x)
      (auto simp: pg_inv_def accounts_ok_def account_rows_def t_select_def dest: rows_allD)
  with assms show ?thesis
    by (auto simp: pg_get_account_query intro!: no_panic_intros get_all_devices_no_panic account_of_row_typed
        dest!: fetch_one_mem)
qed

end

lemma read_key_typed [no_panic_intros]: "text_u32 (kr_key_id r) \<Longrightarrow> no_panic (read_key r)"
  unfolding read_key_def by (intro no_panic_intros)

lemma key_by_id_typed: "\<lbrakk> r \<in> set (key_by_id i t); keys_ok S t \<rbrakk> \<Longrightarrow> text_u32 (kr_key_id r)"
  by (auto simp: key_by_id_def t_select_def keys_ok_def dest: rows_allD)

lemma bundle_rows_typed:
  assumes "pg_inv ids db" "bundle_rows a db = Ok rs" "(ka, kp, qa, qp) \<in> set rs"
  shows "text_u32 (kr_key_id ka)" "text_u32 (kr_key_id kp)" "text_u32 (kr_key_id qa)" "text_u32 (kr_key_id qp)"
  using assms unfolding pg_inv_def by (auto simp: bundle_rows_def outcome_simps intro: key_by_id_typed)

lemma get_key_bundle_no_panic:
  assumes "pg_inv ids db" shows "no_panic (fst (pg_get_key_bundle a db))"
proof -
  have "no_panic (bundle_rows a db)" unfolding bundle_rows_def by (intro no_panic_intros)
  with bundle_rows_typed [OF assms] show ?thesis
    unfolding pg_get_key_bundle_def
    by (auto intro!: no_panic_intros dest!: fetch_one_mem split: prod.split)
qed

lemma limit_1_Nil [simp]: "limit_1 f [] = []"
  by (simp add: limit_1_def)

lemma limit_1_mem:
  assumes "rs \<noteq> []" shows "\<exists>x \<in> set rs. limit_1 f rs = [x]"
proof (cases "filter (\<lambda>r. fst r = f (map fst rs)) rs")
  case Nil
  have "limit_1 f rs = take 1 rs" unfolding limit_1_def Nil by simp
  moreover have "take 1 rs = [hd rs]" "hd rs \<in> set rs" using assms by (simp_all add: take_Suc)
  ultimately show ?thesis by metis
next
  case (Cons x xs)
  have "x \<in> set (filter (\<lambda>r. fst r = f (map fst rs)) rs)" unfolding Cons by simp
  then have "x \<in> set rs" by (simp only: set_filter mem_Collect_eq)
  moreover have "limit_1 f rs = [x]" unfolding limit_1_def Cons by simp
  ultimately show ?thesis by blast
qed

lemma limit_1_sub: "limit_1 f rs = x # xs \<Longrightarrow> x \<in> set rs \<and> xs = []"
  using limit_1_mem [of rs f] by (cases "rs = []") auto

text \<open>The one-time keys of a device.\<close>

definition ec_rows :: "protocol_address \<Rightarrow> pg \<Rightarrow> (nat \<times> ec_row) list" where
  "ec_rows a db = (case address_devices a db of
     Ok ds \<Rightarrow> t_select (\<lambda>(i, r). er_owner r \<in> fst ` set ds) (one_time_ec_pre_key_store db) | _ \<Rightarrow> [])"

definition pq_rows :: "protocol_address \<Rightarrow> pg \<Rightarrow> (nat \<times> pq_row) list" where
  "pq_rows a db = (case address_devices a db of
     Ok ds \<Rightarrow> t_select (\<lambda>(i, r). qr_owner r \<in> fst ` set ds) (one_time_pq_pre_key_store db) | _ \<Rightarrow> [])"

lemma pg_get_one_time_ec_step:
  assumes "address_devices a db = Ok ds"
  shows "pg_get_one_time_ec_pre_key a db =
    ((case limit_1 (ec_choice db) (ec_rows a db) of [] \<Rightarrow> Ok None | x # _ \<Rightarrow> bind (unwrap (parse_u32 (er_key_id (snd x)))) (\<lambda>k.
        Ok (Some \<lparr>upk_key_id = k, upk_public_key = er_public_key (snd x)\<rparr>))),
     db\<lparr>one_time_ec_pre_key_store :=
       t_delete (\<lambda>r. fst r \<in> fst ` set (limit_1 (ec_choice db) (ec_rows a db))) (one_time_ec_pre_key_store db)\<rparr>)"
  using assms by (cases "limit_1 (ec_choice db) (ec_rows a db)")
    (auto simp: pg_get_one_time_ec_pre_key_def ec_rows_def queryS_def executeS_def split_def)

lemma pg_get_one_time_pq_step:
  assumes "address_devices a db = Ok ds"
  shows "pg_get_one_time_pq_pre_key a db =
    ((case limit_1 (pq_choice db) (pq_rows a db) of [] \<Rightarrow> Err RowNotFound | x # _ \<Rightarrow> bind (unwrap (parse_u32 (qr_key_id (snd x)))) (\<lambda>k.
        bind (unwrap (qr_signature (snd x))) (\<lambda>sg.
        Ok \<lparr>usk_key_id = k, usk_public_key = qr_public_key (snd x), usk_signature = sg\<rparr>))),
     db\<lparr>one_time_pq_pre_key_store :=
       t_delete (\<lambda>r. fst r \<in> fst ` set (limit_1 (pq_choice db) (pq_rows a db))) (one_time_pq_pre_key_store db)\<rparr>)"
  using assms by (cases "limit_1 (pq_choice db) (pq_rows a db)")
    (auto simp: pg_get_one_time_pq_pre_key_def pq_rows_def queryS_def executeS_def split_def)

lemma get_one_time_failed:
  "address_devices a db = Err e \<Longrightarrow> pg_get_one_time_ec_pre_key a db = (Err e, db)"
  "address_devices a db = Err e \<Longrightarrow> pg_get_one_time_pq_pre_key a db = (Err e, db)"
  by (simp_all add: pg_get_one_time_ec_pre_key_def pg_get_one_time_pq_pre_key_def queryS_def)

lemma one_time_typed:
  "\<lbrakk> pg_inv ids db; x \<in> set (ec_rows a db) \<rbrakk> \<Longrightarrow> text_u32 (er_key_id (snd x))"
  "\<lbrakk> pg_inv ids db; y \<in> set (pq_rows a db) \<rbrakk> \<Longrightarrow> text_u32 (qr_key_id (snd y)) \<and> (\<exists>s. qr_signature (snd y) = Some s)"
  by (cases x, cases y, auto simp: ec_rows_def pq_rows_def t_select_def pg_inv_def ec_ok_def pq_ok_def
      split: outcome.splits dest: rows_allD)+

lemma get_one_time_ec_no_panic:
  assumes "pg_inv ids db"
  shows "no_panic (fst (pg_get_one_time_ec_pre_key a db))"
proof (cases "address_devices a db")
  case (Ok ds)
  then show ?thesis
  proof (cases "limit_1 (ec_choice db) (ec_rows a db)")
    case (Cons x xs)
    then have "text_u32 (er_key_id (snd x))"
      using limit_1_sub [OF Cons] by (intro one_time_typed (1) [OF assms, where a = a]) simp
    with Ok Cons show ?thesis by (auto simp: pg_get_one_time_ec_step intro!: no_panic_intros)
  qed (simp add: pg_get_one_time_ec_step)
next
  case Panic
  then show ?thesis using no_panic_address_devices [of a db] by (simp add: no_panic_def)
qed (simp add: get_one_time_failed)

lemma get_one_time_pq_no_panic:
  assumes "pg_inv ids db"
  shows "no_panic (fst (pg_get_one_time_pq_pre_key a db))"
proof (cases "address_devices a db")
  case (Ok ds)
  then show ?thesis
  proof (cases "limit_1 (pq_choice db) (pq_rows a db)")
    case (Cons x xs)
    then obtain s where s: "text_u32 (qr_key_id (snd x))" "qr_signature (snd x) = Some s"
      using one_time_typed (2) [OF assms, of x a] limit_1_sub [OF Cons] by auto
    with Ok Cons show ?thesis
      by (auto simp: pg_get_one_time_pq_step s unwrap_def [of "Some s"] intro!: no_panic_intros)
  qed (simp add: pg_get_one_time_pq_step)
next
  case Panic
  then show ?thesis using no_panic_address_devices [of a db] by (simp add: no_panic_def)
qed (simp add: get_one_time_failed)

section \<open>The message queue\<close>

text \<open>The stored messages of an address, and the databases whose messages can be read back.\<close>

definition decoded :: "envelope codec \<Rightarrow> msg_row \<Rightarrow> envelope list" where
  "decoded C r = (case deserialize C (mr_msg r) of Ok m \<Rightarrow> [m] | _ \<Rightarrow> [])"

definition pg_messages :: "envelope codec \<Rightarrow> pg \<Rightarrow> protocol_address \<Rightarrow> envelope list" where
  "pg_messages C db a = (case message_rows a db of Ok rs \<Rightarrow> concat (map (\<lambda>x. decoded C (snd x)) rs) | _ \<Rightarrow> [])"

definition readable :: "envelope codec \<Rightarrow> pg \<Rightarrow> bool" where
  "readable C db \<longleftrightarrow> rows_all (\<lambda>r. is_ok (deserialize C (mr_msg r))) (msq_queue db)"

definition known_device :: "pg \<Rightarrow> protocol_address \<Rightarrow> bool" where
  "known_device db a \<longleftrightarrow> (\<exists>d. address_devices a db = Ok [d])"

lemma read_messages_decoded:
  "(\<And>i r. (i, r) \<in> set rs \<Longrightarrow> is_ok (deserialize C (mr_msg r))) \<Longrightarrow>
    read_messages C rs = Ok (concat (map (\<lambda>x. decoded C (snd x)) rs))"
  unfolding read_messages_def
proof (induction rs)
  case (Cons x rs)
  obtain i r where x: "x = (i, r)" by fastforce
  have "is_ok (deserialize C (mr_msg r))" using Cons.prems x by auto
  then obtain m where "deserialize C (mr_msg r) = Ok m" by (cases "deserialize C (mr_msg r)") auto
  moreover have "map_outcome (\<lambda>(i, r). map_err Anyhow (deserialize C (mr_msg r))) rs
      = Ok (concat (map (\<lambda>x. decoded C (snd x)) rs))"
    using Cons.prems by (intro Cons.IH) (auto simp: x)
  ultimately show ?case by (simp add: x decoded_def)
qed simp

lemma read_message_rows:
  assumes "readable C db" "message_rows a db = Ok rs"
  shows "read_messages C rs = Ok (pg_messages C db a)"
proof -
  have "set rs \<subseteq> set (trows (msq_queue db))"
    using assms(2) by (auto simp: message_rows_def outcome_simps t_select_def)
  then have "read_messages C rs = Ok (concat (map (\<lambda>x. decoded C (snd x)) rs))"
    using assms(1) by (intro read_messages_decoded) (auto simp: readable_def dest: rows_allD)
  with assms(2) show ?thesis by (simp add: pg_messages_def)
qed

lemma address_devices_msq [simp]: "address_devices a (db\<lparr>msq_queue := t\<rparr>) = address_devices a db"
  by (simp add: address_devices_def owner_id_def account_rows_def)

lemma known_message_rows:
  "known_device db a \<Longrightarrow> \<exists>d. address_devices a db = Ok [d] \<and>
    message_rows a db = Ok (t_select (\<lambda>(i, r). mr_receiver r = fst d) (msq_queue db))"
  by (auto simp: known_device_def message_rows_def)

lemma push_one_known:
  assumes "readable C db" "known_device db a" "codec_ok C m"
  shows "\<exists>db'. push_one C a m db = (Ok (), db') \<and> readable C db' \<and> known_device db' a \<and>
    pg_messages C db' a = pg_messages C db a @ [m]"
proof -
  obtain d where d: "address_devices a db = Ok [d]" using assms(2) by (auto simp: known_device_def)
  let ?t = "t_insert \<lparr>mr_receiver = fst d, mr_msg = serialize C m\<rparr> (msq_queue db)"
  have "push_one C a m db = (Ok (), db\<lparr>msq_queue := ?t\<rparr>)"
    by (simp add: push_one_def executeS_def d)
  moreover have "readable C (db\<lparr>msq_queue := ?t\<rparr>)"
    using assms by (simp add: readable_def codec_ok_def)
  moreover have "pg_messages C (db\<lparr>msq_queue := ?t\<rparr>) a = pg_messages C db a @ [m]"
    using assms(3) d by (simp add: pg_messages_def message_rows_def t_select_def decoded_def codec_ok_def)
  moreover have "known_device (db\<lparr>msq_queue := ?t\<rparr>) a" using d by (simp add: known_device_def)
  ultimately show ?thesis by blast
qed

lemma push_all_known:
  assumes "readable C db" "known_device db a" "list_all (codec_ok C) ms"
  shows "\<exists>db'. pg_push_message_queue C a ms db = (Ok (), db') \<and> readable C db' \<and> known_device db' a \<and>
    pg_messages C db' a = pg_messages C db a @ ms"
proof -
  have "\<exists>us db'. forS ms (push_one C a) db = (Ok us, db') \<and> readable C db' \<and> known_device db' a \<and>
      pg_messages C db' a = pg_messages C db a @ ms"
    using assms
  proof (induction ms arbitrary: db)
    case (Cons m ms)
    then obtain db1 where 1: "push_one C a m db = (Ok (), db1)" "readable C db1" "known_device db1 a"
      "pg_messages C db1 a = pg_messages C db a @ [m]" using push_one_known [of C db a m] by auto
    from Cons.IH [OF 1(2,3)] Cons.prems(3) obtain us db' where
      "forS ms (push_one C a) db1 = (Ok us, db')" "readable C db'" "known_device db' a"
      "pg_messages C db' a = pg_messages C db1 a @ ms" by auto
    with 1 show ?case by auto
  qed auto
  then show ?thesis unfolding pg_push_message_queue_def by fastforce
qed

lemma delete_known:
  assumes "readable C db" "known_device db a"
  shows "\<exists>db'. pg_delete_messages C a db = (Ok (pg_messages C db a), db') \<and> readable C db' \<and> known_device db' a \<and>
    pg_messages C db' a = []"
proof -
  obtain d where d: "address_devices a db = Ok [d]"
      "message_rows a db = Ok (t_select (\<lambda>(i, r). mr_receiver r = fst d) (msq_queue db))"
    using known_message_rows [OF assms(2)] by blast
  let ?rs = "t_select (\<lambda>(i, r). mr_receiver r = fst d) (msq_queue db)"
  let ?db = "db\<lparr>msq_queue := t_delete (\<lambda>r. r \<in> set ?rs) (msq_queue db)\<rparr>"
  have "pg_delete_messages C a db = (Ok (pg_messages C db a), ?db)"
    using read_message_rows [OF assms(1) d(2)] by (simp add: pg_delete_messages_def queryS_def executeS_def d(2))
  moreover have "readable C ?db"
    using assms(1) by (auto simp: readable_def simp del: t_delete_simps elim!: rows_all_delete)
  moreover have "pg_messages C ?db a = []"
    using d(1) by (simp add: pg_messages_def message_rows_def t_select_def t_delete_def filter_empty_conv split_def)
  moreover have "known_device ?db a" using d(1) by (simp add: known_device_def)
  ultimately show ?thesis by blast
qed

interpretation pg_msgs: message_store "postgres ids C" "readable C" known_device "codec_ok C" "pg_messages C"
  for ids :: id_codec and C :: "envelope codec"
proof
  fix d a ms
  assume "readable C d" "known_device d a" "list_all (codec_ok C) ms"
  then show "\<exists>d'. push_message_queue (postgres ids C) a ms d = (Ok (), d') \<and> readable C d' \<and> known_device d' a \<and>
      pg_messages C d' a = pg_messages C d a @ ms"
    using push_all_known by (simp add: postgres_def)
next
  fix d a
  assume r: "readable C d" and k: "known_device d a"
  obtain rs where rs: "message_rows a d = Ok rs" using known_message_rows [OF k] by blast
  have msgs: "read_messages C rs = Ok (pg_messages C d a)" by (rule read_message_rows [OF r rs])
  then show "get_messages (postgres ids C) a d = (Ok (pg_messages C d a), d)"
    by (simp add: postgres_def pg_get_messages_def queryS_def rs)
  show "\<exists>d'. delete_messages (postgres ids C) a d = (Ok (pg_messages C d a), d') \<and> readable C d' \<and>
      known_device d' a \<and> pg_messages C d' a = []"
    using delete_known [OF r k] by (simp add: postgres_def)
  have "length rs = length (pg_messages C d a)"
    using msgs by (auto simp: read_messages_def dest!: map_outcome_length)
  then show "length (pg_messages C d a) < 2 ^ 32 \<Longrightarrow>
      count_messages (postgres ids C) a d = (Ok (length (pg_messages C d a)), d)"
    by (simp add: postgres_def pg_count_messages_def queryS_def rs)
qed

end
