(* ===== verification/Postgres_Accounts.thy ===== *)
theory Postgres_Accounts
  imports Postgres_Props
begin

text \<open>
  Properties of the Postgres model that concern accounts: reads of reachable databases, and the
  round trip of an account.
\<close>

section \<open>Reachable databases are read without a panic\<close>

text \<open>
  C27 (invariant). Whatever calls the server has made, the database holds at most one account per
  service id, and none of the reading operations panics on a stored value: the service ids, the
  identity keys, the names of devices and the numbers that they unwrap were all written by the
  program, from values of the types it reads them back to.
\<close>

theorem pg_reachable_reads:
  assumes "id_codec_laws ids" "pg_reachable ids C db"
  shows "length (account_rows name db) \<le> 1 \<and>
    fst (pg_get_account ids sid db) \<noteq> Panic \<and> fst (pg_get_all_devices ids sid db) \<noteq> Panic \<and>
    fst (pg_get_device a db) \<noteq> Panic \<and> fst (pg_get_key_bundle a db) \<noteq> Panic \<and>
    fst (pg_get_one_time_ec_pre_key a db) \<noteq> Panic \<and> fst (pg_get_one_time_pq_pre_key a db) \<noteq> Panic"
proof -
  have inv: "pg_inv ids db" using assms(2) by (rule pg_reachable_inv)
  show ?thesis
    using id_codec_laws.account_rows_unique [OF assms(1) pg_invD(1) [OF inv]]
      id_codec_laws.get_account_no_panic [OF assms(1) inv] get_all_devices_no_panic [OF inv]
      get_device_no_panic [OF inv] get_key_bundle_no_panic [OF inv]
      get_one_time_ec_no_panic [OF inv] get_one_time_pq_no_panic [OF inv]
    by (simp add: no_panic_def)
qed

lemma example_account_typed:
  "list_all device_typed (devices example_account)" "identity_keys_typed std_ids example_account"
proof -
  have "is_text ''phone''" "is_text ''laptop''" by (simp_all add: is_text_def)
  then show "list_all device_typed (devices example_account)" by (simp add: example_account_def device_typed_def)
  show "identity_keys_typed std_ids example_account"
    by (simp add: identity_keys_typed_def example_account_def std_ids_def std_public_key_def)
qed

definition stored_example :: pg where
  "stored_example = snd (pg_add_account std_ids example_account empty_pg)"

lemma stored_example_reachable: "pg_reachable std_ids C stored_example"
  unfolding stored_example_def
  by (intro pg_reachable.add_account pg_reachable_empty example_account_typed)

theorem pg_reachable_reads_witness:
  "length (account_rows ''x'' stored_example) \<le> 1 \<and>
    fst (pg_get_account std_ids (Aci 1) stored_example) \<noteq> Panic"
  using pg_reachable_reads [OF std_ids.id_codec_laws_axioms stored_example_reachable] by blast

section \<open>Accounts\<close>

text \<open>What the database keeps of a device.\<close>

definition reloaded :: "device \<Rightarrow> device" where
  "reloaded d = d\<lparr>last_seen := 0, created := 0, capabilities := []\<rparr>"

lemma device_of_row_of:
  "device_typed d \<Longrightarrow> device_of_row (device_row_of ow d) [] = Ok (reloaded d)"
  by (simp add: device_of_row_def device_row_of_def device_typed_def parse_u32_show_nat from_utf8_string_bytes unwrap_def
      reloaded_def del: power_numeral)

lemma no_device_of_new_account:
  assumes "pg_inv ids db" "(i, r) \<in> set (trows (pg_devices db))"
  shows "dr_owner r \<noteq> tseq (accounts db)"
proof -
  have "dr_owner r \<in> tids (accounts db)" "table_ok (accounts db)"
    using assms by (auto simp: pg_inv_def devices_ok_def accounts_ok_def dest: rows_allD)
  then show ?thesis by (auto simp: table_ok_def)
qed

lemma account_rows_devices [simp]: "account_rows name (db\<lparr>pg_devices := t\<rparr>) = account_rows name db"
  by (simp add: account_rows_def)

definition with_account :: "id_codec \<Rightarrow> account \<Rightarrow> device \<Rightarrow> pg \<Rightarrow> pg" where
  "with_account ids a d db = db\<lparr>accounts := t_insert (account_row_of ids a) (accounts db),
     pg_devices := t_insert (device_row_of (tseq (accounts db)) d) (pg_devices db)\<rparr>"

context id_codec_laws
begin

lemma account_rows_new:
  assumes "accounts_ok ids (accounts db)"
    and "account_conflict (account_row_of ids a) (map snd (trows (accounts db))) = None"
    and "identity_keys_typed ids a" "sid \<in> {Aci (aci a), Pni (pni a)}"
  shows "account_rows (service_id_string ids sid) (db\<lparr>accounts := t_insert (account_row_of ids a) (accounts db)\<rparr>)
    = [(tseq (accounts db), account_row_of ids a)]"
proof -
  let ?db = "db\<lparr>accounts := t_insert (account_row_of ids a) (accounts db)\<rparr>"
  let ?rs = "account_rows (service_id_string ids sid) ?db"
  have "accounts_ok ids (accounts ?db)" using accounts_ok_insert [OF assms(1-3)] by simp
  then have "length ?rs \<le> 1" by (rule account_rows_unique)
  moreover have "(tseq (accounts db), account_row_of ids a) \<in> set ?rs"
    using assms(4) by (auto simp: account_rows_def t_select_def account_row_of_def)
  ultimately show ?thesis by (cases ?rs) auto
qed

lemma add_account_step:
  assumes inv: "pg_inv ids db"
    and new: "account_conflict (account_row_of ids a) (map snd (trows (accounts db))) = None"
    and keys: "identity_keys_typed ids a" and d: "devices a = d # ds"
  shows "pg_add_account ids a db = (Ok (), with_account ids a d db)"
proof -
  let ?db = "db\<lparr>accounts := t_insert (account_row_of ids a) (accounts db)\<rparr>"
  have rows: "account_rows (service_id_string ids (Aci (aci a))) ?db = [(tseq (accounts db), account_row_of ids a)]"
    by (rule account_rows_new) (use pg_invD(1) [OF inv] new keys in auto)
  have "(x, tseq (accounts db)) \<notin> (\<lambda>(i, r). (dr_device_id r, dr_owner r)) ` set (trows (pg_devices db))" for x
    using no_device_of_new_account [OF inv] by fastforce
  then have "pg_add_device ids (Aci (aci a)) d ?db = (Ok (), with_account ids a d db)"
    unfolding pg_add_device_def executeS_def rows by (auto simp: device_row_of_def with_account_def)
  then show ?thesis by (simp add: pg_add_account_def executeS_def new d)
qed

lemma get_new_account:
  assumes inv: "pg_inv ids db" "pg_inv ids (with_account ids a d db)"
    and new: "account_conflict (account_row_of ids a) (map snd (trows (accounts db))) = None"
    and keys: "identity_keys_typed ids a" and d: "device_typed d" and sid: "sid \<in> {Aci (aci a), Pni (pni a)}"
  shows "pg_get_account ids sid (with_account ids a d db)
    = (Ok (a\<lparr>devices := [reloaded d]\<rparr>), with_account ids a d db)"
proof -
  let ?n = "tseq (accounts db)" and ?name = "service_id_string ids sid" and ?db = "with_account ids a d db"
  have rows: "account_rows ?name ?db = [(?n, account_row_of ids a)]"
    using account_rows_new [OF pg_invD(1) [OF inv(1)] new keys sid] by (simp add: with_account_def)
  have "filter (\<lambda>(i, r). ?n = dr_owner r) (trows (pg_devices db)) = []"
    using no_device_of_new_account [OF inv(1)] by (fastforce simp: filter_empty_conv)
  moreover have "trows (pg_devices ?db) = trows (pg_devices db) @ [(tseq (pg_devices db), device_row_of ?n d)]"
    by (simp add: with_account_def)
  ultimately have "owner_devices ?name ?db = Ok [(tseq (pg_devices db), device_row_of ?n d)]"
    by (simp add: owner_devices_def owner_id_def rows t_select_def device_row_of_def)
  then have "fst (pg_get_all_devices ids sid ?db) = Ok [reloaded d]"
    by (simp add: pg_get_all_devices_query [OF inv(2)] device_of_row_of d)
  then show ?thesis
    using keys by (simp add: pg_get_account_query [OF inv(2)] rows fetch_one_def account_of_row_def parse_aci_def
        parse_pni_def identity_keys_typed_def unwrap_def account_row_of_def Account_from_db_def)
qed

end

text \<open>
  An account that conflicts with no stored one is added, and \<open>get_account\<close> returns
  it under its ACI and under its PNI. It comes back with its first device only, and of that
  device the time stamps and the capabilities are lost.
\<close>

theorem pg_account_round_trip:
  assumes "id_codec_laws ids" "pg_reachable ids C db"
    and "account_conflict (account_row_of ids a) (map snd (trows (accounts db))) = None"
    and "identity_keys_typed ids a" "devices a = d # ds" "list_all device_typed (devices a)" "sid \<in> {Aci (aci a), Pni (pni a)}"
  shows "\<exists>db'. pg_add_account ids a db = (Ok (), db') \<and>
    pg_get_account ids sid db' = (Ok (a\<lparr>devices := [reloaded d]\<rparr>), db')"
proof -
  have inv: "pg_inv ids db" using assms(2) by (rule pg_reachable_inv)
  have add: "pg_add_account ids a db = (Ok (), with_account ids a d db)"
    by (rule id_codec_laws.add_account_step [OF assms(1) inv assms(3-5)])
  have "pg_inv ids (with_account ids a d db)"
    using pg_add_account_keeps [OF inv assms(6,4)] by (simp add: add)
  moreover have "device_typed d" using assms(5,6) by simp
  ultimately show ?thesis
    using add id_codec_laws.get_new_account [OF assms(1) inv _ assms(3,4) _ assms(7)] by blast
qed

theorem pg_account_round_trip_witness:
  "\<exists>db'. pg_add_account std_ids example_account empty_pg = (Ok (), db') \<and>
    pg_get_account std_ids (Pni 2) db' =
      (Ok (example_account\<lparr>devices := [reloaded (hd (devices example_account))]\<rparr>), db')"
proof -
  have "account_conflict (account_row_of std_ids example_account) (map snd (trows (accounts empty_pg))) = None"
    by (simp add: account_conflict_def)
  moreover obtain ds where "devices example_account = hd (devices example_account) # ds" by (simp add: example_account_def)
  moreover have "Pni 2 \<in> {Aci (aci example_account), Pni (pni example_account)}" by (simp add: example_account_def)
  ultimately show ?thesis
    using pg_account_round_trip [OF std_ids.id_codec_laws_axioms pg_reachable_empty] example_account_typed by blast
qed

end
