(* ===== verification/Postgres_Keys.thy ===== *)
theory Postgres_Keys
  imports Postgres_Accounts
begin

text \<open>
  The keys of a device in the Postgres model: each one-time key that was uploaded is handed out once,
  in an order that the database chooses; the bundle of signed keys is the one that was stored
  first, whatever keys are uploaded under other ids afterwards.
\<close>

section \<open>One-time keys\<close>

lemma address_devices_ec [simp]: "address_devices a (db\<lparr>one_time_ec_pre_key_store := t\<rparr>) = address_devices a db"
  by (simp add: address_devices_def owner_id_def account_rows_def)

text \<open>The keys that are left for a device, as they were uploaded.\<close>

definition ec_left :: "nat \<Rightarrow> pg \<Rightarrow> (string \<times> bytes) list" where
  "ec_left d db = map (\<lambda>x. (er_key_id (snd x), er_public_key (snd x)))
     (t_select (\<lambda>(i, r). er_owner r = d) (one_time_ec_pre_key_store db))"

abbreviation ec_texts :: "upload_pre_key list \<Rightarrow> (string \<times> bytes) list" where
  "ec_texts ks \<equiv> map (\<lambda>k. (show_nat (upk_key_id k), upk_public_key k)) ks"

lemma ec_rows_known: "address_devices a db = Ok [d] \<Longrightarrow>
    ec_rows a db = t_select (\<lambda>(i, r). er_owner r = fst d) (one_time_ec_pre_key_store db)"
  by (simp add: ec_rows_def)

text \<open>Deleting a selected row leaves the others.\<close>

lemma select_after_delete:
  assumes "table_ok t" "x \<in> set (t_select P t)"
  shows "mset (t_select P (t_delete (\<lambda>r. fst r = fst x) t)) = mset (t_select P t) - {#x#}"
proof -
  have "distinct (map fst (t_select P t))"
    using assms(1) unfolding t_select_def table_ok_def by (metis distinct_map_filter)
  then have "filter (\<lambda>r. fst r \<noteq> fst x) (t_select P t) = remove1 x (t_select P t)"
    using assms(2) by (simp add: distinct_map distinct_remove1_removeAll removeAll_filter_not_eq)
      (auto intro!: filter_cong dest: inj_onD)
  moreover have "t_select P (t_delete (\<lambda>r. fst r = fst x) t) = filter (\<lambda>r. fst r \<noteq> fst x) (t_select P t)"
    by (simp add: t_select_def t_delete_def filter_filter conj_commute)
  ultimately show ?thesis by simp
qed

text \<open>One request takes one of the keys that are left, whichever the database chooses.\<close>

lemma take_ec_step:
  assumes inv: "pg_inv ids db" and d: "address_devices a db = Ok [d]"
    and left: "mset (ec_left (fst d) db) = mset (ec_texts ks)" and ks: "ks \<noteq> []" "list_all (\<lambda>k. upk_key_id k < 2 ^ 32) ks"
  shows "\<exists>k db'. k \<in> set ks \<and> pg_get_one_time_ec_pre_key a db = (Ok (Some k), db') \<and> pg_inv ids db' \<and>
    address_devices a db' = Ok [d] \<and> mset (ec_left (fst d) db') = mset (ec_texts (remove1 k ks))"
proof -
  let ?t = "one_time_ec_pre_key_store db" and ?P = "\<lambda>(i, r). er_owner r = fst d"
  let ?text = "\<lambda>x :: nat \<times> ec_row. (er_key_id (snd x), er_public_key (snd x))"
  have "ec_left (fst d) db \<noteq> []" using left ks(1) by auto
  then have "t_select ?P ?t \<noteq> []" by (auto simp: ec_left_def)
  from limit_1_mem [OF this, of "ec_choice db"] obtain x where
    x: "x \<in> set (t_select ?P ?t)" "limit_1 (ec_choice db) (t_select ?P ?t) = [x]" by blast
  have "?text x \<in> set (ec_left (fst d) db)" using x(1) by (auto simp: ec_left_def)
  then have "?text x \<in> set (ec_texts ks)" using mset_eq_setD [OF left] by simp
  then obtain k where k: "k \<in> set ks" "er_key_id (snd x) = show_nat (upk_key_id k)" "er_public_key (snd x) = upk_public_key k"
    by auto
  then have "upk_key_id k < 2 ^ 32" using ks(2) by (simp add: list_all_iff)
  let ?db = "db\<lparr>one_time_ec_pre_key_store := t_delete (\<lambda>r. fst r = fst x) ?t\<rparr>"
  have get: "pg_get_one_time_ec_pre_key a db = (Ok (Some k), ?db)"
    using \<open>upk_key_id k < 2 ^ 32\<close>
    by (simp add: pg_get_one_time_ec_step [OF d] ec_rows_known [OF d] x(2) k(2,3) parse_u32_show_nat unwrap_def
        del: power_numeral)
  have "table_ok ?t" using inv by (simp add: pg_inv_def ec_ok_def)
  have "mset (ec_left (fst d) ?db) = image_mset ?text (mset (t_select ?P ?t) - {#x#})"
    by (simp add: ec_left_def select_after_delete [OF \<open>table_ok ?t\<close> x(1), simplified])
  also have "\<dots> = mset (ec_left (fst d) db) - {#?text x#}"
    using x(1) by (simp add: ec_left_def image_mset_Diff)
  also have "\<dots> = image_mset (\<lambda>k. (show_nat (upk_key_id k), upk_public_key k)) (mset ks - {#k#})"
    using k by (simp add: left image_mset_Diff)
  also have "\<dots> = mset (ec_texts (remove1 k ks))" by simp
  finally show ?thesis using get d k(1) pg_get_one_time_keeps(1) [OF inv, of a] by auto
qed

lemma take_ec_none:
  assumes d: "address_devices a db = Ok [d]" and left: "ec_left (fst d) db = []"
  shows "pg_get_one_time_ec_pre_key a db = (Ok None, db)"
proof -
  have rows: "t_select (\<lambda>(i, r). er_owner r = fst d) (one_time_ec_pre_key_store db) = []"
    using left by (simp add: ec_left_def)
  show ?thesis by (simp add: pg_get_one_time_ec_step [OF d] ec_rows_known [OF d] rows t_delete_def)
qed

text \<open>Requests for the same address, one after the other.\<close>

definition take_ecs :: "nat \<Rightarrow> protocol_address \<Rightarrow> (pg, db_error, upload_pre_key option list) step" where
  "take_ecs n a = forS [0..<n] (\<lambda>_. pg_get_one_time_ec_pre_key a)"

lemma forS_const: "length xs = length ys \<Longrightarrow> forS xs (\<lambda>_. m) = forS ys (\<lambda>_. m)"
  by (induction xs ys rule: list_induct2) simp_all

lemma take_ecs_Suc:
  "take_ecs (Suc n) a = bindS (pg_get_one_time_ec_pre_key a) (\<lambda>k. bindS (take_ecs n a) (\<lambda>ks. returnS (k # ks)))"
proof -
  have "take_ecs (Suc n) a = forS (0 # [0..<n]) (\<lambda>_. pg_get_one_time_ec_pre_key a)"
    unfolding take_ecs_def by (rule forS_const) simp
  then show ?thesis by (simp add: take_ecs_def)
qed

lemma take_ecs_none:
  assumes "address_devices a db = Ok [d]" "ec_left (fst d) db = []"
  shows "take_ecs n a db = (Ok (replicate n None), db)"
  by (induction n) (simp_all add: take_ecs_Suc take_ec_none [OF assms], simp add: take_ecs_def)

text \<open>All requests together follow one order of the keys.\<close>

lemma take_ecs_left:
  assumes "pg_inv ids db" "address_devices a db = Ok [d]" "mset (ec_left (fst d) db) = mset (ec_texts ks)"
    and "list_all (\<lambda>k. upk_key_id k < 2 ^ 32) ks"
  shows "\<exists>xs. mset xs = mset ks \<and>
    (\<forall>n. \<exists>db'. take_ecs n a db = (Ok (map Some (take n xs) @ replicate (n - length ks) None), db'))"
  using assms
proof (induction "length ks" arbitrary: ks db)
  case 0
  then show ?case using take_ecs_none [OF 0(3)] by simp
next
  case (Suc m)
  have "ks \<noteq> []" using Suc.hyps(2) by auto
  from take_ec_step [OF Suc.prems(1-3) this Suc.prems(4)] obtain k db1 where
    1: "k \<in> set ks" "pg_get_one_time_ec_pre_key a db = (Ok (Some k), db1)" "pg_inv ids db1" "address_devices a db1 = Ok [d]"
      "mset (ec_left (fst d) db1) = mset (ec_texts (remove1 k ks))" by blast
  have len: "length ks = Suc (length (remove1 k ks))" using 1(1) Suc.hyps(2) by (simp add: length_remove1)
  have "list_all (\<lambda>k. upk_key_id k < 2 ^ 32) (remove1 k ks)"
    using Suc.prems(4) notin_set_remove1 by (fastforce simp: list_all_iff)
  with Suc.hyps(1) [OF _ 1(3-5)] Suc.hyps(2) len obtain xs where
    xs: "mset xs = mset (remove1 k ks)"
      "\<And>n. \<exists>db'. take_ecs n a db1 = (Ok (map Some (take n xs) @ replicate (n - length (remove1 k ks)) None), db')"
    by auto
  have "\<exists>db'. take_ecs n a db = (Ok (map Some (take n (k # xs)) @ replicate (n - length ks) None), db')" for n
  proof (cases n)
    case 0
    then show ?thesis by (simp add: take_ecs_def)
  next
    case (Suc i)
    with xs(2) [of i] 1(2) len show ?thesis by (auto simp: take_ecs_Suc)
  qed
  moreover have "mset (k # xs) = mset ks" using xs(1) 1(1) by simp
  ultimately show ?case by blast
qed

text \<open>Storing replaces what was there.\<close>

abbreviation (input) insert_ec_one :: "protocol_address \<Rightarrow> upload_pre_key \<Rightarrow> (pg, db_error, unit) step" where
  "insert_ec_one a k \<equiv> executeS (\<lambda>db. bind (address_devices a db) (\<lambda>ds.
       bind (insert_ec (map (\<lambda>d. \<lparr>er_owner = fst d, er_key_id = show_nat (upk_key_id k),
           er_public_key = upk_public_key k\<rparr>) ds) (one_time_ec_pre_key_store db)) (\<lambda>t.
       Ok (db\<lparr>one_time_ec_pre_key_store := t\<rparr>))))"

lemma insert_ec_one_step:
  assumes d: "address_devices a db = Ok [d]" and new: "show_nat (upk_key_id k) \<notin> fst ` set (ec_left (fst d) db)"
  shows "\<exists>db'. insert_ec_one a k db = (Ok (), db') \<and> address_devices a db' = Ok [d] \<and>
    ec_left (fst d) db' = ec_left (fst d) db @ ec_texts [k]"
proof -
  let ?r = "\<lparr>er_owner = fst d, er_key_id = show_nat (upk_key_id k), er_public_key = upk_public_key k\<rparr>"
  let ?db = "db\<lparr>one_time_ec_pre_key_store := t_insert ?r (one_time_ec_pre_key_store db)\<rparr>"
  have "(fst d, show_nat (upk_key_id k)) \<notin> (\<lambda>(i, x). (er_owner x, er_key_id x)) ` set (trows (one_time_ec_pre_key_store db))"
    using new by (force simp: ec_left_def t_select_def image_iff)
  then have "insert_ec_one a k db = (Ok (), ?db)" by (auto simp: executeS_def d)
  moreover have "ec_left (fst d) ?db = ec_left (fst d) db @ ec_texts [k]" by (simp add: ec_left_def t_select_def)
  ultimately show ?thesis using d by simp
qed

lemma insert_ec_all_step:
  assumes "address_devices a db = Ok [d]" "distinct (map upk_key_id ks)"
    and "(\<lambda>k. show_nat (upk_key_id k)) ` set ks \<inter> fst ` set (ec_left (fst d) db) = {}"
  shows "\<exists>us db'. forS ks (insert_ec_one a) db = (Ok us, db') \<and> address_devices a db' = Ok [d] \<and>
    ec_left (fst d) db' = ec_left (fst d) db @ ec_texts ks"
  using assms
proof (induction ks arbitrary: db)
  case (Cons k ks)
  then obtain db1 where 1: "insert_ec_one a k db = (Ok (), db1)" "address_devices a db1 = Ok [d]"
      "ec_left (fst d) db1 = ec_left (fst d) db @ ec_texts [k]"
    using insert_ec_one_step [OF Cons.prems(1), of k] by auto
  have "(\<lambda>k. show_nat (upk_key_id k)) ` set ks \<inter> fst ` set (ec_left (fst d) db1) = {}"
    using Cons.prems(2,3) by (auto simp: 1(3) image_iff dest!: show_nat_inj)
  from Cons.IH [OF 1(2) _ this] Cons.prems(2) obtain us db' where
    "forS ks (insert_ec_one a) db1 = (Ok us, db')" "address_devices a db' = Ok [d]"
    "ec_left (fst d) db' = ec_left (fst d) db1 @ ec_texts ks" by auto
  with 1 show ?case by auto
qed simp

lemma store_ec_step:
  assumes d: "address_devices a db = Ok [d]" and ks: "distinct (map upk_key_id ks)"
  shows "\<exists>db'. pg_store_one_time_ec_pre_keys ks a db = (Ok (), db') \<and> address_devices a db' = Ok [d] \<and>
    ec_left (fst d) db' = ec_texts ks"
proof -
  let ?db = "db\<lparr>one_time_ec_pre_key_store :=
    t_delete (\<lambda>(i, r). er_owner r = fst d) (one_time_ec_pre_key_store db)\<rparr>"
  have "ec_left (fst d) ?db = []"
    by (auto simp: ec_left_def t_select_def t_delete_def filter_empty_conv)
  with insert_ec_all_step [of a ?db d ks] d ks obtain us db' where
    "forS ks (insert_ec_one a) ?db = (Ok us, db')" "address_devices a db' = Ok [d]" "ec_left (fst d) db' = ec_texts ks"
    by auto
  then show ?thesis
    by (simp add: pg_store_one_time_ec_pre_keys_def transaction_def executeS_def [of "\<lambda>db. bind (address_devices a db)
        (\<lambda>ds. Ok (db\<lparr>one_time_ec_pre_key_store := t_delete (\<lambda>(i, r). er_owner r \<in> fst ` set ds)
          (one_time_ec_pre_key_store db)\<rparr>))"] d)
qed

text \<open>
  C28 (functional). One-time keys are handed out once: after a device of a reachable database has uploaded
  one-time keys with distinct ids, there is an order of these keys, which depends on the rows that
  the database chooses, such that \<open>n\<close> requests for that device receive the first \<open>n\<close> keys in this
  order, each key once and with the id and bytes that were uploaded, and \<open>None\<close> from then on.
\<close>

theorem one_time_keys_once:
  assumes "pg_reachable ids C db" "known_device db a"
    and "distinct (map upk_key_id ks)" "list_all (\<lambda>k. upk_key_id k < 2 ^ 32) ks"
  shows "\<exists>db1 xs. pg_store_one_time_ec_pre_keys ks a db = (Ok (), db1) \<and> mset xs = mset ks \<and>
    (\<forall>n. \<exists>db2. take_ecs n a db1 = (Ok (map Some (take n xs) @ replicate (n - length ks) None), db2))"
proof -
  obtain d where d: "address_devices a db = Ok [d]" using assms(2) by (auto simp: known_device_def)
  obtain db1 where db1: "pg_store_one_time_ec_pre_keys ks a db = (Ok (), db1)" "address_devices a db1 = Ok [d]"
      "ec_left (fst d) db1 = ec_texts ks"
    using store_ec_step [OF d assms(3)] by blast
  have "pg_inv ids db1"
    using pg_store_one_time_ec_keeps [OF pg_reachable_inv [OF assms(1)] assms(4), of a] db1(1) by simp
  from take_ecs_left [OF this db1(2) _ assms(4)] db1(1,3) show ?thesis by auto
qed

definition alice :: protocol_address where
  "alice = \<lparr>addr_name = service_id_string std_ids (Aci 1), addr_device_id = 1\<rparr>"

lemma stored_example_eq:
  "stored_example = with_account std_ids example_account (hd (devices example_account)) empty_pg"
proof -
  have "account_conflict (account_row_of std_ids example_account) (map snd (trows (accounts empty_pg))) = None"
    by (simp add: account_conflict_def)
  moreover have "devices example_account = hd (devices example_account) # tl (devices example_account)"
    by (simp add: example_account_def)
  ultimately show ?thesis
    using std_ids.add_account_step [OF pg_inv_empty _ example_account_typed(2)] unfolding stored_example_def by simp
qed

lemma pg_inv_stored_example: "pg_inv std_ids stored_example"
  by (rule pg_reachable_inv [OF stored_example_reachable])

lemma stored_example_alice: "known_device stored_example alice"
proof -
  have "account_rows (addr_name alice) stored_example = [(1, account_row_of std_ids example_account)]"
    by (simp add: stored_example_eq with_account_def account_rows_def t_select_def empty_pg_tables empty_table_def
        t_insert_def account_row_of_def alice_def example_account_def)
  then show ?thesis
    by (simp add: known_device_def address_devices_def owner_id_def stored_example_eq with_account_def t_select_def
        empty_pg_tables empty_table_def t_insert_def device_row_of_def alice_def example_account_def)
qed

theorem one_time_keys_once_witness:
  "let ks = [\<lparr>upk_key_id = 5, upk_public_key = [1]\<rparr>, \<lparr>upk_key_id = 6, upk_public_key = [2]\<rparr>] in
    \<exists>db1 db2 xs. pg_store_one_time_ec_pre_keys ks alice stored_example = (Ok (), db1) \<and> mset xs = mset ks \<and>
    take_ecs 3 alice db1 = (Ok (map Some xs @ [None]), db2)"
proof -
  let ?ks = "[\<lparr>upk_key_id = 5, upk_public_key = [1]\<rparr>, \<lparr>upk_key_id = 6, upk_public_key = [2]\<rparr>] :: upload_pre_key list"
  have "distinct (map upk_key_id ?ks)" "list_all (\<lambda>k. upk_key_id k < 2 ^ 32) ?ks" by simp_all
  from one_time_keys_once [OF stored_example_reachable stored_example_alice this] obtain db1 xs where
    r: "pg_store_one_time_ec_pre_keys ?ks alice stored_example = (Ok (), db1)" "mset xs = mset ?ks"
      "\<And>n. \<exists>db2. take_ecs n alice db1 = (Ok (map Some (take n xs) @ replicate (n - length ?ks) None), db2)" by blast
  have "length xs = 2" using mset_eq_length [OF r(2)] by simp
  with r(3) [of 3] have "\<exists>db2. take_ecs 3 alice db1 = (Ok (map Some xs @ [None]), db2)" by (simp add: eval_nat_numeral)
  with r(1,2) show ?thesis unfolding Let_def by blast
qed

section \<open>Key bundles\<close>

lemma address_devices_stores [simp]:
  "address_devices a (db\<lparr>aci_signed_pre_key_store := t\<rparr>) = address_devices a db"
  "address_devices a (db\<lparr>pni_signed_pre_key_store := t\<rparr>) = address_devices a db"
  "address_devices a (db\<lparr>aci_pq_last_resort_pre_key_store := t\<rparr>) = address_devices a db"
  "address_devices a (db\<lparr>pni_pq_last_resort_pre_key_store := t\<rparr>) = address_devices a db"
  "address_devices a (db\<lparr>device_keys := u\<rparr>) = address_devices a db"
  by (simp_all add: address_devices_def owner_id_def account_rows_def)

definition key_row_of :: "nat \<Rightarrow> upload_signed_pre_key \<Rightarrow> key_row" where
  "key_row_of ow k = \<lparr>kr_owner = ow, kr_key_id = show_nat (usk_key_id k), kr_public_key = usk_public_key k,
     kr_signature = usk_signature k\<rparr>"

definition has_key :: "nat \<Rightarrow> nat \<Rightarrow> key_row table \<Rightarrow> bool" where
  "has_key ow i t \<longleftrightarrow> (\<exists>r \<in> tvals t. kr_owner r = ow \<and> kr_key_id r = show_nat i)"

lemma upsert_key_new: "\<not> has_key ow (usk_key_id k) t \<Longrightarrow> upsert_key k ow t = t_insert (key_row_of ow k) t"
  by (auto simp: upsert_key_def key_row_of_def has_key_def t_select_def filter_empty_conv Let_def)

lemma read_key_row_of: "usk_key_id k < 2 ^ 32 \<Longrightarrow> read_key (key_row_of ow k) = Ok k"
  by (simp add: read_key_def key_row_of_def parse_u32_show_nat unwrap_def del: power_numeral)

lemma key_by_id_insert:
  "table_ok t \<Longrightarrow> key_by_id i (t_insert r t) = (if i = tseq t then [r] else key_by_id i t)"
  by (auto simp: key_by_id_def t_select_def table_ok_def filter_empty_conv)

lemma key_by_id_new: "table_ok t \<Longrightarrow> key_by_id (tseq t) (t_insert r t) = [r]"
  by (simp add: key_by_id_insert)

lemma keys_of_insert:
  "keys_of ow (t_insert r t) = keys_of ow t @ (if kr_owner r = ow then [tseq t] else [])"
  by (simp add: keys_of_def t_select_def)

lemma no_keys_no_key: "keys_of ow t = [] \<Longrightarrow> \<not> has_key ow i t"
  by (auto simp: keys_of_def has_key_def t_select_def filter_empty_conv)

text \<open>The device has not stored signed keys.\<close>

definition keyless :: "nat \<Rightarrow> pg \<Rightarrow> bool" where
  "keyless d db \<longleftrightarrow> keys_of d (aci_signed_pre_key_store db) = [] \<and> keys_of d (pni_signed_pre_key_store db) = [] \<and>
     keys_of d (aci_pq_last_resort_pre_key_store db) = [] \<and> keys_of d (pni_pq_last_resort_pre_key_store db) = []"

definition with_bundle :: "device_pre_key_bundle \<Rightarrow> nat \<Rightarrow> pg \<Rightarrow> pg" where
  "with_bundle b d db = db\<lparr>
     aci_signed_pre_key_store := t_insert (key_row_of d (aci_signed_pre_key b)) (aci_signed_pre_key_store db),
     pni_signed_pre_key_store := t_insert (key_row_of d (pni_signed_pre_key b)) (pni_signed_pre_key_store db),
     aci_pq_last_resort_pre_key_store := t_insert (key_row_of d (aci_pq_pre_key b)) (aci_pq_last_resort_pre_key_store db),
     pni_pq_last_resort_pre_key_store := t_insert (key_row_of d (pni_pq_pre_key b)) (pni_pq_last_resort_pre_key_store db),
     device_keys := t_insert \<lparr>dk_owner = d, dk_aci = tseq (aci_signed_pre_key_store db),
       dk_pni = tseq (pni_signed_pre_key_store db), dk_aci_pq = tseq (aci_pq_last_resort_pre_key_store db),
       dk_pni_pq = tseq (pni_pq_last_resort_pre_key_store db)\<rparr> (device_keys db)\<rparr>"

lemmas store_one_defs = store_aci_signed_pre_key_def store_pni_signed_pre_key_def store_pq_aci_signed_pre_key_def
  store_pq_pni_signed_pre_key_def

lemma store_key_bundle_step:
  assumes d: "address_devices a db = Ok [d]" and "keyless (fst d) db"
  shows "pg_store_key_bundle b a db = (Ok (), with_bundle b (fst d) db)"
proof -
  have none: "\<not> has_key (fst d) i (aci_signed_pre_key_store db)" "\<not> has_key (fst d) i (pni_signed_pre_key_store db)"
    "\<not> has_key (fst d) i (aci_pq_last_resort_pre_key_store db)"
    "\<not> has_key (fst d) i (pni_pq_last_resort_pre_key_store db)" for i
    using assms(2) by (simp_all add: keyless_def no_keys_no_key)
  show ?thesis
    using assms(2) by (simp add: pg_store_key_bundle_def transaction_def store_one_defs executeS_def d none upsert_key_new
        joined_keys_def keys_of_insert keyless_def with_bundle_def key_row_of_def)
qed

lemma keyless_no_bundle:
  assumes "pg_inv ids db" "keyless d db" "(i, dk) \<in> set (trows (device_keys db))"
  shows "dk_owner dk \<noteq> d"
proof
  assume own: "dk_owner dk = d"
  have "refers (aci_signed_pre_key_store db) (dk_owner dk) (dk_aci dk)"
    using assms(1,3) by (auto simp: pg_inv_def device_keys_ok_def dest: rows_allD)
  with own assms(2) show False
    by (auto simp: refers_def keyless_def keys_of_def t_select_def filter_empty_conv)
qed

lemma get_key_bundle_stored:
  assumes inv: "pg_inv ids db" and d: "address_devices a db = Ok [d]" and "keyless (fst d) db" and "bundle_typed b"
  shows "fst (pg_get_key_bundle a (with_bundle b (fst d) db)) = Ok b"
proof -
  have tables: "table_ok (aci_signed_pre_key_store db)" "table_ok (pni_signed_pre_key_store db)"
    "table_ok (aci_pq_last_resort_pre_key_store db)" "table_ok (pni_pq_last_resort_pre_key_store db)"
    using inv by (simp_all add: pg_inv_def keys_ok_def)
  have "filter (\<lambda>(i, dk). dk_owner dk = fst d) (trows (device_keys db)) = []"
    using keyless_no_bundle [OF inv assms(3)] by (fastforce simp: filter_empty_conv)
  then have rows: "bundle_rows a (with_bundle b (fst d) db) = Ok [(key_row_of (fst d) (aci_signed_pre_key b),
      key_row_of (fst d) (pni_signed_pre_key b), key_row_of (fst d) (aci_pq_pre_key b),
      key_row_of (fst d) (pni_pq_pre_key b))]"
    by (simp add: bundle_rows_def with_bundle_def d t_select_def key_by_id_new tables)
  show ?thesis
    using assms(4) by (simp add: pg_get_key_bundle_def queryS_def rows fetch_one_def read_key_row_of bundle_typed_def
        del: power_numeral)
qed

text \<open>
  The first bundle of signed keys that a device of a reachable database stores is
  the bundle that \<open>get_key_bundle\<close> returns for it.
\<close>

theorem key_bundle_round_trip:
  assumes "pg_reachable ids C db" "address_devices a db = Ok [d]" "keyless (fst d) db" "bundle_typed b"
  shows "\<exists>db'. pg_store_key_bundle b a db = (Ok (), db') \<and> fst (pg_get_key_bundle a db') = Ok b"
  using store_key_bundle_step [OF assms(2,3)]
    get_key_bundle_stored [OF pg_reachable_inv [OF assms(1)] assms(2-4)] by blast

definition bundle_example :: device_pre_key_bundle where
  "bundle_example = \<lparr>aci_signed_pre_key = \<lparr>usk_key_id = 1, usk_public_key = [1], usk_signature = [11]\<rparr>,
     pni_signed_pre_key = \<lparr>usk_key_id = 2, usk_public_key = [2], usk_signature = [12]\<rparr>,
     aci_pq_pre_key = \<lparr>usk_key_id = 3, usk_public_key = [3], usk_signature = [13]\<rparr>,
     pni_pq_pre_key = \<lparr>usk_key_id = 4, usk_public_key = [4], usk_signature = [14]\<rparr>\<rparr>"

lemma stored_example_keyless: "keyless d stored_example"
  by (simp add: stored_example_eq keyless_def keys_of_def t_select_def with_account_def empty_pg_tables)

theorem key_bundle_round_trip_witness:
  "\<exists>db'. pg_store_key_bundle bundle_example alice stored_example = (Ok (), db') \<and>
    fst (pg_get_key_bundle alice db') = Ok bundle_example"
proof -
  obtain d where "address_devices alice stored_example = Ok [d]"
    using stored_example_alice by (auto simp: known_device_def)
  then show ?thesis
    using key_bundle_round_trip [OF stored_example_reachable _ stored_example_keyless, where a = alice and d = d and b = bundle_example]
    by (simp add: bundle_example_def bundle_typed_def)
qed

text \<open>A key under a new id does not touch the keys that \<open>device_keys\<close> refers to.\<close>

lemma refers_old: "\<lbrakk> refers t ow i; table_ok t \<rbrakk> \<Longrightarrow> i \<noteq> tseq t"
  by (auto simp: refers_def table_ok_def)

lemma bundle_rows_new_key:
  assumes "pg_inv ids db"
  shows "bundle_rows a' (db\<lparr>aci_signed_pre_key_store := t_insert r (aci_signed_pre_key_store db)\<rparr>) = bundle_rows a' db"
proof -
  have table: "table_ok (aci_signed_pre_key_store db)" using assms by (simp add: pg_inv_def keys_ok_def)
  have "key_by_id (dk_aci dk) (t_insert r (aci_signed_pre_key_store db)) = key_by_id (dk_aci dk) (aci_signed_pre_key_store db)"
    if "(i, dk) \<in> set (trows (device_keys db))" for i dk
  proof -
    have "refers (aci_signed_pre_key_store db) (dk_owner dk) (dk_aci dk)"
      using assms that by (auto simp: pg_inv_def device_keys_ok_def dest: rows_allD)
    then show ?thesis using table by (simp add: key_by_id_insert refers_old)
  qed
  then show ?thesis
    unfolding bundle_rows_def by (auto intro!: bind_cong arg_cong [where f = concat] map_cong simp: t_select_def)
qed

text \<open>
  C39 (safety). A signed prekey for its ACI that a device uploads under an id it has not used before is
  stored, the call succeeds, but the key is not served: in every reachable database \<open>get_key_bundle\<close> returns, for every
  address, what it returned before, as the row of the device that names its current keys is left alone.
\<close>

theorem new_signed_key_not_served:
  assumes "pg_reachable ids C db" "address_devices a db = Ok [d]"
    and "\<not> has_key (fst d) (usk_key_id k) (aci_signed_pre_key_store db)"
  shows "\<exists>db'. store_aci_signed_pre_key k a db = (Ok (), db') \<and>
    has_key (fst d) (usk_key_id k) (aci_signed_pre_key_store db') \<and>
    fst (pg_get_key_bundle a' db') = fst (pg_get_key_bundle a' db)"
proof -
  let ?db = "db\<lparr>aci_signed_pre_key_store := t_insert (key_row_of (fst d) k) (aci_signed_pre_key_store db)\<rparr>"
  have "store_aci_signed_pre_key k a db = (Ok (), ?db)"
    by (simp add: store_aci_signed_pre_key_def executeS_def assms(2) upsert_key_new assms(3))
  moreover have "has_key (fst d) (usk_key_id k) (aci_signed_pre_key_store ?db)"
    by (auto simp: has_key_def key_row_of_def)
  moreover have "fst (pg_get_key_bundle a' ?db) = fst (pg_get_key_bundle a' db)"
    using bundle_rows_new_key [OF pg_reachable_inv [OF assms(1)]] by (simp add: pg_get_key_bundle_def queryS_def)
  ultimately show ?thesis by blast
qed

theorem new_signed_key_not_served_witness:
  "\<exists>db db'. fst (pg_get_key_bundle alice db) = Ok bundle_example \<and>
    store_aci_signed_pre_key \<lparr>usk_key_id = 9, usk_public_key = [9], usk_signature = [19]\<rparr> alice db = (Ok (), db') \<and>
    fst (pg_get_key_bundle alice db') = Ok bundle_example"
proof -
  obtain d where d: "address_devices alice stored_example = Ok [d]"
    using stored_example_alice by (auto simp: known_device_def)
  let ?db = "with_bundle bundle_example (fst d) stored_example"
  have store: "pg_store_key_bundle bundle_example alice stored_example = (Ok (), ?db)"
    by (rule store_key_bundle_step [OF d stored_example_keyless])
  have typed: "bundle_typed bundle_example" by (simp add: bundle_example_def bundle_typed_def)
  have reach: "pg_reachable std_ids C ?db" for C
    using pg_reachable.store_bundle [OF stored_example_reachable typed, where addr = alice and C = C] store by simp
  have "fst (pg_get_key_bundle alice ?db) = Ok bundle_example"
    using get_key_bundle_stored [OF pg_inv_stored_example d stored_example_keyless typed] .
  moreover have "address_devices alice ?db = Ok [d]" using d by (simp add: with_bundle_def)
  moreover have "\<not> has_key (fst d) 9 (aci_signed_pre_key_store ?db)"
    by (auto simp: has_key_def stored_example_eq with_bundle_def with_account_def empty_pg_tables key_row_of_def
        bundle_example_def dest!: show_nat_inj)
  ultimately show ?thesis
    using new_signed_key_not_served [OF reach, where a = alice and d = d and a' = alice and k = "\<lparr>usk_key_id = 9, usk_public_key = [9], usk_signature = [19]\<rparr>"]
    by auto
qed

text \<open>The stored account as it is read back.\<close>

definition bob_account :: account where
  "bob_account = example_account\<lparr>devices := [reloaded (hd (devices example_account))]\<rparr>"

lemma get_stored_example: "pg_get_account std_ids (Aci 1) stored_example = (Ok bob_account, stored_example)"
proof -
  let ?d = "hd (devices example_account)"
  have conflict: "account_conflict (account_row_of std_ids example_account) (map snd (trows (accounts empty_pg))) = None"
    by (simp add: account_conflict_def)
  have inv: "pg_inv std_ids empty_pg" by (rule pg_inv_empty)
  obtain ds where ds: "devices example_account = ?d # ds" by (simp add: example_account_def)
  have typed: "list_all device_typed (devices example_account)" "device_typed ?d"
    using example_account_typed(1) by (simp_all add: example_account_def)
  have add: "pg_add_account std_ids example_account empty_pg = (Ok (), stored_example)"
    unfolding stored_example_eq by (rule std_ids.add_account_step [OF inv conflict example_account_typed(2) ds])
  have "pg_inv std_ids stored_example" using pg_add_account_keeps [OF inv typed(1) example_account_typed(2)] by (simp add: add)
  then show ?thesis
    unfolding stored_example_eq bob_account_def
    by (intro std_ids.get_new_account [OF inv _ conflict example_account_typed(2) typed(2)]) (simp_all add: example_account_def)
qed

end
