(* ===== verification/Denim_Server.thy ===== *)
theory Denim_Server
  imports Denim_Queues
begin

text \<open>
  The properties of \<open>DenIMManager\<close>: the shape of the messages it creates, the chunk buffers as
  lists, and the round trip of a chunk buffer through Redis.
\<close>

section \<open>Messages to a client\<close>

lemma create_denim_message_spec:
  fixes sr :: "regular_payload \<Rightarrow> bytes" and env :: envelope and ck :: chunker
  assumes R: "redis_server R view" and b: "base64_laws b64"
    and rep: "payload_rep b64 a Receiver (view (store s)) c rows" "rows_ok rows"
  defines "tot \<equiv> total_free_space ck (usize_as_f32 (length (sr (RegularEnvelope env))))"
  assumes tot: "8 \<le> tot" and fl: "fill (\<lambda>c. c - 1) (tot - 8) rows = (cs, f, rows')"
  shows "\<exists>s' c'. create_denim_message R b64 sr ck a env s =
      (Ok \<lparr>dm_regular_payload = RegularEnvelope env, dm_chunks = cs, dm_counter = None,
        dm_q = Some (q_value ck), dm_ballast = replicate f 0\<rparr>, s') \<and>
    payload_rep b64 a Receiver (view (store s')) c' rows'"
proof -
  from base64_laws.dequeue_payload_loop_refines [OF b fl rep, of "[]"] obtain K' c' where
    K': "dequeue_payload_data keyspace_redis b64 a Receiver (tot - 8) (map_store view s) =
        (Ok (map (\<lambda>c. (chunk c, flags c)) cs, f), (map_store view s)\<lparr>store := K'\<rparr>)"
      "payload_rep b64 a Receiver K' c' rows'"
    by (auto simp: dequeue_payload_data_def on_store_def)
  have "map (\<lambda>(d, f). \<lparr>chunk = d, flags = f\<rparr>) (map (\<lambda>c. (chunk c, flags c)) cs) = cs"
    by (simp add: o_def denim_chunk.equality map_idI)
  with K'(1) tot
  have "create_denim_message keyspace_redis b64 sr ck a env (map_store view s) =
      (Ok \<lparr>dm_regular_payload = RegularEnvelope env, dm_chunks = cs, dm_counter = None,
        dm_q = Some (q_value ck), dm_ballast = replicate f 0\<rparr>, (map_store view s)\<lparr>store := K'\<rparr>)"
    by (simp add: create_denim_message_def dequeue_outgoing_payload_buffer_def get_free_space_in_bytes_def
        usize_sub_def tot_def Let_def)
  from sim_storeD [OF redis_server.sim_create_denim_message [OF R] this] K'(2) show ?thesis by auto
qed

text \<open>
  C4 (safety). What a client receives beside the regular message does not depend on what is queued
  for it: whatever deniable payloads wait in its queue, the message carries the regular payload
  unchanged, and the serialised chunks and the ballast together have exactly the size that the
  length of the regular payload and the ratio \<open>q\<close> determine, with less than twelve bytes of
  ballast. The chunks are those the specification \<open>fill\<close> takes from the queue.
\<close>

theorem create_denim_message_constant_size:
  assumes "redis_server R view" and "base64_laws b64" and "chunk_codec ser"
    and "payload_rep b64 a Receiver (view (store s)) c rows" and "rows_ok rows"
    and "8 \<le> total_free_space ck (usize_as_f32 (length (sr (RegularEnvelope env))))"
  shows "\<exists>msg s' c' rows'. create_denim_message R b64 sr ck a env s = (Ok msg, s') \<and>
    dm_regular_payload msg = RegularEnvelope env \<and>
    length (ser (dm_chunks msg)) + length (dm_ballast msg) =
      total_free_space ck (usize_as_f32 (length (sr (RegularEnvelope env)))) \<and>
    length (dm_ballast msg) < 12 \<and>
    fill (\<lambda>c. c - 1) (total_free_space ck (usize_as_f32 (length (sr (RegularEnvelope env)))) - 8) rows =
      (dm_chunks msg, length (dm_ballast msg), rows') \<and>
    payload_rep b64 a Receiver (view (store s')) c' rows'"
proof -
  let ?T = "total_free_space ck (usize_as_f32 (length (sr (RegularEnvelope env))))"
  obtain cs f rows' where fl: "fill (\<lambda>c. c - 1) (?T - 8) rows = (cs, f, rows')"
    by (cases "fill (\<lambda>c. c - 1) (?T - 8) rows") auto
  have "length (ser cs) + f = ?T" "f < 12"
    using fill_size [OF fl] assms(6) by (simp_all add: chunk_codec.ser_len [OF assms(3)])
  moreover define msg where "msg = \<lparr>dm_regular_payload = RegularEnvelope env, dm_chunks = cs,
    dm_counter = None, dm_q = Some (q_value ck), dm_ballast = replicate f 0\<rparr>"
  have "dm_regular_payload msg = RegularEnvelope env" "dm_chunks msg = cs" "length (dm_ballast msg) = f"
    by (simp_all add: msg_def)
  moreover from create_denim_message_spec [where sr = sr and env = env, OF assms(1,2,4,5,6) fl, folded msg_def]
  obtain s' c' where "create_denim_message R b64 sr ck a env s = (Ok msg, s')"
    "payload_rep b64 a Receiver (view (store s')) c' rows'" by blast
  ultimately show ?thesis using fl by blast
qed

text \<open>An envelope with no field set, and a serialisation of 40 bytes for every regular payload.\<close>

definition blank_envelope :: envelope where
  "blank_envelope = \<lparr>env_type = None, source_service_id = None, source_device = None, env_timestamp = None,
     env_content = None, server_guid = None, server_timestamp = None, ephemeral = None,
     env_destination_service_id = None, urgent = None, updated_pni = None, story = None, reporting_token = None\<rparr>"

definition alice_1 :: protocol_address where
  "alice_1 = \<lparr>addr_name = ''alice'', addr_device_id = 1\<rparr>"

theorem create_denim_message_constant_size_witness:
  "\<exists>(s :: (keyspace, unit) caches) msg s'.
    payload_rep BASE64_STANDARD alice_1 Receiver (store s) 1 [(replicate 50 1, 0)] \<and>
    create_denim_message keyspace_redis BASE64_STANDARD (\<lambda>_. replicate 40 0) (Chunker_new (F32 1)) alice_1
      blank_envelope s = (Ok msg, s') \<and>
    dm_chunks msg = [\<lparr>chunk = replicate 20 1, flags = 0\<rparr>] \<and>
    length (bincode_chunks (dm_chunks msg)) + length (dm_ballast msg) = 40"
proof -
  let ?sr = "\<lambda>_ :: regular_payload. replicate 40 (0 :: byte)"
  have tot: "total_free_space (Chunker_new (F32 1)) (usize_as_f32 40) = 40" by (rule total_ratio_1) simp
  obtain s :: "(keyspace, unit) caches" where
    s: "payload_rep BASE64_STANDARD alice_1 Receiver (store s) 1 [(replicate 50 1, 0)]"
    using rfc4648.payload_rep_single by blast
  have "fill (\<lambda>c. c - 1) 32 [(replicate 50 1, 0)] =
      ([\<lparr>chunk = replicate 20 1, flags = 0\<rparr>], 0, [(replicate 30 1, - 1)])"
    by (simp add: fill_cut)
  with create_denim_message_constant_size [OF keyspace.redis_server_axioms rfc4648.base64_laws_axioms
      bincode.chunk_codec_axioms s, of "Chunker_new (F32 1)" ?sr blank_envelope] s
  show ?thesis by (fastforce simp: tot)
qed

text \<open>
  C9 (error). A regular payload that is too small panics: when \<open>ceil (size * q)\<close> is below the eight
  bytes of an empty vector, the unsigned subtraction in \<open>get_free_space_in_bytes\<close> underflows, and
  nothing is taken from the queue.
\<close>

theorem create_denim_message_underflow:
  assumes "total_free_space ck (usize_as_f32 (length (sr (RegularEnvelope env)))) < 8"
  shows "create_denim_message R b64 sr ck a env s = (Panic, s)"
  using assms by (simp add: create_denim_message_def get_free_space_in_bytes_def usize_sub_def Let_def)

theorem create_denim_message_underflow_witness:
  "create_denim_message keyspace_redis BASE64_STANDARD (\<lambda>_. replicate 10 0) Chunker_default alice_1
     blank_envelope (init_caches :: (keyspace, unit) caches) = (Panic, init_caches)"
proof -
  have c: "\<lceil>of_nat 10 * (10066330 / 2 ^ 24) :: rat\<rceil> = 7" by (simp add: ceiling_eq_iff)
  have "int (total_free_space Chunker_default (usize_as_f32 10)) \<le> 7"
    using total_free_space_between(2) [of 10 Chunker_default "10066330 / 2 ^ 24", OF _ Chunker_default_q]
    unfolding c by simp
  then show ?thesis by (intro create_denim_message_underflow) simp
qed

section \<open>Chunks from a client\<close>

text \<open>
  The chunks of a message are appended to the sender's buffer, in order, and
  nothing that was queued is touched.
\<close>

theorem enqueue_incoming_chunk_buffer_appends:
  assumes "redis_server R view" and "base64_laws b64"
    and "chunk_rep b64 C a Sender (view (store s)) c xs"
    and "inj new_v4" and "\<forall>k. new_v4 k \<noteq> ''counter''" and "fst ` set xs \<inter> range new_v4 = {}"
    and "length cs * (c + length cs) < 2 ^ 63"
  shows "\<exists>n s' ys. enqueue_incoming_chunk_buffer R b64 C now new_v4 a cs s = (Ok n, s') \<and>
    chunk_rep b64 C a Sender (view (store s')) (c + length cs) (xs @ ys) \<and> map snd ys = cs"
proof -
  have rep: "chunk_rep b64 C a Sender (store (map_store view s)) c xs" using assms(3) by simp
  have fresh: "fst ` set xs \<inter> new_v4 ` {0..} = {}" using assms(6) by auto
  from base64_laws.enqueue_chunk_buffer_rep [OF assms(2) rep assms(4) _ fresh, of 0 cs now] assms(5,7)
  obtain n t ys where
    t: "enqueue_chunk_buffer keyspace_redis b64 C now new_v4 Sender a 0 0 cs (map_store view s) = (Ok n, t)"
      "chunk_rep b64 C a Sender (store t) (c + length cs) (xs @ ys)" "map snd ys = cs"
    by (auto simp del: power_numeral)
  from sim_storeD [OF redis_server.sim_enqueue_chunk_buffer [OF assms(1)] t(1)] t(2,3) show ?thesis
    by (auto simp: enqueue_incoming_chunk_buffer_def)
qed

text \<open>
  C7 (functional). Flushing a client's buffer takes out its first hundred chunks, returns the
  payloads that \<open>create_deniable_payloads\<close> makes of them, and puts the chunks it leaves pending
  behind the chunks that were not taken out. With at most hundred chunks queued the buffer
  afterwards holds exactly the pending ones.
\<close>

theorem flush_incoming_chunk_buffer_page:
  assumes "redis_server R view" and "base64_laws b64"
    and "chunk_rep b64 C a Sender (view (store s)) c xs" and "c < 2 ^ 56"
    and "\<forall>x \<in> snd ` set xs. codec_ok C x"
    and "inj new_v4" and "\<forall>k. new_v4 k \<noteq> ''counter''" and "fst ` set xs \<inter> range new_v4 = {}"
    and "create_deniable_payloads de (map snd (take PAGE_SIZE xs)) = Ok (ps, pend)"
  shows "\<exists>s' c' ys. flush_incoming_chunk_buffer R b64 C de now new_v4 a s = (Ok ps, s') \<and>
    chunk_rep b64 C a Sender (view (store s')) c' ys \<and>
    map snd ys = map snd (drop PAGE_SIZE xs) @ pend"
proof -
  have rep: "chunk_rep b64 C a Sender (store (map_store view s)) c xs" using assms(3) by simp
  from base64_laws.flush_chunk_buffer_rep [OF assms(2) rep _ assms(6) _ assms(8,4,9)] assms(5,7)
  obtain t c' ys where
    t: "flush_chunk_buffer keyspace_redis b64 C de now new_v4 Sender a (map_store view s) = (Ok ps, t)"
      "chunk_rep b64 C a Sender (store t) c' ys" "map snd ys = map snd (drop PAGE_SIZE xs) @ pend" by blast
  from sim_storeD [OF redis_server.sim_flush_chunk_buffer [OF assms(1)] t(1)] obtain s' where
    "flush_chunk_buffer R b64 C de now new_v4 Sender a s = (Ok ps, s')" "view (store s') = store t" by blast
  with t(2,3) show ?thesis unfolding flush_incoming_chunk_buffer_def by metis
qed

text \<open>The bincode codec of chunks, and guids with a given first letter.\<close>

definition bincode_codec :: "denim_chunk codec" where
  "bincode_codec = \<lparr>serialize = bincode_chunk, deserialize = bincode_read_chunk\<rparr>"

definition guid_from :: "char \<Rightarrow> nat \<Rightarrow> string" where
  "guid_from ch k = ch # show_nat k"

lemma guid_from_inj: "inj (guid_from ch)"
  by (auto simp: inj_def guid_from_def dest: show_nat_inj)

lemma guid_from_not_counter: "guid_from ch k \<noteq> ''counter''"
proof
  assume "guid_from ch k = ''counter''"
  then have "show_nat k = ''ounter''" by (simp add: guid_from_def)
  with show_nat_chars [of "CHR ''o''" k] show False by simp
qed

lemma guid_ranges_disjoint: "c \<noteq> d \<Longrightarrow> range (guid_from c) \<inter> range (guid_from d) = {}"
  by (auto simp: guid_from_def)

lemma chunk_rep_exists:
  assumes "length cs * length cs < 2 ^ 63"
  shows "\<exists>(s :: (keyspace, 'l) caches) xs.
    chunk_rep BASE64_STANDARD C a b (store s) (length cs) xs \<and> map snd xs = cs \<and>
    fst ` set xs \<subseteq> range (guid_from CHR ''g'')"
proof -
  have "chunk_rep BASE64_STANDARD C a b (store (init_caches :: (keyspace, 'l) caches)) 0 []"
    by (simp add: chunk_rep_empty)
  from rfc4648.enqueue_chunk_buffer_rep [OF this guid_from_inj [of "CHR ''g''"] guid_from_not_counter, of 0 0 cs 0]
  show ?thesis using assms by (auto simp del: power_numeral)
qed

theorem enqueue_incoming_chunk_buffer_appends_witness:
  "\<exists>n s' ys. enqueue_incoming_chunk_buffer keyspace_redis BASE64_STANDARD bincode_codec 0 (guid_from CHR ''g'') alice_1
      [\<lparr>chunk = [1], flags = 0\<rparr>, \<lparr>chunk = [2], flags = 2\<rparr>] (init_caches :: (keyspace, unit) caches) = (Ok n, s') \<and>
    chunk_rep BASE64_STANDARD bincode_codec alice_1 Sender (store s') 2 ys \<and>
    map snd ys = [\<lparr>chunk = [1], flags = 0\<rparr>, \<lparr>chunk = [2], flags = 2\<rparr>]"
proof -
  let ?cs = "[\<lparr>chunk = [1], flags = 0\<rparr>, \<lparr>chunk = [2], flags = 2\<rparr>] :: denim_chunk list"
  have two: "0 + length ?cs = 2" by simp
  show ?thesis
    using enqueue_incoming_chunk_buffer_appends [OF keyspace.redis_server_axioms rfc4648.base64_laws_axioms,
        of bincode_codec alice_1 "init_caches :: (keyspace, unit) caches" 0 "[]" "guid_from CHR ''g''" ?cs 0]
    unfolding two by (simp add: chunk_rep_empty guid_from_inj guid_from_not_counter)
qed

theorem flush_incoming_chunk_buffer_page_witness:
  "\<exists>(s :: (keyspace, unit) caches) s' c' ys.
    flush_incoming_chunk_buffer keyspace_redis BASE64_STANDARD bincode_codec Ok 0 (guid_from CHR ''h'') alice_1 s =
      (Ok [[1, 2]], s') \<and>
    chunk_rep BASE64_STANDARD bincode_codec alice_1 Sender (store s') c' ys \<and>
    map snd ys = [\<lparr>chunk = [3], flags = 0\<rparr>]"
proof -
  let ?cs = "[\<lparr>chunk = [1], flags = 0\<rparr>, \<lparr>chunk = [2], flags = 2\<rparr>, \<lparr>chunk = [3], flags = 0\<rparr>] :: denim_chunk list"
  obtain s :: "(keyspace, unit) caches" and xs where
    s: "chunk_rep BASE64_STANDARD bincode_codec alice_1 Sender (store s) (length ?cs) xs" "map snd xs = ?cs"
      "fst ` set xs \<subseteq> range (guid_from CHR ''g'')" using chunk_rep_exists [where 'l = unit, of ?cs bincode_codec alice_1 Sender] by auto
  have len: "length xs = 3" using arg_cong [OF s(2), of length] by simp
  have codec: "\<forall>x \<in> snd ` set xs. codec_ok bincode_codec x"
  proof -
    have "snd ` set xs = set ?cs" using s(2) by (metis list.set_map)
    then show ?thesis
      by (simp add: codec_ok_def bincode_codec_def bincode_read_write chunk_encodable_def in_i32_def)
  qed
  have fresh: "fst ` set xs \<inter> range (guid_from CHR ''h'') = {}"
    using s(3) guid_ranges_disjoint [of "CHR ''g''" "CHR ''h''"] by auto
  have pay: "create_deniable_payloads Ok (map snd (take PAGE_SIZE xs)) = Ok ([[1, 2]], [\<lparr>chunk = [3], flags = 0\<rparr>])"
    using len s(2) by (simp add: PAGE_SIZE_def create_deniable_payloads_def chunk_type_from_i32_def sort_chunks_def)
  from flush_incoming_chunk_buffer_page [OF keyspace.redis_server_axioms rfc4648.base64_laws_axioms s(1) _ codec
      guid_from_inj _ fresh pay, of 0] guid_from_not_counter len
  show ?thesis by (fastforce simp: PAGE_SIZE_def)
qed

end
