(* ===== verification/Persistence.thy ===== *)
theory Persistence
  imports Messages_Manager Postgres_Keys Denim_Server
begin

text \<open>
  What moving messages from the cache to the database achieves. The lemmas are proved in the locale
  \<open>messaging\<close>, which puts a database that keeps message queues together with a Redis server, and
  hold for the Postgres model through its interpretation.
\<close>

section \<open>A database and a cache\<close>

locale messaging = message_store D inv known storable msgs + redis_server R view + base64_laws b64
  for D :: "'d signal_database" and inv known storable msgs
    and R :: "'r redis" and view :: "'r \<Rightarrow> keyspace" and b64 :: base64 +
  fixes C :: "envelope codec"
begin

text \<open>The cached messages of an address, ready to be persisted.\<close>

definition cached :: "('d, 'r, 'l) backend \<Rightarrow> protocol_address \<Rightarrow> (string \<times> envelope) list \<Rightarrow> bool" where
  "cached s a xs \<longleftrightarrow> (\<exists>c. message_rep b64 C a (view (store (cache s))) c xs) \<and> stamped C xs \<and>
     list_all storable (map snd xs)"

definition hidden :: "('d, 'r, 'l) backend \<Rightarrow> protocol_address \<Rightarrow> bool" where
  "hidden s a \<longleftrightarrow> queue_lock a (view (store (cache s))) \<noteq> None"

definition ready :: "('d, 'r, 'l) backend \<Rightarrow> protocol_address \<Rightarrow> bool" where
  "ready s a \<longleftrightarrow> inv (database s) \<and> known (database s) a"

lemma cached_drop: "\<lbrakk> stamped C xs; list_all storable (map snd xs) \<rbrakk> \<Longrightarrow> stamped C (drop n xs) \<and> list_all storable (map snd (drop n xs))"
  using set_drop_subset [of n xs] by (auto simp: list_all_iff intro: stamped_sub)

lemma remove_first:
  assumes "cached s a xs"
  shows "\<exists>s'. on_cache (message_remove R b64 C a (map fst (take n xs))) s = (Ok (map snd (take n xs)), s') \<and>
    cached s' a (drop n xs) \<and> hidden s' a = hidden s a \<and> database s' = database s \<and>
    spawned (cache s') = spawned (cache s)"
proof -
  obtain c where rep: "message_rep b64 C a (store (map_store view (cache s))) c xs"
    and xs: "stamped C xs" "list_all storable (map snd xs)" using assms by (auto simp: cached_def)
  from message_remove_rep [OF rep xs(1), of n] obtain t c' where
    t: "message_remove keyspace_redis b64 C a (map fst (take n xs)) (map_store view (cache s)) = (Ok (map snd (take n xs)), t)"
      "message_rep b64 C a (store t) c' (drop n xs)" "queue_lock a (store t) = queue_lock a (view (store (cache s)))"
      "spawned t = spawned (cache s)" by auto
  from simD [OF sim_message_remove t(1)] obtain u where
    "message_remove R b64 C a (map fst (take n xs)) (cache s) = (Ok (map snd (take n xs)), u)" "map_store view u = t"
    by blast
  with t(2-4) cached_drop [OF xs] show ?thesis
    by (intro exI [of _ "s\<lparr>cache := u\<rparr>"]) (auto simp: cached_def hidden_def simp del: not_None_eq)
qed

lemma persist_first:
  assumes "ready s a" "cached s a xs"
  shows "\<exists>s'. persist_messages D R b64 C a (map snd (take n xs)) s = (Ok (length (take n xs)), s') \<and>
    ready s' a \<and> cached s' a (drop n xs) \<and> hidden s' a = hidden s a \<and>
    msgs (database s') a = msgs (database s) a @ map snd (take n xs) \<and> spawned (cache s') = spawned (cache s)"
proof -
  have xs: "stamped C xs" "list_all storable (map snd xs)" using assms(2) by (auto simp: cached_def)
  have "list_all storable (map snd (take n xs))"
    using xs(2) set_take_subset [of n xs] by (auto simp: list_all_iff)
  with assms(1) obtain d where d: "push_message_queue D a (map snd (take n xs)) (database s) = (Ok (), d)"
      "inv d" "known d a" "msgs d a = msgs (database s) a @ map snd (take n xs)"
    using push unfolding ready_def by blast
  have "cached (s\<lparr>database := d\<rparr>) a xs" using assms(2) by (simp add: cached_def)
  from remove_first [OF this, of n] obtain s' where
    s': "on_cache (message_remove R b64 C a (map fst (take n xs))) (s\<lparr>database := d\<rparr>) = (Ok (map snd (take n xs)), s')"
      "cached s' a (drop n xs)" "hidden s' a = hidden s a" "database s' = d" "spawned (cache s') = spawned (cache s)"
    by (auto simp: hidden_def)
  have "map server_guid_of (map snd (take n xs)) = map fst (take n xs)"
    using stamped_guids [OF stamped_sub [OF xs(1) set_take_subset]] by (simp add: server_guid_of_def)
  then have "persist_messages D R b64 C a (map snd (take n xs)) s = (Ok (length (take n xs)), s')"
    using d(1) s'(1) by (simp add: persist_messages_def del: map_map)
  with s'(2-5) d(2-4) show ?thesis by (auto simp: ready_def)
qed

lemma read_first:
  assumes "cached s a xs"
  shows "\<exists>u. on_cache (get_messages_to_persist R b64 C a (int n)) s = (Ok (map snd (take (n + 1) xs)), s\<lparr>cache := u\<rparr>) \<and>
    map_store view u = map_store view (cache s)"
proof -
  obtain c where "message_rep b64 C a (store (map_store view (cache s))) c xs" "stamped C xs"
    using assms by (auto simp: cached_def)
  from simD [OF sim_get_messages_to_persist messages_to_persist_rep [OF this, of n]] show ?thesis by auto
qed

text \<open>The loop moves everything, batch by batch.\<close>

lemma persist_queue_loop_moves:
  assumes "ready s a" "cached s a xs"
  shows "\<exists>s'. persist_queue_loop D R b64 C a s = Some (Ok (), s') \<and> ready s' a \<and> cached s' a [] \<and>
    hidden s' a = hidden s a \<and> msgs (database s') a = msgs (database s) a @ map snd xs \<and>
    spawned (cache s') = spawned (cache s)"
  using assms
proof (induction "length xs" arbitrary: s xs rule: less_induct)
  case less
  obtain s1 where s1: "on_cache (get_messages_to_persist R b64 C a (int MESSAGE_BATCH_LIMIT)) s =
      (Ok (map snd (take (MESSAGE_BATCH_LIMIT + 1) xs)), s1)"
    and same: "database s1 = database s" "map_store view (cache s1) = map_store view (cache s)"
    using read_first [OF less.prems(2), of MESSAGE_BATCH_LIMIT] by fastforce
  have view: "view (store (cache s1)) = view (store (cache s))" "spawned (cache s1) = spawned (cache s)"
    using same(2) by (simp_all add: map_store_def)
  have 1: "ready s1 a" "cached s1 a xs" "hidden s1 a = hidden s a" using less.prems same view
    by (auto simp: ready_def cached_def hidden_def)
  show ?case
  proof (cases "xs = []")
    case True
    with s1 1 same view show ?thesis by (subst persist_queue_loop.simps) auto
  next
    case False
    from persist_first [OF 1(1,2), of "MESSAGE_BATCH_LIMIT + 1"] obtain s2 where
      s2: "persist_messages D R b64 C a (map snd (take (MESSAGE_BATCH_LIMIT + 1) xs)) s1 =
          (Ok (length (take (MESSAGE_BATCH_LIMIT + 1) xs)), s2)" "ready s2 a"
        "cached s2 a (drop (MESSAGE_BATCH_LIMIT + 1) xs)" "hidden s2 a = hidden s1 a"
        "msgs (database s2) a = msgs (database s1) a @ map snd (take (MESSAGE_BATCH_LIMIT + 1) xs)"
        "spawned (cache s2) = spawned (cache s1)"
      by blast
    have "length (drop (MESSAGE_BATCH_LIMIT + 1) xs) < length xs" using False by simp
    from less.hyps [OF this s2(2,3)] obtain s' where
      s': "persist_queue_loop D R b64 C a s2 = Some (Ok (), s')" "ready s' a" "cached s' a []"
        "hidden s' a = hidden s2 a"
        "msgs (database s') a = msgs (database s2) a @ map snd (drop (MESSAGE_BATCH_LIMIT + 1) xs)"
        "spawned (cache s') = spawned (cache s2)" by blast
    have "map snd (take (MESSAGE_BATCH_LIMIT + 1) xs) @ map snd (drop (MESSAGE_BATCH_LIMIT + 1) xs) = map snd xs"
      unfolding map_append [symmetric] by simp
    with s' s2 same 1 view have "msgs (database s') a = msgs (database s) a @ map snd xs" by simp
    moreover have "persist_queue_loop D R b64 C a s = Some (Ok (), s')"
      using s1 s2(1) s'(1) False by (subst persist_queue_loop.simps) (simp add: MESSAGE_BATCH_LIMIT_def)
    ultimately show ?thesis using s' s2 1 view by auto
  qed
qed

lemma persist_queue_moves:
  assumes "ready s a" "cached s a xs" "a = \<lparr>addr_name = service_id_string ids (Aci (aci acc)), addr_device_id = device_id dev\<rparr>"
  shows "\<exists>s'. persist_queue D R b64 C ids acc dev s = Some (Ok (), s') \<and> ready s' a \<and> cached s' a [] \<and>
    \<not> hidden s' a \<and> msgs (database s') a = msgs (database s) a @ map snd xs \<and>
    spawned (cache s') = spawned (cache s) @ [Notify_persisted (queue_name a)]"
proof -
  obtain c where rep: "message_rep b64 C a (store (map_store view (cache s))) c xs"
    and xs: "stamped C xs" "list_all storable (map snd xs)" using assms(2) by (auto simp: cached_def)
  from lock_rep [OF rep] obtain t where
    t: "lock_queue_for_persistence keyspace_redis a (map_store view (cache s)) = (Ok (), t)"
      "message_rep b64 C a (store t) c xs" "spawned t = spawned (cache s)" by auto
  from simD [OF sim_lock_queue t(1)] obtain u where
    u: "lock_queue_for_persistence R a (cache s) = (Ok (), u)" "map_store view u = t" by blast
  let ?s1 = "s\<lparr>cache := u\<rparr>"
  have 1: "ready ?s1 a" "cached ?s1 a xs" using assms(1) xs t(2) u(2) by (auto simp: ready_def cached_def)
  from persist_queue_loop_moves [OF 1] obtain s2 where
    s2: "persist_queue_loop D R b64 C a ?s1 = Some (Ok (), s2)" "ready s2 a" "cached s2 a []"
      "msgs (database s2) a = msgs (database s) a @ map snd xs" "spawned (cache s2) = spawned u" by auto
  obtain c2 where "message_rep b64 C a (store (map_store view (cache s2))) c2 []" using s2(3) by (auto simp: cached_def)
  from unlock_rep [OF this] obtain t2 where
    t2: "unlock_queue_for_persistence keyspace_redis a (map_store view (cache s2)) = (Ok (), t2)"
      "message_rep b64 C a (store t2) c2 []" "queue_lock a (store t2) = None"
      "spawned t2 = spawned (cache s2) @ [Notify_persisted (queue_name a)]" by auto
  from simD [OF sim_unlock_queue t2(1)] obtain u2 where
    u2: "unlock_queue_for_persistence R a (cache s2) = (Ok (), u2)" "map_store view u2 = t2" by blast
  let ?s' = "s2\<lparr>cache := u2\<rparr>"
  have "persist_queue D R b64 C ids acc dev s = Some (Ok (), ?s')"
    unfolding persist_queue_def Let_def assms(3) [symmetric] using u(1) s2(1) u2(1) by simp
  moreover have "ready ?s' a" using s2(2) by (simp add: ready_def)
  moreover have "cached ?s' a []" "\<not> hidden ?s' a" "spawned u2 = spawned (cache s) @ [Notify_persisted (queue_name a)]"
    using t2(2-4) u2(2) t(3) u(2) s2(5) by (auto simp: cached_def hidden_def stamped_def)
  ultimately show ?thesis using s2(4) by auto
qed

text \<open>The same without the abbreviations of this locale.\<close>

lemma persist_queue_result:
  assumes "inv (database s)" "known (database s) a"
    and "message_rep b64 C a (view (store (cache s))) c xs" "stamped C xs" "list_all storable (map snd xs)"
    and "a = \<lparr>addr_name = service_id_string ids (Aci (aci acc)), addr_device_id = device_id dev\<rparr>"
  shows "\<exists>s' c'. persist_queue D R b64 C ids acc dev s = Some (Ok (), s') \<and>
    msgs (database s') a = msgs (database s) a @ map snd xs \<and>
    message_rep b64 C a (view (store (cache s'))) c' [] \<and> queue_lock a (view (store (cache s'))) = None \<and>
    spawned (cache s') = spawned (cache s) @ [Notify_persisted (queue_name a)]"
proof -
  have "ready s a" "cached s a xs" using assms(1-5) by (auto simp: ready_def cached_def)
  from persist_queue_moves [OF this assms(6)] show ?thesis by (auto simp: cached_def hidden_def)
qed

text \<open>Deleting by guid also takes every persisted message along.\<close>

lemma manager_delete_all:
  assumes "ready s a" "cached s a xs"
  shows "\<exists>s'. manager_delete D R b64 C a (map fst (take n xs)) s = (Ok (map snd (take n xs) @ msgs (database s) a), s') \<and>
    ready s' a \<and> cached s' a (drop n xs) \<and> msgs (database s') a = []"
proof -
  from remove_first [OF assms(2), of n] obtain s1 where
    s1: "on_cache (message_remove R b64 C a (map fst (take n xs))) s = (Ok (map snd (take n xs)), s1)"
      "cached s1 a (drop n xs)" "database s1 = database s" by blast
  from delete [of "database s" a] assms(1) obtain d where
    d: "delete_messages D a (database s) = (Ok (msgs (database s) a), d)" "inv d" "known d a" "msgs d a = []"
    by (auto simp: ready_def)
  have "manager_delete D R b64 C a (map fst (take n xs)) s = (Ok (map snd (take n xs) @ msgs (database s) a), s1\<lparr>database := d\<rparr>)"
    using s1(1,3) d(1) by (simp add: manager_delete_def)
  with d(2-4) s1(2) show ?thesis by (auto simp: ready_def cached_def)
qed

lemma manager_delete_result:
  assumes "inv (database s)" "known (database s) a"
    and "message_rep b64 C a (view (store (cache s))) c xs" "stamped C xs" "list_all storable (map snd xs)"
  shows "\<exists>s' c'. manager_delete D R b64 C a (map fst (take n xs)) s = (Ok (map snd (take n xs) @ msgs (database s) a), s') \<and>
    message_rep b64 C a (view (store (cache s'))) c' (drop n xs) \<and> msgs (database s') a = []"
proof -
  have "ready s a" "cached s a xs" using assms by (auto simp: ready_def cached_def)
  from manager_delete_all [OF this, of n] show ?thesis by (auto simp: cached_def)
qed

text \<open>Reading both stores.\<close>

lemma get_messages_both:
  assumes "ready s a" "cached s a xs"
  shows "\<exists>s'. get_messages_for_device D R b64 C a False s =
    (Ok ((if hidden s a then [] else map snd (take PAGE_SIZE xs)) @ msgs (database s) a), s') \<and> database s' = database s"
proof -
  obtain c where "message_rep b64 C a (store (map_store view (cache s))) c xs" "stamped C xs"
    using assms(2) by (auto simp: cached_def)
  from simD [OF sim_get_all_messages get_all_messages_rep [OF this]] obtain u where
    "get_all_messages R b64 C a (cache s) =
      (Ok (if queue_lock a (view (store (cache s))) = None then map snd (take PAGE_SIZE xs) else []), u)"
    by auto
  moreover have "get_messages D a (database s) = (Ok (msgs (database s) a), database s)"
    using get assms(1) by (simp add: ready_def)
  ultimately show ?thesis
    by (intro exI [of _ "s\<lparr>cache := u\<rparr>"]) (auto simp: get_messages_for_device_def hidden_def)
qed

lemma get_messages_result:
  assumes "inv (database s)" "known (database s) a"
    and "message_rep b64 C a (view (store (cache s))) c xs" "stamped C xs" "list_all storable (map snd xs)"
  shows "fst (get_messages_for_device D R b64 C a False s) =
    Ok ((if queue_lock a (view (store (cache s))) = None then map snd (take PAGE_SIZE xs) else []) @ msgs (database s) a)"
proof -
  have "ready s a" "cached s a xs" using assms by (auto simp: ready_def cached_def)
  from get_messages_both [OF this] show ?thesis by (auto simp: hidden_def)
qed

end

interpretation pg_messaging: messaging "postgres ids C" "readable C" known_device "codec_ok C" "pg_messages C"
  keyspace_redis "\<lambda>K. K" BASE64_STANDARD C
  for ids :: id_codec and C :: "envelope codec" ..

section \<open>Properties\<close>

lemma messaging_pg:
  "\<lbrakk> redis_server R view; base64_laws b64 \<rbrakk> \<Longrightarrow>
    messaging (postgres ids C) (readable C) known_device (codec_ok C) (pg_messages C) R view b64"
  by (intro messaging.intro pg_msgs.message_store_axioms)

lemma stamped_codec: "stamped C xs \<Longrightarrow> list_all (codec_ok C) (map snd xs)"
  by (auto simp: stamped_def list_all_iff)

text \<open>
  C24 (termination). \<open>persist_queue\<close> returns, for every length of the queue: all cached messages of
  the device are in the database, once and in their order, behind those that were there; the
  cached queue is empty and unlocked, and the device's listener is notified once.
\<close>

theorem persist_queue_moves_all:
  assumes "redis_server R view" "base64_laws b64"
    and "a = \<lparr>addr_name = service_id_string ids (Aci (aci acc)), addr_device_id = device_id dev\<rparr>"
    and "readable C (database s)" "known_device (database s) a"
    and "message_rep b64 C a (view (store (cache s))) c xs" "stamped C xs"
  shows "\<exists>s' c'. persist_queue (postgres ids C) R b64 C ids acc dev s = Some (Ok (), s') \<and>
    pg_messages C (database s') a = pg_messages C (database s) a @ map snd xs \<and>
    message_rep b64 C a (view (store (cache s'))) c' [] \<and> queue_lock a (view (store (cache s'))) = None \<and>
    spawned (cache s') = spawned (cache s) @ [Notify_persisted (queue_name a)]"
  by (rule messaging.persist_queue_result [OF messaging_pg [OF assms(1,2)] assms(4-7) stamped_codec [OF assms(7)] assms(3)])

text \<open>A backend with one cached message for a stored device, and a codec for that message.\<close>

definition one_envelope :: envelope where
  "one_envelope = blank_envelope\<lparr>server_guid := Some ''g1''\<rparr>"

definition one_codec :: "envelope codec" where
  "one_codec = \<lparr>serialize = (\<lambda>_. []), deserialize = (\<lambda>_. Ok one_envelope)\<rparr>"

lemma one_stamped: "stamped one_codec [(''g1'', one_envelope)]"
  by (simp add: stamped_def one_envelope_def codec_ok_def one_codec_def)

lemma one_readable: "readable one_codec stored_example"
  by (simp add: readable_def rows_all_def stored_example_eq with_account_def empty_pg_tables)

lemma one_cached: "\<exists>t :: (keyspace, 'l) caches.
  message_rep BASE64_STANDARD one_codec alice (store t) 1 [(''g1'', one_envelope)]"
  using rfc4648.message_insert_rep [where s = "init_caches :: (keyspace, 'l) caches" and g = "''g1''" and
      e = blank_envelope and C = one_codec and a = alice, unfolded store_init, OF rfc4648.message_rep_empty]
  by (fastforce simp: one_envelope_def)

lemma one_dequeued: "pg_messages one_codec stored_example alice = []"
proof -
  obtain d where "address_devices alice stored_example = Ok [d]"
    using stored_example_alice by (auto simp: known_device_def)
  then show ?thesis
    by (simp add: pg_messages_def message_rows_def t_select_def stored_example_eq with_account_def empty_pg_tables)
qed

theorem persist_queue_moves_all_witness:
  "\<exists>s s' :: (pg, keyspace, unit) backend.
    persist_queue (postgres std_ids one_codec) keyspace_redis BASE64_STANDARD one_codec std_ids example_account
      (hd (devices example_account)) s = Some (Ok (), s') \<and>
    pg_messages one_codec (database s) alice = [] \<and> pg_messages one_codec (database s') alice = [one_envelope]"
proof -
  obtain t :: "(keyspace, unit) caches" where
    t: "message_rep BASE64_STANDARD one_codec alice (store t) 1 [(''g1'', one_envelope)]" by (rule exE [OF one_cached])
  let ?s = "\<lparr>database = stored_example, cache = t\<rparr>"
  have "alice = \<lparr>addr_name = service_id_string std_ids (Aci (aci example_account)),
      addr_device_id = device_id (hd (devices example_account))\<rparr>" by (simp add: alice_def example_account_def)
  from persist_queue_moves_all [OF keyspace.redis_server_axioms rfc4648.base64_laws_axioms this, of one_codec ?s 1
      "[(''g1'', one_envelope)]"] t one_stamped one_readable stored_example_alice
  obtain s' where "persist_queue (postgres std_ids one_codec) keyspace_redis BASE64_STANDARD one_codec std_ids example_account
      (hd (devices example_account)) ?s = Some (Ok (), s')"
      "pg_messages one_codec (database s') alice = pg_messages one_codec stored_example alice @ [one_envelope]"
    by auto
  then show ?thesis using one_dequeued by (intro exI [of _ ?s] exI [of _ s']) simp
qed

text \<open>
  \<open>MessagesManager::delete\<close> with the guids of the first messages of the cached queue
  removes these from the cache and returns them; but it also removes and returns every message that
  has been persisted for the device, whether or not its guid was given.
\<close>

theorem delete_takes_all_persisted:
  assumes "redis_server R view" "base64_laws b64" "readable C (database s)" "known_device (database s) a"
    and "message_rep b64 C a (view (store (cache s))) c xs" "stamped C xs"
  shows "\<exists>s' c'. manager_delete (postgres ids C) R b64 C a (map fst (take n xs)) s =
      (Ok (map snd (take n xs) @ pg_messages C (database s) a), s') \<and>
    message_rep b64 C a (view (store (cache s'))) c' (drop n xs) \<and> pg_messages C (database s') a = []"
  by (rule messaging.manager_delete_result [OF messaging_pg [OF assms(1,2)] assms(3-6) stamped_codec [OF assms(6)]])

theorem delete_takes_all_persisted_witness:
  "\<exists>s s' :: (pg, keyspace, unit) backend. pg_messages one_codec (database s) alice = [one_envelope] \<and>
    manager_delete (postgres std_ids one_codec) keyspace_redis BASE64_STANDARD one_codec alice [] s = (Ok [one_envelope], s') \<and>
    pg_messages one_codec (database s') alice = []"
proof -
  obtain t :: "(keyspace, unit) caches" where
    t: "message_rep BASE64_STANDARD one_codec alice (store t) 1 [(''g1'', one_envelope)]" by (rule exE [OF one_cached])
  have "codec_ok one_codec one_envelope" by (simp add: codec_ok_def one_codec_def)
  with push_all_known [OF one_readable stored_example_alice, of "[one_envelope]"] one_dequeued obtain db where
    db: "readable one_codec db" "known_device db alice" "pg_messages one_codec db alice = [one_envelope]" by auto
  let ?s = "\<lparr>database = db, cache = t\<rparr>"
  from delete_takes_all_persisted [OF keyspace.redis_server_axioms rfc4648.base64_laws_axioms, of one_codec ?s alice 1
      "[(''g1'', one_envelope)]" std_ids 0] t one_stamped db
  obtain s' where "manager_delete (postgres std_ids one_codec) keyspace_redis BASE64_STANDARD one_codec alice [] ?s =
      (Ok [one_envelope], s')" "pg_messages one_codec (database s') alice = []" by auto
  with db(3) show ?thesis by (intro exI [of _ ?s] exI [of _ s']) simp
qed

text \<open>
  \<open>get_messages_for_device\<close> returns the first page of the cached queue followed by the
  persisted messages; while the queue is locked for persistence its cached messages are left out.
\<close>

theorem get_messages_for_device_both:
  assumes "redis_server R view" "base64_laws b64" "readable C (database s)" "known_device (database s) a"
    and "message_rep b64 C a (view (store (cache s))) c xs" "stamped C xs"
  shows "fst (get_messages_for_device (postgres ids C) R b64 C a False s) =
    Ok ((if queue_lock a (view (store (cache s))) = None then map snd (take PAGE_SIZE xs) else []) @
      pg_messages C (database s) a)"
  by (rule messaging.get_messages_result [OF messaging_pg [OF assms(1,2)] assms(3-6) stamped_codec [OF assms(6)]])

theorem get_messages_for_device_both_witness:
  "\<exists>s :: (pg, keyspace, unit) backend.
    fst (get_messages_for_device (postgres std_ids one_codec) keyspace_redis BASE64_STANDARD one_codec alice False s) =
      Ok (if queue_lock alice (store (cache s)) = None then [one_envelope] else [])"
proof -
  obtain t :: "(keyspace, unit) caches" where
    t: "message_rep BASE64_STANDARD one_codec alice (store t) 1 [(''g1'', one_envelope)]" by (rule exE [OF one_cached])
  let ?s = "\<lparr>database = stored_example, cache = t\<rparr>"
  from get_messages_for_device_both [OF keyspace.redis_server_axioms rfc4648.base64_laws_axioms, of one_codec ?s alice 1
      "[(''g1'', one_envelope)]" std_ids] t one_stamped one_readable stored_example_alice one_dequeued
  show ?thesis by (intro exI [of _ ?s]) (simp add: PAGE_SIZE_def)
qed

end
