(* ===== verification/Registration.thy ===== *)
theory Registration
  imports Account_Manager Postgres_Keys
begin

text \<open>
  Accounts, keys and authentication together with the Postgres model: a registered device can
  authenticate with its password, conflicts are reported, and no key is stored whose signature does
  not verify.
\<close>

section \<open>Registering and authenticating\<close>

lemma reloaded_fields [simp]:
  "device_id (reloaded d) = device_id d" "auth_token (reloaded d) = auth_token d" "salt (reloaded d) = salt d"
  by (simp_all add: reloaded_def)

lemma token_verify:
  "SaltedTokenHash_generate_for kdf hex rnd pw = Ok t \<Longrightarrow> SaltedTokenHash_verify kdf hex t pw' =
    bind (SaltedTokenHash_calculate kdf hex (token_salt t) pw') (\<lambda>h. Ok (token_hash t = h)) \<and>
    SaltedTokenHash_calculate kdf hex (token_salt t) pw = Ok (token_hash t)"
  by (auto simp: SaltedTokenHash_generate_for_def SaltedTokenHash_verify_def Let_def outcome_simps)

context id_codec_laws
begin

text \<open>The name and device in a request are read back.\<close>


lemma from_request_parts_address:
  assumes "i < 2 ^ 32"
  shows "from_request_parts D ids kdf hex (Basic (service_id_string ids sid @ CHR ''.'' # show_nat i) pw)
    = authenticate_device D kdf hex sid i pw"
proof -
  have "find_char (CHR ''.'') (service_id_string ids sid @ CHR ''.'' # show_nat i) = Some (length (service_id_string ids sid))"
    by (rule find_char_append) simp
  then show ?thesis
    using assms by (simp add: from_request_parts_def ok_or_def parse_u32_show_nat del: power_numeral)
      (simp add: bindS_def liftS_def)
qed

lemma authenticate_new_account:
  assumes inv: "pg_inv ids db" "pg_inv ids (with_account ids a d db)"
    and new: "account_conflict (account_row_of ids a) (map snd (trows (accounts db))) = None"
    and d: "identity_keys_typed ids a" "device_typed d" "sid \<in> {Aci (aci a), Pni (pni a)}"
  shows "fst (authenticate_device (postgres ids C) kdf hex sid (device_id d) pw (with_account ids a d db)) =
    bind (SaltedTokenHash_verify kdf hex \<lparr>token_hash = auth_token d, token_salt = salt d\<rparr> pw) (\<lambda>valid.
      if valid then Ok \<lparr>auth_account = a\<lparr>devices := [reloaded d]\<rparr>, auth_device = reloaded d\<rparr>
      else Err (api UNAUTHORIZED ''Wrong password''))"
proof -
  have "get_account (postgres ids C) sid (with_account ids a d db) = (Ok (a\<lparr>devices := [reloaded d]\<rparr>), with_account ids a d db)"
    using get_new_account [OF inv new d] by (simp add: postgres_def)
  then have "authenticate_device (postgres ids C) kdf hex sid (device_id d) pw (with_account ids a d db) =
    bindS (liftS (SaltedTokenHash_verify kdf hex \<lparr>token_hash = auth_token d, token_salt = salt d\<rparr> pw)) (\<lambda>valid.
         if valid then returnS \<lparr>auth_account = a\<lparr>devices := [reloaded d]\<rparr>, auth_device = reloaded d\<rparr>
         else failS (api UNAUTHORIZED ''Wrong password'')) (with_account ids a d db)"
    by (simp add: authenticate_device_def)
  then show ?thesis
    by (cases "SaltedTokenHash_verify kdf hex \<lparr>token_hash = auth_token d, token_salt = salt d\<rparr> pw")
      (simp_all add: bindS_def liftS_def)
qed

end

text \<open>
  C25 (functional). A device that registers with the token of its password can authenticate with that
  password, under the ACI and under the PNI of its account, and is refused with 401 for every password
  that HKDF maps to another hash. The device and the identity keys are any values of their types.
\<close>

theorem register_then_authenticate:
  assumes "id_codec_laws ids" "pg_reachable ids C db"
    and "SaltedTokenHash_generate_for kdf hex rnd pw = Ok t"
    and "device_typed d" "auth_token d = token_hash t" "salt d = token_salt t"
    and "a = Account_new u p aik pik d phone" "identity_keys_typed ids a"
    and "account_conflict (account_row_of ids a) (map snd (trows (accounts db))) = None"
    and "sid \<in> {Aci u, Pni p}"
    and "SaltedTokenHash_calculate kdf hex (token_salt t) bad = Ok h" "h \<noteq> token_hash t"
  shows "\<exists>db'. create_account (postgres ids C) u p phone aik pik d db = (Ok a, db') \<and>
    fst (from_request_parts (postgres ids C) ids kdf hex
      (Basic (service_id_string ids sid @ ''.'' @ show_nat (device_id d)) pw) db') =
      Ok \<lparr>auth_account = a\<lparr>devices := [reloaded d]\<rparr>, auth_device = reloaded d\<rparr> \<and>
    fst (from_request_parts (postgres ids C) ids kdf hex
      (Basic (service_id_string ids sid @ ''.'' @ show_nat (device_id d)) bad) db') =
      Err (api UNAUTHORIZED ''Wrong password'')"
proof -
  have inv: "pg_inv ids db" using assms(2) by (rule pg_reachable_inv)
  have a: "devices a = [d]" "aci a = u" "pni a = p" by (simp_all add: assms(7) Account_new_def)
  note add = id_codec_laws.add_account_step [OF assms(1) inv assms(9,8) a(1)]
  have inv': "pg_inv ids (with_account ids a d db)"
    using pg_add_account_keeps [OF inv, of a] assms(4,8) by (simp add: add a)
  have "create_account (postgres ids C) u p phone aik pik d db = (Ok a, with_account ids a d db)"
    using add by (simp add: create_account_def Let_def assms(7) postgres_def)
  moreover have "device_id d < 2 ^ 32" using assms(4) by (simp add: device_typed_def)
  moreover have "sid \<in> {Aci (aci a), Pni (pni a)}" using assms(10) a by simp
  moreover have t: "\<lparr>token_hash = auth_token d, token_salt = salt d\<rparr> = t" using assms(5,6) by simp
  ultimately show ?thesis
    using token_verify [OF assms(3)] assms(11,12)
    by (simp add: id_codec_laws.from_request_parts_address [OF assms(1)]
        id_codec_laws.authenticate_new_account [OF assms(1) inv inv' assms(9,8,4)] del: power_numeral)
qed

text \<open>A hash for the example, which tells passwords of different lengths apart.\<close>

definition toy_hkdf :: hkdf where
  "toy_hkdf slt ikm label n = Some (ikm @ slt)"

definition toy_hex :: "bytes \<Rightarrow> string" where
  "toy_hex b = replicate (length b) (CHR ''x'')"

definition registered_device :: device where
  "registered_device = \<lparr>device_id = 1, dev_name = ''phone'', last_seen = 0, created = 0, auth_token = ''xxx'', salt = ''x'',
     registration_id = 7, pni_registration_id = 8, capabilities = []\<rparr>"

abbreviation (input) key_1 :: bytes where "key_1 \<equiv> 5 # replicate 32 1"
abbreviation (input) key_2 :: bytes where "key_2 \<equiv> 5 # replicate 32 2"

theorem register_then_authenticate_witness:
  "\<forall>C. \<exists>db'. create_account (postgres std_ids C) 1 2 ''123'' key_1 key_2 registered_device empty_pg =
      (Ok (Account_new 1 2 key_1 key_2 registered_device ''123''), db') \<and>
    fst (from_request_parts (postgres std_ids C) std_ids toy_hkdf toy_hex
      (Basic (service_id_string std_ids (Aci 1) @ ''.'' @ show_nat 1) ''wrong'') db') = Err (api 401 ''Wrong password'')"
proof
  fix C
  have calc: "SaltedTokenHash_calculate toy_hkdf toy_hex ''x'' pw = Ok (replicate (length pw + 1) (CHR ''x''))" for pw
    by (simp add: SaltedTokenHash_calculate_def HKDF_DeriveSecrets_def toy_hkdf_def toy_hex_def as_bytes_def ok_or_def)
  have gen: "SaltedTokenHash_generate_for toy_hkdf toy_hex [0] ''pw'' = Ok \<lparr>token_hash = ''xxx'', token_salt = ''x''\<rparr>"
    by (simp add: SaltedTokenHash_generate_for_def toy_hex_def calc Let_def)
  have conflict: "account_conflict r (map snd (trows (accounts empty_pg))) = None" for r
    by (simp add: empty_pg_tables account_conflict_def)
  have "device_typed registered_device" "auth_token registered_device = ''xxx''" "salt registered_device = ''x''"
    by (simp_all add: registered_device_def device_typed_def is_text_def)
  moreover have "identity_keys_typed std_ids (Account_new 1 2 key_1 key_2 registered_device ''123'')"
    by (simp add: identity_keys_typed_def Account_new_def std_ids_def std_public_key_def)
  moreover note register_then_authenticate [OF std_ids.id_codec_laws_axioms pg_reachable_empty gen _ _ _ refl _ conflict, where
      d = registered_device and u = "1" and p = "2" and sid = "Aci 1" and bad = "''wrong''" and h = "''xxxxxx''" and
      aik = "key_1" and pik = "key_2" and phone = "''123''" and C = C] calc [of "''wrong''"]
  ultimately show "\<exists>db'. create_account (postgres std_ids C) 1 2 ''123'' key_1 key_2 registered_device empty_pg =
      (Ok (Account_new 1 2 key_1 key_2 registered_device ''123''), db') \<and>
    fst (from_request_parts (postgres std_ids C) std_ids toy_hkdf toy_hex
      (Basic (service_id_string std_ids (Aci 1) @ ''.'' @ show_nat 1) ''wrong'') db') = Err (api 401 ''Wrong password'')"
    by (auto simp: registered_device_def)
qed

section \<open>Conflicts\<close>

text \<open>
  Creating an account on Postgres either returns the new account or fails with status 500:
  the branch that answers 400 for a phone number in use is never taken, because Postgres names the
  violated constraint differently. A refused account leaves the database as it was.
\<close>

theorem create_account_conflict_is_500:
  "case create_account (postgres ids C) u p phone aik pik d db of
     (Ok a, db') \<Rightarrow> a = Account_new u p aik pik d phone \<and>
       account_conflict (account_row_of ids a) (map snd (trows (accounts db))) = None
   | (Err e, db') \<Rightarrow> e = api INTERNAL_SERVER_ERROR ''Could not create account''
   | (Panic, db') \<Rightarrow> False"
proof -
  let ?a = "Account_new u p aik pik d phone"
  have dev: "devices ?a = [d]" by (simp add: Account_new_def)
  have ins: "case insert_devices rs t of Ok _ \<Rightarrow> True | Err e \<Rightarrow> e = Database ''devices_device_id_owner_key'' | Panic \<Rightarrow> False"
    for rs t
    by (induction rs arbitrary: t) simp_all
  have add: "case pg_add_account ids ?a db of
      (Ok _, _) \<Rightarrow> account_conflict (account_row_of ids ?a) (map snd (trows (accounts db))) = None
    | (Err e, _) \<Rightarrow> create_account_error e = api INTERNAL_SERVER_ERROR ''Could not create account''
    | (Panic, _) \<Rightarrow> False"
  proof (cases "account_conflict (account_row_of ids ?a) (map snd (trows (accounts db)))")
    case None
    let ?db = "db\<lparr>accounts := t_insert (account_row_of ids ?a) (accounts db)\<rparr>"
    let ?t = "insert_devices (map (\<lambda>r. device_row_of (fst r) d)
      (account_rows (service_id_string ids (Aci (aci ?a))) ?db)) (pg_devices ?db)"
    have eq: "pg_add_account ids ?a db = pg_add_device ids (Aci (aci ?a)) d ?db"
      by (simp add: pg_add_account_def executeS_def None dev)
    show ?thesis
      using ins [of "map (\<lambda>r. device_row_of (fst r) d) (account_rows (service_id_string ids (Aci (aci ?a))) ?db)" "pg_devices ?db"]
      unfolding eq pg_add_device_def executeS_def
      by (cases ?t) (simp_all add: None create_account_error_def)
  next
    case (Some c)
    then have "c \<in> {''accounts_aci_key'', ''accounts_pni_key'', ''accounts_phone_number_key''}"
      by (auto simp: account_conflict_def split: if_splits)
    with Some show ?thesis by (auto simp: pg_add_account_def executeS_def create_account_error_def)
  qed
  obtain r db' where "pg_add_account ids ?a db = (r, db')" by fastforce
  with add show ?thesis by (cases r) (simp_all add: create_account_def Let_def postgres_def)
qed

section \<open>Uploading keys\<close>

text \<open>The keys of a request whose signatures have to verify.\<close>

definition signed_keys :: "set_key_request \<Rightarrow> upload_signed_pre_key list" where
  "signed_keys b = (case skr_signed_pre_key b of None \<Rightarrow> [] | Some k \<Rightarrow> [k]) @
     (case skr_pq_last_resort_pre_key b of None \<Rightarrow> [] | Some k \<Rightarrow> [k]) @
     (case skr_pq_pre_key b of None \<Rightarrow> [] | Some ks \<Rightarrow> ks)"

lemma verify_key_Ok: "verify_key verify ik k = Ok () \<longleftrightarrow> signature_valid verify ik k"
  by (auto simp: verify_key_def signature_valid_def split: outcome.splits)

lemma verify_keys_Ok: "verify_keys verify ik ks = Ok () \<longleftrightarrow> list_all (signature_valid verify ik) ks"
  by (induction ks) (auto simp: outcome_simps verify_key_Ok)

lemma bindS_return: "bindS m returnS = m"
proof
  fix s
  obtain r s' where "m s = (r, s')" by fastforce
  then show "bindS m returnS s = m s" by (cases r) simp_all
qed

lemma bindS_lift_not_Ok: "r \<noteq> Ok () \<Longrightarrow> snd (bindS (liftS r) f s) = s \<and> \<not> is_ok (fst (bindS (liftS r) f s))"
  by (cases r) (simp_all add: bindS_def)

text \<open>
  C26 (safety). \<open>handle_put_keys\<close> touches the database only if every signed key of the request verifies
  under the identity key of the account for the given kind; otherwise the call fails, and the
  database, one-time keys included, is left as it was. This holds for every database.
\<close>

theorem put_keys_verified:
  "if list_all (signature_valid verify (account_identity_key (auth_account ad) k)) (signed_keys b)
   then handle_put_keys D ids verify ad b k s =
     bindS (whenS (skr_pre_key b) (\<lambda>ks. map_errS database_fault
       (store_one_time_ec_pre_keys D ks (auth_protocol_address ids ad k)))) (\<lambda>_.
     bindS (whenS (skr_signed_pre_key b) (\<lambda>x. map_errS database_fault
       (store_signed_pre_key D x (auth_protocol_address ids ad k)))) (\<lambda>_.
     bindS (whenS (skr_pq_pre_key b) (\<lambda>ks. map_errS database_fault
       (store_one_time_pq_pre_keys D ks (auth_protocol_address ids ad k)))) (\<lambda>_.
     whenS (skr_pq_last_resort_pre_key b) (\<lambda>x. map_errS database_fault
       (store_pq_signed_pre_key D x (auth_protocol_address ids ad k)))))) s
   else snd (handle_put_keys D ids verify ad b k s) = s \<and> \<not> is_ok (fst (handle_put_keys D ids verify ad b k s))"
proof -
  let ?ik = "account_identity_key (auth_account ad) k"
  have all: "list_all (signature_valid verify ?ik) (signed_keys b) \<longleftrightarrow>
      verify_opt verify ?ik (skr_signed_pre_key b) = Ok () \<and>
      verify_opt verify ?ik (skr_pq_last_resort_pre_key b) = Ok () \<and>
      (case skr_pq_pre_key b of None \<Rightarrow> Ok () | Some ks \<Rightarrow> verify_keys verify ?ik ks) = Ok ()"
    by (auto simp: signed_keys_def verify_opt_def verify_key_Ok verify_keys_Ok split: option.splits)
  show ?thesis
  proof (cases "list_all (signature_valid verify ?ik) (signed_keys b)")
    case True
    then show ?thesis unfolding all by (simp add: handle_put_keys_def Let_def bindS_return)
  next
    case False
    then consider "verify_opt verify ?ik (skr_signed_pre_key b) \<noteq> Ok ()"
      | "verify_opt verify ?ik (skr_signed_pre_key b) = Ok ()" "verify_opt verify ?ik (skr_pq_last_resort_pre_key b) \<noteq> Ok ()"
      | "verify_opt verify ?ik (skr_signed_pre_key b) = Ok ()" "verify_opt verify ?ik (skr_pq_last_resort_pre_key b) = Ok ()"
        "(case skr_pq_pre_key b of None \<Rightarrow> Ok () | Some ks \<Rightarrow> verify_keys verify ?ik ks) \<noteq> Ok ()"
      unfolding all by blast
    then show ?thesis
      using False by cases (simp_all add: handle_put_keys_def Let_def bindS_lift_not_Ok del: bindS_Err bindS_Panic)
  qed
qed

end
