(* ===== verification/Authorization.thy ===== *)
theory Authorization
  imports Base64 Utf8
begin

text \<open>
  \<open>BasicAuthorizationHeader\<close> (\<open>common/src/web_api/authorization.rs\<close>), the UTF-8 check of
  \<open>String::from_utf8\<close>, and \<open>parse_protocol_address\<close> (\<open>common/src/protocol_address.rs\<close>). Strings
  are their UTF-8 bytes, one character per byte, so slicing is slicing of byte offsets; every offset
  the code uses is that of an ASCII character.
\<close>

section \<open>The header\<close>

record basic_authorization_header =
  bah_username :: string
  bah_device_id :: nat
  bah_password :: string

definition header_body :: "basic_authorization_header \<Rightarrow> string" where
  "header_body h = bah_username h @ ''.'' @ show_nat (bah_device_id h) @ '':'' @ bah_password h"

definition header_encode :: "base64 \<Rightarrow> basic_authorization_header \<Rightarrow> string" where
  "header_encode b64 h = ''Basic '' @ b64_encode b64 (string_bytes (header_body h))"

definition header_display :: "basic_authorization_header \<Rightarrow> string" where
  "header_display h = ''Basic '' @ header_body h"

text \<open>\<open>split_at\<close> panics past the end.\<close>

definition split_at :: "nat \<Rightarrow> string \<Rightarrow> ('e, string \<times> string) outcome" where
  "split_at n s = (if n \<le> length s then Ok (take n s, drop n s) else Panic)"

definition strip_prefix :: "char \<Rightarrow> string \<Rightarrow> string option" where
  "strip_prefix c s = (case s of [] \<Rightarrow> None | x # xs \<Rightarrow> if x = c then Some xs else None)"

definition header_parse :: "string \<Rightarrow> (error, basic_authorization_header) outcome" where
  "header_parse s =
     bind (ok_or ''No ':' character in AuthorizationHeader.'' (find_char (CHR '':'') s)) (\<lambda>colon_index.
     bind (ok_or ''No '.' character in AuthorizationHeader.'' (find_char (CHR ''.'') s)) (\<lambda>dot_index.
     bind (split_at colon_index s) (\<lambda>(address_part, password).
     bind (split_at dot_index address_part) (\<lambda>(username, device_part).
     bind (expect (ok_or () (strip_prefix (CHR ''.'') device_part))) (\<lambda>dev.
     bind (ok_or ''invalid digit found in string'' (parse_u32 dev)) (\<lambda>i.
     Ok \<lparr>bah_username = username, bah_device_id = i, bah_password = drop 1 password\<rparr>))))))"

definition header_decode :: "base64 \<Rightarrow> string \<Rightarrow> (error, basic_authorization_header) outcome" where
  "header_decode b64 s =
     (if take 5 s \<noteq> ''Basic'' then Err ''Invalid authorization header type.''
      else
        bind (ok_or ''No ' ' character in AuthorizationHeader.'' (find_char (CHR '' '') s)) (\<lambda>space_index.
        bind (ok_or ''Invalid base64'' (b64_decode b64 (drop (space_index + 1) s))) (\<lambda>bs.
        bind (ok_or ''invalid utf-8 sequence'' (from_utf8 bs)) header_parse)))"

section \<open>Properties\<close>

lemma header_parse_body:
  assumes "CHR ''.'' \<notin> set (bah_username h)" "CHR '':'' \<notin> set (bah_username h)" "bah_device_id h < 2 ^ 32"
  shows "header_parse (header_body h) = Ok h"
proof -
  let ?u = "bah_username h" and ?d = "show_nat (bah_device_id h)" and ?p = "bah_password h"
  have "CHR '':'' \<notin> set (?u @ ''.'' @ ?d)" using assms(2) by (simp add: show_nat_no_char)
  then have colon: "find_char (CHR '':'') (header_body h) = Some (length (?u @ ''.'' @ ?d))"
    using find_char_append [of "CHR '':''" "?u @ ''.'' @ ?d" ?p] by (simp add: header_body_def)
  have dot: "find_char (CHR ''.'') (header_body h) = Some (length ?u)"
    using find_char_append [OF assms(1), of "?d @ '':'' @ ?p"] by (simp add: header_body_def)
  have body: "header_body h = (?u @ ''.'' @ ?d) @ '':'' @ ?p" by (simp add: header_body_def)
  define ab where "ab = ?u @ ''.'' @ ?d"
  have s1: "split_at (length ab) (header_body h) = (Ok (ab, '':'' @ ?p) :: (error, string \<times> string) outcome)"
    unfolding body ab_def by (simp add: split_at_def)
  have s2: "split_at (length ?u) ab = (Ok (?u, ''.'' @ ?d) :: (error, string \<times> string) outcome)"
    by (simp add: split_at_def ab_def)
  show ?thesis
    unfolding header_parse_def colon dot ab_def [symmetric]
    using assms(3) by (simp add: ok_or_def s1 s2 expect_def strip_prefix_def parse_u32_show_nat del: power_numeral)
qed

text \<open>
  C30 (roundtrip). Decoding an encoded authorization header gives the header back: for a user name
  without dot and colon, any password (colons and dots included) and every device id of a \<open>u32\<close>,
  all of them valid UTF-8.
\<close>

theorem header_round_trip:
  assumes "base64_laws b64" "CHR ''.'' \<notin> set (bah_username h)" "CHR '':'' \<notin> set (bah_username h)"
    and "bah_device_id h < 2 ^ 32" "is_text (bah_username h)" "is_text (bah_password h)"
  shows "header_decode b64 (header_encode b64 h) = Ok h"
proof -
  have "is_text ''.''" "is_text '':''" by (simp_all add: is_text_def)
  then have "is_text (header_body h)"
    unfolding header_body_def using assms(5,6) by (intro is_text_append is_text_show_nat)
  then show ?thesis
    using header_parse_body [OF assms(2-4)] base64_laws.decode_encode [OF assms(1)]
    by (simp add: header_decode_def header_encode_def ok_or_def from_utf8_string_bytes)
qed

theorem header_round_trip_witness:
  "header_decode BASE64_STANDARD (header_encode BASE64_STANDARD
      \<lparr>bah_username = ''alice'', bah_device_id = 7, bah_password = ''a.b:c''\<rparr>)
    = Ok \<lparr>bah_username = ''alice'', bah_device_id = 7, bah_password = ''a.b:c''\<rparr>"
  by (rule header_round_trip) (simp_all add: rfc4648.base64_laws_axioms is_text_def)

text \<open>
  A header whose first dot comes after its first colon, so that only the password contains
  a dot, makes the decoder panic instead of returning an error.
\<close>

theorem header_dot_in_password_panics:
  assumes "CHR ''.'' \<notin> set u" "CHR '':'' \<notin> set u" "CHR ''.'' \<in> set p"
  shows "header_parse (u @ '':'' @ p) = Panic"
proof -
  obtain q r where p: "p = q @ CHR ''.'' # r" "CHR ''.'' \<notin> set q" using assms(3) by (metis split_list_first)
  have "find_char (CHR '':'') (u @ '':'' @ p) = Some (length u)"
    using find_char_append [OF assms(2), of p] by simp
  moreover have "find_char (CHR ''.'') (u @ '':'' @ p) = Some (length (u @ '':'' @ q))"
    using find_char_append [of "CHR ''.''" "u @ '':'' @ q" r] assms(1) p by simp
  ultimately show ?thesis by (simp add: header_parse_def ok_or_def split_at_def)
qed

theorem header_dot_in_password_panics_witness: "header_parse ''alice:pass.word'' = Panic"
  using header_dot_in_password_panics [of "''alice''" "''pass.word''"] by simp

section \<open>Protocol addresses\<close>

datatype parse_protocol_address_error = InvalidFormat | InvalidDeviceId

definition parse_protocol_address :: "string \<Rightarrow> (parse_protocol_address_error, protocol_address) outcome" where
  "parse_protocol_address s =
     bind (ok_or InvalidFormat (find_char (CHR ''.'') s)) (\<lambda>dot.
     bind (split_at dot s) (\<lambda>(username, device_part).
     bind (expect (ok_or () (strip_prefix (CHR ''.'') device_part))) (\<lambda>dev.
     bind (ok_or InvalidDeviceId (parse_u32 dev)) (\<lambda>i.
     Ok \<lparr>addr_name = username, addr_device_id = i\<rparr>))))"

text \<open>
  \<open>parse_protocol_address\<close> never panics: it fails with \<open>InvalidFormat\<close> exactly for
  text without a dot, and an address that it returns is the text before the first dot with the
  number after it.
\<close>

theorem parse_protocol_address_total:
  "case parse_protocol_address s of
     Ok a \<Rightarrow> CHR ''.'' \<notin> set (addr_name a) \<and> take (length (addr_name a) + 1) s = addr_name a @ ''.'' \<and>
       parse_u32 (drop (length (addr_name a) + 1) s) = Some (addr_device_id a)
   | Err InvalidFormat \<Rightarrow> CHR ''.'' \<notin> set s
   | Err InvalidDeviceId \<Rightarrow> CHR ''.'' \<in> set s
   | Panic \<Rightarrow> False"
proof (cases "CHR ''.'' \<in> set s")
  case True
  then obtain q r where s: "s = q @ CHR ''.'' # r" "CHR ''.'' \<notin> set q" by (metis split_list_first)
  then have "find_char (CHR ''.'') s = Some (length q)" by (simp add: find_char_append)
  then show ?thesis
    using s by (cases "parse_u32 r")
      (simp_all add: parse_protocol_address_def ok_or_def split_at_def expect_def strip_prefix_def)
next
  case False
  then show ?thesis using find_char_None_iff [of "CHR ''.''" s]
    by (simp add: parse_protocol_address_def ok_or_def)
qed

end
