(* ===== verification/Presence.thy ===== *)
theory Presence
  imports Redis Caches
begin

text \<open>
  \<open>ClientPresenceManager\<close> (\<open>server/src/managers/client_presence_manager.rs\<close>): which devices are
  connected, in the manager's own map of listeners and in Redis for all servers. A listener is a
  handle of type \<open>'l\<close> (\<open>Arc<Mutex<T>>\<close>); the calls of \<open>handle_displacement\<close> are recorded. Keys that
  would expire are present, an expired key is an absent one.
\<close>

section \<open>The manager\<close>

definition PRESENCE_EXPIRATION_SECONDS :: nat where "PRESENCE_EXPIRATION_SECONDS = 660"

record ('r, 'l) presence =
  pres_store :: 'r
  displacement_listeners :: "string \<rightharpoonup> 'l"
  manager_id :: string
  displaced :: "('l \<times> bool) list"

definition on_redis :: "('r, 'e, 'a) step \<Rightarrow> (('r, 'l) presence, 'e, 'a) step" where
  "on_redis m s = (case m (pres_store s) of (r, st) \<Rightarrow> (r, s\<lparr>pres_store := st\<rparr>))"

lemma on_redis_apply [simp]: "m (pres_store s) = (r, st) \<Longrightarrow> on_redis m s = (r, s\<lparr>pres_store := st\<rparr>)"
  by (simp add: on_redis_def)

definition get_presence_key :: "protocol_address \<Rightarrow> key" where
  "get_presence_key a = ''presence::{'' @ addr_name a @ ''::'' @ show_nat (addr_device_id a) @ ''}''"

definition clients_key :: "string \<Rightarrow> key" where
  "clients_key i = ''presence::clients::'' @ i"

definition get_set_key :: "('r, 'l) presence \<Rightarrow> key" where
  "get_set_key s = clients_key (manager_id s)"

definition is_locally_present :: "protocol_address \<Rightarrow> ('r, 'l) presence \<Rightarrow> bool" where
  "is_locally_present a s \<longleftrightarrow> displacement_listeners s (get_presence_key a) \<noteq> None"

definition set_listener :: "key \<Rightarrow> 'l option \<Rightarrow> ('r, 'l) presence \<Rightarrow> ('r, 'l) presence" where
  "set_listener k l s = s\<lparr>displacement_listeners := (displacement_listeners s)(k := l)\<rparr>"

definition call_listener :: "key \<Rightarrow> bool \<Rightarrow> ('r, 'l) presence \<Rightarrow> ('r, 'l) presence" where
  "call_listener k connected_elsewhere s =
     (case displacement_listeners s k of
        None \<Rightarrow> s
      | Some l \<Rightarrow> s\<lparr>displaced := displaced s @ [(l, connected_elsewhere)]\<rparr>)"

definition clear_presence :: "'r redis \<Rightarrow> key \<Rightarrow> (('r, 'l) presence, error, bool) step" where
  "clear_presence R k =
     bindS (modifyS (set_listener k None)) (\<lambda>_.
     bindS (on_redis (CONNECT R)) (\<lambda>_.
     bindS (on_redis (GET R k)) (\<lambda>v.
     if v \<noteq> None then bindS (on_redis (DEL R k)) (\<lambda>_. returnS True) else returnS False)))"

definition displace_presence :: "'r redis \<Rightarrow> key \<Rightarrow> bool \<Rightarrow> (('r, 'l) presence, error, bool) step" where
  "displace_presence R k connected_elsewhere =
     bindS (modifyS (call_listener k connected_elsewhere)) (\<lambda>_. clear_presence R k)"

definition set_present :: "'r redis \<Rightarrow> protocol_address \<Rightarrow> 'l \<Rightarrow> (('r, 'l) presence, error, unit) step" where
  "set_present R a l =
     (let k = get_presence_key a in
      bindS (getS (is_locally_present a)) (\<lambda>here.
      bindS (if here then bindS (displace_presence R k True) (\<lambda>_. returnS ()) else returnS ()) (\<lambda>_.
      bindS (modifyS (set_listener k (Some l))) (\<lambda>_.
      bindS (on_redis (CONNECT R)) (\<lambda>_.
      bindS (getS get_set_key) (\<lambda>sk.
      bindS (getS manager_id) (\<lambda>i.
      bindS (on_redis (SADD R sk k)) (\<lambda>_.
      on_redis (SETEX R k PRESENCE_EXPIRATION_SECONDS i)))))))))"

text \<open>The reply of \<open>GET\<close> is read as a \<open>String\<close>, so a missing key is an error.\<close>

definition renew_presence :: "'r redis \<Rightarrow> protocol_address \<Rightarrow> (('r, 'l) presence, error, unit) step" where
  "renew_presence R a =
     (let k = get_presence_key a in
      bindS (on_redis (CONNECT R)) (\<lambda>_.
      bindS (on_redis (GET R k)) (\<lambda>v.
      bindS (getS manager_id) (\<lambda>i.
      case v of
        None \<Rightarrow> failS ''Response was of incompatible type''
      | Some w \<Rightarrow> if w = i then on_redis (EXPIRE R k PRESENCE_EXPIRATION_SECONDS) else returnS ()))))"

text \<open>The loop of \<open>disconnect_all_presence\<close> collects the keys; their number is cast to a \<open>u8\<close>.\<close>

fun disconnect_loop :: "'r redis \<Rightarrow> string \<Rightarrow> key list \<Rightarrow> nat list \<Rightarrow> (('r, 'l) presence, error, key list) step" where
  "disconnect_loop R account_uuid ks [] = returnS ks"
| "disconnect_loop R account_uuid ks (i # is) =
     (let a = \<lparr>addr_name = account_uuid, addr_device_id = i\<rparr>; k = get_presence_key a in
      bindS (getS (is_locally_present a)) (\<lambda>here.
      bindS (if here then displace_presence R k False else returnS False) (\<lambda>gone.
      disconnect_loop R account_uuid (if gone then ks @ [k] else ks) is)))"

definition disconnect_all_presence :: "'r redis \<Rightarrow> string \<Rightarrow> nat list \<Rightarrow> (('r, 'l) presence, error, byte) step" where
  "disconnect_all_presence R account_uuid is =
     bindS (disconnect_loop R account_uuid [] is) (\<lambda>ks. returnS (word_of_nat (length ks)))"

definition disconnect_presence :: "'r redis \<Rightarrow> protocol_address \<Rightarrow> (('r, 'l) presence, error, byte) step" where
  "disconnect_presence R a = disconnect_all_presence R (addr_name a) [addr_device_id a]"

definition is_present :: "'r redis \<Rightarrow> protocol_address \<Rightarrow> (('r, 'l) presence, error, bool) step" where
  "is_present R a =
     bindS (on_redis (CONNECT R)) (\<lambda>_.
     bindS (on_redis (EXISTS R (get_presence_key a))) returnS)"

text \<open>
  \<open>clone\<close> copies the map of listeners but shares the connection pool: a step of a clone changes
  Redis and calls listeners, and leaves the map of the original as it was.
\<close>

definition on_clone :: "(('r, 'l) presence, 'e, 'a) step \<Rightarrow> (('r, 'l) presence, 'e, 'a) step" where
  "on_clone m s = (case m s of (r, s') \<Rightarrow>
     (r, s\<lparr>pres_store := pres_store s', displaced := displaced s'\<rparr>))"

section \<open>Simulation\<close>

definition map_pres :: "('r \<Rightarrow> 'k) \<Rightarrow> ('r, 'l) presence \<Rightarrow> ('k, 'l) presence" where
  "map_pres f s = \<lparr>pres_store = f (pres_store s), displacement_listeners = displacement_listeners s,
     manager_id = manager_id s, displaced = displaced s\<rparr>"

lemma map_pres_fields [simp]:
  "pres_store (map_pres f s) = f (pres_store s)" "displacement_listeners (map_pres f s) = displacement_listeners s"
  "manager_id (map_pres f s) = manager_id s" "displaced (map_pres f s) = displaced s"
  by (simp_all add: map_pres_def)

lemma sim_on_redis [sim_intros]: "simulates view m a \<Longrightarrow> simulates (map_pres view) (on_redis m) (on_redis a)"
  by (simp add: simulates_def on_redis_def map_pres_def split_def)

lemma sim_listeners [simp]:
  "map_pres view (set_listener k l s) = set_listener k l (map_pres view s)"
  "map_pres view (call_listener k b s) = call_listener k b (map_pres view s)"
  "is_locally_present a (map_pres view s) = is_locally_present a s"
  "get_set_key (map_pres view s) = get_set_key s"
  by (simp_all add: set_listener_def call_listener_def is_locally_present_def get_set_key_def map_pres_def
      split: option.split)

lemma map_pres_update:
  "map_pres view (s\<lparr>pres_store := t\<rparr>) = (map_pres view s)\<lparr>pres_store := view t\<rparr>"
  by (simp add: map_pres_def)

context redis_server
begin

lemma sim_clear_presence [sim_intros]:
  "simulates (map_pres view) (clear_presence R k) (clear_presence keyspace_redis k)"
  unfolding clear_presence_def by (intro sim_intros) simp_all

lemma sim_displace_presence [sim_intros]:
  "simulates (map_pres view) (displace_presence R k b) (displace_presence keyspace_redis k b)"
  unfolding displace_presence_def by (intro sim_intros) simp_all

lemma sim_set_present [sim_intros]:
  "simulates (map_pres view) (set_present R a l) (set_present keyspace_redis a l)"
  unfolding set_present_def by (intro sim_intros) simp_all

lemma sim_disconnect_loop [sim_intros]:
  "simulates (map_pres view) (disconnect_loop R u ks is) (disconnect_loop keyspace_redis u ks is)"
proof (induction "is" arbitrary: ks)
  case (Cons i "is")
  show ?case unfolding disconnect_loop.simps by (intro sim_intros Cons.IH) simp_all
qed (simp add: sim_intros)

lemma sim_disconnect_presence [sim_intros]:
  "simulates (map_pres view) (disconnect_presence R a) (disconnect_presence keyspace_redis a)"
  unfolding disconnect_presence_def disconnect_all_presence_def by (intro sim_intros)

lemma sim_renew_presence [sim_intros]:
  "simulates (map_pres view) (renew_presence R a) (renew_presence keyspace_redis a)"
  unfolding renew_presence_def by (intro sim_intros) simp_all

lemma sim_is_present [sim_intros]:
  "simulates (map_pres view) (is_present R a) (is_present keyspace_redis a)"
  unfolding is_present_def by (intro sim_intros)

end

section \<open>Effects\<close>

definition presence_typed :: "keyspace \<Rightarrow> bool" where
  "presence_typed K \<longleftrightarrow> (\<forall>a. str_key K (get_presence_key a)) \<and> (\<forall>i. set_key K (clients_key i))"

lemma presence_keys_differ [simp]: "get_presence_key a \<noteq> clients_key i"
    "clients_key i \<noteq> get_presence_key a"
  by (simp_all add: get_presence_key_def clients_key_def)

lemma presence_typedD: "presence_typed K \<Longrightarrow> str_key K (get_presence_key a)"
    "presence_typed K \<Longrightarrow> set_key K (clients_key i)"
  by (simp_all add: presence_typed_def)

lemma presence_typed_strs: "presence_typed K \<Longrightarrow> presence_typed (K\<lparr>strs := (strs K)(get_presence_key a := x)\<rparr>)"
  by (simp add: presence_typed_def str_key_def set_key_def)

lemma presence_typed_sadd:
  "presence_typed K \<Longrightarrow> presence_typed (K\<lparr>ssets := (ssets K)(clients_key i := S)\<rparr>)"
  by (simp add: presence_typed_def str_key_def set_key_def)

lemma presence_typed_empty: "presence_typed empty_keyspace"
  by (simp add: presence_typed_def str_key_def set_key_def empty_keyspace_def)

lemma del_str_key: "str_key K k \<Longrightarrow> del_key k K = K\<lparr>strs := (strs K)(k := None)\<rparr>"
  by (simp add: del_key_def str_key_def fun_upd_idem)

lemma keyspace_strs_triv: "strs K k = None \<Longrightarrow> K\<lparr>strs := (strs K)(k := None)\<rparr> = K"
  by (simp add: fun_upd_idem)

text \<open>Displacing and setting, over the documented commands.\<close>

lemma displace_effect:
  fixes s :: "(keyspace, 'l) presence"
  assumes "presence_typed (pres_store s)"
  shows "displace_presence keyspace_redis (get_presence_key a) b s =
    (Ok (strs (pres_store s) (get_presence_key a) \<noteq> None),
     set_listener (get_presence_key a) None (call_listener (get_presence_key a) b s)
       \<lparr>pres_store := (pres_store s)\<lparr>strs := (strs (pres_store s))(get_presence_key a := None)\<rparr>\<rparr>)"
proof -
  let ?k = "get_presence_key a" and ?K = "pres_store s"
  let ?t = "set_listener ?k None (call_listener ?k b s)"
  have store: "pres_store ?t = ?K" by (simp add: set_listener_def call_listener_def split: option.split)
  have same: "?t\<lparr>pres_store := ?K\<rparr> = ?t" using store by (cases s) (simp add: set_listener_def call_listener_def split: option.split)
  have typed: "str_key ?K ?k" by (rule presence_typedD [OF assms])
  show ?thesis
    by (cases "strs ?K ?k")
      (simp_all add: displace_presence_def clear_presence_def on_redis_def store same redis_simps typed
        del_str_key keyspace_strs_triv)
qed

lemma bind_displace:
  assumes "presence_typed (pres_store s)"
  shows "bindS (displace_presence keyspace_redis (get_presence_key a) b) f s =
    f (strs (pres_store s) (get_presence_key a) \<noteq> None)
     (set_listener (get_presence_key a) None (call_listener (get_presence_key a) b s)
       \<lparr>pres_store := (pres_store s)\<lparr>strs := (strs (pres_store s))(get_presence_key a := None)\<rparr>\<rparr>)"
  by (rule bindS_Ok) (rule displace_effect [OF assms])

lemma set_listener_fields [simp]:
  "displacement_listeners (set_listener k l s) = (displacement_listeners s)(k := l)"
  "pres_store (set_listener k l s) = pres_store s" "manager_id (set_listener k l s) = manager_id s"
  "displaced (set_listener k l s) = displaced s"
  by (simp_all add: set_listener_def)

lemma call_listener_fields [simp]:
  "displacement_listeners (call_listener k b s) = displacement_listeners s"
  "pres_store (call_listener k b s) = pres_store s" "manager_id (call_listener k b s) = manager_id s"
  "displaced (call_listener k b s) = displaced s @
     (case displacement_listeners s k of None \<Rightarrow> [] | Some l \<Rightarrow> [(l, b)])"
  by (simp_all add: call_listener_def split: option.split)

definition now_present :: "protocol_address \<Rightarrow> 'l \<Rightarrow> (keyspace, 'l) presence \<Rightarrow> (keyspace, 'l) presence" where
  "now_present a l s =
     (let k = get_presence_key a; K = pres_store s; sk = get_set_key s in
      s\<lparr>pres_store := K\<lparr>strs := (strs K)(k \<mapsto> manager_id s), ssets := (ssets K)(sk := insert k (ssets K sk))\<rparr>,
        displacement_listeners := (displacement_listeners s)(k \<mapsto> l),
        displaced := displaced s @ (case displacement_listeners s k of None \<Rightarrow> [] | Some old \<Rightarrow> [(old, True)])\<rparr>)"

lemma set_present_effect:
  fixes s :: "(keyspace, 'l) presence"
  assumes "presence_typed (pres_store s)"
  shows "set_present keyspace_redis a l s = (Ok (), now_present a l s)"
proof -
  let ?k = "get_presence_key a"
  have rest: "bindS (modifyS (set_listener ?k (Some l))) (\<lambda>_.
      bindS (on_redis (CONNECT keyspace_redis)) (\<lambda>_.
      bindS (getS get_set_key) (\<lambda>sk.
      bindS (getS manager_id) (\<lambda>i.
      bindS (on_redis (SADD keyspace_redis sk ?k)) (\<lambda>_.
      on_redis (SETEX keyspace_redis ?k PRESENCE_EXPIRATION_SECONDS i)))))) t =
     (Ok (), t\<lparr>pres_store := (pres_store t)\<lparr>strs := (strs (pres_store t))(?k \<mapsto> manager_id t),
        ssets := (ssets (pres_store t))(get_set_key t := insert ?k (ssets (pres_store t) (get_set_key t)))\<rparr>,
        displacement_listeners := (displacement_listeners t)(?k \<mapsto> l)\<rparr>)"
    if "presence_typed (pres_store t)" for t :: "(keyspace, 'l) presence"
    using presence_typedD [OF that] presence_typedD(1) [OF presence_typed_sadd [OF that]]
    by (simp add: on_redis_def redis_simps get_set_key_def del_str_key set_listener_def)
  show ?thesis
  proof (cases "displacement_listeners s ?k")
    case None
    then show ?thesis
      using rest [OF assms] by (simp add: set_present_def is_locally_present_def Let_def now_present_def)
  next
    case (Some old)
    let ?t = "set_listener ?k None (call_listener ?k True s)
       \<lparr>pres_store := (pres_store s)\<lparr>strs := (strs (pres_store s))(?k := None)\<rparr>\<rparr>"
    have "presence_typed (pres_store ?t)" using presence_typed_strs [OF assms] by simp
    from rest [OF this] Some show ?thesis
      unfolding set_present_def
      by (simp add: is_locally_present_def Let_def bind_displace [OF assms] now_present_def
        get_set_key_def set_listener_def call_listener_def)
  qed
qed

lemma now_present_typed: "presence_typed (pres_store s) \<Longrightarrow> presence_typed (pres_store (now_present a l s))"
  using presence_typed_sadd [OF presence_typed_strs]
  by (simp add: now_present_def Let_def get_set_key_def presence_typed_def str_key_def set_key_def)

lemma disconnect_effect:
  fixes s :: "(keyspace, 'l) presence"
  assumes "presence_typed (pres_store s)"
  shows "disconnect_presence keyspace_redis a s =
    (case displacement_listeners s (get_presence_key a) of
       None \<Rightarrow> (Ok 0, s)
     | Some l \<Rightarrow> (Ok (if strs (pres_store s) (get_presence_key a) = None then 0 else 1),
         set_listener (get_presence_key a) None (call_listener (get_presence_key a) False s)
       \<lparr>pres_store := (pres_store s)\<lparr>strs := (strs (pres_store s))(get_presence_key a := None)\<rparr>\<rparr>))"
proof -
  have a: "\<lparr>addr_name = addr_name a, addr_device_id = addr_device_id a\<rparr> = a" by simp
  show ?thesis
    unfolding disconnect_presence_def disconnect_all_presence_def disconnect_loop.simps a Let_def bindS_assoc
    by (simp add: is_locally_present_def bind_displace [OF assms] split: option.split)
qed

lemma is_present_effect:
  "presence_typed (pres_store s) \<Longrightarrow>
    is_present keyspace_redis a s = (Ok (strs (pres_store s) (get_presence_key a) \<noteq> None), s)"
  using presence_typedD(1) [of "pres_store s" a]
  by (auto simp: is_present_def on_redis_def redis_simps hash_key_def zset_key_def str_key_def)

lemma renew_effect:
  "presence_typed (pres_store s) \<Longrightarrow> snd (renew_presence keyspace_redis a s) = s"
  using presence_typedD(1) [of "pres_store s" a]
  by (simp add: renew_presence_def Let_def on_redis_def redis_simps split: option.split)

section \<open>Properties\<close>

text \<open>The same effects on any Redis server.\<close>

context redis_server
begin

lemma set_present_on_server:
  assumes "presence_typed (view (pres_store s))"
  shows "\<exists>s'. set_present R a l s = (Ok (), s') \<and> map_pres view s' = now_present a l (map_pres view s)"
  using simD [OF sim_set_present set_present_effect [of "map_pres view s"]] assms by simp

lemma disconnect_on_server:
  assumes "presence_typed (view (pres_store s))"
  shows "fst (disconnect_presence R a s) = fst (disconnect_presence keyspace_redis a (map_pres view s))"
    "map_pres view (snd (disconnect_presence R a s)) = snd (disconnect_presence keyspace_redis a (map_pres view s))"
  by (rule sim_fst [OF sim_disconnect_presence], rule sim_snd [OF sim_disconnect_presence])

lemma is_present_on_server:
  assumes "presence_typed (view (pres_store s))"
  shows "fst (is_present R a s) = Ok (strs (view (pres_store s)) (get_presence_key a) \<noteq> None)"
  unfolding sim_fst [OF sim_is_present] using is_present_effect [of "map_pres view s" a] assms by simp

end

lemma map_pres_eqD:
  "map_pres view s' = t \<Longrightarrow> view (pres_store s') = pres_store t \<and> displacement_listeners s' = displacement_listeners t \<and>
     displaced s' = displaced t \<and> manager_id s' = manager_id t"
  by auto

lemma now_present_fields [simp]:
  "displacement_listeners (now_present a l s) = (displacement_listeners s)(get_presence_key a \<mapsto> l)"
  "strs (pres_store (now_present a l s)) = (strs (pres_store s))(get_presence_key a \<mapsto> manager_id s)"
  "displaced (now_present a l s) = displaced s @
     (case displacement_listeners s (get_presence_key a) of None \<Rightarrow> [] | Some old \<Rightarrow> [(old, True)])"
  "manager_id (now_present a l s) = manager_id s"
  "ssets (pres_store (now_present a l s)) (get_set_key s) =
     insert (get_presence_key a) (ssets (pres_store s) (get_set_key s))"
  by (simp_all add: now_present_def Let_def)

text \<open>
  \<open>set_present\<close> on a Redis server whose presence keys have their types always succeeds:
  the new listener replaces the old one, which is told exactly once that the client has connected
  elsewhere; Redis maps the address to this manager and lists it in the manager's set.
\<close>

theorem set_present_displaces:
  assumes "redis_server R view" "presence_typed (view (pres_store s))"
  shows "\<exists>s'. set_present R a l s = (Ok (), s') \<and>
    displacement_listeners s' = (displacement_listeners s)(get_presence_key a \<mapsto> l) \<and>
    displaced s' = displaced s @
      (case displacement_listeners s (get_presence_key a) of None \<Rightarrow> [] | Some old \<Rightarrow> [(old, True)]) \<and>
    strs (view (pres_store s')) = (strs (view (pres_store s)))(get_presence_key a \<mapsto> manager_id s) \<and>
    get_presence_key a \<in> ssets (view (pres_store s')) (get_set_key s)"
proof -
  obtain s' where s': "set_present R a l s = (Ok (), s')"
    and eq: "map_pres view s' = now_present a l (map_pres view s)"
    using redis_server.set_present_on_server [OF assms] by blast
  have "ssets (pres_store (now_present a l (map_pres view s))) (get_set_key (map_pres view s)) =
      insert (get_presence_key a) (ssets (view (pres_store s)) (get_set_key s))"
    by (subst now_present_fields) simp
  with map_pres_eqD [OF eq] s' show ?thesis by (intro exI [of _ s']) simp
qed

theorem set_present_displaces_witness:
  "displaced (snd (set_present keyspace_redis \<lparr>addr_name = ''alice'', addr_device_id = 1\<rparr> (2 :: nat)
     (snd (set_present keyspace_redis \<lparr>addr_name = ''alice'', addr_device_id = 1\<rparr> 1
       \<lparr>pres_store = empty_keyspace, displacement_listeners = Map.empty, manager_id = ''m'', displaced = []\<rparr>)))) =
   [(1, True)]"
proof -
  let ?a = "\<lparr>addr_name = ''alice'', addr_device_id = 1\<rparr>"
  let ?s = "\<lparr>pres_store = empty_keyspace, displacement_listeners = Map.empty, manager_id = ''m'', displaced = []\<rparr>
     :: (keyspace, nat) presence"
  let ?t = "now_present ?a 1 ?s"
  have t: "set_present keyspace_redis ?a 1 ?s = (Ok (), ?t)"
    by (rule set_present_effect) (simp add: presence_typed_empty)
  have "presence_typed (pres_store ?t)" by (rule now_present_typed) (simp add: presence_typed_empty)
  from set_present_displaces [OF keyspace.redis_server_axioms this, of ?a 2] t show ?thesis by auto
qed

text \<open>
  C23 (safety). Presence is not owned: after server A and then server B have set the same address
  present, a disconnection on A counts one connection and removes the key that B had written, so the
  client that is connected to B is reported as absent while B still has its listener, and B's
  listener is not called.
\<close>

theorem disconnect_removes_presence_of_other:
  assumes "redis_server R view" "presence_typed (view (pres_store A))"
  shows "let A1 = snd (set_present R a l A);
             B1 = snd (set_present R a l' (B\<lparr>pres_store := pres_store A1\<rparr>));
             (r, A2) = disconnect_presence R a (A1\<lparr>pres_store := pres_store B1\<rparr>);
             B2 = B1\<lparr>pres_store := pres_store A2\<rparr>
         in r = Ok 1 \<and> fst (is_present R a B1) = Ok True \<and> fst (is_present R a B2) = Ok False \<and>
            is_locally_present a B2 \<and> displaced B2 = displaced B1"
proof -
  note on_server = redis_server.set_present_on_server [OF assms(1)]
  obtain A1 where A1: "set_present R a l A = (Ok (), A1)" "map_pres view A1 = now_present a l (map_pres view A)"
    using on_server [OF assms(2)] by blast
  have typed: "presence_typed (view (pres_store A1))"
    using map_pres_eqD [OF A1(2)] now_present_typed [of "map_pres view A"] assms(2) by simp
  then obtain B1 where B1: "set_present R a l' (B\<lparr>pres_store := pres_store A1\<rparr>) = (Ok (), B1)"
      "map_pres view B1 = now_present a l' (map_pres view (B\<lparr>pres_store := pres_store A1\<rparr>))"
    using on_server [of "B\<lparr>pres_store := pres_store A1\<rparr>"] by auto
  have typed1: "presence_typed (view (pres_store B1))"
    using map_pres_eqD [OF B1(2)] now_present_typed [of "map_pres view (B\<lparr>pres_store := pres_store A1\<rparr>)"] typed
    by simp
  define A' where "A' = A1\<lparr>pres_store := pres_store B1\<rparr>"
  have A': "presence_typed (pres_store (map_pres view A'))"
      "displacement_listeners (map_pres view A') (get_presence_key a) = Some l"
      "strs (pres_store (map_pres view A')) (get_presence_key a) = Some (manager_id B)"
      "pres_store (map_pres view A') = view (pres_store B1)"
    using map_pres_eqD [OF A1(2)] map_pres_eqD [OF B1(2)] typed1 by (simp_all add: A'_def)
  obtain r A2 where A2: "disconnect_presence R a A' = (r, A2)" by fastforce
  have disc: "disconnect_presence keyspace_redis a (map_pres view A') =
      (Ok 1, set_listener (get_presence_key a) None (call_listener (get_presence_key a) False (map_pres view A'))
       \<lparr>pres_store := (view (pres_store B1))\<lparr>strs := (strs (view (pres_store B1)))(get_presence_key a := None)\<rparr>\<rparr>)"
    unfolding disconnect_effect [OF A'(1)] using A' by simp
  have typed_A': "presence_typed (view (pres_store A'))" using A'(1) by simp
  have "r = Ok 1" using redis_server.disconnect_on_server(1) [OF assms(1) typed_A', of a] A2 disc by simp
  moreover have "map_pres view A2 = snd (disconnect_presence keyspace_redis a (map_pres view A'))"
    using redis_server.disconnect_on_server(2) [OF assms(1) typed_A', of a] A2 by simp
  then have store2: "view (pres_store A2) =
      (view (pres_store B1))\<lparr>strs := (strs (view (pres_store B1)))(get_presence_key a := None)\<rparr>"
    unfolding disc using map_pres_eqD by fastforce
  ultimately have eff: "r = Ok 1" "view (pres_store A2) =
      (view (pres_store B1))\<lparr>strs := (strs (view (pres_store B1)))(get_presence_key a := None)\<rparr>" by simp_all
  have typed2: "presence_typed (view (pres_store A2))" unfolding eff by (rule presence_typed_strs [OF typed1])
  show ?thesis
    using redis_server.is_present_on_server [OF assms(1) typed1, of a] eff map_pres_eqD [OF B1(2)]
      redis_server.is_present_on_server [OF assms(1), of "B1\<lparr>pres_store := pres_store A2\<rparr>" a] typed2
    by (simp add: A1(1) B1(1) A2 [unfolded A'_def] is_locally_present_def)
qed

theorem disconnect_removes_presence_of_other_witness:
  "let a = \<lparr>addr_name = ''alice'', addr_device_id = 1\<rparr>;
       A = \<lparr>pres_store = empty_keyspace, displacement_listeners = Map.empty, manager_id = ''A'', displaced = []\<rparr>;
       B = A\<lparr>manager_id := ''B''\<rparr>;
       A1 = snd (set_present keyspace_redis a (1 :: nat) A);
       B1 = snd (set_present keyspace_redis a 2 (B\<lparr>pres_store := pres_store A1\<rparr>));
       A2 = snd (disconnect_presence keyspace_redis a (A1\<lparr>pres_store := pres_store B1\<rparr>))
   in fst (is_present keyspace_redis a (B1\<lparr>pres_store := pres_store A2\<rparr>)) = Ok False"
  using disconnect_removes_presence_of_other [OF keyspace.redis_server_axioms, of
      "\<lparr>pres_store = empty_keyspace, displacement_listeners = Map.empty, manager_id = ''A'', displaced = []\<rparr>"
      "\<lparr>addr_name = ''alice'', addr_device_id = 1\<rparr>" "1 :: nat" "2 :: nat"
      "\<lparr>pres_store = empty_keyspace, displacement_listeners = Map.empty, manager_id = ''B'', displaced = []\<rparr>"]
  by (simp add: presence_typed_empty Let_def split_def)

text \<open>A clone's connection is invisible to the original: see \<open>handle_keepalive\<close>.\<close>

lemma on_clone_keeps_listeners:
  "is_locally_present a (snd (on_clone m s)) = is_locally_present a s"
  by (simp add: on_clone_def is_locally_present_def split: prod.split)

end
