(* ===== verification/Server_Messages.thy ===== *)
theory Server_Messages
  imports Messages_Manager Denim_Manager
begin

text \<open>
  The handlers of \<open>server/src/server/server.rs\<close> for incoming messages: \<open>handle_put_messages\<close> checks
  the devices of the destination, queues one envelope per device, and hands the deniable chunks to
  \<open>handle_receiving_chunks\<close>, which assembles and forwards the deniable payloads. They act on the
  database and the caches. Everything that is not the repository's own is in the record of the
  environment; the \<open>n\<close>-th call that draws guids draws the stream \<open>guids n\<close>.
\<close>

section \<open>The environment\<close>

record ('d, 'r) server_env =
  env_db :: "'d signal_database"
  env_redis :: "'r redis"
  env_base64 :: base64
  env_ids :: id_codec
  env_envelopes :: "envelope codec"
  env_chunks :: "denim_chunk codec"
  env_payloads :: "deniable_payload codec"
  env_show_error :: "db_error \<Rightarrow> string"
  env_json_devices :: "mismatched_devices_error \<Rightarrow> string"
  env_json_ids :: "nat list \<Rightarrow> string"
  env_map_order :: "(account \<times> deniable_payload list) list \<Rightarrow> (account \<times> deniable_payload list) list"

abbreviation (input) FORBIDDEN :: nat where "FORBIDDEN \<equiv> 403"
abbreviation (input) CONFLICT :: nat where "CONFLICT \<equiv> 409"
abbreviation (input) GONE :: nat where "GONE \<equiv> 410"

record send_message_response =
  needs_sync :: bool

section \<open>Deniable payloads\<close>

text \<open>\<open>entry(account).or_insert_with(Vec::new).push(payload)\<close> on a map of accounts, as an association list.\<close>

fun push_payload :: "account \<Rightarrow> deniable_payload \<Rightarrow> (account \<times> deniable_payload list) list
    \<Rightarrow> (account \<times> deniable_payload list) list" where
  "push_payload a p [] = [(a, [p])]"
| "push_payload a p ((b, ps) # m) = (if b = a then (b, ps @ [p]) # m else (b, ps) # push_payload a p m)"

text \<open>\<open>u32 as u8\<close>.\<close>

definition as_u8 :: "nat \<Rightarrow> nat" where
  "as_u8 n = n mod 256"

text \<open>\<open>expect\<close> on the result of a step.\<close>

definition expectS :: "('s, 'e, 'a) step \<Rightarrow> ('s, 'f, 'a) step" where
  "expectS m s = (case m s of (r, s') \<Rightarrow> (expect r, s'))"

text \<open>
  One round of the loop over the payloads. An error of \<open>handle_get_keys_id_device_id\<close> is expected not
  to happen; other kinds of payloads are dropped.
\<close>

definition dispatch_payload :: "('d, 'r) server_env \<Rightarrow> nat \<Rightarrow> authenticated_device \<Rightarrow> nat \<Rightarrow> nat
    \<Rightarrow> (account \<times> deniable_payload list) list \<Rightarrow> deniable_payload
    \<Rightarrow> (('d, 'r, 'l) backend, db_error, (account \<times> deniable_payload list) list) step" where
  "dispatch_payload E now ad receiver_device_id timestamp m p =
     (case p of
        KeyRequest r \<Rightarrow>
          bindS (liftS (ok_or (Anyhow ''Failed to get service id'')
            (parse_from_service_id_string (env_ids E) (pkr_service_id r)))) (\<lambda>sid.
          bindS (expectS (on_db (handle_get_keys_id_device_id (env_db E) (env_ids E) (env_show_error E) ad sid
            (show_nat receiver_device_id)))) (\<lambda>response.
          returnS (push_payload (auth_account ad) (KeyResponse response) m)))
      | DenSignalMessage msg \<Rightarrow>
          bindS (liftS (expect (ok_or () (sm_destination_service_id msg)))) (\<lambda>dest.
          bindS (liftS (expect (ok_or () (parse_from_service_id_string (env_ids E) dest)))) (\<lambda>sid.
          bindS (liftS (expect (to_envelope (env_ids E) (env_base64 E) now msg sid (auth_account ad)
            (as_u8 (device_id (auth_device ad))) timestamp False))) (\<lambda>envelope.
          bindS (on_db (get_account (env_db E) sid)) (\<lambda>receiver.
          returnS (push_payload receiver (DenEnvelope envelope) m)))))
      | _ \<Rightarrow> returnS m)"

fun dispatch_payloads :: "('d, 'r) server_env \<Rightarrow> nat \<Rightarrow> authenticated_device \<Rightarrow> nat \<Rightarrow> nat
    \<Rightarrow> (account \<times> deniable_payload list) list \<Rightarrow> deniable_payload list
    \<Rightarrow> (('d, 'r, 'l) backend, db_error, (account \<times> deniable_payload list) list) step" where
  "dispatch_payloads E now ad receiver_device_id timestamp m [] = returnS m"
| "dispatch_payloads E now ad receiver_device_id timestamp m (p # ps) =
     bindS (dispatch_payload E now ad receiver_device_id timestamp m p) (\<lambda>m'.
     dispatch_payloads E now ad receiver_device_id timestamp m' ps)"

text \<open>The two nested loops that store the payloads for every device of their account.\<close>

fun store_for_devices :: "('d, 'r) server_env \<Rightarrow> nat \<Rightarrow> (nat \<Rightarrow> nat \<Rightarrow> string) \<Rightarrow> nat \<Rightarrow> account \<Rightarrow> deniable_payload list
    \<Rightarrow> device list \<Rightarrow> (('d, 'r, 'l) backend, db_error, nat) step" where
  "store_for_devices E now guids n a ps [] = returnS n"
| "store_for_devices E now guids n a ps (d # ds) =
     bindS (on_cache (enqueue_outgoing_payload_buffer (env_redis E) (env_base64 E) (env_payloads E) now (guids n)
       (account_protocol_address (env_ids E) a KindAci (device_id d)) ps)) (\<lambda>_.
     store_for_devices E now guids (n + 1) a ps ds)"

fun store_payloads :: "('d, 'r) server_env \<Rightarrow> nat \<Rightarrow> (nat \<Rightarrow> nat \<Rightarrow> string) \<Rightarrow> nat
    \<Rightarrow> (account \<times> deniable_payload list) list \<Rightarrow> (('d, 'r, 'l) backend, db_error, unit) step" where
  "store_payloads E now guids n [] = returnS ()"
| "store_payloads E now guids n ((a, ps) # m) =
     bindS (store_for_devices E now guids n a ps (devices a)) (\<lambda>n'. store_payloads E now guids n' m)"

definition handle_receiving_chunks :: "('d, 'r) server_env \<Rightarrow> nat \<Rightarrow> (nat \<Rightarrow> nat \<Rightarrow> string) \<Rightarrow> authenticated_device
    \<Rightarrow> account \<Rightarrow> denim_chunk list \<Rightarrow> nat \<Rightarrow> (('d, 'r, 'l) backend, db_error, unit) step" where
  "handle_receiving_chunks E now guids ad destination chunks timestamp =
     (let chunks = filter (\<lambda>c. flags c \<noteq> chunk_type_to_i32 Dummy) chunks in
      if chunks = [] then returnS ()
      else
        bindS (liftS (ok_or (Anyhow ''Error'') (case devices destination of [] \<Rightarrow> None | d # _ \<Rightarrow> Some (device_id d))))
          (\<lambda>receiver_device_id.
        let sender = auth_protocol_address (env_ids E) ad KindAci in
        bindS (on_cache (enqueue_incoming_chunk_buffer (env_redis E) (env_base64 E) (env_chunks E) now (guids 0)
          sender chunks)) (\<lambda>_.
        if \<not> list_ex (\<lambda>c. flags c = chunk_type_to_i32 Final) chunks then returnS ()
        else
          bindS (on_cache (flush_incoming_chunk_buffer (env_redis E) (env_base64 E) (env_chunks E)
            (deserialize (env_payloads E)) now (guids 1) sender)) (\<lambda>ps.
          bindS (dispatch_payloads E now ad receiver_device_id timestamp [] ps) (\<lambda>m.
          store_payloads E now guids 2 (env_map_order E m))))))"

section \<open>Regular messages\<close>

fun regular_messages :: "denim_message list \<Rightarrow> signal_message list" where
  "regular_messages [] = []"
| "regular_messages (m # ms) =
     (case dm_regular_payload m of RegularSignalMessage x \<Rightarrow> x # regular_messages ms | _ \<Rightarrow> regular_messages ms)"

definition deniable_chunks :: "denim_message list \<Rightarrow> denim_chunk list" where
  "deniable_chunks ms = concat (map dm_chunks ms)"

text \<open>The loop over the regular messages; \<open>guid k\<close> stamps the \<open>k\<close>-th.\<close>

fun insert_regulars :: "('d, 'r) server_env \<Rightarrow> nat \<Rightarrow> (nat \<Rightarrow> string) \<Rightarrow> authenticated_device \<Rightarrow> service_id \<Rightarrow> account
    \<Rightarrow> nat \<Rightarrow> nat \<Rightarrow> signal_message list \<Rightarrow> (('d, 'r, 'l) backend, api_error, unit) step" where
  "insert_regulars E now guid ad dest destination timestamp k [] = returnS ()"
| "insert_regulars E now guid ad dest destination timestamp k (m # ms) =
     bindS (liftS (expect (to_envelope (env_ids E) (env_base64 E) now m dest (auth_account ad)
       (as_u8 (device_id (auth_device ad))) timestamp False))) (\<lambda>envelope.
     bindS (map_errS (\<lambda>_. api INTERNAL_SERVER_ERROR ''Could not insert message'')
       (manager_insert (env_redis E) (env_base64 E) (env_envelopes E) now (guid k)
         \<lparr>addr_name = service_id_string (env_ids E) (Aci (aci destination)), addr_device_id = destination_device_id m\<rparr>
         envelope)) (\<lambda>_.
     insert_regulars E now guid ad dest destination timestamp (k + 1) ms))"

text \<open>The account that the message is for.\<close>

definition destination_account :: "('d, 'r) server_env \<Rightarrow> authenticated_device \<Rightarrow> service_id
    \<Rightarrow> (('d, 'r, 'l) backend, api_error, account) step" where
  "destination_account E ad dest =
     (if dest = Aci (aci (auth_account ad)) then returnS (auth_account ad)
      else map_errS (\<lambda>_. api NOT_FOUND ''Destination account not found'') (on_db (get_account (env_db E) dest)))"

definition handle_put_messages :: "('d, 'r) server_env \<Rightarrow> nat \<Rightarrow> (nat \<Rightarrow> string) \<Rightarrow> (nat \<Rightarrow> nat \<Rightarrow> string)
    \<Rightarrow> authenticated_device \<Rightarrow> service_id \<Rightarrow> denim_messages
    \<Rightarrow> (('d, 'r, 'l) backend, api_error, send_message_response) step" where
  "handle_put_messages E now guid guids ad dest payload =
     (if dest = Pni (pni (auth_account ad)) then failS (api FORBIDDEN '''')
      else
        let is_sync_message = (dest = Aci (aci (auth_account ad)));
            regulars = regular_messages (messages payload);
            chunks = deniable_chunks (messages payload);
            exclude = (if is_sync_message then [device_id (auth_device ad)] else [])
        in
        bindS (destination_account E ad dest) (\<lambda>destination.
        bindS (liftS (map_err (\<lambda>e. api CONFLICT (env_json_devices E e))
          (validate_complete_device_list destination (map destination_device_id regulars) exclude))) (\<lambda>_.
        bindS (liftS (map_err (\<lambda>e. api GONE (env_json_ids E e))
          (validate_registration_id_from_messages destination regulars (kind dest = KindPni)))) (\<lambda>_.
        bindS (insert_regulars E now guid ad dest destination (dms_timestamp payload) 0 regulars) (\<lambda>_.
        bindS (map_errS (\<lambda>e. api INTERNAL_SERVER_ERROR (''internal error: '' @ env_show_error E e))
          (handle_receiving_chunks E now guids ad destination chunks (dms_timestamp payload))) (\<lambda>_.
        returnS \<lparr>needs_sync = (\<not> is_sync_message \<and> 1 < length (devices (auth_account ad)))\<rparr>))))))"

end
