(* ===== verification/Frames.thy ===== *)
theory Frames
  imports Server_Messages Denim_Server
begin

text \<open>
  Which keys an operation can touch. A step that only issues commands on keys of a set leaves every
  other key as it was, whatever it replies; so a queue that shares no key with it but the index keeps
  what it holds. The rules follow the structure of the programs, like those of the simulation.
\<close>

section \<open>Touching only some keys\<close>

definition touches :: "('s \<Rightarrow> keyspace) \<Rightarrow> key set \<Rightarrow> ('s, 'e, 'a) step \<Rightarrow> bool" where
  "touches v S m \<longleftrightarrow> (\<forall>s. same_except S (v s) (v (snd (m s))))"

named_theorems touch_intros \<open>the keys of a step\<close>

lemma touchesD: "touches v S m \<Longrightarrow> m s = (r, s') \<Longrightarrow> same_except S (v s) (v s')"
  unfolding touches_def by (metis snd_conv)

lemma same_except_mono: "same_except S K K' \<Longrightarrow> S \<subseteq> T \<Longrightarrow> same_except T K K'"
  by (auto simp: same_except_def)

lemma touches_mono: "touches v S m \<Longrightarrow> S \<subseteq> T \<Longrightarrow> touches v T m"
  by (auto simp: touches_def intro: same_except_mono)

lemma touches_pure [touch_intros]:
  "touches v S (returnS x)" "touches v S (failS e)" "touches v S (liftS r)"
  by (simp_all add: touches_def)

lemma touches_bindS [touch_intros]:
  assumes "touches v S m" "\<And>x. touches v S (f x)"
  shows "touches v S (bindS m f)"
  unfolding touches_def
proof
  fix s
  obtain r s' where m: "m s = (r, s')" by fastforce
  have s': "same_except S (v s) (v s')" by (rule touchesD [OF assms(1) m])
  show "same_except S (v s) (v (snd (bindS m f s)))"
  proof (cases r)
    case (Ok x)
    from assms(2) [of x] have "same_except S (v s') (v (snd (f x s')))" by (simp add: touches_def)
    with s' m Ok show ?thesis by (auto intro: same_except_trans)
  qed (use m s' in simp_all)
qed

lemma touches_forS [touch_intros]: "(\<And>x. touches v S (f x)) \<Longrightarrow> touches v S (forS xs f)"
  by (induction xs) (auto intro!: touch_intros)

lemma touches_if [touch_intros]: "\<lbrakk> b \<Longrightarrow> touches v S m; \<not> b \<Longrightarrow> touches v S m' \<rbrakk> \<Longrightarrow> touches v S (if b then m else m')"
  by simp

lemma touches_case_option [touch_intros]:
  "\<lbrakk> x = None \<Longrightarrow> touches v S m; \<And>y. x = Some y \<Longrightarrow> touches v S (f y) \<rbrakk>
    \<Longrightarrow> touches v S (case x of None \<Rightarrow> m | Some y \<Rightarrow> f y)"
  by (cases x) simp_all

lemma touches_case_list [touch_intros]:
  "\<lbrakk> xs = [] \<Longrightarrow> touches v S m; \<And>y ys. xs = y # ys \<Longrightarrow> touches v S (f y ys) \<rbrakk>
    \<Longrightarrow> touches v S (case xs of [] \<Rightarrow> m | y # ys \<Rightarrow> f y ys)"
  by (cases xs) simp_all

lemma touches_case_prod [touch_intros]: "(\<And>a b. touches v S (f a b)) \<Longrightarrow> touches v S (case p of (a, b) \<Rightarrow> f a b)"
  by (cases p) simp

lemma touches_Let [touch_intros]: "(\<And>x. touches v S (f x)) \<Longrightarrow> touches v S (let x = t in f x)"
  by simp

section \<open>The commands\<close>

abbreviation touching :: "key set \<Rightarrow> (keyspace, 'e, 'a) step \<Rightarrow> bool" where
  "touching \<equiv> touches (\<lambda>K. K)"

lemma touches_checked:
  "(\<And>K. same_except S K (snd (f K))) \<Longrightarrow> touching S (checked ty k f)"
  by (simp add: touches_def checked_def split: prod.split) (metis snd_conv)

lemma touches_reads [touch_intros]:
  "touching S (CONNECT keyspace_redis)" "touching S (HEXISTS keyspace_redis k f)"
  "touching S (HGET keyspace_redis k f)" "touching S (ZRANGE keyspace_redis k i j)"
  "touching S (ZRANGE_BYSCORE keyspace_redis k a b l)" "touching S (ZCARD keyspace_redis k)"
  "touching S (EXISTS keyspace_redis k)" "touching S (EXPIRE keyspace_redis k n)" "touching S (GET keyspace_redis k)"
  by (simp_all add: keyspace_redis_def touch_intros touches_checked) (simp_all add: touches_def)

lemma touches_writes [touch_intros]:
  assumes "k \<in> S"
  shows "touching S (HSET keyspace_redis k f x)" "touching S (HDEL keyspace_redis k f)"
    "touching S (HINCRBY keyspace_redis k f n)" "touching S (ZADD keyspace_redis nx k sc m)"
    "touching S (ZREM keyspace_redis k ms)" "touching S (ZREMRANGEBYSCORE keyspace_redis k i j)"
    "touching S (DEL keyspace_redis k)"
  using assms
  by (simp_all add: keyspace_redis_def touches_checked)
    (simp_all add: touches_def hincrby_def split: option.split)

section \<open>The queues\<close>

abbreviation queue_keys :: "key \<Rightarrow> key \<Rightarrow> key \<Rightarrow> key set" where
  "queue_keys qk mk ik \<equiv> {qk, mk, rev_key mk, ik}"

lemma touches_redis_insert [touch_intros]:
  "queue_keys qk mk ik \<subseteq> S \<Longrightarrow> touching S (redis_insert keyspace_redis b64 now qk mk ik g x)"
  unfolding redis_insert_def by (intro touch_intros) auto

lemma touches_redis_remove [touch_intros]:
  "queue_keys qk mk ik \<subseteq> S \<Longrightarrow> touching S (redis_remove keyspace_redis dec qk mk ik gs)"
  unfolding redis_remove_def redis_remove_one_def by (intro touch_intros) auto

lemma touches_get_values [touch_intros]: "touching S (get_values keyspace_redis qk lk mk n)"
  unfolding get_values_def by (intro touch_intros)

lemma touches_on_store [touch_intros]: "touching S m \<Longrightarrow> touches store S (on_store m)"
  by (simp add: touches_def on_store_def split: prod.split) (metis snd_conv)

lemma touches_and_then [touch_intros]: "touches store S m \<Longrightarrow> touches store S (and_then m (spawn t))"
  unfolding touches_def
proof
  fix s
  assume m: "\<forall>s. same_except S (store s) (store (snd (m s)))"
  obtain r s' where "m s = (r, s')" by fastforce
  with m [rule_format, of s] show "same_except S (store s) (store (snd (and_then m (spawn t) s)))"
    by (cases r) (simp_all add: and_then_def)
qed

abbreviation chunk_keys :: "protocol_address \<Rightarrow> buffer \<Rightarrow> key set" where
  "chunk_keys a b \<equiv> queue_keys (chunk_queue_key a b) (chunk_queue_metadata_key a b) (chunk_queue_index_key b)"

abbreviation payload_keys :: "protocol_address \<Rightarrow> buffer \<Rightarrow> key set" where
  "payload_keys a b \<equiv> queue_keys (payload_queue_key a b) (payload_queue_metadata_key a b) (payload_queue_index_key b)"

lemma touches_enqueue_chunk_buffer:
  "touches store (chunk_keys a b) (enqueue_chunk_buffer keyspace_redis b64 C now new_v4 b a k cnt cs)"
proof (induction cs arbitrary: k cnt)
  case (Cons c cs)
  show ?case unfolding enqueue_chunk_buffer.simps chunk_insert_def notify_cached_def
    by (intro touch_intros Cons.IH) auto
qed (simp add: touch_intros)

lemma touches_flush_chunk_buffer:
  "touches store (chunk_keys a b) (flush_chunk_buffer keyspace_redis b64 C de now new_v4 b a)"
  unfolding flush_chunk_buffer_def dequeue_chunks_def chunk_remove_def
  by (intro touch_intros touches_enqueue_chunk_buffer) auto

lemma touches_enqueue_payloads:
  "touches store (payload_keys a Receiver) (enqueue_payloads keyspace_redis b64 C now new_v4 a k cnt ps)"
proof (induction ps arbitrary: k cnt)
  case (Cons p ps)
  show ?case unfolding enqueue_payloads.simps payload_insert_def notify_cached_def
    by (intro touch_intros Cons.IH) auto
qed (simp add: touch_intros)

lemma touches_message_insert:
  "touches store (message_keys a) (message_insert keyspace_redis b64 C now a e g)"
  unfolding message_insert_def notify_cached_def by (intro touch_intros) auto

section \<open>Keys of different queues\<close>

lemma queue_name_inj: "queue_name a = queue_name b \<Longrightarrow> a = b"
  using split_last_unique [of "addr_name a @ '':''" "CHR '':''" "show_nat (addr_device_id a)" "addr_name b @ '':''"
      "show_nat (addr_device_id b)"]
  by (auto simp: queue_name_def show_nat_no_char dest: show_nat_inj)

lemma braced_inj [simp]: "braced a = braced b \<longleftrightarrow> a = b"
  by (auto simp: braced_def dest: queue_name_inj)

lemma braced_not_rev [simp]: "braced a \<noteq> braced b @ '':rev''"
proof
  assume "braced a = braced b @ '':rev''"
  then have "last (braced a) = last (braced b @ '':rev'')" by simp
  then show False by (simp add: braced_def)
qed

lemma braced_not_rev' [simp]: "braced b @ '':rev'' \<noteq> braced a"
  using braced_not_rev [of a b] by (rule not_sym)

end
