(* ===== verification/Delivery.thy ===== *)
theory Delivery
  imports Frames Persistence
begin

text \<open>
  What the handlers of messages achieve: the deniable messages that a client hides in its chunks are
  queued for every device of their receiver, whoever the regular messages are for.
\<close>

section \<open>Queues under other operations\<close>

lemma queue_rep_frame:
  assumes "queue_rep b64 qk mk ik K c items" "same_except S K K'" "qk \<notin> S" "mk \<notin> S" "rev_key mk \<notin> S"
    and "ik \<notin> S \<or> zset_key K' ik"
  shows "queue_rep b64 qk mk ik K' c items"
proof -
  have same: "hashes K' x = hashes K x \<and> zsets K' x = zsets K x \<and> strs K' x = strs K x \<and> ssets K' x = ssets K x"
    if "x \<in> {qk, mk, rev_key mk}" for x
    using assms(2-5) that by (auto simp: same_except_def)
  have "zset_key K' ik"
    using assms(1,2,6) by (auto simp: queue_rep_def keys_typed_def same_except_def zset_key_def)
  with assms(1) same show ?thesis
    unfolding queue_rep_def keys_typed_def zset_key_def hash_key_def by simp
qed

lemma chunk_payload_apart [simp]:
  "chunk_queue_key a b \<notin> payload_keys a' b'" "chunk_queue_metadata_key a b \<notin> payload_keys a' b'"
  "rev_key (chunk_queue_metadata_key a b) \<notin> payload_keys a' b'" "chunk_queue_index_key b \<notin> payload_keys a' b'"
  "chunk_persist_in_progress_key a b \<notin> payload_keys a' b'"
  "payload_queue_key a b \<notin> chunk_keys a' b'" "payload_queue_metadata_key a b \<notin> chunk_keys a' b'"
  "rev_key (payload_queue_metadata_key a b) \<notin> chunk_keys a' b'" "payload_queue_index_key b \<notin> chunk_keys a' b'"
  "payload_persist_in_progress_key a b \<notin> chunk_keys a' b'"
  by (simp_all add: chunk_queue_key_def chunk_persist_in_progress_key_def chunk_queue_metadata_key_def
      chunk_queue_index_key_def payload_queue_key_def payload_persist_in_progress_key_def
      payload_queue_metadata_key_def payload_queue_index_key_def rev_key_def)

lemma payload_kinds_apart [simp]:
  "payload_queue_key a b \<noteq> payload_queue_metadata_key a' b"
  "payload_queue_key a b \<noteq> rev_key (payload_queue_metadata_key a' b)"
  "payload_queue_key a b \<noteq> payload_queue_index_key b"
  "payload_queue_metadata_key a b \<noteq> payload_queue_index_key b"
  "rev_key (payload_queue_metadata_key a b) \<noteq> payload_queue_index_key b"
  by (cases b, simp_all add: payload_key_defs)+

lemma payload_lock_key_apart [simp]: "payload_persist_in_progress_key a b \<notin> payload_keys a' b"
  by (cases b) (simp_all add: payload_key_defs)

lemma payload_addresses_apart [simp]:
  "payload_queue_key a b = payload_queue_key a' b \<longleftrightarrow> a = a'"
  "payload_queue_metadata_key a b = payload_queue_metadata_key a' b \<longleftrightarrow> a = a'"
  "rev_key (payload_queue_metadata_key a b) = rev_key (payload_queue_metadata_key a' b) \<longleftrightarrow> a = a'"
  "payload_queue_metadata_key a b \<noteq> rev_key (payload_queue_metadata_key a' b)"
  by (simp_all add: payload_queue_key_def payload_queue_metadata_key_def rev_key_def)

lemma lock_frame:
  "\<lbrakk> same_except S K K'; lk \<notin> S; str_key K lk; strs K lk = None \<rbrakk> \<Longrightarrow> str_key K' lk \<and> strs K' lk = None"
  by (simp add: same_except_def str_key_def)

lemma chunk_rep_frame:
  assumes "chunk_rep b64 C a b K c xs" "same_except (payload_keys a' b') K K'"
  shows "chunk_rep b64 C a b K' c xs"
proof -
  obtain items where
    q: "queue_rep b64 (chunk_queue_key a b) (chunk_queue_metadata_key a b) (chunk_queue_index_key b) K c items"
      "map (\<lambda>it. (item_guid it, item_value it)) items = map (\<lambda>(g, x). (g, serialize C x)) xs"
      "str_key K (chunk_persist_in_progress_key a b)" "strs K (chunk_persist_in_progress_key a b) = None"
    using assms(1) by (auto simp: chunk_rep_def)
  have "queue_rep b64 (chunk_queue_key a b) (chunk_queue_metadata_key a b) (chunk_queue_index_key b) K' c items"
    by (rule queue_rep_frame [OF q(1) assms(2)]) (rule chunk_payload_apart | rule disjI1)+
  moreover have "str_key K' (chunk_persist_in_progress_key a b) \<and> strs K' (chunk_persist_in_progress_key a b) = None"
    by (rule lock_frame [OF assms(2) chunk_payload_apart(5) q(3,4)])
  ultimately show ?thesis using q(2) by (auto simp: chunk_rep_def)
qed

section \<open>Payload queues that wait for new payloads\<close>

text \<open>
  The queue of \<open>a\<close> holds \<open>rows\<close>, under guids outside of \<open>G\<close> and with a counter below the bound.
\<close>

definition payload_items :: "base64 \<Rightarrow> protocol_address \<Rightarrow> keyspace \<Rightarrow> nat \<Rightarrow> item list \<Rightarrow> bool" where
  "payload_items b64 a K c items \<longleftrightarrow>
     queue_rep b64 (payload_queue_key a Receiver) (payload_queue_metadata_key a Receiver)
       (payload_queue_index_key Receiver) K c items \<and>
     str_key K (payload_persist_in_progress_key a Receiver) \<and> strs K (payload_persist_in_progress_key a Receiver) = None"

definition rows_of :: "item list \<Rightarrow> row list" where
  "rows_of items = map (\<lambda>it. (item_value it, item_order it)) items"

definition waiting :: "base64 \<Rightarrow> string set \<Rightarrow> protocol_address \<Rightarrow> keyspace \<Rightarrow> row list \<Rightarrow> bool" where
  "waiting b64 G a K rows \<longleftrightarrow> (\<exists>c items. payload_items b64 a K c items \<and> rows_of items = rows \<and>
     set (map item_guid items) \<inter> G = {} \<and> c < 2 ^ 30)"

lemma payload_rep_items: "payload_rep b64 a Receiver K c qs \<longleftrightarrow> (\<exists>items. payload_items b64 a K c items \<and> rows_of items = qs)"
  by (auto simp: payload_items_def payload_rep_def rows_of_def)

lemma payload_items_frame:
  assumes "payload_items b64 a K c items" "same_except S K K'"
    and "payload_queue_key a Receiver \<notin> S" "payload_queue_metadata_key a Receiver \<notin> S"
      "rev_key (payload_queue_metadata_key a Receiver) \<notin> S" "payload_persist_in_progress_key a Receiver \<notin> S"
    and "payload_queue_index_key Receiver \<notin> S \<or> zset_key K' (payload_queue_index_key Receiver)"
  shows "payload_items b64 a K' c items"
  using assms(1) queue_rep_frame [OF _ assms(2) assms(3-5,7)] lock_frame [OF assms(2,6)]
  by (auto simp: payload_items_def)

lemma payload_items_chunks:
  assumes "payload_items b64 a K c items" "same_except (chunk_keys a' b) K K'"
  shows "payload_items b64 a K' c items"
  by (rule payload_items_frame [OF assms]) (rule chunk_payload_apart | rule disjI1)+

lemma payload_items_other:
  assumes "payload_items b64 a K c items" "same_except (payload_keys a' Receiver) K K'" "a \<noteq> a'"
    and "payload_items b64 a' K' c' items'"
  shows "payload_items b64 a K' c items"
proof (rule payload_items_frame [OF assms(1,2)])
  show "payload_queue_index_key Receiver \<notin> payload_keys a' Receiver \<or> zset_key K' (payload_queue_index_key Receiver)"
    using assms(4) by (simp add: payload_items_def queue_rep_def keys_typed_def)
qed (use assms(3) payload_lock_key_apart [of a Receiver a'] payload_kinds_apart [THEN not_sym] payload_addresses_apart(4) [THEN not_sym] in simp_all)

lemma payload_lock_apart:
  assumes "same_except (payload_keys a Receiver) K K'" "payload_items b64 a K c items"
  shows "str_key K' (payload_persist_in_progress_key a Receiver) \<and> strs K' (payload_persist_in_progress_key a Receiver) = None"
  by (rule lock_frame [OF assms(1) payload_lock_key_apart]) (use assms(2) in \<open>simp_all add: payload_items_def\<close>)

context base64_laws
begin

lemma enqueue_payloads_items:
  assumes "payload_items b64 a (store s) c items" "inj new_v4" "\<And>k. new_v4 k \<noteq> ''counter''"
    and "set (map item_guid items) \<inter> new_v4 ` {k..} = {}" "cnt + length ps * (c + length ps) < 2 ^ 63"
  shows "\<exists>n s' items'. enqueue_payloads keyspace_redis b64 C now new_v4 a k cnt ps s = (Ok n, s') \<and>
    payload_items b64 a (store s') (c + length ps) items' \<and>
    rows_of items' = rows_of items @ map (\<lambda>p. (serialize C p, 0)) ps"
  using assms
proof (induction ps arbitrary: s c items k cnt)
  case Nil
  then show ?case by (auto intro: exI [of _ items])
next
  case (Cons p ps)
  let ?n = "length ps" and ?it = "items @ [(c + 1, new_v4 k, serialize C p, 0)]"
  have bound: "cnt + (c + 1) + ?n * (c + 1 + ?n) < 2 ^ 63" using Cons.prems(5) by (simp add: algebra_simps)
  have c: "c + 1 < 2 ^ 63" using bound by linarith
  have k: "new_v4 k \<notin> set (map item_guid items)" using Cons.prems(4) by auto
  have q: "queue_rep b64 (payload_queue_key a Receiver) (payload_queue_metadata_key a Receiver)
      (payload_queue_index_key Receiver) (store s) c items" using Cons.prems(1) by (simp add: payload_items_def)
  from insert_fresh [OF q k Cons.prems(3) c, of now "serialize C p"] obtain K' where
    K': "redis_insert keyspace_redis b64 now (payload_queue_key a Receiver) (payload_queue_metadata_key a Receiver)
        (payload_queue_index_key Receiver) (new_v4 k) (serialize C p) (store s) = (Ok (c + 1), K')"
      "queue_rep b64 (payload_queue_key a Receiver) (payload_queue_metadata_key a Receiver)
        (payload_queue_index_key Receiver) K' (c + 1) ?it"
      "same_except (payload_keys a Receiver) (store s) K'" by blast
  let ?s1 = "spawn (Notify_cached (queue_name a)) (s\<lparr>store := K'\<rparr>)"
  have ins: "payload_insert keyspace_redis b64 C now a Receiver p (new_v4 k) s = (Ok (c + 1), ?s1)"
    using K'(1) by (simp add: payload_insert_def redis_simps notify_cached_def)
  have items: "payload_items b64 a (store ?s1) (c + 1) ?it"
    using K'(2) payload_lock_apart [OF K'(3) Cons.prems(1)] by (simp add: payload_items_def)
  have "new_v4 k \<notin> new_v4 ` {k + 1..}" using injD [OF Cons.prems(2)] by fastforce
  moreover have "set (map item_guid items) \<inter> new_v4 ` {k + 1..} = {}" using Cons.prems(4) by auto
  ultimately have fresh: "set (map item_guid ?it) \<inter> new_v4 ` {k + 1..} = {}" by auto
  from Cons.IH [OF items Cons.prems(2,3) fresh bound] obtain n s' items' where
    s': "enqueue_payloads keyspace_redis b64 C now new_v4 a (k + 1) (cnt + (c + 1)) ps ?s1 = (Ok n, s')"
      "payload_items b64 a (store s') (c + 1 + ?n) items'"
      "rows_of items' = rows_of ?it @ map (\<lambda>p. (serialize C p, 0)) ps" by blast
  have "u64_add cnt (c + 1) = (Ok (cnt + (c + 1)) :: (error, nat) outcome)" using bound by (simp add: u64_add_def)
  with ins s'(1) have "enqueue_payloads keyspace_redis b64 C now new_v4 a k cnt (p # ps) s = (Ok n, s')" by simp
  with s'(2,3) show ?case by (intro exI [of _ n] exI [of _ s'] exI [of _ items']) (simp add: rows_of_def)
qed

end

section \<open>Storing payloads for the devices of an account\<close>

definition guid_streams :: "(nat \<Rightarrow> nat \<Rightarrow> string) \<Rightarrow> bool" where
  "guid_streams guids \<longleftrightarrow> (\<forall>n. inj (guids n) \<and> (\<forall>k. guids n k \<noteq> ''counter'')) \<and>
     (\<forall>m n. m \<noteq> n \<longrightarrow> range (guids m) \<inter> range (guids n) = {})"

definition all_guids :: "(nat \<Rightarrow> nat \<Rightarrow> string) \<Rightarrow> string set" where
  "all_guids guids = (\<Union>n. range (guids n))"

abbreviation device_address :: "id_codec \<Rightarrow> account \<Rightarrow> device \<Rightarrow> protocol_address" where
  "device_address ids a d \<equiv> account_protocol_address ids a KindAci (device_id d)"

lemma device_address_eq: "device_address ids a d = device_address ids a e \<longleftrightarrow> device_id d = device_id e"
  by simp

lemma waiting_frame_other:
  assumes "waiting b64 G a K rows" "same_except (payload_keys a' Receiver) K K'" "a \<noteq> a'"
    "payload_items b64 a' K' c' items'"
  shows "waiting b64 G a K' rows"
proof -
  from assms(1) obtain c items where q: "payload_items b64 a K c items" "rows_of items = rows"
      "set (map item_guid items) \<inter> G = {}" "c < 2 ^ 30" unfolding waiting_def by blast
  from payload_items_other [OF q(1) assms(2,3,4)] q(2-4) show ?thesis unfolding waiting_def by blast
qed

lemma waiting_frame_chunks:
  "\<lbrakk> waiting b64 G a K rows; same_except (chunk_keys a' b) K K' \<rbrakk> \<Longrightarrow> waiting b64 G a K' rows"
  unfolding waiting_def using payload_items_chunks by blast

context base64_laws
begin

lemma enqueue_waiting:
  assumes "waiting b64 G a (store s) rows" "inj new_v4" "\<And>k. new_v4 k \<noteq> ''counter''" "range new_v4 \<subseteq> G"
    and "length ps < 2 ^ 30"
  shows "\<exists>n s' c items. enqueue_outgoing_payload_buffer keyspace_redis b64 C now new_v4 a ps s = (Ok n, s') \<and>
    payload_items b64 a (store s') c items \<and> rows_of items = rows @ map (\<lambda>p. (serialize C p, 0)) ps \<and>
    same_except (payload_keys a Receiver) (store s) (store s')"
proof -
  from assms(1) obtain c items where
    q: "payload_items b64 a (store s) c items" "rows_of items = rows" "set (map item_guid items) \<inter> G = {}" "c < 2 ^ 30"
    by (auto simp: waiting_def)
  have "length ps * (c + length ps) \<le> 2 ^ 30 * 2 ^ 31"
    using q(4) assms(5) by (intro mult_le_mono) simp_all
  then have bound: "0 + length ps * (c + length ps) < 2 ^ 63" by simp
  have fresh: "set (map item_guid items) \<inter> new_v4 ` {0..} = {}" using q(3) assms(4) by auto
  from enqueue_payloads_items [OF q(1) assms(2,3) fresh bound, of C now] obtain n s' items' where
    s': "enqueue_payloads keyspace_redis b64 C now new_v4 a 0 0 ps s = (Ok n, s')"
      "payload_items b64 a (store s') (c + length ps) items'"
      "rows_of items' = rows_of items @ map (\<lambda>p. (serialize C p, 0)) ps" by blast
  with q(2) touchesD [OF touches_enqueue_payloads s'(1)] show ?thesis
    by (auto simp: enqueue_outgoing_payload_buffer_def)
qed

end

text \<open>Over an environment whose Redis is the documented one.\<close>

lemma store_for_devices_rep:
  fixes E :: "('d, keyspace) server_env"
  assumes "base64_laws (env_base64 E)" "env_redis E = keyspace_redis" "guid_streams guids" "length ps < 2 ^ 30"
    and "distinct (map device_id ds)"
    and "\<And>d. d \<in> set ds \<Longrightarrow> waiting (env_base64 E) (all_guids guids) (device_address (env_ids E) a d) (store (cache s)) (rows d)"
  shows "\<exists>n' s'. store_for_devices E now guids n a ps ds s = (Ok n', s') \<and> database s' = database s \<and>
    (\<forall>d \<in> set ds. \<exists>c items. payload_items (env_base64 E) (device_address (env_ids E) a d) (store (cache s')) c items \<and>
       rows_of items = rows d @ map (\<lambda>p. (serialize (env_payloads E) p, 0)) ps) \<and>
    (\<forall>x c items. x \<notin> device_address (env_ids E) a ` set ds \<longrightarrow> payload_items (env_base64 E) x (store (cache s)) c items \<longrightarrow>
       payload_items (env_base64 E) x (store (cache s')) c items) \<and>
    (\<forall>x C c xs. chunk_rep (env_base64 E) C x Sender (store (cache s)) c xs \<longrightarrow>
       chunk_rep (env_base64 E) C x Sender (store (cache s')) c xs)"
  using assms(5,6)
proof (induction ds arbitrary: s n)
  case Nil
  then show ?case by simp
next
  case (Cons d ds)
  let ?a = "device_address (env_ids E) a d" and ?b64 = "env_base64 E"
  have g: "inj (guids n)" "\<And>k. guids n k \<noteq> ''counter''" "range (guids n) \<subseteq> all_guids guids"
    using assms(3) by (auto simp: guid_streams_def all_guids_def)
  from base64_laws.enqueue_waiting [OF assms(1) Cons.prems(2) g assms(4)] obtain k t c items where
    t: "enqueue_outgoing_payload_buffer keyspace_redis ?b64 (env_payloads E) now (guids n) ?a ps (cache s) = (Ok k, t)"
      "payload_items ?b64 ?a (store t) c items"
      "rows_of items = rows d @ map (\<lambda>p. (serialize (env_payloads E) p, 0)) ps"
      "same_except (payload_keys ?a Receiver) (store (cache s)) (store t)"
    by (metis list.set_intros(1))
  have later: "waiting ?b64 (all_guids guids) (device_address (env_ids E) a e) (store (cache (s\<lparr>cache := t\<rparr>))) (rows e)"
    if e: "e \<in> set ds" for e
  proof -
    have "device_id e \<noteq> device_id d" using e Cons.prems(1) by (auto simp: rev_image_eqI)
    then have "device_address (env_ids E) a e \<noteq> ?a" by simp
    moreover have "waiting ?b64 (all_guids guids) (device_address (env_ids E) a e) (store (cache s)) (rows e)"
      by (rule Cons.prems(2)) (simp add: e)
    ultimately show ?thesis using waiting_frame_other [OF _ t(4) _ t(2)] by simp
  qed
  have "distinct (map device_id ds)" using Cons.prems(1) by simp
  from Cons.IH [OF this later, of "n + 1"] obtain n' s' where
    s': "store_for_devices E now guids (n + 1) a ps ds (s\<lparr>cache := t\<rparr>) = (Ok n', s')" "database s' = database s"
      "\<And>d. d \<in> set ds \<Longrightarrow> \<exists>c items. payload_items ?b64 (device_address (env_ids E) a d) (store (cache s')) c items \<and>
        rows_of items = rows d @ map (\<lambda>p. (serialize (env_payloads E) p, 0)) ps"
      "\<And>x c items. x \<notin> device_address (env_ids E) a ` set ds \<Longrightarrow> payload_items ?b64 x (store t) c items \<Longrightarrow>
        payload_items ?b64 x (store (cache s')) c items"
      "\<And>x C c xs. chunk_rep ?b64 C x Sender (store t) c xs \<Longrightarrow> chunk_rep ?b64 C x Sender (store (cache s')) c xs"
    by auto
  have mine: "?a \<notin> device_address (env_ids E) a ` set ds" using Cons.prems(1) by (auto simp: rev_image_eqI)
  have run: "store_for_devices E now guids n a ps (d # ds) s = (Ok n', s')"
    using t(1) s'(1) assms(2) by simp
  have "payload_items ?b64 x (store (cache s')) c' its"
    if "x \<notin> device_address (env_ids E) a ` set (d # ds)" "payload_items ?b64 x (store (cache s)) c' its" for x c' its
    using that s'(4) payload_items_other [OF that(2) t(4) _ t(2)] by auto
  moreover have "chunk_rep ?b64 C x Sender (store (cache s')) c' xs"
    if "chunk_rep ?b64 C x Sender (store (cache s)) c' xs" for x C c' xs
    by (rule s'(5)) (rule chunk_rep_frame [OF that t(4)])
  moreover have "\<exists>c items. payload_items ?b64 (device_address (env_ids E) a e) (store (cache s')) c items \<and>
      rows_of items = rows e @ map (\<lambda>p. (serialize (env_payloads E) p, 0)) ps" if "e \<in> set (d # ds)" for e
  proof (cases "e = d")
    case True
    then show ?thesis using s'(4) [OF mine t(2)] t(3) by blast
  next
    case False
    then show ?thesis using that s'(3) by simp
  qed
  ultimately show ?case using run s'(2) by blast
qed

section \<open>Dispatching deniable messages\<close>

definition envelope_for :: "('d, 'r) server_env \<Rightarrow> nat \<Rightarrow> authenticated_device \<Rightarrow> service_id \<Rightarrow> nat \<Rightarrow> signal_message \<Rightarrow> envelope"
  where
  "envelope_for E now ad sid timestamp m = ok_val (to_envelope (env_ids E) (env_base64 E) now m sid (auth_account ad)
     (as_u8 (device_id (auth_device ad))) timestamp False)"

text \<open>Messages for \<open>sid\<close> whose content is base64.\<close>

definition deliverable :: "('d, 'r) server_env \<Rightarrow> service_id \<Rightarrow> signal_message \<Rightarrow> bool" where
  "deliverable E sid m \<longleftrightarrow>
     (case sm_destination_service_id m of None \<Rightarrow> False | Some str \<Rightarrow> parse_from_service_id_string (env_ids E) str = Some sid) \<and>
     b64_decode (env_base64 E) (sm_content m) \<noteq> None"

lemma to_envelope_for:
  "deliverable E sid m \<Longrightarrow> expect (to_envelope (env_ids E) (env_base64 E) now m sid' (auth_account ad)
     (as_u8 (device_id (auth_device ad))) timestamp False) = Ok (envelope_for E now ad sid' timestamp m)"
  by (auto simp: deliverable_def envelope_for_def to_envelope_def expect_def)

lemma dispatch_one:
  assumes "deliverable E sid m" "get_account (env_db E) sid (database s) = (Ok a, database s)"
  shows "dispatch_payload E now ad i timestamp w (DenSignalMessage m) s =
    (Ok (push_payload a (DenEnvelope (envelope_for E now ad sid timestamp m)) w), s)"
proof -
  obtain str where "sm_destination_service_id m = Some str" "parse_from_service_id_string (env_ids E) str = Some sid"
    using assms(1) by (auto simp: deliverable_def split: option.splits)
  moreover have "on_db (get_account (env_db E) sid) s = (Ok a, s)" using assms(2) by simp
  ultimately show ?thesis
    by (simp add: dispatch_payload_def ok_or_def expect_def [of "Ok _"] to_envelope_for [OF assms(1)])
qed

text \<open>The payloads of each receiver, grouped as the loop over the messages groups them.\<close>

definition grouped :: "('m \<Rightarrow> account) \<Rightarrow> ('m \<Rightarrow> deniable_payload) \<Rightarrow> 'm list \<Rightarrow> (account \<times> deniable_payload list) list" where
  "grouped rcv f ms = foldl (\<lambda>w m. push_payload (rcv m) (f m) w) [] ms"

lemma push_payload_map:
  "map_of (push_payload a p w) = (map_of w)(a \<mapsto> (case map_of w a of None \<Rightarrow> [] | Some ps \<Rightarrow> ps) @ [p])"
  by (induction a p w rule: push_payload.induct) (auto simp: fun_eq_iff)

lemma push_payload_keys: "set (map fst (push_payload a p w)) = insert a (set (map fst w))"
  by (induction a p w rule: push_payload.induct) auto

lemma push_payload_distinct: "distinct (map fst w) \<Longrightarrow> distinct (map fst (push_payload a p w))"
  by (induction a p w rule: push_payload.induct) (auto simp: push_payload_keys [simplified])

lemma grouped_snoc: "grouped rcv f (ms @ [m]) = push_payload (rcv m) (f m) (grouped rcv f ms)"
  by (simp add: grouped_def)

lemma grouped_keys: "set (map fst (grouped rcv f ms)) = rcv ` set ms" "distinct (map fst (grouped rcv f ms))"
  by (induction ms rule: rev_induct)
    (simp_all add: grouped_def push_payload_keys [simplified] push_payload_distinct [simplified])

lemma grouped_map:
  "map_of (grouped rcv f ms) a = (if a \<in> rcv ` set ms then Some (map f (filter (\<lambda>m. rcv m = a) ms)) else None)"
proof (induction ms rule: rev_induct)
  case (snoc m ms)
  have "filter (\<lambda>x. rcv x = a) ms = []" if "a \<notin> rcv ` set ms" using that by (auto simp: filter_empty_conv)
  then show ?case by (cases "rcv m = a") (auto simp: grouped_snoc push_payload_map snoc.IH)
qed (simp add: grouped_def)

lemma grouped_entry:
  "(a, ps) \<in> set (grouped rcv f ms) \<longleftrightarrow> a \<in> rcv ` set ms \<and> ps = map f (filter (\<lambda>m. rcv m = a) ms)"
  using map_of_eq_Some_iff [OF grouped_keys(2) [of rcv f ms], of a ps] by (auto simp: grouped_map split: if_splits)

lemma dispatch_messages:
  assumes "\<And>m. m \<in> set ms \<Longrightarrow> deliverable E (to m) m"
    and "\<And>m. m \<in> set ms \<Longrightarrow> get_account (env_db E) (to m) (database s) = (Ok (rcv m), database s)"
  shows "dispatch_payloads E now ad i timestamp w (map DenSignalMessage ms) s =
    (Ok (foldl (\<lambda>w m. push_payload (rcv m) (DenEnvelope (envelope_for E now ad (to m) timestamp m)) w) w ms), s)"
  using assms
proof (induction ms arbitrary: w)
  case (Cons m ms)
  have "deliverable E (to m) m" "get_account (env_db E) (to m) (database s) = (Ok (rcv m), database s)"
    using Cons.prems by simp_all
  note first = dispatch_one [OF this]
  show ?case using Cons.IH Cons.prems by (simp add: first)
qed simp

section \<open>Storing the payloads of all receivers\<close>

definition addresses_of :: "id_codec \<Rightarrow> account set \<Rightarrow> protocol_address set" where
  "addresses_of ids A = (\<Union>b \<in> A. device_address ids b ` set (devices b))"

abbreviation account_name :: "id_codec \<Rightarrow> account \<Rightarrow> string" where
  "account_name ids b \<equiv> service_id_string ids (Aci (aci b))"

lemma store_payloads_rep:
  fixes E :: "('d, keyspace) server_env"
  assumes b64: "base64_laws (env_base64 E)" and R: "env_redis E = keyspace_redis" and guids: "guid_streams guids"
    and "\<forall>(b, ps) \<in> set w. length ps < 2 ^ 30 \<and> distinct (map device_id (devices b))"
    and "distinct (map (account_name (env_ids E)) (map fst w))"
    and "\<forall>b \<in> fst ` set w. \<forall>d \<in> set (devices b).
      waiting (env_base64 E) (all_guids guids) (device_address (env_ids E) b d) (store (cache s)) (rows b d)"
  shows "\<exists>s'. store_payloads E now guids n w s = (Ok (), s') \<and> database s' = database s \<and>
    (\<forall>(b, ps) \<in> set w. \<forall>d \<in> set (devices b). \<exists>c items.
       payload_items (env_base64 E) (device_address (env_ids E) b d) (store (cache s')) c items \<and>
       rows_of items = rows b d @ map (\<lambda>p. (serialize (env_payloads E) p, 0)) ps) \<and>
    (\<forall>x c items. x \<notin> addresses_of (env_ids E) (fst ` set w) \<longrightarrow> payload_items (env_base64 E) x (store (cache s)) c items \<longrightarrow>
       payload_items (env_base64 E) x (store (cache s')) c items) \<and>
    (\<forall>x C c xs. chunk_rep (env_base64 E) C x Sender (store (cache s)) c xs \<longrightarrow>
       chunk_rep (env_base64 E) C x Sender (store (cache s')) c xs)"
  using assms(4-6)
proof (induction w arbitrary: s n)
  case Nil
  then show ?case by simp
next
  case (Cons e w)
  obtain b ps where e: "e = (b, ps)" by (cases e)
  let ?b64 = "env_base64 E" and ?ids = "env_ids E"
  have small: "length ps < 2 ^ 30" "distinct (map device_id (devices b))" using Cons.prems(1) by (simp_all add: e)
  have wait: "waiting ?b64 (all_guids guids) (device_address ?ids b d) (store (cache s)) (rows b d)" if "d \<in> set (devices b)" for d
    using Cons.prems(3) that by (simp add: e)
  have "\<exists>k t. store_for_devices E now guids n b ps (devices b) s = (Ok k, t) \<and> database t = database s \<and>
      (\<forall>d \<in> set (devices b). \<exists>c items. payload_items ?b64 (device_address ?ids b d) (store (cache t)) c items \<and>
         rows_of items = rows b d @ map (\<lambda>p. (serialize (env_payloads E) p, 0)) ps) \<and>
      (\<forall>x c items. x \<notin> device_address ?ids b ` set (devices b) \<longrightarrow> payload_items ?b64 x (store (cache s)) c items \<longrightarrow>
         payload_items ?b64 x (store (cache t)) c items) \<and>
      (\<forall>x C c xs. chunk_rep ?b64 C x Sender (store (cache s)) c xs \<longrightarrow> chunk_rep ?b64 C x Sender (store (cache t)) c xs)"
    by (rule store_for_devices_rep [OF b64 R guids small]) (rule wait)
  then obtain k t where
    t: "store_for_devices E now guids n b ps (devices b) s = (Ok k, t)" "database t = database s"
      "\<And>d. d \<in> set (devices b) \<Longrightarrow> \<exists>c items. payload_items ?b64 (device_address ?ids b d) (store (cache t)) c items \<and>
         rows_of items = rows b d @ map (\<lambda>p. (serialize (env_payloads E) p, 0)) ps"
      "\<And>x c items. x \<notin> device_address ?ids b ` set (devices b) \<Longrightarrow> payload_items ?b64 x (store (cache s)) c items \<Longrightarrow>
         payload_items ?b64 x (store (cache t)) c items"
      "\<And>x C c xs. chunk_rep ?b64 C x Sender (store (cache s)) c xs \<Longrightarrow> chunk_rep ?b64 C x Sender (store (cache t)) c xs"
    by (elim exE conjE) blast
  have other: "device_address ?ids b' d \<notin> device_address ?ids b ` set (devices b)" if "b' \<in> fst ` set w" for b' d
    using Cons.prems(2) that by (auto simp: e image_iff)
  have "waiting ?b64 (all_guids guids) (device_address ?ids b' d) (store (cache t)) (rows b' d)"
    if b': "b' \<in> fst ` set w" "d \<in> set (devices b')" for b' d
  proof -
    have "waiting ?b64 (all_guids guids) (device_address ?ids b' d) (store (cache s)) (rows b' d)"
      by (rule bspec [OF bspec [OF Cons.prems(3)]]) (use b' in auto)
    then show ?thesis using t(4) [OF other [OF b'(1)]] unfolding waiting_def by blast
  qed
  then have later: "\<forall>b' \<in> fst ` set w. \<forall>d \<in> set (devices b').
      waiting ?b64 (all_guids guids) (device_address ?ids b' d) (store (cache t)) (rows b' d)" by blast
  have small': "\<forall>(b, ps) \<in> set w. length ps < 2 ^ 30 \<and> distinct (map device_id (devices b))"
    and names: "distinct (map (account_name ?ids) (map fst w))" using Cons.prems(1,2) by simp_all
  from Cons.IH [OF small' names later, of k] obtain s' where
    s': "store_payloads E now guids k w t = (Ok (), s')" "database s' = database t"
      "\<And>b ps d. (b, ps) \<in> set w \<Longrightarrow> d \<in> set (devices b) \<Longrightarrow> \<exists>c items.
         payload_items ?b64 (device_address ?ids b d) (store (cache s')) c items \<and>
         rows_of items = rows b d @ map (\<lambda>p. (serialize (env_payloads E) p, 0)) ps"
      "\<And>x c items. x \<notin> addresses_of ?ids (fst ` set w) \<Longrightarrow> payload_items ?b64 x (store (cache t)) c items \<Longrightarrow>
         payload_items ?b64 x (store (cache s')) c items"
      "\<And>x C c xs. chunk_rep ?b64 C x Sender (store (cache t)) c xs \<Longrightarrow> chunk_rep ?b64 C x Sender (store (cache s')) c xs"
    by (elim exE conjE) blast
  have mine: "device_address ?ids b d \<notin> addresses_of ?ids (fst ` set w)" for d
    using Cons.prems(2) by (auto simp: e addresses_of_def image_iff)
  have split: "addresses_of ?ids (fst ` set (e # w)) = device_address ?ids b ` set (devices b) \<union> addresses_of ?ids (fst ` set w)"
    by (simp add: e addresses_of_def)
  have "store_payloads E now guids n (e # w) s = (Ok (), s')" using t(1) s'(1) by (simp add: e)
  moreover have "\<forall>(b', ps') \<in> set (e # w). \<forall>d \<in> set (devices b'). \<exists>c items.
      payload_items ?b64 (device_address ?ids b' d) (store (cache s')) c items \<and>
      rows_of items = rows b' d @ map (\<lambda>p. (serialize (env_payloads E) p, 0)) ps'"
    using s'(3) s'(4) [OF mine] t(3) by (auto simp: e) blast
  moreover have "payload_items ?b64 x (store (cache s')) c items"
    if "x \<notin> addresses_of ?ids (fst ` set (e # w))" "payload_items ?b64 x (store (cache s)) c items" for x c items
    using that(1) s'(4) [OF _ t(4) [OF _ that(2)]] unfolding split by blast
  ultimately show ?case using s'(2,5) t(2,5) by auto
qed

section \<open>Receiving chunks\<close>

lemma disjoint_Un: "\<lbrakk> A \<inter> G = {}; R \<subseteq> G; B \<subseteq> Q; Q \<inter> R = {} \<rbrakk> \<Longrightarrow> (A \<union> B) \<inter> R = {}"
  by blast

text \<open>The chunks that arrive are queued behind those of the sender and taken out again with them.\<close>

lemma chunks_collected:
  fixes s :: "(keyspace, 'l) caches"
  assumes b64: "base64_laws b64" and guids: "guid_streams guids" "fst ` set xs \<inter> all_guids guids = {}"
    and rep: "chunk_rep b64 C sender Sender (store s) c xs" "c < 2 ^ 30" and page: "length xs + length rs \<le> PAGE_SIZE"
    and codec: "list_all (codec_ok C) (map snd xs @ rs)"
    and pay: "create_deniable_payloads de (map snd xs @ rs) = Ok (ps, pend)"
  shows "\<exists>n1 t1 t2 c2 zs. enqueue_chunk_buffer keyspace_redis b64 C now (guids 0) Sender sender 0 0 rs s = (Ok n1, t1) \<and>
    flush_chunk_buffer keyspace_redis b64 C de now (guids 1) Sender sender t1 = (Ok ps, t2) \<and>
    chunk_rep b64 C sender Sender (store t2) c2 zs \<and> map snd zs = pend"
proof -
  have g: "inj (guids n)" "\<And>k. guids n k \<noteq> ''counter''" "range (guids n) \<subseteq> all_guids guids" for n
    using guids(1) by (auto simp: guid_streams_def all_guids_def)
  have "length rs \<le> 100" using page by (simp add: PAGE_SIZE_def)
  then have "length rs * (c + length rs) \<le> 100 * (2 ^ 30 + 100)" using rep(2) by (intro mult_le_mono) simp_all
  then have bound: "0 + length rs * (c + length rs) < 2 ^ 63" by simp
  have fresh: "fst ` set xs \<inter> guids 0 ` {0..} = {}" using guids(2) g(3) [of 0] by auto
  from base64_laws.enqueue_chunk_buffer_rep [OF b64 rep(1) g(1,2) fresh bound, of now]
  obtain n1 t1 ys where t1:
    "enqueue_chunk_buffer keyspace_redis b64 C now (guids 0) Sender sender 0 0 rs s = (Ok n1, t1)"
    "chunk_rep b64 C sender Sender (store t1) (c + length rs) (xs @ ys)" "map snd ys = rs" "fst ` set ys \<subseteq> range (guids 0)"
    by blast
  have "length rs = length ys" unfolding t1(3) [symmetric] by (rule length_map)
  then have fits: "length (xs @ ys) \<le> PAGE_SIZE" using page by (simp only: length_append)
  have all: "map snd (take PAGE_SIZE (xs @ ys)) = map snd xs @ rs" "drop PAGE_SIZE (xs @ ys) = []"
    unfolding take_all [OF fits] drop_all [OF fits] map_append t1(3) by (rule refl)+
  have "(0 :: nat) \<noteq> 1" by simp
  then have "range (guids 0) \<inter> range (guids 1) = {}" using guids(1) unfolding guid_streams_def by blast
  then have "fst ` set (xs @ ys) \<inter> range (guids 1) = {}"
    unfolding set_append image_Un by (rule disjoint_Un [OF guids(2) g(3) t1(4)])
  moreover have "c + length rs < 2 ^ 56" using rep(2) \<open>length rs \<le> 100\<close> by simp
  moreover have "codec_ok C x" if "x \<in> snd ` set (xs @ ys)" for x
    using that codec t1(3) unfolding list_all_iff by (metis image_Un list.set_map set_append)
  ultimately show ?thesis
    using base64_laws.flush_chunk_buffer_rep [OF b64 t1(2) _ g(1,2), of 1 de ps pend now] pay t1(1) unfolding all by fastforce
qed

text \<open>The account \<open>rcv m\<close> of a message \<open>m\<close> is the one that the database has for \<open>to m\<close>.\<close>

definition receivers_known :: "('d, 'r) server_env \<Rightarrow> 'd \<Rightarrow> (signal_message \<Rightarrow> service_id) \<Rightarrow> (signal_message \<Rightarrow> account)
    \<Rightarrow> signal_message list \<Rightarrow> bool" where
  "receivers_known E db to rcv ms \<longleftrightarrow>
     (\<forall>m \<in> set ms. deliverable E (to m) m \<and> get_account (env_db E) (to m) db = (Ok (rcv m), db) \<and>
        distinct (map device_id (devices (rcv m)))) \<and>
     inj_on (account_name (env_ids E)) (rcv ` set ms)"

text \<open>What the devices of \<open>b\<close> are to get.\<close>

definition payloads_for :: "('d, 'r) server_env \<Rightarrow> nat \<Rightarrow> authenticated_device \<Rightarrow> (signal_message \<Rightarrow> service_id)
    \<Rightarrow> (signal_message \<Rightarrow> account) \<Rightarrow> nat \<Rightarrow> signal_message list \<Rightarrow> account \<Rightarrow> row list" where
  "payloads_for E now ad to rcv timestamp ms b = map (\<lambda>m. (serialize (env_payloads E)
     (DenEnvelope (envelope_for E now ad (to m) timestamp m)), 0)) (filter (\<lambda>m. rcv m = b) ms)"

lemma receiving_rep:
  fixes E :: "('d, keyspace) server_env" and s :: "('d, keyspace, 'l) backend" and ad :: authenticated_device
  defines "b64 \<equiv> env_base64 E" and "sender \<equiv> auth_protocol_address (env_ids E) ad KindAci"
    and "K \<equiv> store (cache s)"
  assumes b64: "base64_laws b64" and R: "env_redis E = keyspace_redis"
    and guids: "guid_streams guids" "fst ` set xs \<inter> all_guids guids = {}"
    and rep: "chunk_rep b64 (env_chunks E) sender Sender K c xs" "c < 2 ^ 30"
    and real: "filter (\<lambda>c. flags c \<noteq> 1) cs = rs" "list_ex (\<lambda>c. flags c = 2) rs"
    and page: "length xs + length rs \<le> PAGE_SIZE"
    and codec: "list_all (codec_ok (env_chunks E)) (map snd xs @ rs)"
    and pay: "create_deniable_payloads (deserialize (env_payloads E)) (map snd xs @ rs) = Ok (map DenSignalMessage ms, pend)"
    and ms: "length ms < 2 ^ 30" "receivers_known E (database s) to rcv ms"
    and queues: "\<And>b d. b \<in> rcv ` set ms \<Longrightarrow> d \<in> set (devices b) \<Longrightarrow>
      waiting b64 (all_guids guids) (device_address (env_ids E) b d) K (rows b d)"
    and dest: "devices destination \<noteq> []" and order: "\<And>w. mset (env_map_order E w) = mset w"
  shows "\<exists>s'. handle_receiving_chunks E now guids ad destination cs timestamp s = (Ok (), s') \<and>
    database s' = database s \<and>
    (\<exists>c ys. chunk_rep b64 (env_chunks E) sender Sender (store (cache s')) c ys \<and> map snd ys = pend) \<and>
    (\<forall>b \<in> rcv ` set ms. \<forall>d \<in> set (devices b). \<exists>c items.
       payload_items b64 (device_address (env_ids E) b d) (store (cache s')) c items \<and>
       rows_of items = rows b d @ payloads_for E now ad to rcv timestamp ms b) \<and>
    (\<forall>x c items. x \<notin> addresses_of (env_ids E) (rcv ` set ms) \<longrightarrow> payload_items b64 x K c items \<longrightarrow>
       payload_items b64 x (store (cache s')) c items)"
proof -
  note R [simp]
  from chunks_collected [OF b64 guids rep(1) [unfolded K_def] rep(2) page codec pay, of now] obtain n1 t1 t2 c2 zs where
    t1: "enqueue_chunk_buffer keyspace_redis b64 (env_chunks E) now (guids 0) Sender sender 0 0 rs (cache s) = (Ok n1, t1)"
    and t2: "flush_chunk_buffer keyspace_redis b64 (env_chunks E) (deserialize (env_payloads E)) now (guids 1) Sender sender t1 =
      (Ok (map DenSignalMessage ms), t2)"
      "chunk_rep b64 (env_chunks E) sender Sender (store t2) c2 zs" "map snd zs = pend" by blast
  let ?s2 = "s\<lparr>cache := t2\<rparr>" and ?f = "\<lambda>m. DenEnvelope (envelope_for E now ad (to m) timestamp m)"
  let ?w = "env_map_order E (grouped rcv ?f ms)"
  note chunks1 = touchesD [OF touches_enqueue_chunk_buffer t1] and chunks2 = touchesD [OF touches_flush_chunk_buffer t2(1)]
  have items: "payload_items b64 x (store (cache ?s2)) c items" if "payload_items b64 x K c items" for x c items
    using payload_items_chunks [OF payload_items_chunks [OF that [unfolded K_def] chunks1] chunks2] by simp
  have set: "set ?w = set (grouped rcv ?f ms)" using order mset_eq_setD by blast
  then have keys: "fst ` set ?w = rcv ` set ms" using grouped_keys(1) [of rcv ?f ms] by simp
  have entry: "(b, ps) \<in> set ?w \<longleftrightarrow> b \<in> rcv ` set ms \<and> ps = map ?f (filter (\<lambda>m. rcv m = b) ms)" for b ps
    by (simp only: set grouped_entry)
  have small: "\<forall>(b, ps) \<in> set ?w. length ps < 2 ^ 30 \<and> distinct (map device_id (devices b))"
    using ms le_less_trans [OF length_filter_le ms(1)] by (auto simp: entry receivers_known_def)
  have names: "distinct (map (account_name (env_ids E)) (map fst ?w))"
  proof -
    have "mset (map fst ?w) = mset (map fst (grouped rcv ?f ms))" by (simp only: mset_map order)
    then have "distinct (map fst ?w)" by (rule mset_eq_imp_distinct_iff [THEN iffD2]) (rule grouped_keys(2))
    then show ?thesis using ms(2) by (subst distinct_map) (simp_all add: keys receivers_known_def)
  qed
  have "\<forall>b \<in> fst ` set ?w. \<forall>d \<in> set (devices b).
      waiting b64 (all_guids guids) (device_address (env_ids E) b d) (store (cache ?s2)) (rows b d)"
    using queues items unfolding keys waiting_def by blast
  from store_payloads_rep [OF b64 [unfolded b64_def] R guids(1) small names this [unfolded b64_def],
      folded b64_def, of now 2] obtain s' where s': "store_payloads E now guids 2 ?w ?s2 = (Ok (), s')" "database s' = database ?s2"
    "\<And>b ps d. (b, ps) \<in> set ?w \<Longrightarrow> d \<in> set (devices b) \<Longrightarrow> \<exists>c items.
       payload_items b64 (device_address (env_ids E) b d) (store (cache s')) c items \<and>
       rows_of items = rows b d @ map (\<lambda>p. (serialize (env_payloads E) p, 0)) ps"
    "\<And>x c items. x \<notin> addresses_of (env_ids E) (fst ` set ?w) \<Longrightarrow> payload_items b64 x (store (cache ?s2)) c items \<Longrightarrow>
       payload_items b64 x (store (cache s')) c items"
    "\<And>x C c xs. chunk_rep b64 C x Sender (store (cache ?s2)) c xs \<Longrightarrow> chunk_rep b64 C x Sender (store (cache s')) c xs"
    by (elim exE conjE) blast
  have "handle_receiving_chunks E now guids ad destination cs timestamp s = (Ok (), s')"
  proof -
    obtain d ds where "devices destination = d # ds" using dest by (cases "devices destination") auto
    moreover have "rs \<noteq> []" using real(2) by auto
    moreover have "dispatch_payloads E now ad i timestamp [] (map DenSignalMessage ms) ?s2 = (Ok (grouped rcv ?f ms), ?s2)" for i
      unfolding grouped_def by (rule dispatch_messages) (use ms(2) in \<open>simp_all add: receivers_known_def\<close>)
    moreover have "filter (\<lambda>c. flags c \<noteq> chunk_type_to_i32 Dummy) cs = rs" "list_ex (\<lambda>c. flags c = chunk_type_to_i32 Final) rs"
      using real by (simp_all add: chunk_type_to_i32.simps)
    ultimately show ?thesis
      using t1 t2(1) s'(1)
      by (simp add: handle_receiving_chunks_def Let_def ok_or_def
          enqueue_incoming_chunk_buffer_def flush_incoming_chunk_buffer_def b64_def sender_def del: chunk_type_to_i32.simps)
  qed
  moreover have "chunk_rep b64 (env_chunks E) sender Sender (store (cache s')) c2 zs" using s'(5) t2(2) by simp
  moreover have "\<exists>c items. payload_items b64 (device_address (env_ids E) b d) (store (cache s')) c items \<and>
      rows_of items = rows b d @ payloads_for E now ad to rcv timestamp ms b" if "b \<in> rcv ` set ms" "d \<in> set (devices b)" for b d
    using s'(3) [OF entry [THEN iffD2, OF conjI [OF that(1) refl]] that(2)] by (simp add: payloads_for_def o_def)
  moreover have "payload_items b64 x (store (cache s')) c items"
    if "x \<notin> addresses_of (env_ids E) (rcv ` set ms)" "payload_items b64 x K c items" for x c items
    using s'(4) [OF that(1) [folded keys] items [OF that(2)]] .
  moreover have "database s' = database s" using s'(2) by simp
  ultimately show ?thesis using t2(3) by blast
qed

section \<open>Other servers\<close>

definition map_backend :: "('r \<Rightarrow> 'k) \<Rightarrow> ('d, 'r, 'l) backend \<Rightarrow> ('d, 'k, 'l) backend" where
  "map_backend f s = \<lparr>database = database s, cache = map_store f (cache s)\<rparr>"

definition documented :: "('d, 'r) server_env \<Rightarrow> ('d, keyspace) server_env" where
  "documented E = \<lparr>env_db = env_db E, env_redis = keyspace_redis, env_base64 = env_base64 E, env_ids = env_ids E,
     env_envelopes = env_envelopes E, env_chunks = env_chunks E, env_payloads = env_payloads E,
     env_show_error = env_show_error E, env_json_devices = env_json_devices E, env_json_ids = env_json_ids E,
     env_map_order = env_map_order E\<rparr>"

lemma documented_fields [simp]:
  "env_db (documented E) = env_db E" "env_redis (documented E) = keyspace_redis"
  "env_base64 (documented E) = env_base64 E" "env_ids (documented E) = env_ids E"
  "env_envelopes (documented E) = env_envelopes E" "env_chunks (documented E) = env_chunks E"
  "env_payloads (documented E) = env_payloads E" "env_show_error (documented E) = env_show_error E"
  "env_map_order (documented E) = env_map_order E"
  by (simp_all add: documented_def)

lemma map_backend_fields [simp]:
  "database (map_backend f s) = database s" "cache (map_backend f s) = map_store f (cache s)"
  by (simp_all add: map_backend_def)

lemma sim_on_db [sim_intros]: "simulates (map_backend view) (on_db m) (on_db m)"
  by (simp add: simulates_def on_db_def map_backend_def split_def)

lemma sim_on_cache [sim_intros]:
  "simulates (map_store view) m a \<Longrightarrow> simulates (map_backend view) (on_cache m) (on_cache a)"
  by (simp add: simulates_def on_cache_def map_backend_def split_def)

lemma sim_expectS [sim_intros]: "simulates v m a \<Longrightarrow> simulates v (expectS m) (expectS a)"
  by (simp add: simulates_def expectS_def split_def)

lemma sim_dispatch_payload [sim_intros]:
  "simulates (map_backend view) (dispatch_payload E now ad i ts w p) (dispatch_payload (documented E) now ad i ts w p)"
  by (cases p) (auto simp: dispatch_payload_def intro!: sim_intros)

lemma sim_dispatch_payloads [sim_intros]:
  "simulates (map_backend view) (dispatch_payloads E now ad i ts w ps) (dispatch_payloads (documented E) now ad i ts w ps)"
  by (induction ps arbitrary: w) (auto intro!: sim_intros)

context redis_server
begin

lemma sim_enqueue_outgoing:
  "simulates (map_store view) (enqueue_outgoing_payload_buffer R b64 C now new_v4 a ps)
     (enqueue_outgoing_payload_buffer keyspace_redis b64 C now new_v4 a ps)"
  unfolding enqueue_outgoing_payload_buffer_def by (rule sim_enqueue_payloads)

lemma sim_store_for_devices:
  "env_redis E = R \<Longrightarrow> simulates (map_backend view) (store_for_devices E now guids n a ps ds)
     (store_for_devices (documented E) now guids n a ps ds)"
proof (induction ds arbitrary: n)
  case (Cons d ds)
  show ?case
    unfolding store_for_devices.simps documented_fields Cons.prems
    by (intro sim_intros sim_enqueue_outgoing Cons.IH Cons.prems)
qed (simp add: sim_intros)

lemma sim_store_payloads:
  "env_redis E = R \<Longrightarrow> simulates (map_backend view) (store_payloads E now guids n w)
     (store_payloads (documented E) now guids n w)"
  by (induction w arbitrary: n) (auto intro!: sim_intros sim_store_for_devices)

lemma sim_handle_receiving_chunks:
  assumes "env_redis E = R"
  shows "simulates (map_backend view) (handle_receiving_chunks E now guids ad destination cs ts)
     (handle_receiving_chunks (documented E) now guids ad destination cs ts)"
  unfolding handle_receiving_chunks_def enqueue_incoming_chunk_buffer_def flush_incoming_chunk_buffer_def
    documented_fields assms
  by (intro sim_intros sim_store_payloads assms)

end

section \<open>Properties\<close>

text \<open>
  C2 (functional). Deniable messages arrive: when the chunks of a request complete the deniable messages
  \<open>ms\<close> of a client, for any number of receiving accounts, \<open>handle_receiving_chunks\<close> succeeds, whoever
  the regular messages are for. The payload queue of every device of every receiver has grown by
  exactly the messages for its account, as envelopes and in order, whatever the order in which the
  map of receivers is iterated; the payload queue of every other address is what it was; and the
  client's chunk buffer holds the chunks of the messages that are not complete. Dummy chunks have
  no effect.
\<close>

theorem deniable_messages_delivered:
  fixes E :: "('d, 'r) server_env" and s :: "('d, 'r, 'l) backend" and ad :: authenticated_device
  assumes "redis_server (env_redis E) view" "base64_laws (env_base64 E)"
    and "guid_streams guids" "fst ` set xs \<inter> all_guids guids = {}"
    and "chunk_rep (env_base64 E) (env_chunks E) (auth_protocol_address (env_ids E) ad KindAci) Sender
      (view (store (cache s))) c xs" "c < 2 ^ 30"
    and "filter (\<lambda>c. flags c \<noteq> 1) cs = rs" "list_ex (\<lambda>c. flags c = 2) rs" "length xs + length rs \<le> PAGE_SIZE"
    and "list_all (codec_ok (env_chunks E)) (map snd xs @ rs)"
    and "create_deniable_payloads (deserialize (env_payloads E)) (map snd xs @ rs) = Ok (map DenSignalMessage ms, pend)"
    and "length ms < 2 ^ 30" "receivers_known E (database s) to rcv ms"
    and "\<And>b d. b \<in> rcv ` set ms \<Longrightarrow> d \<in> set (devices b) \<Longrightarrow> waiting (env_base64 E) (all_guids guids)
      (device_address (env_ids E) b d) (view (store (cache s))) (rows b d)"
    and "devices destination \<noteq> []" "\<And>w. mset (env_map_order E w) = mset w"
  shows "\<exists>s'. handle_receiving_chunks E now guids ad destination cs timestamp s = (Ok (), s') \<and>
    database s' = database s \<and>
    (\<exists>c ys. chunk_rep (env_base64 E) (env_chunks E) (auth_protocol_address (env_ids E) ad KindAci) Sender
      (view (store (cache s'))) c ys \<and> map snd ys = pend) \<and>
    (\<forall>b \<in> rcv ` set ms. \<forall>d \<in> set (devices b). \<exists>c. payload_rep (env_base64 E) (device_address (env_ids E) b d) Receiver
      (view (store (cache s'))) c (rows b d @ payloads_for E now ad to rcv timestamp ms b)) \<and>
    (\<forall>x c qs. x \<notin> addresses_of (env_ids E) (rcv ` set ms) \<longrightarrow>
      payload_rep (env_base64 E) x Receiver (view (store (cache s))) c qs \<longrightarrow>
      payload_rep (env_base64 E) x Receiver (view (store (cache s'))) c qs)"
proof -
  let ?E = "documented E" and ?s = "map_backend view s"
  have deliverable: "deliverable ?E sid m = deliverable E sid m" for sid m
    unfolding deliverable_def documented_fields ..
  have known: "receivers_known ?E db to rcv ms = receivers_known E db to rcv ms" for db
    unfolding receivers_known_def deliverable documented_fields ..
  have payloads: "payloads_for ?E now ad to rcv timestamp ms b = payloads_for E now ad to rcv timestamp ms b" for b
    unfolding payloads_for_def envelope_for_def documented_fields ..
  note rep = receiving_rep [of ?E guids xs ad ?s c cs rs ms pend to rcv rows destination now timestamp,
      unfolded documented_fields map_backend_fields map_store_fields known payloads]
  obtain t where t: "handle_receiving_chunks ?E now guids ad destination cs timestamp ?s = (Ok (), t)"
    "database t = database s"
    "\<exists>c ys. chunk_rep (env_base64 E) (env_chunks E) (auth_protocol_address (env_ids E) ad KindAci) Sender
      (store (cache t)) c ys \<and> map snd ys = pend"
    "\<forall>b \<in> rcv ` set ms. \<forall>d \<in> set (devices b). \<exists>c items. payload_items (env_base64 E) (device_address (env_ids E) b d)
      (store (cache t)) c items \<and> rows_of items = rows b d @ payloads_for E now ad to rcv timestamp ms b"
    "\<forall>x c items. x \<notin> addresses_of (env_ids E) (rcv ` set ms) \<longrightarrow>
      payload_items (env_base64 E) x (view (store (cache s))) c items \<longrightarrow>
      payload_items (env_base64 E) x (store (cache t)) c items"
    using rep [OF assms(2) refl assms(3-16)] by blast
  from simD [OF redis_server.sim_handle_receiving_chunks [OF assms(1) refl] t(1)] obtain s' where
    s': "handle_receiving_chunks E now guids ad destination cs timestamp s = (Ok (), s')" "map_backend view s' = t"
    by blast
  have "database s' = database s" "view (store (cache s')) = store (cache t)"
    using t(2) s'(2) by auto
  with s'(1) t(3-5) show ?thesis
    by (intro exI [of _ s']) (auto simp: payload_rep_items dest!: bspec)
qed

text \<open>A server with Postgres and an empty Redis, on which one chunk completes a message for the stored account.\<close>

definition hidden_message :: signal_message where
  "hidden_message = \<lparr>sm_type = 1, destination_device_id = 1,
     sm_destination_service_id = Some (service_id_string std_ids (Aci 1)), destination_registration_id = 7, sm_content = ''''\<rparr>"

definition example_env :: "(pg, keyspace) server_env" where
  "example_env = \<lparr>env_db = postgres std_ids one_codec, env_redis = keyspace_redis, env_base64 = BASE64_STANDARD,
     env_ids = std_ids, env_envelopes = one_codec, env_chunks = bincode_codec,
     env_payloads = \<lparr>serialize = (\<lambda>_. [9]), deserialize = (\<lambda>_. Ok (DenSignalMessage hidden_message))\<rparr>,
     env_show_error = (\<lambda>_. ''''), env_json_devices = (\<lambda>_. ''''), env_json_ids = (\<lambda>_. ''''), env_map_order = (\<lambda>m. m)\<rparr>"

definition example_guids :: "nat \<Rightarrow> nat \<Rightarrow> string" where
  "example_guids n k = replicate n CHR ''a'' @ CHR ''b'' # show_nat k"

definition empty_backend :: "(pg, keyspace, unit) backend" where
  "empty_backend = \<lparr>database = stored_example, cache = init_caches\<rparr>"

lemma example_guid_streams: "guid_streams example_guids"
proof -
  have a: "takeWhile (\<lambda>c. c = CHR ''a'') (example_guids n k) = replicate n CHR ''a''" for n k
    by (induction n) (simp_all add: example_guids_def)
  have "example_guids n k \<noteq> ''counter''" for n k by (cases n) (simp_all add: example_guids_def)
  moreover have "inj (example_guids n)" for n by (auto simp: inj_def example_guids_def dest: show_nat_inj)
  moreover have "m = n" if "example_guids m i = example_guids n j" for m n i j
    using arg_cong [OF that, of "\<lambda>x. length (takeWhile (\<lambda>c. c = CHR ''a'') x)"] unfolding a by simp
  ultimately show ?thesis by (auto simp: guid_streams_def)
qed

lemma waiting_empty: "waiting b64 G a empty_keyspace []"
proof -
  have "payload_items b64 a empty_keyspace 0 []"
    using payload_keys_distinct [of a Receiver] by (simp add: payload_items_def queue_rep_empty)
  then show ?thesis by (auto simp: waiting_def rows_of_def)
qed

theorem deniable_messages_delivered_witness:
  "\<exists>s' c. handle_receiving_chunks example_env 0 example_guids \<lparr>auth_account = example_account,
      auth_device = hd (devices example_account)\<rparr> example_account [\<lparr>chunk = [1], flags = 2\<rparr>] 5 empty_backend = (Ok (), s') \<and>
    payload_rep BASE64_STANDARD alice Receiver (store (cache s')) c [([9], 0)]"
proof -
  let ?ad = "\<lparr>auth_account = example_account, auth_device = hd (devices example_account)\<rparr>"
  let ?c = "\<lparr>chunk = [1], flags = 2\<rparr> :: denim_chunk"
  have env: "env_redis example_env = keyspace_redis" "env_base64 example_env = BASE64_STANDARD"
    "env_ids example_env = std_ids" "env_chunks example_env = bincode_codec"
    "get_account (env_db example_env) (Aci 1) stored_example = (Ok bob_account, stored_example)"
    using get_stored_example by (simp_all add: example_env_def postgres_def)
  have "b64_decode BASE64_STANDARD '''' = Some []"
    using base64_laws.decode_encode [OF rfc4648.base64_laws_axioms, of "[]"] by (simp add: BASE64_STANDARD_def)
  then have deliver: "list_all (deliverable example_env (Aci 1)) [hidden_message]"
    by (simp add: deliverable_def hidden_message_def env std_ids.parse_string)
  have pay: "create_deniable_payloads (deserialize (env_payloads example_env)) (map snd ([] :: (string \<times> denim_chunk) list) @ [?c])
      = Ok (map DenSignalMessage [hidden_message], [])"
    by (simp add: create_deniable_payloads_def chunk_type_from_i32_def example_env_def sort_chunks_def)
  have codec: "list_all (codec_ok (env_chunks example_env)) (map snd ([] :: (string \<times> denim_chunk) list) @ [?c])"
    by (simp add: env codec_ok_def bincode_codec_def bincode_read_write chunk_encodable_def in_i32_def)
  have rep: "chunk_rep (env_base64 example_env) (env_chunks example_env)
      (auth_protocol_address (env_ids example_env) ?ad KindAci) Sender (store (cache empty_backend)) 0 []"
    by (simp add: empty_backend_def chunk_rep_empty)
  have bob: "get_account (env_db example_env) (Aci 1) (database empty_backend) = (Ok bob_account, database empty_backend)"
    "device_address std_ids bob_account (hd (devices bob_account)) = alice"
    by (simp_all add: env(5) empty_backend_def bob_account_def reloaded_def alice_def example_account_def)
  have R: "redis_server (env_redis example_env) (\<lambda>K. K)" "base64_laws (env_base64 example_env)"
    unfolding env by (rule keyspace.redis_server_axioms, rule rfc4648.base64_laws_axioms)
  have devs: "devices bob_account = [hd (devices bob_account)]" by (simp add: bob_account_def)
  have wait: "waiting (env_base64 example_env) (all_guids example_guids) (device_address (env_ids example_env) bob_account d)
      (store (cache empty_backend)) []" for d
    by (simp add: empty_backend_def waiting_empty)
  have known: "receivers_known example_env (database empty_backend) (\<lambda>_. Aci 1) (\<lambda>_. bob_account) [hidden_message]"
    using deliver bob(1) by (simp add: receivers_known_def bob_account_def example_account_def)
  have "bob_account \<in> (\<lambda>_. bob_account) ` set [hidden_message]" by simp
  moreover obtain s' where
    s': "handle_receiving_chunks example_env 0 example_guids ?ad example_account [?c] 5 empty_backend = (Ok (), s')"
    "\<forall>b \<in> (\<lambda>_. bob_account) ` set [hidden_message]. \<forall>d \<in> set (devices b). \<exists>c.
      payload_rep (env_base64 example_env) (device_address (env_ids example_env) b d) Receiver (store (cache s')) c
        ([] @ payloads_for example_env 0 ?ad (\<lambda>_. Aci 1) (\<lambda>_. bob_account) 5 [hidden_message] b)"
    using deniable_messages_delivered [OF R example_guid_streams _ rep _ _ _ _ codec pay _ known, of "[?c]" "\<lambda>_ _. []"
        example_account 0 5] wait
    by (auto simp: PAGE_SIZE_def example_env_def bob_account_def example_account_def)
  moreover have "hd (devices bob_account) \<in> set (devices bob_account)" using devs by (metis list.set_intros(1))
  ultimately obtain c where "payload_rep (env_base64 example_env) (device_address (env_ids example_env) bob_account
      (hd (devices bob_account))) Receiver (store (cache s')) c
      ([] @ payloads_for example_env 0 ?ad (\<lambda>_. Aci 1) (\<lambda>_. bob_account) 5 [hidden_message] bob_account)"
    by blast
  then have "payload_rep BASE64_STANDARD alice Receiver (store (cache s')) c [([9], 0)]"
    using bob(2) by (simp add: env payloads_for_def) (simp add: example_env_def)
  with s'(1) show ?thesis by blast
qed

end
