(* ===== verification/Put_Messages.thy ===== *)
theory Put_Messages
  imports Delivery
begin

text \<open>
  The properties of \<open>handle_put_messages\<close> for the regular messages: a request that does not name the
  devices of its destination changes nothing, and an accepted one is in the queue of each device.
\<close>

section \<open>Message queues of different devices\<close>

lemma message_kinds_apart [simp]:
  "get_message_queue_key a \<noteq> get_message_queue_metadata_key a'"
  "get_message_queue_key a \<noteq> rev_key (get_message_queue_metadata_key a')"
  "get_message_queue_key a \<noteq> get_queue_index_key"
  "get_message_queue_metadata_key a \<noteq> get_queue_index_key"
  "rev_key (get_message_queue_metadata_key a) \<noteq> get_queue_index_key"
  by (simp_all add: message_key_defs)

lemma message_lock_key_apart [simp]: "get_persist_in_progress_key a \<notin> message_keys a'"
  by (simp add: message_key_defs)

lemma message_addresses_apart [simp]:
  "get_message_queue_key a = get_message_queue_key a' \<longleftrightarrow> a = a'"
  "get_message_queue_metadata_key a = get_message_queue_metadata_key a' \<longleftrightarrow> a = a'"
  "rev_key (get_message_queue_metadata_key a) = rev_key (get_message_queue_metadata_key a') \<longleftrightarrow> a = a'"
  "get_message_queue_metadata_key a \<noteq> rev_key (get_message_queue_metadata_key a')"
  by (simp_all add: get_message_queue_key_def get_message_queue_metadata_key_def rev_key_def)

lemma message_rep_other:
  assumes "message_rep b64 C a K c xs" "same_except (message_keys a') K K'" "a \<noteq> a'" "message_rep b64 C a' K' c' ys"
  shows "message_rep b64 C a K' c xs"
proof -
  obtain items where
    q: "queue_rep b64 (get_message_queue_key a) (get_message_queue_metadata_key a) get_queue_index_key K c items"
      "map (\<lambda>it. (item_guid it, item_value it)) items = map (\<lambda>(g, e). (g, serialize C e)) xs"
      "str_key K (get_persist_in_progress_key a)"
    using assms(1) by (auto simp: message_rep_def)
  have "zset_key K' get_queue_index_key"
    using assms(4) by (auto simp: message_rep_def queue_rep_def keys_typed_def)
  then have "queue_rep b64 (get_message_queue_key a) (get_message_queue_metadata_key a) get_queue_index_key K' c items"
    using assms(3) message_kinds_apart [THEN not_sym] message_addresses_apart(4) [THEN not_sym]
    by (intro queue_rep_frame [OF q(1) assms(2)]) simp_all
  moreover have "str_key K' (get_persist_in_progress_key a)"
    using str_key_same [OF assms(2), of "get_persist_in_progress_key a"] q(3) message_lock_key_apart by auto
  ultimately show ?thesis using q(2) by (auto simp: message_rep_def)
qed

section \<open>The deniable part of a request\<close>

text \<open>Whatever it answers, it leaves the queues of messages alone: its keys start otherwise.\<close>

definition deniable_keys :: "key set" where
  "deniable_keys = {k. take 1 k = ''c'' \<or> take 1 k = ''p''}"

lemma deniable_queue_keys: "chunk_keys a b \<subseteq> deniable_keys" "payload_keys a b \<subseteq> deniable_keys"
  by (simp_all add: deniable_keys_def chunk_key_defs payload_key_defs rev_key_def)

lemma message_keys_not_deniable [simp]:
  "get_message_queue_key a \<notin> deniable_keys" "get_message_queue_metadata_key a \<notin> deniable_keys"
  "rev_key (get_message_queue_metadata_key a) \<notin> deniable_keys" "get_queue_index_key \<notin> deniable_keys"
  "get_persist_in_progress_key a \<notin> deniable_keys"
  by (simp_all add: deniable_keys_def message_key_defs rev_key_def)

lemma message_rep_deniable:
  assumes "message_rep b64 C a K c xs" "same_except deniable_keys K K'"
  shows "message_rep b64 C a K' c xs"
proof -
  obtain items where
    q: "queue_rep b64 (get_message_queue_key a) (get_message_queue_metadata_key a) get_queue_index_key K c items"
      "map (\<lambda>it. (item_guid it, item_value it)) items = map (\<lambda>(g, e). (g, serialize C e)) xs"
      "str_key K (get_persist_in_progress_key a)"
    using assms(1) by (auto simp: message_rep_def)
  have "queue_rep b64 (get_message_queue_key a) (get_message_queue_metadata_key a) get_queue_index_key K' c items"
    by (rule queue_rep_frame [OF q(1) assms(2)]) simp_all
  moreover have "str_key K' (get_persist_in_progress_key a)"
    using str_key_same [OF assms(2), of "get_persist_in_progress_key a"] q(3) by simp
  ultimately show ?thesis using q(2) by (auto simp: message_rep_def)
qed

abbreviation keys_of_backend :: "('d, keyspace, 'l) backend \<Rightarrow> keyspace" where
  "keys_of_backend s \<equiv> store (cache s)"

lemma touches_backend_db [touch_intros]: "touches keys_of_backend S (on_db m)"
  by (simp add: touches_def on_db_def split: prod.split)

lemma touches_backend_cache [touch_intros]: "touches store S m \<Longrightarrow> touches keys_of_backend S (on_cache m)"
  by (simp add: touches_def on_cache_def split: prod.split) (metis snd_conv)

lemma touches_expectS [touch_intros]: "touches v S m \<Longrightarrow> touches v S (expectS m)"
  by (simp add: touches_def expectS_def split: prod.split) (metis snd_conv)

lemma touches_dispatch_payload [touch_intros]: "touches keys_of_backend S (dispatch_payload E now ad i ts w p)"
  by (cases p) (auto simp: dispatch_payload_def intro!: touch_intros)

lemma touches_dispatch_payloads [touch_intros]: "touches keys_of_backend S (dispatch_payloads E now ad i ts w ps)"
  by (induction ps arbitrary: w) (auto intro!: touch_intros)

lemma touches_store_for_devices [touch_intros]:
  assumes "env_redis E = keyspace_redis"
  shows "touches keys_of_backend deniable_keys (store_for_devices E now guids n a ps ds)"
proof (induction ds arbitrary: n)
  case (Cons d ds)
  show ?case
    unfolding store_for_devices.simps enqueue_outgoing_payload_buffer_def assms
    by (intro touch_intros Cons.IH touches_mono [OF touches_enqueue_payloads deniable_queue_keys(2)])
qed (simp add: touch_intros)

lemma touches_store_payloads [touch_intros]:
  assumes "env_redis E = keyspace_redis"
  shows "touches keys_of_backend deniable_keys (store_payloads E now guids n w)"
  by (induction w arbitrary: n) (auto intro!: touch_intros assms)

lemma touches_handle_receiving_chunks:
  assumes "env_redis E = keyspace_redis"
  shows "touches keys_of_backend deniable_keys (handle_receiving_chunks E now guids ad destination cs ts)"
  unfolding handle_receiving_chunks_def enqueue_incoming_chunk_buffer_def flush_incoming_chunk_buffer_def assms
  by (intro touch_intros touches_mono [OF touches_enqueue_chunk_buffer deniable_queue_keys(1)]
      touches_mono [OF touches_flush_chunk_buffer deniable_queue_keys(1)] assms)

section \<open>Inserting the messages of a request\<close>

text \<open>What the devices get: the envelopes of the messages for them, with the guids drawn for them.\<close>

fun stamped_for :: "('d, 'r) server_env \<Rightarrow> nat \<Rightarrow> (nat \<Rightarrow> string) \<Rightarrow> authenticated_device \<Rightarrow> service_id \<Rightarrow> nat \<Rightarrow> nat
    \<Rightarrow> nat \<Rightarrow> signal_message list \<Rightarrow> (string \<times> envelope) list" where
  "stamped_for E now guid ad dest timestamp k i [] = []"
| "stamped_for E now guid ad dest timestamp k i (m # ms) =
     (if destination_device_id m = i
      then (guid k, (envelope_for E now ad dest timestamp m)\<lparr>server_guid := Some (guid k)\<rparr>) #
        stamped_for E now guid ad dest timestamp (k + 1) i ms
      else stamped_for E now guid ad dest timestamp (k + 1) i ms)"

definition message_waiting :: "base64 \<Rightarrow> envelope codec \<Rightarrow> string set \<Rightarrow> nat \<Rightarrow> protocol_address \<Rightarrow> keyspace
    \<Rightarrow> (string \<times> envelope) list \<Rightarrow> bool" where
  "message_waiting b64 C G n a K xs \<longleftrightarrow> (\<exists>c. message_rep b64 C a K c xs \<and> c + n < 2 ^ 63) \<and> fst ` set xs \<inter> G = {}"

lemma insert_regulars_rep:
  fixes E :: "('d, keyspace) server_env" and destination :: account
  defines "addr i \<equiv> \<lparr>addr_name = service_id_string (env_ids E) (Aci (aci destination)), addr_device_id = i\<rparr>"
  assumes "base64_laws (env_base64 E)" "env_redis E = keyspace_redis" "inj guid" "\<And>k. guid k \<noteq> ''counter''"
    and "list_all (\<lambda>m. b64_decode (env_base64 E) (sm_content m) \<noteq> None \<and> destination_device_id m \<in> I) ms"
    and "\<And>i. i \<in> I \<Longrightarrow> message_waiting (env_base64 E) (env_envelopes E) (guid ` {k..}) (length ms) (addr i) (store (cache s)) (xs i)"
  shows "\<exists>s'. insert_regulars E now guid ad dest destination timestamp k ms s = (Ok (), s') \<and> database s' = database s \<and>
    (\<forall>i \<in> I. \<exists>c. message_rep (env_base64 E) (env_envelopes E) (addr i) (store (cache s')) c
       (xs i @ stamped_for E now guid ad dest timestamp k i ms))"
  using assms(6,7)
proof (induction ms arbitrary: s xs k)
  case Nil
  then show ?case by (fastforce simp: message_waiting_def)
next
  case (Cons m ms)
  let ?b64 = "env_base64 E" and ?C = "env_envelopes E" and ?j = "destination_device_id m"
  let ?e = "envelope_for E now ad dest timestamp m"
  let ?x = "(guid k, ?e\<lparr>server_guid := Some (guid k)\<rparr>)"
  have j: "?j \<in> I" and content: "b64_decode ?b64 (sm_content m) \<noteq> None" using Cons.prems(1) by auto
  from Cons.prems(2) [OF j] obtain c where
    c: "message_rep ?b64 ?C (addr ?j) (store (cache s)) c (xs ?j)" "c + length (m # ms) < 2 ^ 63"
      "fst ` set (xs ?j) \<inter> guid ` {k..} = {}" by (auto simp: message_waiting_def)
  have "guid k \<notin> fst ` set (xs ?j)" using c(3) by auto
  moreover have "c + 1 < 2 ^ 63" using c(2) by simp
  ultimately obtain t where
    t: "message_insert keyspace_redis ?b64 ?C now (addr ?j) ?e (guid k) (cache s) = (Ok (c + 1), t)"
      "message_rep ?b64 ?C (addr ?j) (store t) (c + 1) (xs ?j @ [?x])"
    using base64_laws.message_insert_rep [OF assms(2) c(1) _ assms(5), where now = now and e = ?e] by blast
  have same: "same_except (message_keys (addr ?j)) (store (cache s)) (store t)"
    by (rule touchesD [OF touches_message_insert t(1)])
  let ?ys = "xs(?j := xs ?j @ [?x])"
  have waiting: "message_waiting ?b64 ?C (guid ` {k + 1..}) (length ms) (addr i) (store (cache (s\<lparr>cache := t\<rparr>))) (?ys i)"
    if i: "i \<in> I" for i
  proof (cases "i = ?j")
    case True
    have "guid k \<notin> guid ` {k + 1..}" using injD [OF assms(4)] by fastforce
    moreover have "fst ` set (xs ?j) \<inter> guid ` {k + 1..} = {}" using c(3) by auto
    ultimately have "fst ` set (xs ?j @ [?x]) \<inter> guid ` {k + 1..} = {}" by simp
    with True t(2) c(2) show ?thesis by (auto simp: message_waiting_def intro!: exI [of _ "c + 1"])
  next
    case False
    from Cons.prems(2) [OF i] obtain ci where
      ci: "message_rep ?b64 ?C (addr i) (store (cache s)) ci (xs i)" "ci + length (m # ms) < 2 ^ 63"
        "fst ` set (xs i) \<inter> guid ` {k..} = {}" by (auto simp: message_waiting_def)
    have "addr i \<noteq> addr ?j" using False by (simp add: addr_def)
    from message_rep_other [OF ci(1) same this t(2)] ci(2,3) False show ?thesis
      by (auto simp: message_waiting_def intro!: exI [of _ ci])
  qed
  have "list_all (\<lambda>m. b64_decode ?b64 (sm_content m) \<noteq> None \<and> destination_device_id m \<in> I) ms"
    using Cons.prems(1) by simp
  from Cons.IH [OF this waiting] obtain s' where
    s': "insert_regulars E now guid ad dest destination timestamp (k + 1) ms (s\<lparr>cache := t\<rparr>) = (Ok (), s')"
      "database s' = database s"
      "\<forall>i \<in> I. \<exists>c. message_rep ?b64 ?C (addr i) (store (cache s')) c (?ys i @ stamped_for E now guid ad dest timestamp (k + 1) i ms)"
    by auto
  have env: "expect (to_envelope (env_ids E) ?b64 now m dest (auth_account ad) (as_u8 (device_id (auth_device ad))) timestamp False) = Ok ?e"
    using content by (auto simp: to_envelope_def expect_def envelope_for_def)
  have "insert_regulars E now guid ad dest destination timestamp k (m # ms) s = (Ok (), s')"
    using t(1) s'(1) assms(3) by (simp add: env manager_insert_def addr_def)
  moreover have "?ys i @ stamped_for E now guid ad dest timestamp (k + 1) i ms = xs i @ stamped_for E now guid ad dest timestamp k i (m # ms)" for i
    by simp
  ultimately show ?case using s'(2,3) by auto
qed

section \<open>Simulation\<close>

context redis_server
begin

lemma sim_insert_regulars:
  "env_redis E = R \<Longrightarrow> simulates (map_backend view) (insert_regulars E now guid ad dest destination ts k ms)
     (insert_regulars (documented E) now guid ad dest destination ts k ms)"
proof (induction ms arbitrary: k)
  case (Cons m ms)
  have map_err: "simulates v (map_errS f m) (map_errS f a)" if "simulates v m a"
    for v f and m :: "('x, 'e, 'y) step" and a :: "('z, 'e, 'y) step"
    using that by (simp add: simulates_def map_errS_def split_def)
  show ?case
    unfolding insert_regulars.simps documented_fields Cons.prems manager_insert_def
    by (intro sim_intros map_err Cons.IH Cons.prems)
qed (simp add: sim_intros)

end

section \<open>Properties\<close>

text \<open>The devices that a message has to name: all of the account, but not the sending one.\<close>

definition required_devices :: "authenticated_device \<Rightarrow> service_id \<Rightarrow> account \<Rightarrow> nat set" where
  "required_devices ad dest a = device_id ` set (devices a) -
     (if dest = Aci (aci (auth_account ad)) then {device_id (auth_device ad)} else {})"

definition stale_message :: "service_id \<Rightarrow> account \<Rightarrow> signal_message \<Rightarrow> bool" where
  "stale_message dest a m \<longleftrightarrow> 0 < destination_registration_id m \<and>
     \<not> registered a (kind dest = KindPni) (destination_device_id m, destination_registration_id m)"

lemma device_list_check:
  "validate_complete_device_list a ms (if dest = Aci (aci (auth_account ad)) then [device_id (auth_device ad)] else []) = Ok ()
     \<longleftrightarrow> set ms = required_devices ad dest a"
proof -
  have "validate_complete_device_list a ms ex = Ok () \<longleftrightarrow> set ms = device_id ` set (devices a) - set ex" for ex
    by (auto simp: validate_complete_device_list_def Let_def filter_empty_conv)
  then show ?thesis by (cases "dest = Aci (aci (auth_account ad))") (simp_all add: required_devices_def)
qed

lemma device_list_no_panic: "validate_complete_device_list a ms ex \<noteq> Panic"
  by (simp add: validate_complete_device_list_def Let_def)

lemma registration_check:
  assumes "distinct (map device_id (devices a))"
  shows "validate_registration_id_from_messages a ms (kind dest = KindPni) = Ok () \<longleftrightarrow> \<not> list_ex (stale_message dest a) ms"
  unfolding validate_registration_id_from_messages_def validate_registration_id_from_id_tuple_def Let_def
    registration_matches_iff [OF assms]
  by (auto simp: filter_empty_conv list_ex_iff stale_message_def)

lemma registration_no_panic: "validate_registration_id_from_messages a ms b \<noteq> Panic"
  by (simp add: validate_registration_id_from_messages_def validate_registration_id_from_id_tuple_def Let_def)

lemma destination_account_cache: "destination_account E ad dest s = (r, s1) \<Longrightarrow> cache s1 = cache s"
proof -
  obtain q d where "get_account (env_db E) dest (database s) = (q, d)" by fastforce
  moreover assume "destination_account E ad dest s = (r, s1)"
  ultimately show "cache s1 = cache s"
    by (cases "dest = Aci (aci (auth_account ad))") (auto simp: destination_account_def)
qed

text \<open>
  C18 (safety). A request is refused before anything is queued when it is for the sender's own PNI
  (403, and the server is as it was), and when its messages do not name exactly the devices of the
  destination (the sending device excepted, when it writes to its own account) or a registration id
  is stale: then the answer is 409 or 410, and the caches are as they were.
\<close>

theorem put_messages_refused:
  assumes "dest \<noteq> Pni (pni (auth_account ad)) \<Longrightarrow> destination_account E ad dest s = (Ok a, s1)"
    and "dest \<noteq> Pni (pni (auth_account ad)) \<Longrightarrow> distinct (map device_id (devices a))"
    and "dest = Pni (pni (auth_account ad)) \<or>
      set (map destination_device_id (regular_messages (messages p))) \<noteq> required_devices ad dest a \<or>
      list_ex (stale_message dest a) (regular_messages (messages p))"
  shows "\<exists>e s'. handle_put_messages E now guid guids ad dest p s = (Err e, s') \<and> cache s' = cache s \<and>
    (if dest = Pni (pni (auth_account ad)) then status_code e = 403 \<and> s' = s
     else status_code e \<in> {409, 410} \<and> s' = s1)"
proof (cases "dest = Pni (pni (auth_account ad))")
  case True
  then show ?thesis by (simp add: handle_put_messages_def api_def)
next
  case False
  let ?ms = "regular_messages (messages p)"
  let ?ex = "if dest = Aci (aci (auth_account ad)) then [device_id (auth_device ad)] else []"
  note known = assms(1,2) [OF False] and cache = destination_account_cache [OF assms(1) [OF False]]
  show ?thesis
  proof (cases "validate_complete_device_list a (map destination_device_id ?ms) ?ex")
    case (Ok u)
    then have "list_ex (stale_message dest a) ?ms"
      using assms(3) False device_list_check [of a "map destination_device_id ?ms" dest ad] by simp
    then obtain e where "validate_registration_id_from_messages a ?ms (kind dest = KindPni) = Err e"
      using registration_check [OF known(2), of ?ms dest] registration_no_panic [of a ?ms "kind dest = KindPni"]
      by (cases "validate_registration_id_from_messages a ?ms (kind dest = KindPni)") auto
    with Ok False known(1) cache show ?thesis by (simp add: handle_put_messages_def Let_def api_def)
  next
    case (Err e)
    with False known(1) cache show ?thesis by (simp add: handle_put_messages_def Let_def api_def)
  qed (simp add: device_list_no_panic)
qed

definition example_sender :: authenticated_device where
  "example_sender = \<lparr>auth_account = example_account, auth_device = hd (devices example_account)\<rparr>"

theorem put_messages_refused_witness:
  "\<exists>e e'. handle_put_messages example_env 0 (guid_from CHR ''g'') example_guids example_sender (Aci 1)
      \<lparr>messages = [], online = False, dms_urgent = False, dms_timestamp = 5\<rparr> empty_backend = (Err e, empty_backend) \<and>
    status_code e \<in> {409, 410} \<and>
    handle_put_messages example_env 0 (guid_from CHR ''g'') example_guids example_sender
      (Pni (pni example_account)) \<lparr>messages = [], online = False, dms_urgent = False, dms_timestamp = 5\<rparr> empty_backend =
      (Err e', empty_backend) \<and> status_code e' = 403"
proof -
  let ?p = "\<lparr>messages = [], online = False, dms_urgent = False, dms_timestamp = 5\<rparr>"
  have "destination_account example_env example_sender (Aci 1) empty_backend = (Ok example_account, empty_backend)"
    by (simp add: destination_account_def example_sender_def example_account_def)
  moreover have "{} \<noteq> required_devices example_sender (Aci 1) example_account"
    by (auto simp: required_devices_def example_sender_def example_account_def)
  moreover have "pni (auth_account example_sender) = pni example_account" by (simp add: example_sender_def)
  ultimately show ?thesis
    using put_messages_refused [of "Aci 1" example_sender example_env empty_backend example_account empty_backend ?p]
      put_messages_refused [of "Pni (pni example_account)" example_sender example_env empty_backend example_account empty_backend ?p]
    by (simp add: example_account_def)
qed

text \<open>
  C17 (functional). An accepted request, whatever it hides: for a request that names exactly the devices
  of its destination with current registration ids, each device's cached queue has grown by the
  envelopes of the regular messages for it, in order and with fresh guids, whatever becomes of the
  deniable chunks that come with them. Only the answer depends on these: 200, with the word whether
  the sender has other devices to synchronise, when \<open>handle_receiving_chunks\<close> succeeds on the state
  after the insertions, which it does when all chunks are dummies; 500, although the messages are
  queued, when it fails.
\<close>

theorem put_messages_queued:
  fixes E :: "('d, 'r) server_env" and s :: "('d, 'r, 'l) backend" and a :: account
  defines "addr i \<equiv> \<lparr>addr_name = service_id_string (env_ids E) (Aci (aci a)), addr_device_id = i\<rparr>"
  assumes "redis_server (env_redis E) view" "base64_laws (env_base64 E)" "inj guid" "\<And>k. guid k \<noteq> ''counter''"
    and "dest \<noteq> Pni (pni (auth_account ad))" "destination_account E ad dest s = (Ok a, s)"
    and "distinct (map device_id (devices a))"
    and "set (map destination_device_id (regular_messages (messages p))) = required_devices ad dest a"
    and "\<not> list_ex (stale_message dest a) (regular_messages (messages p))"
    and "list_all (\<lambda>m. b64_decode (env_base64 E) (sm_content m) \<noteq> None) (regular_messages (messages p))"
    and "\<And>i. i \<in> required_devices ad dest a \<Longrightarrow> message_waiting (env_base64 E) (env_envelopes E) (range guid)
      (length (regular_messages (messages p))) (addr i) (view (store (cache s))) (xs i)"
  shows "\<exists>s1 r s'. handle_receiving_chunks E now guids ad a (deniable_chunks (messages p)) (dms_timestamp p) s1 = (r, s') \<and>
    database s1 = database s \<and>
    handle_put_messages E now guid guids ad dest p s =
      (case r of
         Ok _ \<Rightarrow> Ok \<lparr>needs_sync = (dest \<noteq> Aci (aci (auth_account ad)) \<and> 1 < length (devices (auth_account ad)))\<rparr>
       | Err e \<Rightarrow> Err (api 500 (''internal error: '' @ env_show_error E e))
       | Panic \<Rightarrow> Panic, s') \<and>
    (list_all (\<lambda>c. flags c = 1) (deniable_chunks (messages p)) \<longrightarrow> r = Ok () \<and> s' = s1) \<and>
    (\<forall>i \<in> required_devices ad dest a. \<exists>c. message_rep (env_base64 E) (env_envelopes E) (addr i) (view (store (cache s'))) c
       (xs i @ stamped_for E now guid ad dest (dms_timestamp p) 0 i (regular_messages (messages p))))"
proof -
  let ?ms = "regular_messages (messages p)" and ?E = "documented E" and ?I = "required_devices ad dest a"
  let ?cs = "deniable_chunks (messages p)"
  have range: "guid ` {0..} = range guid" by auto
  have ok: "list_all (\<lambda>m. b64_decode (env_base64 E) (sm_content m) \<noteq> None \<and> destination_device_id m \<in> ?I) ?ms"
    using assms(9,11) by (auto simp: list_all_iff)
  have stamped: "stamped_for ?E now guid ad dest t k i ms = stamped_for E now guid ad dest t k i ms" for t k i ms
    by (induction ms arbitrary: k) (simp_all add: envelope_for_def)
  obtain t where t: "insert_regulars ?E now guid ad dest a (dms_timestamp p) 0 ?ms (map_backend view s) = (Ok (), t)"
    "database t = database s"
    "\<forall>i \<in> ?I. \<exists>c. message_rep (env_base64 E) (env_envelopes E) (addr i) (store (cache t)) c
       (xs i @ stamped_for E now guid ad dest (dms_timestamp p) 0 i ?ms)"
    using insert_regulars_rep [of ?E guid ?I ?ms 0 a "map_backend view s" xs now ad dest "dms_timestamp p",
      unfolded documented_fields map_backend_fields map_store_fields range stamped] assms(3-5,12) ok
    unfolding addr_def by auto
  from simD [OF redis_server.sim_insert_regulars [OF assms(2) refl] t(1)] obtain s1 where
    s1: "insert_regulars E now guid ad dest a (dms_timestamp p) 0 ?ms s = (Ok (), s1)" "map_backend view s1 = t" by blast
  obtain r t' where t': "handle_receiving_chunks ?E now guids ad a ?cs (dms_timestamp p) t = (r, t')" by fastforce
  have kept: "same_except deniable_keys (store (cache t)) (store (cache t'))"
    by (rule touchesD [OF touches_handle_receiving_chunks t']) simp
  from simD [OF redis_server.sim_handle_receiving_chunks [OF assms(2) refl] t' [folded s1(2)]] obtain s' where
    s': "handle_receiving_chunks E now guids ad a ?cs (dms_timestamp p) s1 = (r, s')" "map_backend view s' = t'"
    by blast
  have db: "database s1 = database s" and st: "view (store (cache s')) = store (cache t')" using t(2) s1(2) s'(2) by auto
  have dummies: "r = Ok () \<and> s' = s1" if "list_all (\<lambda>c. flags c = 1) ?cs"
  proof -
    have "filter (\<lambda>c. flags c \<noteq> chunk_type_to_i32 Dummy) ?cs = []"
      using that by (auto simp: filter_empty_conv list_all_iff)
    then show ?thesis using s'(1) by (simp add: handle_receiving_chunks_def Let_def)
  qed
  have run: "handle_put_messages E now guid guids ad dest p s =
      (case r of
         Ok _ \<Rightarrow> Ok \<lparr>needs_sync = (dest \<noteq> Aci (aci (auth_account ad)) \<and> 1 < length (devices (auth_account ad)))\<rparr>
       | Err e \<Rightarrow> Err (api 500 (''internal error: '' @ env_show_error E e))
       | Panic \<Rightarrow> Panic, s')"
    using assms(6,7) s1(1) s'(1) assms(9) [folded device_list_check] assms(10) [folded registration_check [OF assms(8)]]
    by (cases r) (simp_all add: handle_put_messages_def Let_def)
  have "\<exists>c. message_rep (env_base64 E) (env_envelopes E) (addr i) (view (store (cache s'))) c
      (xs i @ stamped_for E now guid ad dest (dms_timestamp p) 0 i ?ms)" if "i \<in> ?I" for i
    using t(3) that message_rep_deniable [OF _ kept] unfolding st by blast
  with s'(1) db run dummies show ?thesis by blast
qed

text \<open>The first device of the stored account writes to the second one.\<close>

definition sync_message :: signal_message where
  "sync_message = \<lparr>sm_type = 1, destination_device_id = 2, sm_destination_service_id = None,
     destination_registration_id = 9, sm_content = ''''\<rparr>"

definition sync_request :: denim_messages where
  "sync_request = \<lparr>messages = [\<lparr>dm_regular_payload = RegularSignalMessage sync_message,
     dm_chunks = [\<lparr>chunk = [0], flags = 1\<rparr>], dm_counter = None, dm_q = None, dm_ballast = []\<rparr>],
     online = False, dms_urgent = False, dms_timestamp = 5\<rparr>"

theorem put_messages_queued_witness:
  "\<exists>s' c e. handle_put_messages example_env 0 (guid_from CHR ''g'') example_guids example_sender (Aci 1) sync_request
      empty_backend = (Ok \<lparr>needs_sync = False\<rparr>, s') \<and>
    message_rep BASE64_STANDARD one_codec \<lparr>addr_name = service_id_string std_ids (Aci 1), addr_device_id = 2\<rparr>
      (store (cache s')) c [(guid_from CHR ''g'' 0, e)]"
proof -
  have env: "env_redis example_env = keyspace_redis" "env_base64 example_env = BASE64_STANDARD"
    "env_ids example_env = std_ids" "env_envelopes example_env = one_codec" by (simp_all add: example_env_def)
  have R: "redis_server (env_redis example_env) (\<lambda>K. K)" "base64_laws (env_base64 example_env)"
    unfolding env by (rule keyspace.redis_server_axioms, rule rfc4648.base64_laws_axioms)
  have content: "b64_decode BASE64_STANDARD '''' = Some []"
    using base64_laws.decode_encode [OF rfc4648.base64_laws_axioms, of "[]"] by (simp add: BASE64_STANDARD_def)
  have dest: "destination_account example_env example_sender (Aci 1) empty_backend = (Ok example_account, empty_backend)"
    by (simp add: destination_account_def example_sender_def example_account_def)
  have req: "required_devices example_sender (Aci 1) example_account = {2}"
    by (auto simp: required_devices_def example_sender_def example_account_def)
  have ms: "regular_messages (messages sync_request) = [sync_message]" "deniable_chunks (messages sync_request) = [\<lparr>chunk = [0], flags = 1\<rparr>]"
    by (simp_all add: sync_request_def deniable_chunks_def)
  have fresh: "\<not> list_ex (stale_message (Aci 1) example_account) [sync_message]"
    by (simp add: stale_message_def sync_message_def registered_def example_account_def)
  have own: "Aci (aci example_account) = Aci 1" "aci (auth_account example_sender) = 1"
    by (simp_all add: example_account_def example_sender_def)
  have waiting: "message_waiting (env_base64 example_env) (env_envelopes example_env) (range (guid_from CHR ''g''))
      (length [sync_message]) \<lparr>addr_name = service_id_string (env_ids example_env) (Aci (aci example_account)), addr_device_id = i\<rparr>
      (store (cache empty_backend)) []" for i
    by (auto simp: message_waiting_def empty_backend_def env intro!: exI [of _ 0] rfc4648.message_rep_empty)
  have accounts: "Aci 1 \<noteq> Pni (pni (auth_account example_sender))" "distinct (map device_id (devices example_account))"
    "device_id ` {x. False} = {}" by (simp_all add: example_account_def)
  have chunks: "list_all (\<lambda>c. flags c = 1) [\<lparr>chunk = [0], flags = 1\<rparr>]" by simp
  have set: "set (map destination_device_id [sync_message]) = {2}" by (simp add: sync_message_def)
  have contents: "list_all (\<lambda>m. b64_decode (env_base64 example_env) (sm_content m) \<noteq> None) [sync_message]"
    by (simp add: env content sync_message_def)
  note result = put_messages_queued [OF R guid_from_inj [of "CHR ''g''"] guid_from_not_counter accounts(1) dest accounts(2),
      of sync_request "\<lambda>_. []" 0 example_guids, unfolded ms req set, OF refl fresh contents waiting]
  have for2: "\<exists>e. stamped_for example_env 0 (guid_from CHR ''g'') example_sender (Aci 1) t 0 2 [sync_message] = [(guid_from CHR ''g'' 0, e)]" for t
    by (simp add: sync_message_def)
  from result chunks obtain s' where
    s': "handle_put_messages example_env 0 (guid_from CHR ''g'') example_guids example_sender (Aci 1) sync_request empty_backend =
      (Ok \<lparr>needs_sync = (Aci 1 \<noteq> Aci (aci (auth_account example_sender)) \<and> 1 < length (devices (auth_account example_sender)))\<rparr>, s')"
    "\<forall>i \<in> {2}. \<exists>c. message_rep (env_base64 example_env) (env_envelopes example_env)
      \<lparr>addr_name = service_id_string (env_ids example_env) (Aci (aci example_account)), addr_device_id = i\<rparr> (store (cache s')) c
      ([] @ stamped_for example_env 0 (guid_from CHR ''g'') example_sender (Aci 1) (dms_timestamp sync_request) 0 i [sync_message])"
    by auto
  from s'(2) for2 [of "dms_timestamp sync_request"] obtain c e where
    "message_rep BASE64_STANDARD one_codec \<lparr>addr_name = service_id_string std_ids (Aci 1), addr_device_id = 2\<rparr>
      (store (cache s')) c [(guid_from CHR ''g'' 0, e)]" by (auto simp: env own)
  with s'(1) show ?thesis by (auto simp: own)
qed

end
