(* ===== verification/Server_Accounts.thy ===== *)
theory Server_Accounts
  imports Account_Manager Authorization
begin

text \<open>
  The handlers and endpoints of \<open>server/src/server/server.rs\<close> that manage accounts and devices. The
  clock is the time since the epoch in nanoseconds, \<open>None\<close> before the epoch; the cryptographic
  functions, the second base64 alphabet and the secret of the server are parameters. The handlers
  run over any \<open>SignalDatabase\<close>.
\<close>

section \<open>The environment\<close>

record crypto =
  cr_hkdf :: hkdf
  cr_hex :: "bytes \<Rightarrow> string"
  cr_sha256 :: "bytes \<Rightarrow> bytes"
  cr_hmac :: "bytes \<Rightarrow> bytes \<Rightarrow> bytes"
  cr_verify :: verifier
  cr_url_safe :: base64
  cr_url_safe_no_pad :: "bytes \<Rightarrow> string"
  cr_public_key_bytes :: "bytes \<Rightarrow> (error, bytes) outcome"
  cr_link_device_secret :: "string option"

type_synonym clock = "nat option"

definition as_millis :: "nat \<Rightarrow> nat" where
  "as_millis ns = ns div 10 ^ 6"

definition time_now :: "clock \<Rightarrow> (api_error, nat) outcome" where
  "time_now clk = ok_or (api INTERNAL_SERVER_ERROR '''') (map_option as_millis clk)"

text \<open>\<open>str::split_once\<close> on a character.\<close>

definition split_once :: "char \<Rightarrow> string \<Rightarrow> (string \<times> string) option" where
  "split_once c s = map_option (\<lambda>i. (take i s, drop (i + 1) s)) (find_char c s)"

definition device_builder :: "account_attributes \<Rightarrow> nat \<Rightarrow> nat \<Rightarrow> salted_token_hash \<Rightarrow> device" where
  "device_builder att i millis h =
     \<lparr>device_id = i, dev_name = att_name att, last_seen = millis, created = millis, auth_token = token_hash h,
      salt = token_salt h, registration_id = att_registration_id att,
      pni_registration_id = att_pni_registration_id att, capabilities = att_capabilities att\<rparr>"

section \<open>Registration\<close>

definition registration_bundle :: "registration_request \<Rightarrow> device_pre_key_bundle" where
  "registration_bundle r = \<lparr>aci_signed_pre_key = reg_aci_signed_pre_key r, pni_signed_pre_key = reg_pni_signed_pre_key r,
     aci_pq_pre_key = reg_aci_pq_last_resort_pre_key r, pni_pq_pre_key = reg_pni_pq_last_resort_pre_key r\<rparr>"

text \<open>\<open>u\<close> and \<open>p\<close> are the fresh UUIDs, \<open>random\<close> the bytes of the salt, \<open>disp\<close> prints an error.\<close>

definition handle_post_registration :: "'d signal_database \<Rightarrow> id_codec \<Rightarrow> crypto \<Rightarrow> (db_error \<Rightarrow> string) \<Rightarrow> clock
    \<Rightarrow> uuid \<Rightarrow> uuid \<Rightarrow> bytes \<Rightarrow> basic_authorization_header \<Rightarrow> registration_request
    \<Rightarrow> ('d, api_error, account_identity_response) step" where
  "handle_post_registration D ids cr disp clk u p random h r =
     bindS (liftS (time_now clk)) (\<lambda>millis.
     bindS (liftS (SaltedTokenHash_generate_for (cr_hkdf cr) (cr_hex cr) random (bah_password h))) (\<lambda>hash.
     let device = device_builder (reg_account_attributes r) 1 millis hash in
     bindS (create_account D u p (bah_username h) (reg_aci_identity_key r) (reg_pni_identity_key r) device) (\<lambda>a.
     bindS (map_errS (\<lambda>e. api INTERNAL_SERVER_ERROR (disp e))
       (store_key_bundle D (registration_bundle r)
         \<lparr>addr_name = service_id_string ids (Aci (aci a)), addr_device_id = device_id device\<rparr>)) (\<lambda>_.
     returnS \<lparr>air_uuid = aci a, air_number = bah_username h, air_pni = pni a, air_username_hash = None,
       air_storage_capable = True\<rparr>))))"

section \<open>Linking a device\<close>

record link_device_token =
  ldt_verification_code :: string
  token_identifier :: string

record link_device_response =
  ldr_aci :: string
  ldr_pni :: string
  ldr_device_id :: nat

definition handle_get_link_device_token :: "id_codec \<Rightarrow> crypto \<Rightarrow> clock \<Rightarrow> authenticated_device
    \<Rightarrow> (api_error, link_device_token) outcome" where
  "handle_get_link_device_token ids cr clk ad =
     (if device_id (auth_device ad) \<noteq> 1 then Err (api UNAUTHORIZED '''')
      else
        bind (time_now clk) (\<lambda>millis.
        let claims = service_id_string ids (Aci (aci (auth_account ad))) @ ''.'' @ show_nat millis in
        bind (expect (ok_or () (cr_link_device_secret cr))) (\<lambda>secret.
        let signature = cr_hmac cr (as_bytes secret) (as_bytes claims);
            link_device_token = claims @ '':'' @ b64_encode (cr_url_safe cr) signature in
        Ok \<lparr>ldt_verification_code = link_device_token,
            token_identifier = cr_url_safe_no_pad cr (cr_sha256 cr (as_bytes link_device_token))\<rparr>)))"

text \<open>The checks of a token: the signature, then the account and the age.\<close>

definition verify_claims :: "crypto \<Rightarrow> string \<Rightarrow> (api_error, string) outcome" where
  "verify_claims cr code =
     bind (ok_or (api 403 '''') (split_once (CHR '':'') code)) (\<lambda>(claims, b64_signature).
     bind (expect (ok_or () (cr_link_device_secret cr))) (\<lambda>secret.
     let expected_signature = cr_hmac cr (as_bytes secret) (as_bytes claims) in
     bind (ok_or (api INTERNAL_SERVER_ERROR '''') (b64_decode (cr_url_safe cr) b64_signature)) (\<lambda>signature.
     if expected_signature \<noteq> signature then Err (api 403 '''') else Ok claims)))"

text \<open>The subtraction of durations panics when the token is from the future.\<close>

definition claimed_account :: "id_codec \<Rightarrow> clock \<Rightarrow> string \<Rightarrow> (api_error, service_id \<times> nat) outcome" where
  "claimed_account ids clk claims =
     bind (ok_or (api 403 '''') (split_once (CHR ''.'') claims)) (\<lambda>(aci_str, timestamp_str).
     bind (ok_or (api 403 '''') (parse_from_service_id_string ids aci_str)) (\<lambda>aci.
     bind (ok_or (api INTERNAL_SERVER_ERROR '''') (parse_u64 timestamp_str)) (\<lambda>timestamp.
     let time_then = timestamp * 10 ^ 6 in
     bind (expect (ok_or () clk)) (\<lambda>now_ns.
     bind (if time_then \<le> now_ns then Ok (now_ns - time_then) else Panic) (\<lambda>elapsed_time.
     if 600 < elapsed_time div 10 ^ 9 then Err (api 403 '''') else Ok (aci, now_ns))))))"

text \<open>
  The check of the capabilities: those that must not be downgraded and that the account has are
  required of the new device. \<open>all\<close> stops at the first that is missing.
\<close>

fun capabilities_kept :: "account \<Rightarrow> device_capability_type list \<Rightarrow> device_capability_type list \<Rightarrow> (api_error, bool) outcome"
  where
  "capabilities_kept a caps [] = Ok True"
| "capabilities_kept a caps (c # cs) =
     (if \<not> prevent_downgrade (capability_value c) then capabilities_kept a caps cs
      else bind (expect (account_has_capability c a)) (\<lambda>required.
        if required \<and> c \<notin> set caps then Ok False else capabilities_kept a caps cs))"

definition link_keys_valid :: "crypto \<Rightarrow> account \<Rightarrow> device_activation_request \<Rightarrow> bool" where
  "link_keys_valid cr a r \<longleftrightarrow>
     validate_pre_key_signatures (cr_verify cr) (aci_identity_key a) [act_aci_signed_pre_key r, act_aci_pq_last_resort_pre_key r] \<and>
     validate_pre_key_signatures (cr_verify cr) (pni_identity_key a) [act_pni_signed_pre_key r, act_pni_pq_last_resort_pre_key r]"

definition handle_post_link_device :: "'d signal_database \<Rightarrow> id_codec \<Rightarrow> crypto \<Rightarrow> clock \<Rightarrow> bytes \<Rightarrow> string
    \<Rightarrow> link_device_request \<Rightarrow> ('d, api_error, link_device_response) step" where
  "handle_post_link_device D ids cr clk random password req =
     bindS (liftS (verify_claims cr (verification_code req))) (\<lambda>claims.
     bindS (liftS (claimed_account ids clk claims)) (\<lambda>(sid, now_ns).
     bindS (map_errS (\<lambda>_. api INTERNAL_SERVER_ERROR '''') (get_account D sid)) (\<lambda>a.
     if \<not> link_keys_valid cr a (ldr_device_activation_request req) then failS (api UNPROCESSABLE_ENTITY '''')
     else
       let att = ldr_account_attributes req in
       bindS (liftS (capabilities_kept a (att_capabilities att) VALUES)) (\<lambda>kept.
       if \<not> kept then failS (api 409 '''')
       else
         bindS (map_errS (\<lambda>_. api 403 '''') (add_used_device_link_token D (verification_code req))) (\<lambda>_.
         bindS (liftS (expect (get_next_device_id a))) (\<lambda>new_device_id.
         bindS (liftS (SaltedTokenHash_generate_for (cr_hkdf cr) (cr_hex cr) random password)) (\<lambda>hash.
         bindS (map_errS (\<lambda>_. api INTERNAL_SERVER_ERROR '''')
           (add_device D sid (device_builder att new_device_id (as_millis now_ns) hash))) (\<lambda>_.
         returnS \<lparr>ldr_aci = service_id_string ids (Aci (aci a)), ldr_pni = service_id_string ids (Pni (pni a)),
           ldr_device_id = new_device_id\<rparr>))))))))"

section \<open>Deleting\<close>

definition handle_delete_account :: "'d signal_database \<Rightarrow> authenticated_device \<Rightarrow> ('d, api_error, unit) step" where
  "handle_delete_account D ad =
     map_errS (\<lambda>_. api INTERNAL_SERVER_ERROR '''') (delete_account D (Aci (aci (auth_account ad))))"

definition handle_delete_device :: "'d signal_database \<Rightarrow> id_codec \<Rightarrow> nat \<Rightarrow> authenticated_device
    \<Rightarrow> ('d, api_error, unit) step" where
  "handle_delete_device D ids i ad =
     (if device_id (auth_device ad) \<noteq> 1 \<and> device_id (auth_device ad) \<noteq> i then failS (api UNAUTHORIZED '''')
      else if i = 1 then failS (api 403 '''')
      else map_errS (\<lambda>_. api INTERNAL_SERVER_ERROR '''')
        (delete_device D \<lparr>addr_name = service_id_string ids (Aci (aci (auth_account ad))), addr_device_id = i\<rparr>))"

section \<open>Endpoints\<close>

definition parse_service_id :: "id_codec \<Rightarrow> string \<Rightarrow> (api_error, service_id) outcome" where
  "parse_service_id ids s = ok_or (api BAD_REQUEST ''Could not parse service id'') (parse_from_service_id_string ids s)"

definition get_kind :: "string \<Rightarrow> (api_error, service_id_kind) outcome" where
  "get_kind s =
     (if s \<in> {''aci'', ''ACI'', ''''} then Ok KindAci
      else if s \<in> {''pni'', ''PNI''} then Ok KindPni
      else Err (api BAD_REQUEST
        (''Identity type needs to be either of: aci | pni | ACI | PNI or none '' @ ''which will default to aci'')))"

definition get_identifier_endpoint :: "'d signal_database \<Rightarrow> id_codec \<Rightarrow> (db_error \<Rightarrow> string) \<Rightarrow> string
    \<Rightarrow> ('d, api_error, string) step" where
  "get_identifier_endpoint D ids disp number =
     bindS (map_errS (\<lambda>e. api BAD_REQUEST (''Could not get ACI: '' @ disp e))
       (get_account_from_phonenumber_without_devices D number)) (\<lambda>a.
     returnS (service_id_string ids (Aci (aci a))))"

text \<open>The header as axum hands it over: missing, not a string, or its text. \<open>disp_header\<close> prints its error.\<close>

datatype raw_header = No_header | Opaque_header string | Header string

definition post_registration_endpoint :: "'d signal_database \<Rightarrow> id_codec \<Rightarrow> crypto \<Rightarrow> base64 \<Rightarrow> (db_error \<Rightarrow> string) \<Rightarrow> clock
    \<Rightarrow> uuid \<Rightarrow> uuid \<Rightarrow> bytes \<Rightarrow> raw_header \<Rightarrow> registration_request \<Rightarrow> ('d, api_error, account_identity_response) step" where
  "post_registration_endpoint D ids cr b64 disp clk u p random hdr r =
     (case hdr of
        No_header \<Rightarrow> failS (api UNAUTHORIZED ''Missing authorization header'')
      | Opaque_header e \<Rightarrow> failS (api UNAUTHORIZED (''Authorization header could not be parsed as string: '' @ e))
      | Header s \<Rightarrow>
          bindS (liftS (map_err (\<lambda>e. api UNAUTHORIZED (''Authorization header could not be parsed: '' @ e))
            (header_decode b64 s))) (\<lambda>h.
          handle_post_registration D ids cr disp clk u p random h r))"

definition get_keys_endpoint :: "'d signal_database \<Rightarrow> id_codec \<Rightarrow> (db_error \<Rightarrow> string) \<Rightarrow> authenticated_device
    \<Rightarrow> string \<Rightarrow> string \<Rightarrow> ('d, api_error, pre_key_response) step" where
  "get_keys_endpoint D ids disp ad identifier dev =
     bindS (liftS (ok_or (api BAD_REQUEST ''Identifier is not of right format'') (parse_from_service_id_string ids identifier)))
       (\<lambda>sid. handle_get_keys_id_device_id D ids disp ad sid dev)"

definition get_keys :: "'d signal_database \<Rightarrow> authenticated_device \<Rightarrow> ('d, api_error, pre_key_count) step" where
  "get_keys D ad =
     bindS (map_errS (\<lambda>_. api INTERNAL_SERVER_ERROR '''')
       (get_one_time_pre_key_count D (Aci (aci (auth_account ad))))) (\<lambda>(n, pq).
     returnS \<lparr>count = n, pq_count = pq\<rparr>)"

record check_keys_request =
  identity_type :: string
  user_digest :: bytes

definition post_keycheck_endpoint :: "'d signal_database \<Rightarrow> id_codec \<Rightarrow> crypto \<Rightarrow> authenticated_device \<Rightarrow> check_keys_request
    \<Rightarrow> ('d, api_error, unit) step" where
  "post_keycheck_endpoint D ids cr ad r =
     bindS (liftS (get_kind (identity_type r))) (\<lambda>k.
     bindS (handle_post_keycheck D ids (cr_sha256 cr) (cr_public_key_bytes cr) ad k (user_digest r)) (\<lambda>same.
     if same then returnS () else failS (api 409 '''')))"

text \<open>A request without the query parameter \<open>identity\<close> panics.\<close>

definition put_keys_endpoint :: "'d signal_database \<Rightarrow> id_codec \<Rightarrow> crypto \<Rightarrow> authenticated_device \<Rightarrow> (string \<rightharpoonup> string)
    \<Rightarrow> set_key_request \<Rightarrow> ('d, api_error, unit) step" where
  "put_keys_endpoint D ids cr ad params r =
     bindS (liftS (expect (ok_or () (params ''identity'')))) (\<lambda>s.
     bindS (liftS (get_kind s)) (\<lambda>k.
     handle_put_keys D ids (cr_verify cr) ad r k))"

end
