(* ===== verification/Linking.thy ===== *)
theory Linking
  imports Server_Accounts Registration Postgres_Keys
begin

text \<open>
  The properties of linking a device: a token of the server is accepted for ten minutes, at most once,
  and no other text is accepted.
\<close>

section \<open>An example\<close>

text \<open>A server for the examples, and a request for the stored account.\<close>

definition toy_crypto :: crypto where
  "toy_crypto = \<lparr>cr_hkdf = toy_hkdf, cr_hex = toy_hex, cr_sha256 = (\<lambda>b. b), cr_hmac = (\<lambda>k m. k @ m),
     cr_verify = (\<lambda>_ _ _. Ok True), cr_url_safe = BASE64_STANDARD, cr_url_safe_no_pad = (\<lambda>_. ''''),
     cr_public_key_bytes = Ok, cr_link_device_secret = Some ''s''\<rparr>"

definition toy_key :: upload_signed_pre_key where
  "toy_key = \<lparr>usk_key_id = 1, usk_public_key = [], usk_signature = []\<rparr>"

definition link_request :: "string \<Rightarrow> link_device_request" where
  "link_request code = \<lparr>verification_code = code,
     ldr_account_attributes = \<lparr>att_name = ''tablet'', fetches_messages = True, att_registration_id = 5,
       att_pni_registration_id = 6, att_capabilities = [], unidentified_access_key = []\<rparr>,
     ldr_device_activation_request = \<lparr>act_aci_signed_pre_key = toy_key, act_pni_signed_pre_key = toy_key,
       act_aci_pq_last_resort_pre_key = toy_key, act_pni_pq_last_resort_pre_key = toy_key\<rparr>\<rparr>"

definition example_token :: link_device_token where
  "example_token = ok_val (handle_get_link_device_token std_ids toy_crypto (Some 0)
     \<lparr>auth_account = bob_account, auth_device = hd (devices bob_account)\<rparr>)"

section \<open>Tokens\<close>

lemma split_once_append: "c \<notin> set s \<Longrightarrow> split_once c (s @ c # t) = Some (s, t)"
  by (simp add: split_once_def find_char_append)

lemma split_once_Some: "split_once c s = Some (x, y) \<Longrightarrow> s = x @ c # y \<and> c \<notin> set x"
proof -
  assume "split_once c s = Some (x, y)"
  then obtain i where i: "find_char c s = Some i" "x = take i s" "y = drop (i + 1) s" by (auto simp: split_once_def)
  then have "i < length s" "s ! i = c" by (simp_all add: find_char_Some_less find_char_Some_nth)
  then have "s = x @ c # y" using i id_take_nth_drop [of i s] by simp
  moreover have "c \<notin> set (take i s)" using i(1) by (induction s arbitrary: i) (auto split: if_splits)
  ultimately show "s = x @ c # y \<and> c \<notin> set x" using i(2) by simp
qed

lemma verify_claims_Ok:
  assumes "cr_link_device_secret cr = Some k"
  shows "verify_claims cr code = Ok claims \<longleftrightarrow>
    (\<exists>sig. code = claims @ '':'' @ sig \<and> CHR '':'' \<notin> set claims \<and>
       b64_decode (cr_url_safe cr) sig = Some (cr_hmac cr (as_bytes k) (as_bytes claims)))"
proof
  assume "verify_claims cr code = Ok claims"
  then show "\<exists>sig. code = claims @ '':'' @ sig \<and> CHR '':'' \<notin> set claims \<and>
      b64_decode (cr_url_safe cr) sig = Some (cr_hmac cr (as_bytes k) (as_bytes claims))"
    using assms split_once_Some [of "CHR '':''" code]
    by (auto simp: verify_claims_def ok_or_def expect_def outcome_simps Let_def split: option.splits if_splits)
next
  assume "\<exists>sig. code = claims @ '':'' @ sig \<and> CHR '':'' \<notin> set claims \<and>
      b64_decode (cr_url_safe cr) sig = Some (cr_hmac cr (as_bytes k) (as_bytes claims))"
  then show "verify_claims cr code = Ok claims"
    using assms by (auto simp: verify_claims_def split_once_append ok_or_def expect_def)
qed

lemma verify_claims_Err:
  "cr_link_device_secret cr = Some k \<Longrightarrow>
    case verify_claims cr code of Ok _ \<Rightarrow> True | Err e \<Rightarrow> status_code e \<in> {403, 500} | Panic \<Rightarrow> False"
  by (auto simp: verify_claims_def ok_or_def expect_def Let_def api_def split: option.split)

text \<open>
  C19 (safety). A verification code whose part after the first colon is not the base64 of the server's
  HMAC of the part before it is refused with 403 or 500, and the database is not even read.
\<close>

theorem forged_link_token_refused:
  assumes "cr_link_device_secret cr = Some k"
    and "\<And>claims sig. verification_code req = claims @ '':'' @ sig \<Longrightarrow> CHR '':'' \<notin> set claims \<Longrightarrow>
      b64_decode (cr_url_safe cr) sig \<noteq> Some (cr_hmac cr (as_bytes k) (as_bytes claims))"
  shows "\<exists>e. handle_post_link_device D ids cr clk random pw req d = (Err e, d) \<and> status_code e \<in> {403, 500}"
proof -
  have "verify_claims cr (verification_code req) \<noteq> Ok claims" for claims
    using verify_claims_Ok [OF assms(1)] assms(2) by blast
  then obtain e where "verify_claims cr (verification_code req) = Err e" "status_code e \<in> {403, 500}"
    using verify_claims_Err [OF assms(1), of "verification_code req"]
    by (cases "verify_claims cr (verification_code req)") auto
  then show ?thesis by (simp add: handle_post_link_device_def)
qed

theorem forged_link_token_refused_witness:
  "\<exists>e. handle_post_link_device (postgres std_ids \<lparr>serialize = (\<lambda>_. []), deserialize = (\<lambda>_. Panic)\<rparr>) std_ids toy_crypto None []
      '''' (link_request ''a:'') empty_pg = (Err e, empty_pg) \<and> status_code e \<in> {403, 500}"
proof (rule forged_link_token_refused)
  show "cr_link_device_secret toy_crypto = Some ''s''" by (simp add: toy_crypto_def)
  fix claims sig
  assume "verification_code (link_request ''a:'') = claims @ '':'' @ sig" "CHR '':'' \<notin> set claims"
  then have "claims = ''a''" "sig = ''''" by (cases claims; auto simp: link_request_def Cons_eq_append_conv)+
  moreover have "b64_decode BASE64_STANDARD '''' = Some []"
    using base64_laws.decode_encode [OF rfc4648.base64_laws_axioms, of "[]"] by (simp add: BASE64_STANDARD_def)
  ultimately show "b64_decode (cr_url_safe toy_crypto) sig \<noteq>
      Some (cr_hmac toy_crypto (as_bytes ''s'') (as_bytes claims))"
    by (simp add: toy_crypto_def as_bytes_def)
qed

lemma link_with_token:
  assumes "id_codec_laws ids" "\<And>bs. b64_decode (cr_url_safe cr) (b64_encode (cr_url_safe cr) bs) = Some bs"
    and "cr_link_device_secret cr = Some k"
    and "handle_get_link_device_token ids cr (Some t1) ad = Ok tok" "verification_code req = ldt_verification_code tok"
    and "t1 \<le> t2" "(t2 - t1) + 10 ^ 6 \<le> 601 * 10 ^ 9" "t1 div 10 ^ 6 < 2 ^ 64"
    and "get_account D (Aci (aci (auth_account ad))) d = (Ok a, d)"
    and "link_keys_valid cr a (ldr_device_activation_request req)"
    and "capabilities_kept a (att_capabilities (ldr_account_attributes req)) VALUES = Ok True"
    and "add_used_device_link_token D (verification_code req) d = (Ok (), d1)"
    and "get_next_device_id a = Ok n" "SaltedTokenHash_generate_for (cr_hkdf cr) (cr_hex cr) random pw = Ok h"
    and "add_device D (Aci (aci (auth_account ad))) (device_builder (ldr_account_attributes req) n (as_millis t2) h) d1 = (Ok (), d2)"
  shows "handle_post_link_device D ids cr (Some t2) random pw req d =
    (Ok \<lparr>ldr_aci = service_id_string ids (Aci (aci a)), ldr_pni = service_id_string ids (Pni (pni a)), ldr_device_id = n\<rparr>, d2)"
proof -
  let ?u = "Aci (aci (auth_account ad))" and ?ms = "t1 div 10 ^ 6"
  define claims where "claims = service_id_string ids ?u @ ''.'' @ show_nat ?ms"
  have "verification_code req = claims @ '':'' @ b64_encode (cr_url_safe cr) (cr_hmac cr (as_bytes k) (as_bytes claims))"
    using assms(3-5)
    by (auto simp: handle_get_link_device_token_def time_now_def ok_or_def expect_def as_millis_def Let_def claims_def split: if_splits)
  moreover have "CHR '':'' \<notin> set claims"
    by (simp add: claims_def id_codec_laws.aci_no_colon [OF assms(1)] show_nat_no_char)
  ultimately have claims: "verify_claims cr (verification_code req) = Ok claims"
    unfolding verify_claims_Ok [OF assms(3)] using assms(2) by blast
  have "?ms * 10 ^ 6 \<le> t1" by (rule div_times_less_eq_dividend)
  moreover have "t1 < (?ms + 1) * 10 ^ 6" by (simp add: div_less_iff_less_mult [symmetric])
  ultimately have age: "?ms * 10 ^ 6 \<le> t2" "(t2 - ?ms * 10 ^ 6) div 10 ^ 9 < 601"
    using assms(6,7) by (simp_all add: div_less_iff_less_mult)
  have "split_once (CHR ''.'') claims = Some (service_id_string ids ?u, show_nat ?ms)"
    using split_once_append [OF id_codec_laws.string_no_dot [OF assms(1)], of ?u "show_nat ?ms"] by (simp add: claims_def)
  moreover have "parse_u64 (show_nat ?ms) = Some ?ms" by (rule parse_u64_show_nat [OF assms(8)])
  ultimately have account: "claimed_account ids (Some t2) claims = Ok (?u, t2)"
    using age by (simp add: claimed_account_def ok_or_def expect_def Let_def id_codec_laws.parse_string [OF assms(1)])
  show ?thesis
    using assms(9-15) by (simp add: handle_post_link_device_def claims account expect_def)
qed

text \<open>The example request succeeds.\<close>

lemma example_token: "handle_get_link_device_token std_ids toy_crypto (Some 0)
     \<lparr>auth_account = bob_account, auth_device = hd (devices bob_account)\<rparr> = Ok example_token"
  by (simp add: example_token_def handle_get_link_device_token_def bob_account_def reloaded_def example_account_def
      time_now_def ok_or_def expect_def toy_crypto_def Let_def)

lemma example_conditions:
  fixes C :: "envelope codec"
  defines "req \<equiv> link_request (ldt_verification_code example_token)"
    and "h \<equiv> ok_val (SaltedTokenHash_generate_for (cr_hkdf toy_crypto) (cr_hex toy_crypto) [0] ''pw'' :: (api_error, salted_token_hash) outcome)"
  shows "cr_link_device_secret toy_crypto = Some ''s''"
    "get_account (postgres std_ids C) (Aci 1) stored_example = (Ok bob_account, stored_example)"
    "link_keys_valid toy_crypto bob_account (ldr_device_activation_request req)"
    "capabilities_kept bob_account (att_capabilities (ldr_account_attributes req)) VALUES = Ok True"
    "get_next_device_id bob_account = Ok 2"
    "SaltedTokenHash_generate_for (cr_hkdf toy_crypto) (cr_hex toy_crypto) [0] ''pw'' = Ok h"
  using get_stored_example
  by (simp_all add: toy_crypto_def postgres_def link_keys_valid_def validate_pre_key_signatures_def signature_valid_def
      link_request_def toy_key_def req_def VALUES_def account_has_capability_def expect_def bob_account_def reloaded_def
      example_account_def device_has_capability_def get_next_device_id_def h_def SaltedTokenHash_generate_for_def
      SaltedTokenHash_calculate_def HKDF_DeriveSecrets_def toy_hkdf_def ok_or_def Let_def)

lemma example_calls:
  "\<exists>d1 d2. add_used_device_link_token (postgres std_ids C) tok stored_example = (Ok (), d1) \<and>
    add_device (postgres std_ids C) (Aci 1) (device_builder att 2 m h) d1 = (Ok (), d2)"
proof -
  let ?d1 = "stored_example\<lparr>used_device_link_tokens := t_insert tok (used_device_link_tokens stored_example)\<rparr>"
  have used: "add_used_device_link_token (postgres std_ids C) tok stored_example = (Ok (), ?d1)"
    by (simp add: postgres_def pg_add_used_device_link_token_def executeS_def stored_example_eq with_account_def empty_pg_tables)
  have "account_rows (service_id_string std_ids (Aci 1)) ?d1 = [(tseq (accounts empty_pg), account_row_of std_ids example_account)]"
    by (simp add: account_rows_def t_select_def stored_example_eq with_account_def empty_pg_tables account_row_of_def example_account_def)
  moreover have "show_nat 2 \<noteq> show_nat (Suc 0)" by (auto dest: show_nat_inj)
  ultimately have "\<exists>d2. add_device (postgres std_ids C) (Aci 1) (device_builder att 2 m h) ?d1 = (Ok (), d2)"
    by (simp add: postgres_def pg_add_device_def executeS_def device_row_of_def device_builder_def stored_example_eq
        with_account_def empty_pg_tables example_account_def)
  with used show ?thesis by blast
qed

lemma example_linked:
  "\<exists>d2. handle_post_link_device (postgres std_ids C) std_ids toy_crypto (Some 0) [0] ''pw''
      (link_request (ldt_verification_code example_token)) stored_example =
    (Ok \<lparr>ldr_aci = service_id_string std_ids (Aci 1), ldr_pni = service_id_string std_ids (Pni 2), ldr_device_id = 2\<rparr>, d2)"
proof -
  let ?ad = "\<lparr>auth_account = bob_account, auth_device = hd (devices bob_account)\<rparr>"
  have ids: "aci bob_account = 1" "pni bob_account = 2" by (simp_all add: bob_account_def example_account_def)
  have req: "verification_code (link_request x) = x" for x by (simp add: link_request_def)
  have url: "b64_decode (cr_url_safe toy_crypto) (b64_encode (cr_url_safe toy_crypto) bs) = Some bs" for bs
    by (simp add: toy_crypto_def base64_laws.decode_encode [OF rfc4648.base64_laws_axioms])
  obtain d1 d2 where calls: "add_used_device_link_token (postgres std_ids C) (ldt_verification_code example_token) stored_example = (Ok (), d1)"
    "add_device (postgres std_ids C) (Aci 1) (device_builder (ldr_account_attributes (link_request (ldt_verification_code example_token)))
      2 (as_millis 0) (ok_val (SaltedTokenHash_generate_for (cr_hkdf toy_crypto) (cr_hex toy_crypto) [0] ''pw'' ::
        (api_error, salted_token_hash) outcome))) d1 = (Ok (), d2)"
    using example_calls [of C "ldt_verification_code example_token"] by blast
  show ?thesis
    using link_with_token [where ?t1.0 = 0 and ?t2.0 = 0 and D = "postgres std_ids C" and d = stored_example and a = bob_account
        and ?d1.0 = d1 and n = 2 and random = "[0]" and pw = "''pw''" and ?d2.0 = d2,
        OF std_ids.id_codec_laws_axioms url example_conditions(1) example_token req] example_conditions(2) [of C] example_conditions(3-6) calls
    by (auto simp: ids req)
qed

text \<open>
  C20 (functional). The code that \<open>handle_get_link_device_token\<close> gives to the primary device of an
  account is accepted until 600 seconds have passed, for a new device whose signed keys verify under
  the account's identity keys and that keeps the required capabilities, if the code is unused: the
  new device gets the next id of the account, and both ids of the account are returned.
\<close>

theorem link_token_accepted:
  assumes "id_codec_laws ids" "\<And>bs. b64_decode (cr_url_safe cr) (b64_encode (cr_url_safe cr) bs) = Some bs"
    and "cr_link_device_secret cr = Some k"
    and "handle_get_link_device_token ids cr (Some t1) ad = Ok tok" "verification_code req = ldt_verification_code tok"
    and "t1 \<le> t2" "(t2 - t1) + 10 ^ 6 \<le> 601 * 10 ^ 9" "t1 div 10 ^ 6 < 2 ^ 64"
    and "get_account D (Aci (aci (auth_account ad))) d = (Ok a, d)"
    and "link_keys_valid cr a (ldr_device_activation_request req)"
    and "capabilities_kept a (att_capabilities (ldr_account_attributes req)) VALUES = Ok True"
    and "add_used_device_link_token D (verification_code req) d = (Ok (), d1)"
    and "get_next_device_id a = Ok n" "SaltedTokenHash_generate_for (cr_hkdf cr) (cr_hex cr) random pw = Ok h"
    and "add_device D (Aci (aci (auth_account ad))) (device_builder (ldr_account_attributes req) n (as_millis t2) h) d1 = (Ok (), d2)"
  shows "handle_post_link_device D ids cr (Some t2) random pw req d =
    (Ok \<lparr>ldr_aci = service_id_string ids (Aci (aci a)), ldr_pni = service_id_string ids (Pni (pni a)), ldr_device_id = n\<rparr>, d2)"
  by (rule link_with_token [OF assms])

theorem link_token_accepted_witness:
  "\<exists>d2. handle_post_link_device (postgres std_ids \<lparr>serialize = (\<lambda>_. []), deserialize = (\<lambda>_. Panic)\<rparr>) std_ids toy_crypto (Some 0) [0] ''pw''
      (link_request (ldt_verification_code example_token)) stored_example =
    (Ok \<lparr>ldr_aci = service_id_string std_ids (Aci 1), ldr_pni = service_id_string std_ids (Pni 2), ldr_device_id = 2\<rparr>, d2)"
proof -
  let ?C = "\<lparr>serialize = (\<lambda>_. []), deserialize = (\<lambda>_. Panic)\<rparr> :: envelope codec"
  have ids: "aci bob_account = 1" "pni bob_account = 2" by (simp_all add: bob_account_def example_account_def)
  have req: "verification_code (link_request x) = x" for x by (simp add: link_request_def)
  have url: "b64_decode (cr_url_safe toy_crypto) (b64_encode (cr_url_safe toy_crypto) bs) = Some bs" for bs
    by (simp add: toy_crypto_def base64_laws.decode_encode [OF rfc4648.base64_laws_axioms])
  obtain d1 d2 where calls: "add_used_device_link_token (postgres std_ids ?C) (ldt_verification_code example_token) stored_example = (Ok (), d1)"
    "add_device (postgres std_ids ?C) (Aci 1) (device_builder (ldr_account_attributes (link_request (ldt_verification_code example_token)))
      2 (as_millis 0) (ok_val (SaltedTokenHash_generate_for (cr_hkdf toy_crypto) (cr_hex toy_crypto) [0] ''pw'' ::
        (api_error, salted_token_hash) outcome))) d1 = (Ok (), d2)"
    using example_calls [of ?C "ldt_verification_code example_token"] by blast
  show ?thesis
    using link_token_accepted [where ?t1.0 = 0 and ?t2.0 = 0 and D = "postgres std_ids ?C" and d = stored_example and a = bob_account
        and ?d1.0 = d1 and n = 2 and random = "[0]" and pw = "''pw''" and ?d2.0 = d2,
        OF std_ids.id_codec_laws_axioms url example_conditions(1) example_token req] example_conditions(2) [of ?C] example_conditions(3-6) calls
    by (auto simp: ids req)
qed

section \<open>Tokens are used once\<close>

lemma map_errS_Ok: "map_errS f m s = (Ok x, s') \<Longrightarrow> m s = (Ok x, s')"
  by (cases "m s"; cases "fst (m s)") auto

text \<open>The three calls of the database in a request that succeeds.\<close>

lemma link_device_calls:
  assumes "handle_post_link_device D ids cr clk random pw req d = (Ok r, d')"
  obtains sid a d0 d1 dev where "get_account D sid d = (Ok a, d0)"
    "add_used_device_link_token D (verification_code req) d0 = (Ok (), d1)" "add_device D sid dev d1 = (Ok (), d')"
  using assms unfolding handle_post_link_device_def Let_def
  apply (elim bindS_eq_OkE; clarsimp dest!: map_errS_Ok split: if_splits)
  apply (elim bindS_eq_OkE; clarsimp dest!: map_errS_Ok split: if_splits)
  apply (elim bindS_eq_OkE; clarsimp dest!: map_errS_Ok split: if_splits)
  apply (elim bindS_eq_OkE; clarsimp dest!: map_errS_Ok split: if_splits)
  done

lemma pg_get_account_reads: "pg_get_account ids sid db = (r, db') \<Longrightarrow> db' = db"
proof -
  have query: "snd (queryS f s) = s" for f :: "pg \<Rightarrow> (db_error, 'x) outcome" and s by (simp add: queryS_def)
  have "snd (pg_get_account ids sid db) = db"
    unfolding pg_get_account_def pg_get_all_devices_def pg_get_all_device_capabilities_def
    by (rule bindS_keeps [where P = "\<lambda>s. s = db"] | simp add: query)+
  then show "pg_get_account ids sid db = (r, db') \<Longrightarrow> db' = db" by simp
qed

definition token_used :: "string \<Rightarrow> pg \<Rightarrow> bool" where
  "token_used tok db \<longleftrightarrow> tok \<in> snd ` set (trows (used_device_link_tokens db))"

lemma use_token:
  "pg_add_used_device_link_token tok db = (Ok (), db') \<Longrightarrow> \<not> token_used tok db \<and> token_used tok db'"
  by (auto simp: pg_add_used_device_link_token_def executeS_def token_used_def split: if_splits)

lemma add_device_tokens: "pg_add_device ids sid d db = (r, db') \<Longrightarrow> used_device_link_tokens db' = used_device_link_tokens db"
  by (auto simp: pg_add_device_def executeS_def outcome_simps split: outcome.splits)

lemma link_device_token:
  assumes "handle_post_link_device (postgres ids C) ids cr clk random pw req db = (Ok r, db')"
  shows "\<not> token_used (verification_code req) db \<and> token_used (verification_code req) db'"
proof -
  obtain sid a d0 d1 dev where calls: "pg_get_account ids sid db = (Ok a, d0)"
    "pg_add_used_device_link_token (verification_code req) d0 = (Ok (), d1)" "pg_add_device ids sid dev d1 = (Ok (), db')"
    by (rule link_device_calls [OF assms]) (simp add: postgres_def)
  from pg_get_account_reads [OF calls(1)] use_token [OF calls(2)] add_device_tokens [OF calls(3)]
  show ?thesis by (simp add: token_used_def)
qed

text \<open>
  C21 (safety). On Postgres a verification code links at most one device: after a request with a code has
  succeeded, no request with the same code succeeds, whatever its other contents, time and password.
\<close>

theorem link_token_once:
  assumes "handle_post_link_device (postgres ids C) ids cr clk random pw req db = (Ok r, db')"
    and "verification_code req' = verification_code req"
  shows "\<not> is_ok (fst (handle_post_link_device (postgres ids C) ids cr clk' random' pw' req' db'))"
proof
  assume "is_ok (fst (handle_post_link_device (postgres ids C) ids cr clk' random' pw' req' db'))"
  then obtain r' db'' where "handle_post_link_device (postgres ids C) ids cr clk' random' pw' req' db' = (Ok r', db'')"
    by (cases "handle_post_link_device (postgres ids C) ids cr clk' random' pw' req' db'"; cases "fst (handle_post_link_device (postgres ids C) ids cr clk' random' pw' req' db')") auto
  from link_device_token [OF this] link_device_token [OF assms(1)] assms(2) show False by simp
qed

theorem link_token_once_witness:
  "\<exists>db'. \<not> is_ok (fst (handle_post_link_device (postgres std_ids \<lparr>serialize = (\<lambda>_. []), deserialize = (\<lambda>_. Panic)\<rparr>) std_ids
      toy_crypto (Some 5) [1] ''other'' (link_request (ldt_verification_code example_token)) db')) \<and>
    token_used (ldt_verification_code example_token) db'"
proof -
  obtain d2 where d2: "handle_post_link_device (postgres std_ids \<lparr>serialize = (\<lambda>_. []), deserialize = (\<lambda>_. Panic)\<rparr>) std_ids toy_crypto
      (Some 0) [0] ''pw'' (link_request (ldt_verification_code example_token)) stored_example =
    (Ok \<lparr>ldr_aci = service_id_string std_ids (Aci 1), ldr_pni = service_id_string std_ids (Pni 2), ldr_device_id = 2\<rparr>, d2)"
    using example_linked by blast
  from link_device_token [OF d2] link_token_once [OF d2 refl] show ?thesis
    by (auto simp: link_request_def)
qed

end
