(* ===== verification/Sqlite.thy ===== *)
theory Sqlite
  imports Ids
begin

text \<open>
  The tables of the client's SQLite database (\<open>client/client_db/migrations\<close>) and the calls of
  rusqlite. A table is its rows with their rowids, in the order of the rowids, in which SQLite
  is assumed to scan a table that has no other index, though its documentation does not promise an order
  without \<open>ORDER BY\<close>. \<open>INTEGER PRIMARY KEY\<close> without
  \<open>AUTOINCREMENT\<close> gives a new row the largest rowid plus one, so the id of a deleted last row is
  used again. The errors of rusqlite are those of the statements themselves; that the file cannot be
  read or written is not modelled.
\<close>

section \<open>Errors\<close>

text \<open>libsignal's error type; everything that the client's database reports is an \<open>InvalidArgument\<close>.\<close>

datatype signal_protocol_error = InvalidArgument string | ProtocolError string

fun show_protocol_error :: "signal_protocol_error \<Rightarrow> string" where
  "show_protocol_error (InvalidArgument s) = ''invalid argument: '' @ s"
| "show_protocol_error (ProtocolError s) = s"

section \<open>Tables\<close>

type_synonym 'a rows = "(nat \<times> 'a) list"

definition new_rowid :: "'a rows \<Rightarrow> nat" where
  "new_rowid rs = foldr max (map fst rs) 0 + 1"

definition insert_row :: "'a \<Rightarrow> 'a rows \<Rightarrow> 'a rows" where
  "insert_row x rs = rs @ [(new_rowid rs, x)]"

definition delete_rows :: "(nat \<times> 'a \<Rightarrow> bool) \<Rightarrow> 'a rows \<Rightarrow> 'a rows" where
  "delete_rows P rs = filter (\<lambda>r. \<not> P r) rs"

definition update_rows :: "(nat \<times> 'a \<Rightarrow> bool) \<Rightarrow> ('a \<Rightarrow> 'a) \<Rightarrow> 'a rows \<Rightarrow> 'a rows" where
  "update_rows P f rs = map (\<lambda>r. if P r then (fst r, f (snd r)) else r) rs"

text \<open>\<open>INSERT .. ON CONFLICT(column) DO UPDATE\<close> of a row with a unique key.\<close>

definition upsert_row :: "'k \<Rightarrow> 'v \<Rightarrow> ('k \<times> 'v) rows \<Rightarrow> ('k \<times> 'v) rows" where
  "upsert_row k v rs =
     (if k \<in> set (map (fst \<circ> snd) rs) then update_rows (\<lambda>(i, k', _). k' = k) (\<lambda>_. (k, v)) rs
      else insert_row (k, v) rs)"

definition lookup_row :: "'k \<Rightarrow> ('k \<times> 'v) rows \<Rightarrow> 'v option" where
  "lookup_row k rs = map_of (map snd rs) k"

text \<open>\<open>query_row\<close> takes the first row and fails when there is none; \<open>optional\<close> turns that into \<open>None\<close>.\<close>

definition query_row :: "'a list \<Rightarrow> (signal_protocol_error, 'a) outcome" where
  "query_row rs = (case rs of [] \<Rightarrow> Err (InvalidArgument ''Query returned no rows'') | r # _ \<Rightarrow> Ok r)"

text \<open>Reading a rowid as a \<open>u32\<close>.\<close>

definition get_u32 :: "nat \<Rightarrow> (signal_protocol_error, nat) outcome" where
  "get_u32 i = (if i < 2 ^ 32 then Ok i else Err (InvalidArgument ''Integer out of range''))"

text \<open>A transaction that is dropped without \<open>commit\<close> changes nothing.\<close>

definition transactionS :: "('s, 'e, 'a) step \<Rightarrow> ('s, 'e, 'a) step" where
  "transactionS m s = (case m s of (Ok x, s') \<Rightarrow> (Ok x, s') | (Err e, _) \<Rightarrow> (Err e, s) | (Panic, _) \<Rightarrow> (Panic, s))"

section \<open>Facts\<close>

named_theorems row_simps \<open>what the statements do to a table\<close>

definition rowids_ok :: "'a rows \<Rightarrow> bool" where
  "rowids_ok rs \<longleftrightarrow> sorted_wrt (<) (map fst rs)"

lemma rowids_Nil [row_simps]: "rowids_ok []"
  by (simp add: rowids_ok_def)

lemma new_rowid_greater: "i \<in> fst ` set rs \<Longrightarrow> i < new_rowid rs"
proof (induction rs)
  case (Cons r rs)
  then show ?case by (cases "i = fst r") (auto simp: new_rowid_def less_Suc_eq_le max_def)
qed simp

lemma rowids_insert [row_simps]: "rowids_ok rs \<Longrightarrow> rowids_ok (insert_row x rs)"
  using new_rowid_greater [of _ rs] by (auto simp: rowids_ok_def insert_row_def sorted_wrt_append)

lemma rowids_filter: "rowids_ok rs \<Longrightarrow> rowids_ok (filter P rs)"
  unfolding rowids_ok_def by (induction rs) auto

lemma rowids_delete [row_simps]: "rowids_ok rs \<Longrightarrow> rowids_ok (delete_rows P rs)"
  by (simp add: delete_rows_def rowids_filter)

lemma update_ids [row_simps]: "map fst (update_rows P f rs) = map fst rs"
  by (simp add: update_rows_def)

lemma rowids_update [row_simps]: "rowids_ok rs \<Longrightarrow> rowids_ok (update_rows P f rs)"
  unfolding rowids_ok_def update_ids .

lemma rowids_upsert [row_simps]: "rowids_ok rs \<Longrightarrow> rowids_ok (upsert_row k v rs)"
  by (simp add: upsert_row_def row_simps)

lemma rowids_distinct: "rowids_ok rs \<Longrightarrow> distinct (map fst rs)"
  by (simp add: rowids_ok_def strict_sorted_iff)

text \<open>Unique keys.\<close>

definition keys_unique :: "('k \<times> 'v) rows \<Rightarrow> bool" where
  "keys_unique rs \<longleftrightarrow> distinct (map (fst \<circ> snd) rs)"

lemma keys_unique_Nil [row_simps]: "keys_unique []"
  by (simp add: keys_unique_def)

lemma update_keys: "map (fst \<circ> snd) (update_rows (\<lambda>(i, k', _). k' = k) (\<lambda>_. (k, v)) rs) = map (fst \<circ> snd) rs"
  by (induction rs) (auto simp: update_rows_def)

lemma keys_unique_insert: "keys_unique rs \<Longrightarrow> k \<notin> set (map (fst \<circ> snd) rs) \<Longrightarrow> keys_unique (insert_row (k, v) rs)"
  by (simp add: keys_unique_def insert_row_def)

lemma keys_unique_upsert [row_simps]: "keys_unique rs \<Longrightarrow> keys_unique (upsert_row k v rs)"
  using keys_unique_insert [of rs k v] update_keys [of k v rs] by (auto simp: upsert_row_def keys_unique_def)

lemma keys_unique_delete [row_simps]: "keys_unique rs \<Longrightarrow> keys_unique (delete_rows P rs)"
  by (simp add: keys_unique_def delete_rows_def distinct_map_filter)

lemma map_of_update:
  "map_of (map snd (update_rows (\<lambda>(i, k', _). k' = k) (\<lambda>_. (k, v)) rs)) x =
    (if x = k \<and> k \<in> set (map (fst \<circ> snd) rs) then Some v else map_of (map snd rs) x)"
proof (induction rs)
  case (Cons r rs)
  obtain i a b where "r = (i, a, b)" by (cases r)
  with Cons show ?case by (cases "a = k"; cases "k \<in> set (map (fst \<circ> snd) rs)") (auto simp: update_rows_def)
qed (simp add: update_rows_def)

lemma lookup_upsert [row_simps]: "lookup_row k (upsert_row k' v rs) = (if k = k' then Some v else lookup_row k rs)"
proof (cases "k' \<in> set (map (fst \<circ> snd) rs)")
  case True
  then show ?thesis by (simp add: upsert_row_def lookup_row_def map_of_update)
next
  case False
  then have "map_of (map snd rs) k' = None" by (simp add: map_of_eq_None_iff image_comp)
  with False show ?thesis by (auto simp: upsert_row_def lookup_row_def insert_row_def map_add_def split: option.split)
qed

end
