(* ===== verification/Contacts.thy ===== *)
theory Contacts
  imports Sqlite
begin

text \<open>
  \<open>ContactManager\<close> of \<open>client/src/contact_manager.rs\<close>: the contacts of a client by service id, each
  with the devices a session exists for. A hash set of device ids is the list of its elements in the
  order in which it is iterated; the order is not used by any theorem.
\<close>

section \<open>Contacts\<close>

record contact_name =
  cn_name :: string
  cn_service_id :: service_id

record contact =
  ct_service_id :: service_id
  ct_device_ids :: "nat list"

type_synonym contacts = "service_id \<rightharpoonup> contact"

datatype contact_manager_error =
    DeviceNotFound nat | ServiceIDNotFound service_id | ServiceIDAlreadyExists service_id

definition set_insert :: "'a \<Rightarrow> 'a list \<Rightarrow> 'a list" where
  "set_insert x xs = (if x \<in> set xs then xs else xs @ [x])"

definition contact_new :: "service_id \<Rightarrow> contact" where
  "contact_new sid = \<lparr>ct_service_id = sid, ct_device_ids = []\<rparr>"

definition contact_get_address :: "id_codec \<Rightarrow> contact \<Rightarrow> nat \<Rightarrow> (contact_manager_error, protocol_address) outcome" where
  "contact_get_address ids c d =
     (if d \<in> set (ct_device_ids c) then Ok \<lparr>addr_name = service_id_string ids (ct_service_id c), addr_device_id = d\<rparr>
      else Err (DeviceNotFound d))"

section \<open>The manager\<close>

definition manager_add_contact :: "service_id \<Rightarrow> (contacts, contact_manager_error, unit) step" where
  "manager_add_contact sid m =
     (if m sid \<noteq> None then (Err (ServiceIDAlreadyExists sid), m) else (Ok (), m(sid \<mapsto> contact_new sid)))"

definition manager_get_contact :: "service_id \<Rightarrow> (contacts, contact_manager_error, contact) step" where
  "manager_get_contact sid m = (ok_or (ServiceIDNotFound sid) (m sid), m)"

definition manager_remove_contact :: "service_id \<Rightarrow> (contacts, contact_manager_error, unit) step" where
  "manager_remove_contact sid m =
     (if m sid = None then (Err (ServiceIDNotFound sid), m) else (Ok (), m(sid := None)))"

definition manager_update_contact :: "service_id \<Rightarrow> nat list \<Rightarrow> (contacts, contact_manager_error, unit) step" where
  "manager_update_contact sid ds m =
     (case m sid of
        None \<Rightarrow> (Err (ServiceIDNotFound sid), m)
      | Some c \<Rightarrow> (Ok (), m(sid \<mapsto> c\<lparr>ct_device_ids := fold set_insert ds (ct_device_ids c)\<rparr>)))"

definition new_with_contacts :: "contact list \<Rightarrow> contacts" where
  "new_with_contacts cs = fold (\<lambda>c m. m(ct_service_id c \<mapsto> c)) cs (\<lambda>_. None)"

section \<open>Facts\<close>

text \<open>A contact is stored under its own id and has no device twice.\<close>

definition contact_ok :: "contact \<Rightarrow> bool" where
  "contact_ok c \<longleftrightarrow> distinct (ct_device_ids c) \<and> (\<forall>d \<in> set (ct_device_ids c). d < 2 ^ 32)"

definition contacts_ok :: "contacts \<Rightarrow> bool" where
  "contacts_ok m \<longleftrightarrow> (\<forall>sid c. m sid = Some c \<longrightarrow> ct_service_id c = sid \<and> contact_ok c)"

lemma set_insert_set [simp]: "set (set_insert x xs) = insert x (set xs)"
  by (auto simp: set_insert_def)

lemma set_insert_distinct [simp]: "distinct xs \<Longrightarrow> distinct (set_insert x xs)"
  by (simp add: set_insert_def)

lemma fold_set_insert [simp]: "set (fold set_insert ds xs) = set ds \<union> set xs"
  by (induction ds arbitrary: xs) auto

lemma fold_set_insert_distinct [simp]: "distinct xs \<Longrightarrow> distinct (fold set_insert ds xs)"
  by (induction ds arbitrary: xs) auto

lemma contacts_ok_empty: "contacts_ok (\<lambda>_. None)"
  by (simp add: contacts_ok_def)

lemma manager_add_ok: "contacts_ok m \<Longrightarrow> contacts_ok (snd (manager_add_contact sid m))"
  by (auto simp: contacts_ok_def manager_add_contact_def contact_new_def contact_ok_def)

lemma manager_remove_ok: "contacts_ok m \<Longrightarrow> contacts_ok (snd (manager_remove_contact sid m))"
  by (auto simp: contacts_ok_def manager_remove_contact_def)

lemma manager_update_ok: "contacts_ok m \<Longrightarrow> \<forall>d \<in> set ds. d < 2 ^ 32 \<Longrightarrow> contacts_ok (snd (manager_update_contact sid ds m))"
  by (auto simp: contacts_ok_def manager_update_contact_def contact_ok_def split: option.split)

end
