(* ===== verification/Client_Database.thy ===== *)
theory Client_Database
  imports Contacts Chunker
begin

text \<open>
  The trait \<open>ClientDB\<close> of \<open>client/src/storage/database.rs\<close> as a record of steps on the state of the
  database, and the stores that hand it to libsignal: \<open>DeviceSessionStore\<close>, \<open>DeniableStore\<close> and
  the others. libsignal's own objects (identity keys, private keys, key, session and sender key
  records) are values of the type \<open>'o\<close>.
\<close>

section \<open>The trait\<close>

datatype direction = Sending | Receiving

type_synonym ('s, 'a) db_step = "('s, signal_protocol_error, 'a) step"

record ('s, 'o) client_db =
  insert_account_information :: "uuid \<Rightarrow> uuid \<Rightarrow> string \<Rightarrow> ('s, unit) db_step"
  insert_account_key_information :: "'o \<times> 'o \<Rightarrow> nat \<Rightarrow> ('s, unit) db_step"
  get_key_ids :: "('s, nat \<times> nat \<times> nat) db_step"
  store_contact :: "contact \<Rightarrow> ('s, unit) db_step"
  load_contacts :: "('s, contact list) db_step"
  db_remove_contact :: "service_id \<Rightarrow> ('s, unit) db_step"
  get_all_nicknames :: "('s, contact_name list) db_step"
  insert_service_id_for_nickname :: "string \<Rightarrow> service_id \<Rightarrow> ('s, unit) db_step"
  get_service_id_by_nickname :: "string \<Rightarrow> ('s, service_id) db_step"
  db_get_identity_key_pair :: "('s, 'o \<times> 'o) db_step"
  db_get_local_registration_id :: "('s, nat) db_step"
  db_save_identity :: "protocol_address \<Rightarrow> 'o \<Rightarrow> ('s, bool) db_step"
  save_deniable_identity :: "protocol_address \<Rightarrow> 'o \<Rightarrow> ('s, bool) db_step"
  db_is_trusted_identity :: "protocol_address \<Rightarrow> 'o \<Rightarrow> direction \<Rightarrow> ('s, bool) db_step"
  is_trusted_deniable_identity :: "protocol_address \<Rightarrow> 'o \<Rightarrow> direction \<Rightarrow> ('s, bool) db_step"
  db_get_identity :: "protocol_address \<Rightarrow> ('s, 'o option) db_step"
  get_deniable_identity :: "protocol_address \<Rightarrow> ('s, 'o option) db_step"
  db_get_pre_key :: "nat \<Rightarrow> ('s, 'o) db_step"
  db_save_pre_key :: "nat \<Rightarrow> 'o \<Rightarrow> ('s, unit) db_step"
  db_remove_pre_key :: "nat \<Rightarrow> ('s, unit) db_step"
  db_get_signed_pre_key :: "nat \<Rightarrow> ('s, 'o) db_step"
  db_save_signed_pre_key :: "nat \<Rightarrow> 'o \<Rightarrow> ('s, unit) db_step"
  db_get_kyber_pre_key :: "nat \<Rightarrow> ('s, 'o) db_step"
  db_save_kyber_pre_key :: "nat \<Rightarrow> 'o \<Rightarrow> ('s, unit) db_step"
  db_load_session :: "protocol_address \<Rightarrow> ('s, 'o option) db_step"
  load_deniable_session :: "protocol_address \<Rightarrow> ('s, 'o option) db_step"
  db_store_session :: "protocol_address \<Rightarrow> 'o \<Rightarrow> ('s, unit) db_step"
  store_deniable_session :: "protocol_address \<Rightarrow> 'o \<Rightarrow> ('s, unit) db_step"
  db_store_sender_key :: "protocol_address \<Rightarrow> uuid \<Rightarrow> 'o \<Rightarrow> ('s, unit) db_step"
  db_load_sender_key :: "protocol_address \<Rightarrow> uuid \<Rightarrow> ('s, 'o option) db_step"
  set_password :: "string \<Rightarrow> ('s, unit) db_step"
  get_password :: "('s, string) db_step"
  set_aci :: "uuid \<Rightarrow> ('s, unit) db_step"
  get_aci :: "('s, uuid) db_step"
  set_pni :: "uuid \<Rightarrow> ('s, unit) db_step"
  get_pni :: "('s, uuid) db_step"
  get_deniable_payload :: "('s, nat \<times> bytes \<times> int) db_step"
  get_deniable_payload_by_id :: "nat \<Rightarrow> ('s, bytes \<times> int) db_step"
  store_deniable_payload :: "nat option \<Rightarrow> int \<Rightarrow> bytes \<Rightarrow> ('s, unit) db_step"
  remove_deniable_payload :: "nat \<Rightarrow> ('s, unit) db_step"
  try_get_key_request_sent :: "string \<Rightarrow> ('s, string option) db_step"
  store_key_request_sent :: "string \<Rightarrow> string \<Rightarrow> ('s, unit) db_step"
  remove_key_request_sent :: "string \<Rightarrow> ('s, unit) db_step"
  get_messages_awaiting_encryption :: "string \<Rightarrow> ('s, string list) db_step"
  store_message_awaiting_encryption :: "string \<Rightarrow> string \<Rightarrow> ('s, unit) db_step"
  remove_message_awaiting_encryption :: "nat \<Rightarrow> ('s, unit) db_step"
  get_and_remove_incoming_deniable_chunks :: "('s, denim_chunk list) db_step"
  store_incoming_deniable_chunks :: "denim_chunk list \<Rightarrow> ('s, unit) db_step"

section \<open>The stores of libsignal\<close>

text \<open>The traits of libsignal that the client implements, as records of steps on the state they share.\<close>

record ('s, 'o) session_store =
  load_session :: "protocol_address \<Rightarrow> ('s, 'o option) db_step"
  store_session :: "protocol_address \<Rightarrow> 'o \<Rightarrow> ('s, unit) db_step"

record ('s, 'o) identity_key_store =
  get_identity_key_pair :: "('s, 'o \<times> 'o) db_step"
  get_local_registration_id :: "('s, nat) db_step"
  save_identity :: "protocol_address \<Rightarrow> 'o \<Rightarrow> ('s, bool) db_step"
  is_trusted_identity :: "protocol_address \<Rightarrow> 'o \<Rightarrow> direction \<Rightarrow> ('s, bool) db_step"
  get_identity :: "protocol_address \<Rightarrow> ('s, 'o option) db_step"

record ('s, 'o) pre_key_store =
  get_pre_key :: "nat \<Rightarrow> ('s, 'o) db_step"
  save_pre_key :: "nat \<Rightarrow> 'o \<Rightarrow> ('s, unit) db_step"
  remove_pre_key :: "nat \<Rightarrow> ('s, unit) db_step"

record ('s, 'o) signed_pre_key_store =
  get_signed_pre_key :: "nat \<Rightarrow> ('s, 'o) db_step"
  save_signed_pre_key :: "nat \<Rightarrow> 'o \<Rightarrow> ('s, unit) db_step"

record ('s, 'o) kyber_pre_key_store =
  get_kyber_pre_key :: "nat \<Rightarrow> ('s, 'o) db_step"
  save_kyber_pre_key :: "nat \<Rightarrow> 'o \<Rightarrow> ('s, unit) db_step"
  mark_kyber_pre_key_used :: "nat \<Rightarrow> ('s, unit) db_step"

record ('s, 'o) sender_key_store =
  store_sender_key :: "protocol_address \<Rightarrow> uuid \<Rightarrow> 'o \<Rightarrow> ('s, unit) db_step"
  load_sender_key :: "protocol_address \<Rightarrow> uuid \<Rightarrow> ('s, 'o option) db_step"

text \<open>Every store wraps the error of the database once more.\<close>

definition argument_err :: "('s, 'a) db_step \<Rightarrow> ('s, 'a) db_step" where
  "argument_err m s = (case m s of (r, s') \<Rightarrow> (map_err (\<lambda>e. InvalidArgument (show_protocol_error e)) r, s'))"

definition DeviceIdentityKeyStore :: "('s, 'o) client_db \<Rightarrow> ('s, 'o) identity_key_store" where
  "DeviceIdentityKeyStore T = \<lparr>
     get_identity_key_pair = argument_err (db_get_identity_key_pair T),
     get_local_registration_id = argument_err (db_get_local_registration_id T),
     save_identity = (\<lambda>a k. argument_err (db_save_identity T a k)),
     is_trusted_identity = (\<lambda>a k dir. argument_err (db_is_trusted_identity T a k dir)),
     get_identity = (\<lambda>a. argument_err (db_get_identity T a))\<rparr>"

definition DevicePreKeyStore :: "('s, 'o) client_db \<Rightarrow> ('s, 'o) pre_key_store" where
  "DevicePreKeyStore T = \<lparr>
     get_pre_key = (\<lambda>i. argument_err (db_get_pre_key T i)),
     save_pre_key = (\<lambda>i r. argument_err (db_save_pre_key T i r)),
     remove_pre_key = (\<lambda>i. argument_err (db_remove_pre_key T i))\<rparr>"

definition DeviceSignedPreKeyStore :: "('s, 'o) client_db \<Rightarrow> ('s, 'o) signed_pre_key_store" where
  "DeviceSignedPreKeyStore T = \<lparr>
     get_signed_pre_key = (\<lambda>i. argument_err (db_get_signed_pre_key T i)),
     save_signed_pre_key = (\<lambda>i r. argument_err (db_save_signed_pre_key T i r))\<rparr>"

definition DeviceKyberPreKeyStore :: "('s, 'o) client_db \<Rightarrow> ('s, 'o) kyber_pre_key_store" where
  "DeviceKyberPreKeyStore T = \<lparr>
     get_kyber_pre_key = (\<lambda>i. argument_err (db_get_kyber_pre_key T i)),
     save_kyber_pre_key = (\<lambda>i r. argument_err (db_save_kyber_pre_key T i r)),
     mark_kyber_pre_key_used = (\<lambda>i. returnS ())\<rparr>"

definition DeviceSessionStore :: "('s, 'o) client_db \<Rightarrow> ('s, 'o) session_store" where
  "DeviceSessionStore T = \<lparr>
     load_session = (\<lambda>a. argument_err (db_load_session T a)),
     store_session = (\<lambda>a r. argument_err (db_store_session T a r))\<rparr>"

definition DeviceSenderKeyStore :: "('s, 'o) client_db \<Rightarrow> ('s, 'o) sender_key_store" where
  "DeviceSenderKeyStore T = \<lparr>
     store_sender_key = (\<lambda>a u r. argument_err (db_store_sender_key T a u r)),
     load_sender_key = (\<lambda>a u. argument_err (db_load_sender_key T a u))\<rparr>"

definition DeniableSessionStore :: "('s, 'o) client_db \<Rightarrow> ('s, 'o) session_store" where
  "DeniableSessionStore T = \<lparr>
     load_session = (\<lambda>a. argument_err (load_deniable_session T a)),
     store_session = (\<lambda>a r. argument_err (store_deniable_session T a r))\<rparr>"

definition DeniableIdentityKeyStore :: "('s, 'o) client_db \<Rightarrow> ('s, 'o) identity_key_store" where
  "DeniableIdentityKeyStore T = \<lparr>
     get_identity_key_pair = argument_err (db_get_identity_key_pair T),
     get_local_registration_id = argument_err (db_get_local_registration_id T),
     save_identity = (\<lambda>a k. argument_err (save_deniable_identity T a k)),
     is_trusted_identity = (\<lambda>a k dir. argument_err (is_trusted_deniable_identity T a k dir)),
     get_identity = (\<lambda>a. argument_err (get_deniable_identity T a))\<rparr>"

text \<open>The buffer of the chunker; it prints the errors.\<close>

definition shown_err :: "('s, 'a) db_step \<Rightarrow> ('s, error, 'a) step" where
  "shown_err m s = (case m s of (r, s') \<Rightarrow> (map_err show_protocol_error r, s'))"

definition DeniableStore :: "('s, 'o) client_db \<Rightarrow> 's sending_buffer" where
  "DeniableStore T = \<lparr>
     get_outgoing_message = shown_err (argument_err (get_deniable_payload T)),
     set_outgoing_message = (\<lambda>i n d. shown_err (argument_err (store_deniable_payload T i n d))),
     remove_outgoing_message = (\<lambda>i. shown_err (argument_err (remove_deniable_payload T i)))\<rparr>"

record ('s, 'o) protocol_store =
  identity_key_store :: "('s, 'o) identity_key_store"
  pre_key_store :: "('s, 'o) pre_key_store"
  signed_pre_key_store :: "('s, 'o) signed_pre_key_store"
  kyber_pre_key_store :: "('s, 'o) kyber_pre_key_store"
  session_store :: "('s, 'o) session_store"
  sender_key_store :: "('s, 'o) sender_key_store"
  deniable_store :: "('s, 'o) session_store"
  deniable_buffer :: "'s sending_buffer"
  deniable_identity_key_store :: "('s, 'o) identity_key_store"

definition ProtocolStore_new :: "('s, 'o) client_db \<Rightarrow> ('s, 'o) protocol_store" where
  "ProtocolStore_new T = \<lparr>
     identity_key_store = DeviceIdentityKeyStore T, pre_key_store = DevicePreKeyStore T,
     signed_pre_key_store = DeviceSignedPreKeyStore T, kyber_pre_key_store = DeviceKyberPreKeyStore T,
     session_store = DeviceSessionStore T, sender_key_store = DeviceSenderKeyStore T,
     deniable_store = DeniableSessionStore T, deniable_buffer = DeniableStore T,
     deniable_identity_key_store = DeniableIdentityKeyStore T\<rparr>"

text \<open>\<open>ProtocolStore\<close> is itself a store of every kind and passes each call on.\<close>

definition ProtocolStore_identity :: "('s, 'o) protocol_store \<Rightarrow> ('s, 'o) identity_key_store" where
  "ProtocolStore_identity P = \<lparr>
     get_identity_key_pair = get_identity_key_pair (identity_key_store P),
     get_local_registration_id = get_local_registration_id (identity_key_store P),
     save_identity = (\<lambda>a k. save_identity (identity_key_store P) a k),
     is_trusted_identity = (\<lambda>a k dir. is_trusted_identity (identity_key_store P) a k dir),
     get_identity = (\<lambda>a. get_identity (identity_key_store P) a)\<rparr>"

definition ProtocolStore_pre_key :: "('s, 'o) protocol_store \<Rightarrow> ('s, 'o) pre_key_store" where
  "ProtocolStore_pre_key P = \<lparr>
     get_pre_key = (\<lambda>i. get_pre_key (pre_key_store P) i),
     save_pre_key = (\<lambda>i r. save_pre_key (pre_key_store P) i r),
     remove_pre_key = (\<lambda>i. remove_pre_key (pre_key_store P) i)\<rparr>"

definition ProtocolStore_signed_pre_key :: "('s, 'o) protocol_store \<Rightarrow> ('s, 'o) signed_pre_key_store" where
  "ProtocolStore_signed_pre_key P = \<lparr>
     get_signed_pre_key = (\<lambda>i. get_signed_pre_key (signed_pre_key_store P) i),
     save_signed_pre_key = (\<lambda>i r. save_signed_pre_key (signed_pre_key_store P) i r)\<rparr>"

definition ProtocolStore_kyber_pre_key :: "('s, 'o) protocol_store \<Rightarrow> ('s, 'o) kyber_pre_key_store" where
  "ProtocolStore_kyber_pre_key P = \<lparr>
     get_kyber_pre_key = (\<lambda>i. get_kyber_pre_key (kyber_pre_key_store P) i),
     save_kyber_pre_key = (\<lambda>i r. save_kyber_pre_key (kyber_pre_key_store P) i r),
     mark_kyber_pre_key_used = (\<lambda>i. mark_kyber_pre_key_used (kyber_pre_key_store P) i)\<rparr>"

definition ProtocolStore_session :: "('s, 'o) protocol_store \<Rightarrow> ('s, 'o) session_store" where
  "ProtocolStore_session P = \<lparr>
     load_session = (\<lambda>a. load_session (session_store P) a),
     store_session = (\<lambda>a r. store_session (session_store P) a r)\<rparr>"

definition ProtocolStore_sender_key :: "('s, 'o) protocol_store \<Rightarrow> ('s, 'o) sender_key_store" where
  "ProtocolStore_sender_key P = \<lparr>
     store_sender_key = (\<lambda>a u r. store_sender_key (sender_key_store P) a u r),
     load_sender_key = (\<lambda>a u. load_sender_key (sender_key_store P) a u)\<rparr>"

section \<open>Facts\<close>

lemma argument_err_Ok [simp]: "argument_err m s = (Ok x, s') \<longleftrightarrow> m s = (Ok x, s')"
  by (cases "m s"; cases "fst (m s)") (auto simp: argument_err_def)

lemma shown_err_Ok [simp]: "shown_err m s = (Ok x, s') \<longleftrightarrow> m s = (Ok x, s')"
  by (cases "m s"; cases "fst (m s)") (auto simp: shown_err_def)

lemma argument_err_Err: "m s = (Err e, s') \<Longrightarrow> argument_err m s = (Err (InvalidArgument (show_protocol_error e)), s')"
  by (simp add: argument_err_def)

lemma shown_err_Err: "m s = (Err e, s') \<Longrightarrow> shown_err m s = (Err (show_protocol_error e), s')"
  by (simp add: shown_err_def)

end
