(* ===== verification/Device_Store.thy ===== *)
theory Device_Store
  imports Client_Database Base64
begin

text \<open>
  \<open>Device\<close> of \<open>client/src/storage/device.rs\<close>: the trait \<open>ClientDB\<close> on the client's SQLite tables.
  Every definition carries out the statements of its function. How libsignal serialises its objects
  is a parameter.
\<close>

section \<open>The environment\<close>

record 'o object_codec =
  obj_serialize :: "'o \<Rightarrow> (signal_protocol_error, bytes) outcome"
  obj_deserialize :: "bytes \<Rightarrow> (signal_protocol_error, 'o) outcome"

record 'o libsignal =
  identity_serialize :: "'o \<Rightarrow> bytes"
  identity_decode :: "bytes \<Rightarrow> (signal_protocol_error, 'o) outcome"
  private_serialize :: "'o \<Rightarrow> bytes"
  private_deserialize :: "bytes \<Rightarrow> (signal_protocol_error, 'o) outcome"
  pre_key_record :: "'o object_codec"
  signed_pre_key_record :: "'o object_codec"
  kyber_pre_key_record :: "'o object_codec"
  session_record :: "'o object_codec"
  sender_key_record :: "'o object_codec"

record 'o device_env =
  dv_base64 :: base64
  dv_ids :: id_codec
  dv_lib :: "'o libsignal"

section \<open>The tables\<close>

record device_db =
  identity_tbl :: "(string \<times> string \<times> string) rows"
  identity_keys_tbl :: "(string \<times> string \<times> nat) rows"
  identity_key_tbl :: "(string \<times> string) rows"
  deniable_identity_key_tbl :: "(string \<times> string) rows"
  pre_key_tbl :: "(nat \<times> string) rows"
  signed_pre_key_tbl :: "(nat \<times> string) rows"
  kyber_pre_key_tbl :: "(nat \<times> string) rows"
  session_tbl :: "(string \<times> string) rows"
  deniable_session_tbl :: "(string \<times> string) rows"
  sender_key_tbl :: "(string \<times> string) rows"
  contacts_tbl :: "(string \<times> string) rows"
  nicknames_tbl :: "(string \<times> string) rows"
  deniable_payload_tbl :: "(bytes \<times> int) rows"
  key_requests_tbl :: "(string \<times> string) rows"
  awaiting_tbl :: "(string \<times> string) rows"
  incoming_chunk_tbl :: "(bytes \<times> int) rows"

definition empty_device_db :: device_db where
  "empty_device_db = \<lparr>identity_tbl = [], identity_keys_tbl = [], identity_key_tbl = [],
     deniable_identity_key_tbl = [], pre_key_tbl = [], signed_pre_key_tbl = [], kyber_pre_key_tbl = [],
     session_tbl = [], deniable_session_tbl = [], sender_key_tbl = [], contacts_tbl = [], nicknames_tbl = [],
     deniable_payload_tbl = [], key_requests_tbl = [], awaiting_tbl = [], incoming_chunk_tbl = []\<rparr>"

type_synonym 'a dev_step = "(device_db, 'a) db_step"

text \<open>A text column that holds base64, and a query for at most one such column.\<close>

definition decode_base64 :: "base64 \<Rightarrow> string \<Rightarrow> (signal_protocol_error, bytes) outcome" where
  "decode_base64 b64 s = ok_or (InvalidArgument ''Invalid symbol'') (b64_decode b64 s)"

definition decode_object :: "'o device_env \<Rightarrow> (bytes \<Rightarrow> (signal_protocol_error, 'o) outcome) \<Rightarrow> string
    \<Rightarrow> (signal_protocol_error, 'o) outcome" where
  "decode_object E de s = bind (decode_base64 (dv_base64 E) s) de"

definition decode_optional :: "'o device_env \<Rightarrow> (bytes \<Rightarrow> (signal_protocol_error, 'o) outcome) \<Rightarrow> string option
    \<Rightarrow> (signal_protocol_error, 'o option) outcome" where
  "decode_optional E de row = (case row of None \<Rightarrow> Ok None | Some s \<Rightarrow> bind (decode_object E de s) (\<lambda>x. Ok (Some x)))"

text \<open>Results that are wrapped into \<open>InvalidArgument\<close> once more.\<close>

definition as_argument :: "(signal_protocol_error, 'a) outcome \<Rightarrow> (signal_protocol_error, 'a) outcome" where
  "as_argument = map_err (\<lambda>e. InvalidArgument (show_protocol_error e))"

definition serialized :: "'o device_env \<Rightarrow> 'o object_codec \<Rightarrow> 'o \<Rightarrow> (signal_protocol_error, string) outcome" where
  "serialized E C r = bind (obj_serialize C r) (\<lambda>bs. Ok (b64_encode (dv_base64 E) bs))"

section \<open>Account\<close>

definition dev_insert_account_information :: "'o device_env \<Rightarrow> uuid \<Rightarrow> uuid \<Rightarrow> string \<Rightarrow> unit dev_step" where
  "dev_insert_account_information E a p pw =
     modifyS (\<lambda>db. db\<lparr>identity_tbl := insert_row
       (service_id_string (dv_ids E) (Aci a), service_id_string (dv_ids E) (Pni p), pw) (identity_tbl db)\<rparr>)"

definition dev_insert_account_key_information :: "'o device_env \<Rightarrow> 'o \<times> 'o \<Rightarrow> nat \<Rightarrow> unit dev_step" where
  "dev_insert_account_key_information E key_pair reg =
     (let pk = b64_encode (dv_base64 E) (identity_serialize (dv_lib E) (fst key_pair));
          sk = b64_encode (dv_base64 E) (private_serialize (dv_lib E) (snd key_pair)) in
      modifyS (\<lambda>db. db\<lparr>identity_keys_tbl := insert_row (pk, sk, reg) (identity_keys_tbl db)\<rparr>))"

text \<open>\<open>MAX\<close> of a column, 0 for an empty table.\<close>

definition max_key :: "(nat \<times> 'v) rows \<Rightarrow> nat" where
  "max_key rs = foldr max (map (fst \<circ> snd) rs) 0"

definition dev_get_key_ids :: "(nat \<times> nat \<times> nat) dev_step" where
  "dev_get_key_ids = getS (\<lambda>db. (max_key (pre_key_tbl db), max_key (signed_pre_key_tbl db), max_key (kyber_pre_key_tbl db)))"

definition dev_get_identity_key_pair :: "'o device_env \<Rightarrow> ('o \<times> 'o) dev_step" where
  "dev_get_identity_key_pair E =
     bindS (getS (\<lambda>db. map snd (identity_keys_tbl db))) (\<lambda>rs. liftS (
       bind (query_row rs) (\<lambda>(pk, sk, _).
       bind (decode_base64 (dv_base64 E) pk) (\<lambda>pkb.
       bind (as_argument (identity_decode (dv_lib E) pkb)) (\<lambda>ik.
       bind (decode_base64 (dv_base64 E) sk) (\<lambda>skb.
       bind (as_argument (private_deserialize (dv_lib E) skb)) (\<lambda>priv.
       Ok (ik, priv))))))))"

definition dev_get_local_registration_id :: "nat dev_step" where
  "dev_get_local_registration_id =
     bindS (getS (\<lambda>db. map (snd \<circ> snd \<circ> snd) (identity_keys_tbl db))) (\<lambda>rs. liftS (query_row rs))"

definition dev_set_password :: "string \<Rightarrow> unit dev_step" where
  "dev_set_password pw = modifyS (\<lambda>db. db\<lparr>identity_tbl := update_rows (\<lambda>_. True) (\<lambda>(a, p, _). (a, p, pw)) (identity_tbl db)\<rparr>)"

definition dev_get_password :: "string dev_step" where
  "dev_get_password = bindS (getS (\<lambda>db. map (snd \<circ> snd \<circ> snd) (identity_tbl db))) (\<lambda>rs. liftS (query_row rs))"

definition dev_set_aci :: "'o device_env \<Rightarrow> uuid \<Rightarrow> unit dev_step" where
  "dev_set_aci E a = modifyS (\<lambda>db. db\<lparr>identity_tbl :=
     update_rows (\<lambda>_. True) (\<lambda>(_, p, pw). (service_id_string (dv_ids E) (Aci a), p, pw)) (identity_tbl db)\<rparr>)"

definition parse_kind_aci :: "id_codec \<Rightarrow> string \<Rightarrow> uuid option" where
  "parse_kind_aci ids s = (case parse_from_service_id_string ids s of Some (Aci a) \<Rightarrow> Some a | _ \<Rightarrow> None)"

definition parse_kind_pni :: "id_codec \<Rightarrow> string \<Rightarrow> uuid option" where
  "parse_kind_pni ids s = (case parse_from_service_id_string ids s of Some (Pni p) \<Rightarrow> Some p | _ \<Rightarrow> None)"

definition dev_get_aci :: "'o device_env \<Rightarrow> uuid dev_step" where
  "dev_get_aci E =
     bindS (getS (\<lambda>db. map (fst \<circ> snd) (identity_tbl db))) (\<lambda>rs. liftS (
       bind (query_row rs) (\<lambda>s.
       ok_or (InvalidArgument (''Could not convert '' @ s @ '' to aci'')) (parse_kind_aci (dv_ids E) s))))"

definition dev_set_pni :: "'o device_env \<Rightarrow> uuid \<Rightarrow> unit dev_step" where
  "dev_set_pni E p = modifyS (\<lambda>db. db\<lparr>identity_tbl :=
     update_rows (\<lambda>_. True) (\<lambda>(a, _, pw). (a, service_id_string (dv_ids E) (Pni p), pw)) (identity_tbl db)\<rparr>)"

definition dev_get_pni :: "'o device_env \<Rightarrow> uuid dev_step" where
  "dev_get_pni E =
     bindS (getS (\<lambda>db. map (fst \<circ> snd \<circ> snd) (identity_tbl db))) (\<lambda>rs. liftS (
       bind (query_row rs) (\<lambda>s.
       ok_or (InvalidArgument (''Could not convert '' @ s @ '' to pni'')) (parse_kind_pni (dv_ids E) s))))"

section \<open>Contacts\<close>

text \<open>\<open>join(",")\<close>.\<close>

fun join_comma :: "string list \<Rightarrow> string" where
  "join_comma [] = ''''"
| "join_comma [s] = s"
| "join_comma (s # t # ss) = s @ CHR '','' # join_comma (t # ss)"

definition dev_store_contact :: "'o device_env \<Rightarrow> contact \<Rightarrow> unit dev_step" where
  "dev_store_contact E c =
     (let sid = service_id_string (dv_ids E) (ct_service_id c);
          device_ids = join_comma (map show_nat (ct_device_ids c)) in
      modifyS (\<lambda>db. db\<lparr>contacts_tbl := upsert_row sid device_ids (contacts_tbl db)\<rparr>))"

fun read_device_ids :: "string list \<Rightarrow> nat list \<Rightarrow> (signal_protocol_error, nat list) outcome" where
  "read_device_ids [] ds = Ok ds"
| "read_device_ids (s # ss) ds =
     bind (ok_or (InvalidArgument ''Could not parse device id: invalid digit found in string'') (parse_u32 s)) (\<lambda>d.
     read_device_ids ss (set_insert d ds))"

definition read_contact :: "'o device_env \<Rightarrow> string \<times> string \<Rightarrow> (signal_protocol_error, contact) outcome" where
  "read_contact E = (\<lambda>(row_service_id, row_device_ids).
     bind (if row_device_ids \<noteq> '''' then read_device_ids (split_char (CHR '','') row_device_ids) [] else Ok []) (\<lambda>ds.
     bind (ok_or (InvalidArgument (''Could not parse service_id: '' @ row_service_id))
       (parse_from_service_id_string (dv_ids E) row_service_id)) (\<lambda>sid.
     Ok \<lparr>ct_service_id = sid, ct_device_ids = ds\<rparr>)))"

definition dev_load_contacts :: "'o device_env \<Rightarrow> contact list dev_step" where
  "dev_load_contacts E = bindS (getS (\<lambda>db. map snd (contacts_tbl db))) (\<lambda>rs. liftS (map_outcome (read_contact E) rs))"

definition dev_remove_contact :: "'o device_env \<Rightarrow> service_id \<Rightarrow> unit dev_step" where
  "dev_remove_contact E sid =
     modifyS (\<lambda>db. db\<lparr>contacts_tbl := delete_rows (\<lambda>(i, k, _). k = service_id_string (dv_ids E) sid) (contacts_tbl db)\<rparr>)"

text \<open>The service id of a row is expected to parse.\<close>

definition dev_get_all_nicknames :: "'o device_env \<Rightarrow> contact_name list dev_step" where
  "dev_get_all_nicknames E =
     bindS (getS (\<lambda>db. map snd (nicknames_tbl db))) (\<lambda>rs. liftS (map_outcome (\<lambda>(name, s).
       bind (expect (ok_or () (parse_from_service_id_string (dv_ids E) s))) (\<lambda>sid.
       Ok \<lparr>cn_name = name, cn_service_id = sid\<rparr>)) rs))"

text \<open>The column \<open>service_id\<close> is unique, \<open>name\<close> is not.\<close>

definition dev_insert_service_id_for_nickname :: "'o device_env \<Rightarrow> string \<Rightarrow> service_id \<Rightarrow> unit dev_step" where
  "dev_insert_service_id_for_nickname E nickname sid db =
     (let s = service_id_string (dv_ids E) sid in
      if s \<in> set (map (snd \<circ> snd) (nicknames_tbl db))
      then (Err (InvalidArgument ''UNIQUE constraint failed: Nicknames.service_id''), db)
      else (Ok (), db\<lparr>nicknames_tbl := insert_row (nickname, s) (nicknames_tbl db)\<rparr>))"

definition dev_get_service_id_by_nickname :: "'o device_env \<Rightarrow> string \<Rightarrow> service_id dev_step" where
  "dev_get_service_id_by_nickname E nickname =
     bindS (getS (\<lambda>db. map (snd \<circ> snd) (filter (\<lambda>(i, n, _). n = nickname) (nicknames_tbl db)))) (\<lambda>rs. liftS (
       bind (query_row rs) (\<lambda>s.
       ok_or (InvalidArgument ''Could not parse service_id'') (parse_from_service_id_string (dv_ids E) s))))"

section \<open>Identities and sessions of others\<close>

definition dev_insert_identity :: "'o device_env \<Rightarrow> protocol_address \<Rightarrow> 'o \<Rightarrow> unit dev_step" where
  "dev_insert_identity E a k =
     (let key = b64_encode (dv_base64 E) (identity_serialize (dv_lib E) k) in
      modifyS (\<lambda>db. db\<lparr>identity_key_tbl := upsert_row (fmt_address (dv_ids E) a) key (identity_key_tbl db)\<rparr>))"

definition dev_insert_deniable_identity :: "'o device_env \<Rightarrow> protocol_address \<Rightarrow> 'o \<Rightarrow> unit dev_step" where
  "dev_insert_deniable_identity E a k =
     (let key = b64_encode (dv_base64 E) (identity_serialize (dv_lib E) k) in
      modifyS (\<lambda>db. db\<lparr>deniable_identity_key_tbl := upsert_row (fmt_address (dv_ids E) a) key (deniable_identity_key_tbl db)\<rparr>))"

definition dev_get_identity :: "'o device_env \<Rightarrow> protocol_address \<Rightarrow> 'o option dev_step" where
  "dev_get_identity E a =
     bindS (getS (\<lambda>db. lookup_row (fmt_address (dv_ids E) a) (identity_key_tbl db))) (\<lambda>row.
     liftS (decode_optional E (identity_decode (dv_lib E)) row))"

definition dev_get_deniable_identity :: "'o device_env \<Rightarrow> protocol_address \<Rightarrow> 'o option dev_step" where
  "dev_get_deniable_identity E a =
     bindS (getS (\<lambda>db. lookup_row (fmt_address (dv_ids E) a) (deniable_identity_key_tbl db))) (\<lambda>row.
     liftS (decode_optional E (identity_decode (dv_lib E)) row))"

text \<open>The answer is true only for an address that had no identity.\<close>

definition save_with :: "('s, 'o option) db_step \<Rightarrow> ('s, unit) db_step \<Rightarrow> 'o \<Rightarrow> ('s, bool) db_step" where
  "save_with load store k =
     bindS (argument_err load) (\<lambda>old.
     case old of
       Some key \<Rightarrow> if key = k then returnS False else bindS store (\<lambda>_. returnS False)
     | None \<Rightarrow> bindS store (\<lambda>_. returnS True))"

definition dev_save_identity :: "'o device_env \<Rightarrow> protocol_address \<Rightarrow> 'o \<Rightarrow> bool dev_step" where
  "dev_save_identity E a k = save_with (dev_get_identity E a) (dev_insert_identity E a k) k"

definition dev_save_deniable_identity :: "'o device_env \<Rightarrow> protocol_address \<Rightarrow> 'o \<Rightarrow> bool dev_step" where
  "dev_save_deniable_identity E a k = save_with (dev_get_deniable_identity E a) (dev_insert_deniable_identity E a k) k"

text \<open>Reading is expected not to fail.\<close>

definition trusted_with :: "('s, 'o option) db_step \<Rightarrow> 'o \<Rightarrow> ('s, bool) db_step" where
  "trusted_with load k s =
     (case load s of (r, s') \<Rightarrow> bindS (liftS (expect r)) (\<lambda>old.
        case old of Some i \<Rightarrow> returnS (i = k) | None \<Rightarrow> returnS True) s')"

definition dev_is_trusted_identity :: "'o device_env \<Rightarrow> protocol_address \<Rightarrow> 'o \<Rightarrow> direction \<Rightarrow> bool dev_step" where
  "dev_is_trusted_identity E a k dir = trusted_with (dev_get_identity E a) k"

definition dev_is_trusted_deniable_identity :: "'o device_env \<Rightarrow> protocol_address \<Rightarrow> 'o \<Rightarrow> direction \<Rightarrow> bool dev_step" where
  "dev_is_trusted_deniable_identity E a k dir = trusted_with (dev_get_deniable_identity E a) k"

definition dev_load_session :: "'o device_env \<Rightarrow> protocol_address \<Rightarrow> 'o option dev_step" where
  "dev_load_session E a =
     bindS (getS (\<lambda>db. lookup_row (fmt_address (dv_ids E) a) (session_tbl db))) (\<lambda>row.
     liftS (decode_optional E (obj_deserialize (session_record (dv_lib E))) row))"

definition dev_load_deniable_session :: "'o device_env \<Rightarrow> protocol_address \<Rightarrow> 'o option dev_step" where
  "dev_load_deniable_session E a =
     bindS (getS (\<lambda>db. lookup_row (fmt_address (dv_ids E) a) (deniable_session_tbl db))) (\<lambda>row.
     liftS (decode_optional E (obj_deserialize (session_record (dv_lib E))) row))"

definition dev_store_session :: "'o device_env \<Rightarrow> protocol_address \<Rightarrow> 'o \<Rightarrow> unit dev_step" where
  "dev_store_session E a r =
     bindS (liftS (serialized E (session_record (dv_lib E)) r)) (\<lambda>rec.
     modifyS (\<lambda>db. db\<lparr>session_tbl := upsert_row (fmt_address (dv_ids E) a) rec (session_tbl db)\<rparr>))"

definition dev_store_deniable_session :: "'o device_env \<Rightarrow> protocol_address \<Rightarrow> 'o \<Rightarrow> unit dev_step" where
  "dev_store_deniable_session E a r =
     bindS (liftS (serialized E (session_record (dv_lib E)) r)) (\<lambda>rec.
     modifyS (\<lambda>db. db\<lparr>deniable_session_tbl := upsert_row (fmt_address (dv_ids E) a) rec (deniable_session_tbl db)\<rparr>))"

definition sender_key_name :: "'o device_env \<Rightarrow> protocol_address \<Rightarrow> uuid \<Rightarrow> string" where
  "sender_key_name E a u = fmt_address (dv_ids E) a @ '':'' @ uuid_string u"

definition dev_store_sender_key :: "'o device_env \<Rightarrow> protocol_address \<Rightarrow> uuid \<Rightarrow> 'o \<Rightarrow> unit dev_step" where
  "dev_store_sender_key E a u r =
     bindS (liftS (serialized E (sender_key_record (dv_lib E)) r)) (\<lambda>rec.
     modifyS (\<lambda>db. db\<lparr>sender_key_tbl := upsert_row (sender_key_name E a u) rec (sender_key_tbl db)\<rparr>))"

definition dev_load_sender_key :: "'o device_env \<Rightarrow> protocol_address \<Rightarrow> uuid \<Rightarrow> 'o option dev_step" where
  "dev_load_sender_key E a u =
     bindS (getS (\<lambda>db. lookup_row (sender_key_name E a u) (sender_key_tbl db))) (\<lambda>row.
     liftS (decode_optional E (obj_deserialize (sender_key_record (dv_lib E))) row))"

section \<open>Own keys\<close>

text \<open>\<open>query_row\<close> on the record of a key; the errors of some are wrapped once more.\<close>

definition read_record :: "'o device_env \<Rightarrow> 'o object_codec \<Rightarrow> string option \<Rightarrow> (signal_protocol_error, 'o) outcome" where
  "read_record E C row = bind (query_row (case row of None \<Rightarrow> [] | Some s \<Rightarrow> [s])) (decode_object E (obj_deserialize C))"

definition dev_get_pre_key :: "'o device_env \<Rightarrow> nat \<Rightarrow> 'o dev_step" where
  "dev_get_pre_key E i =
     bindS (getS (\<lambda>db. lookup_row i (pre_key_tbl db))) (\<lambda>row.
     liftS (bind (query_row (case row of None \<Rightarrow> [] | Some s \<Rightarrow> [s])) (\<lambda>s.
       bind (decode_base64 (dv_base64 E) s) (\<lambda>bs. as_argument (obj_deserialize (pre_key_record (dv_lib E)) bs)))))"

definition dev_save_pre_key :: "'o device_env \<Rightarrow> nat \<Rightarrow> 'o \<Rightarrow> unit dev_step" where
  "dev_save_pre_key E i r =
     bindS (liftS (serialized E (pre_key_record (dv_lib E)) r)) (\<lambda>rec.
     modifyS (\<lambda>db. db\<lparr>pre_key_tbl := upsert_row i rec (pre_key_tbl db)\<rparr>))"

definition dev_remove_pre_key :: "nat \<Rightarrow> unit dev_step" where
  "dev_remove_pre_key i = modifyS (\<lambda>db. db\<lparr>pre_key_tbl := delete_rows (\<lambda>(_, k, _). k = i) (pre_key_tbl db)\<rparr>)"

definition dev_get_signed_pre_key :: "'o device_env \<Rightarrow> nat \<Rightarrow> 'o dev_step" where
  "dev_get_signed_pre_key E i =
     bindS (getS (\<lambda>db. lookup_row i (signed_pre_key_tbl db))) (\<lambda>row.
     liftS (bind (query_row (case row of None \<Rightarrow> [] | Some s \<Rightarrow> [s])) (\<lambda>s.
       bind (decode_base64 (dv_base64 E) s) (\<lambda>bs. as_argument (obj_deserialize (signed_pre_key_record (dv_lib E)) bs)))))"

definition dev_save_signed_pre_key :: "'o device_env \<Rightarrow> nat \<Rightarrow> 'o \<Rightarrow> unit dev_step" where
  "dev_save_signed_pre_key E i r =
     bindS (liftS (serialized E (signed_pre_key_record (dv_lib E)) r)) (\<lambda>rec.
     modifyS (\<lambda>db. db\<lparr>signed_pre_key_tbl := upsert_row i rec (signed_pre_key_tbl db)\<rparr>))"

definition dev_get_kyber_pre_key :: "'o device_env \<Rightarrow> nat \<Rightarrow> 'o dev_step" where
  "dev_get_kyber_pre_key E i =
     bindS (getS (\<lambda>db. lookup_row i (kyber_pre_key_tbl db))) (\<lambda>row.
     liftS (read_record E (kyber_pre_key_record (dv_lib E)) row))"

definition dev_save_kyber_pre_key :: "'o device_env \<Rightarrow> nat \<Rightarrow> 'o \<Rightarrow> unit dev_step" where
  "dev_save_kyber_pre_key E i r =
     bindS (liftS (serialized E (kyber_pre_key_record (dv_lib E)) r)) (\<lambda>rec.
     modifyS (\<lambda>db. db\<lparr>kyber_pre_key_tbl := upsert_row i rec (kyber_pre_key_tbl db)\<rparr>))"

section \<open>Deniable data\<close>

text \<open>
  The statement of \<open>get_deniable_payload\<close> has no \<open>ORDER BY\<close>. That SQLite scans the table in the order of its
  rowids, so that the first row is the oldest payload, is an assumption about SQLite: its documentation
  promises no order. What is shown of the order of payloads that a client sends rests on it.
\<close>

definition dev_get_deniable_payload :: "(nat \<times> bytes \<times> int) dev_step" where
  "dev_get_deniable_payload =
     bindS (getS deniable_payload_tbl) (\<lambda>rs. liftS (
       bind (query_row rs) (\<lambda>(i, content, n). bind (get_u32 i) (\<lambda>k. Ok (k, content, n)))))"

definition dev_get_deniable_payload_by_id :: "nat \<Rightarrow> (bytes \<times> int) dev_step" where
  "dev_get_deniable_payload_by_id k =
     bindS (getS (\<lambda>db. map snd (filter (\<lambda>(i, _). i = k) (deniable_payload_tbl db)))) (\<lambda>rs. liftS (query_row rs))"

text \<open>A new payload starts with the count 0, whatever count is given.\<close>

definition dev_store_deniable_payload :: "nat option \<Rightarrow> int \<Rightarrow> bytes \<Rightarrow> unit dev_step" where
  "dev_store_deniable_payload payload_id chunk_count payload =
     (case payload_id of
        Some k \<Rightarrow> modifyS (\<lambda>db. db\<lparr>deniable_payload_tbl :=
          update_rows (\<lambda>(i, _). i = k) (\<lambda>_. (payload, chunk_count)) (deniable_payload_tbl db)\<rparr>)
      | None \<Rightarrow> modifyS (\<lambda>db. db\<lparr>deniable_payload_tbl := insert_row (payload, 0) (deniable_payload_tbl db)\<rparr>))"

definition dev_remove_deniable_payload :: "nat \<Rightarrow> unit dev_step" where
  "dev_remove_deniable_payload k =
     modifyS (\<lambda>db. db\<lparr>deniable_payload_tbl := delete_rows (\<lambda>(i, _). i = k) (deniable_payload_tbl db)\<rparr>)"

definition dev_try_get_key_request_sent :: "string \<Rightarrow> string option dev_step" where
  "dev_try_get_key_request_sent sid = getS (\<lambda>db. lookup_row sid (key_requests_tbl db))"

definition dev_store_key_request_sent :: "string \<Rightarrow> string \<Rightarrow> unit dev_step" where
  "dev_store_key_request_sent sid al = modifyS (\<lambda>db. db\<lparr>key_requests_tbl := upsert_row sid al (key_requests_tbl db)\<rparr>)"

definition dev_remove_key_request_sent :: "string \<Rightarrow> unit dev_step" where
  "dev_remove_key_request_sent sid =
     modifyS (\<lambda>db. db\<lparr>key_requests_tbl := delete_rows (\<lambda>(_, k, _). k = sid) (key_requests_tbl db)\<rparr>)"

definition dev_get_messages_awaiting_encryption :: "string \<Rightarrow> string list dev_step" where
  "dev_get_messages_awaiting_encryption al =
     getS (\<lambda>db. map (fst \<circ> snd) (filter (\<lambda>(_, _, b). b = al) (awaiting_tbl db)))"

definition dev_store_message_awaiting_encryption :: "string \<Rightarrow> string \<Rightarrow> unit dev_step" where
  "dev_store_message_awaiting_encryption msg al = modifyS (\<lambda>db. db\<lparr>awaiting_tbl := insert_row (msg, al) (awaiting_tbl db)\<rparr>)"

definition dev_remove_message_awaiting_encryption :: "nat \<Rightarrow> unit dev_step" where
  "dev_remove_message_awaiting_encryption k =
     modifyS (\<lambda>db. db\<lparr>awaiting_tbl := delete_rows (\<lambda>(i, _). i = k) (awaiting_tbl db)\<rparr>)"

definition take_chunk :: "nat \<times> bytes \<times> int \<Rightarrow> denim_chunk dev_step" where
  "take_chunk = (\<lambda>(i, c, f).
     bindS (liftS (get_u32 i)) (\<lambda>k.
     bindS (modifyS (\<lambda>db. db\<lparr>incoming_chunk_tbl := delete_rows (\<lambda>(j, _). j = k) (incoming_chunk_tbl db)\<rparr>)) (\<lambda>_.
     returnS \<lparr>chunk = c, flags = f\<rparr>)))"

definition dev_get_and_remove_incoming_deniable_chunks :: "denim_chunk list dev_step" where
  "dev_get_and_remove_incoming_deniable_chunks =
     transactionS (bindS (getS incoming_chunk_tbl) (\<lambda>rs. forS rs take_chunk))"

definition put_chunk :: "denim_chunk \<Rightarrow> unit dev_step" where
  "put_chunk c = modifyS (\<lambda>db. db\<lparr>incoming_chunk_tbl := insert_row (chunk c, flags c) (incoming_chunk_tbl db)\<rparr>)"

definition dev_store_incoming_deniable_chunks :: "denim_chunk list \<Rightarrow> unit dev_step" where
  "dev_store_incoming_deniable_chunks cs = transactionS (bindS (forS cs put_chunk) (\<lambda>_. returnS ()))"

section \<open>The implementation of the trait\<close>

definition device :: "'o device_env \<Rightarrow> (device_db, 'o) client_db" where
  "device E = \<lparr>
     insert_account_information = dev_insert_account_information E,
     insert_account_key_information = dev_insert_account_key_information E,
     get_key_ids = dev_get_key_ids,
     store_contact = dev_store_contact E,
     load_contacts = dev_load_contacts E,
     db_remove_contact = dev_remove_contact E,
     get_all_nicknames = dev_get_all_nicknames E,
     insert_service_id_for_nickname = dev_insert_service_id_for_nickname E,
     get_service_id_by_nickname = dev_get_service_id_by_nickname E,
     db_get_identity_key_pair = dev_get_identity_key_pair E,
     db_get_local_registration_id = dev_get_local_registration_id,
     db_save_identity = dev_save_identity E,
     save_deniable_identity = dev_save_deniable_identity E,
     db_is_trusted_identity = dev_is_trusted_identity E,
     is_trusted_deniable_identity = dev_is_trusted_deniable_identity E,
     db_get_identity = dev_get_identity E,
     get_deniable_identity = dev_get_deniable_identity E,
     db_get_pre_key = dev_get_pre_key E,
     db_save_pre_key = dev_save_pre_key E,
     db_remove_pre_key = dev_remove_pre_key,
     db_get_signed_pre_key = dev_get_signed_pre_key E,
     db_save_signed_pre_key = dev_save_signed_pre_key E,
     db_get_kyber_pre_key = dev_get_kyber_pre_key E,
     db_save_kyber_pre_key = dev_save_kyber_pre_key E,
     db_load_session = dev_load_session E,
     load_deniable_session = dev_load_deniable_session E,
     db_store_session = dev_store_session E,
     store_deniable_session = dev_store_deniable_session E,
     db_store_sender_key = dev_store_sender_key E,
     db_load_sender_key = dev_load_sender_key E,
     set_password = dev_set_password,
     get_password = dev_get_password,
     set_aci = dev_set_aci E,
     get_aci = dev_get_aci E,
     set_pni = dev_set_pni E,
     get_pni = dev_get_pni E,
     get_deniable_payload = dev_get_deniable_payload,
     get_deniable_payload_by_id = dev_get_deniable_payload_by_id,
     store_deniable_payload = dev_store_deniable_payload,
     remove_deniable_payload = dev_remove_deniable_payload,
     try_get_key_request_sent = dev_try_get_key_request_sent,
     store_key_request_sent = dev_store_key_request_sent,
     remove_key_request_sent = dev_remove_key_request_sent,
     get_messages_awaiting_encryption = dev_get_messages_awaiting_encryption,
     store_message_awaiting_encryption = dev_store_message_awaiting_encryption,
     remove_message_awaiting_encryption = dev_remove_message_awaiting_encryption,
     get_and_remove_incoming_deniable_chunks = dev_get_and_remove_incoming_deniable_chunks,
     store_incoming_deniable_chunks = dev_store_incoming_deniable_chunks\<rparr>"

end
