(* ===== verification/Encryption.thy ===== *)
theory Encryption
  imports Device_Store
begin

text \<open>
  What a message goes through on its way to and from libsignal: the padding and the encryption for
  every device of a contact (\<open>client/src/encryption.rs\<close>), and the decryption of an envelope
  (\<open>common/src/envelope.rs\<close>). libsignal's own operations and prost's decoding of \<open>Content\<close> are
  parameters.
\<close>

section \<open>Errors\<close>

datatype signal_error =
    DecodeEnvelope string | DecodeContent string | DecodeDataMessage string | ProstDecode string
  | UnpadError | SignalProtocol signal_protocol_error

datatype send_message_error = EncryptionError signal_protocol_error | SocketError string

datatype receive_message_error = NoMessageReceived | EnvelopeDecodeError

datatype registration_error = NoResponse | BadResponse string

datatype key_manager_error_type = Generate | Store | Signature | Get

datatype key_type = SignedKey | KyberKey | OneTimeKey | IdentityKey

datatype signal_client_error =
    ContactManagerError contact_manager_error
  | KeyError string
  | KeyManagerError key_manager_error_type key_type signal_protocol_error
  | RegistrationError registration_error
  | IdentifierError registration_error
  | SendMessageError send_message_error
  | WebSocketError string
  | DatabaseError signal_protocol_error
  | ReceiveMessageError receive_message_error
  | ProcessPreKeyBundleError signal_protocol_error
  | NoSession
  | ClientProtocol signal_protocol_error
  | Signal signal_error

section \<open>Padding\<close>

definition get_padded_message_length :: "nat \<Rightarrow> nat" where
  "get_padded_message_length len =
     (let message_length_with_terminator = len + 1;
          message_part_count = message_length_with_terminator div 160;
          message_part_count =
            (if message_length_with_terminator mod 160 \<noteq> 0 then message_part_count + 1 else message_part_count) in
      message_part_count * 160)"

text \<open>An index that is out of bounds panics.\<close>

definition set_index :: "'a list \<Rightarrow> nat \<Rightarrow> 'a \<Rightarrow> ('e, 'a list) outcome" where
  "set_index xs i x = (if i < length xs then Ok (xs[i := x]) else Panic)"

fun copy_loop :: "bytes \<Rightarrow> nat \<Rightarrow> bytes \<Rightarrow> ('e, bytes) outcome" where
  "copy_loop [] i plaintext = Ok plaintext"
| "copy_loop (b # bs) i plaintext = bind (set_index plaintext i b) (copy_loop bs (i + 1))"

definition pad_message :: "bytes \<Rightarrow> ('e, bytes) outcome" where
  "pad_message message =
     bind (usize_sub (get_padded_message_length (length message + 1)) 1) (\<lambda>len.
     bind (copy_loop message 0 (replicate len 0)) (\<lambda>plaintext.
     set_index plaintext (length message) 0x80))"

text \<open>The first terminator ends the message.\<close>

fun unpad_loop :: "bytes \<Rightarrow> nat \<Rightarrow> bytes \<Rightarrow> (signal_error, bytes) outcome" where
  "unpad_loop message i [] = Err UnpadError"
| "unpad_loop message i (b # bs) = (if b = 0x80 then Ok (take i message) else unpad_loop message (i + 1) bs)"

definition unpad_message :: "bytes \<Rightarrow> (signal_error, bytes) outcome" where
  "unpad_message message = unpad_loop message 0 message"

section \<open>Encryption\<close>

datatype ciphertext_message =
    CtSignalMessage bytes | CtSenderKeyMessage bytes | CtPreKeySignalMessage bytes | CtPlaintextContent bytes

fun ciphertext_serialize :: "ciphertext_message \<Rightarrow> bytes" where
  "ciphertext_serialize (CtSignalMessage bs) = bs"
| "ciphertext_serialize (CtSenderKeyMessage bs) = bs"
| "ciphertext_serialize (CtPreKeySignalMessage bs) = bs"
| "ciphertext_serialize (CtPlaintextContent bs) = bs"

text \<open>
  libsignal's sessions: encrypting and decrypting use and change the stores they are given.
  \<open>ciphertext_decode\<close> tells how the bytes of a kind of message are read.
\<close>

record ('s, 'o) sessions =
  message_encrypt :: "bytes \<Rightarrow> protocol_address \<Rightarrow> ('s, 'o) session_store \<Rightarrow> ('s, 'o) identity_key_store
    \<Rightarrow> ('s, ciphertext_message) db_step"
  message_decrypt :: "ciphertext_message \<Rightarrow> protocol_address \<Rightarrow> ('s, 'o) session_store \<Rightarrow> ('s, 'o) identity_key_store
    \<Rightarrow> ('s, 'o) pre_key_store \<Rightarrow> ('s, 'o) signed_pre_key_store \<Rightarrow> ('s, 'o) kyber_pre_key_store \<Rightarrow> ('s, bytes) db_step"
  remote_registration_id :: "'o \<Rightarrow> (signal_protocol_error, nat) outcome"
  ciphertext_valid :: "ciphertext_message \<Rightarrow> bool"

definition as_client :: "('s, 'a) db_step \<Rightarrow> ('s, signal_client_error, 'a) step" where
  "as_client m s = (case m s of (r, s') \<Rightarrow> (map_err ClientProtocol r, s'))"

definition as_encryption :: "('s, 'a) db_step \<Rightarrow> ('s, signal_client_error, 'a) step" where
  "as_encryption m s = (case m s of (r, s') \<Rightarrow> (map_err (\<lambda>e. SendMessageError (EncryptionError e)) r, s'))"

text \<open>The loop over the devices; the result is the map from devices to their messages.\<close>

fun encrypt_loop :: "('s, 'o) sessions \<Rightarrow> id_codec \<Rightarrow> ('s, 'o) identity_key_store \<Rightarrow> ('s, 'o) session_store \<Rightarrow> contact
    \<Rightarrow> bytes \<Rightarrow> (nat \<times> nat \<times> ciphertext_message) list \<Rightarrow> nat list
    \<Rightarrow> ('s, signal_client_error, (nat \<times> nat \<times> ciphertext_message) list) step" where
  "encrypt_loop L ids I S target msg msgs [] = returnS msgs"
| "encrypt_loop L ids I S target msg msgs (d # ds) =
     bindS (liftS (expect (contact_get_address ids target d))) (\<lambda>address.
     bindS (as_client (load_session S address)) (\<lambda>session.
     bindS (liftS (ok_or NoSession session)) (\<lambda>session.
     bindS (liftS (map_err ClientProtocol (remote_registration_id L session))) (\<lambda>reg_id.
     bindS (liftS (map_err ContactManagerError (contact_get_address ids target d))) (\<lambda>address.
     bindS (as_encryption (message_encrypt L msg address S I)) (\<lambda>res.
     encrypt_loop L ids I S target msg (msgs @ [(d, reg_id, res)]) ds))))))"

definition encrypt :: "('s, 'o) sessions \<Rightarrow> id_codec \<Rightarrow> ('s, 'o) identity_key_store \<Rightarrow> ('s, 'o) session_store \<Rightarrow> contact
    \<Rightarrow> bytes \<Rightarrow> ('s, signal_client_error, (nat \<times> nat \<times> ciphertext_message) list) step" where
  "encrypt L ids I S target msg = encrypt_loop L ids I S target msg [] (ct_device_ids target)"

definition decrypt :: "('s, 'o) sessions \<Rightarrow> ('s, 'o) protocol_store \<Rightarrow> protocol_address \<Rightarrow> ciphertext_message
    \<Rightarrow> ('s, bytes) db_step" where
  "decrypt L store from_address msg =
     message_decrypt L msg from_address (session_store store) (identity_key_store store) (pre_key_store store)
       (signed_pre_key_store store) (kyber_pre_key_store store)"

section \<open>Envelopes\<close>

datatype envelope_type =
    Unknown | Ciphertext | KeyExchange | PrekeyBundle | Receipt | UnidentifiedSender | PlaintextContent

text \<open>The numbers of the enumeration in \<open>SignalService.proto\<close>.\<close>

fun envelope_type_to_i32 :: "envelope_type \<Rightarrow> int" where
  "envelope_type_to_i32 Unknown = 0"
| "envelope_type_to_i32 Ciphertext = 1"
| "envelope_type_to_i32 KeyExchange = 2"
| "envelope_type_to_i32 PrekeyBundle = 3"
| "envelope_type_to_i32 Receipt = 5"
| "envelope_type_to_i32 UnidentifiedSender = 6"
| "envelope_type_to_i32 PlaintextContent = 8"

definition envelope_type_try_from :: "int \<Rightarrow> envelope_type option" where
  "envelope_type_try_from n =
     find (\<lambda>t. envelope_type_to_i32 t = n)
       [Unknown, Ciphertext, KeyExchange, PrekeyBundle, Receipt, UnidentifiedSender, PlaintextContent]"

text \<open>The parts of the protobuf messages \<open>Content\<close> and \<open>DataMessage\<close> that the program sets and reads.\<close>

record data_message =
  dmg_body :: "string option"
  dmg_contacts :: "string option option list"

record content =
  cnt_data_message :: "data_message option"

record processed_envelope =
  pe_type :: "envelope_type option"
  pe_source_service_id :: "service_id option"
  pe_source_device :: "nat option"
  pe_destination_service_id :: "service_id option"
  pe_timestamp :: "nat option"
  pe_content :: "content option"
  pe_server_guid :: "string option"
  pe_server_timestamp :: "nat option"
  pe_ephemeral :: "bool option"
  pe_urgent :: "bool option"
  pe_updated_pni :: "uuid option"
  pe_story :: "bool option"
  pe_reporting_token :: "bytes option"

definition ciphertext_decode :: "('s, 'o) sessions \<Rightarrow> bytes \<Rightarrow> envelope_type \<Rightarrow> (signal_error, ciphertext_message) outcome" where
  "ciphertext_decode L bs t =
     (let valid = (\<lambda>c. if ciphertext_valid L c then Ok c else Err (SignalProtocol (ProtocolError ''invalid message''))) in
      case t of
        Ciphertext \<Rightarrow> valid (CtSignalMessage bs)
      | KeyExchange \<Rightarrow> valid (CtSenderKeyMessage bs)
      | PrekeyBundle \<Rightarrow> valid (CtPreKeySignalMessage bs)
      | PlaintextContent \<Rightarrow> valid (CtPlaintextContent bs)
      | Unknown \<Rightarrow> Err (DecodeEnvelope ''Invalid Message type: Unknown'')
      | Receipt \<Rightarrow> Err (DecodeEnvelope ''Invalid Message type: Receipt'')
      | UnidentifiedSender \<Rightarrow> Err (DecodeEnvelope ''Invalid Message type: UnidentifiedSender''))"

definition as_signal :: "('s, 'a) db_step \<Rightarrow> ('s, signal_error, 'a) step" where
  "as_signal m s = (case m s of (r, s') \<Rightarrow> (map_err SignalProtocol r, s'))"

definition envelope_decrypt :: "('s, 'o) sessions \<Rightarrow> id_codec \<Rightarrow> (bytes \<Rightarrow> (string, content) outcome) \<Rightarrow> envelope
    \<Rightarrow> ('s, 'o) session_store \<Rightarrow> ('s, 'o) identity_key_store \<Rightarrow> ('s, 'o) pre_key_store \<Rightarrow> ('s, 'o) signed_pre_key_store
    \<Rightarrow> ('s, 'o) kyber_pre_key_store \<Rightarrow> ('s, signal_error, processed_envelope) step" where
  "envelope_decrypt L ids content_decode e S I PK SPK KPK =
     bindS (liftS (case env_type e of
         Some t \<Rightarrow> ok_or (DecodeEnvelope ''Unknown message type in envelope.'') (envelope_type_try_from t)
       | None \<Rightarrow> Err (DecodeEnvelope ''No message type in envelope.''))) (\<lambda>t.
     let source = Option.bind (source_service_id e) (parse_from_service_id_string ids);
         dest = Option.bind (env_destination_service_id e) (parse_from_service_id_string ids);
         pni = Option.bind (Web_Api.updated_pni e) (parse_kind_pni ids) in
     bindS (liftS (case (source, source_device e) of
         (Some sid, Some d) \<Rightarrow> Ok \<lparr>addr_name = service_id_string ids sid, addr_device_id = d\<rparr>
       | (None, _) \<Rightarrow> Err (DecodeEnvelope ''Missing Service ID.'')
       | (_, None) \<Rightarrow> Err (DecodeEnvelope ''Missing Device ID.''))) (\<lambda>remote_address.
     bindS (liftS (ok_or (DecodeEnvelope ''No content in message.'') (env_content e))) (\<lambda>content_bytes.
     bindS (liftS (ciphertext_decode L content_bytes t)) (\<lambda>ciphertext.
     bindS (as_signal (message_decrypt L ciphertext remote_address S I PK SPK KPK)) (\<lambda>padded_msg.
     bindS (liftS (unpad_message padded_msg)) (\<lambda>msg.
     bindS (liftS (map_err ProstDecode (content_decode msg))) (\<lambda>c.
     returnS \<lparr>pe_type = Some t, pe_source_service_id = source, pe_source_device = source_device e,
       pe_destination_service_id = dest, pe_timestamp = env_timestamp e, pe_content = Some c,
       pe_server_guid = server_guid e, pe_server_timestamp = server_timestamp e, pe_ephemeral = ephemeral e,
       pe_urgent = urgent e, pe_updated_pni = pni, pe_story = story e, pe_reporting_token = reporting_token e\<rparr>)))))))"

text \<open>The readers of a processed envelope; the first contact is indexed without a check.\<close>

definition pe_get_content :: "processed_envelope \<Rightarrow> (signal_error, content) outcome" where
  "pe_get_content p = ok_or (DecodeEnvelope ''No content in Envelope.'') (pe_content p)"

definition pe_get_source_service_id :: "processed_envelope \<Rightarrow> (signal_error, service_id) outcome" where
  "pe_get_source_service_id p = ok_or (DecodeEnvelope ''No ServiceId in Content'') (pe_source_service_id p)"

definition content_data_message :: "content \<Rightarrow> (signal_error, data_message) outcome" where
  "content_data_message c = ok_or (DecodeContent ''No data message in Content'') (cnt_data_message c)"

definition try_get_message_as_string :: "processed_envelope \<Rightarrow> (signal_error, string) outcome" where
  "try_get_message_as_string p =
     bind (pe_get_content p) (\<lambda>c. bind (content_data_message c) (\<lambda>m.
     ok_or (DecodeDataMessage ''Could not decode message body - no message body.'') (dmg_body m)))"

definition try_get_name_as_string :: "processed_envelope \<Rightarrow> (signal_error, string) outcome" where
  "try_get_name_as_string p =
     bind (pe_get_content p) (\<lambda>c. bind (content_data_message c) (\<lambda>m.
     case dmg_contacts m of
       [] \<Rightarrow> Panic
     | name # _ \<Rightarrow>
         bind (ok_or (DecodeDataMessage ''Could not decode message contact - no message contact.'') name) (\<lambda>display_name.
         Ok (case display_name of None \<Rightarrow> '''' | Some s \<Rightarrow> s))))"

section \<open>Facts\<close>

lemma padded_length_bounds:
  "n < get_padded_message_length n \<and> get_padded_message_length n \<le> n + 160 \<and> get_padded_message_length n mod 160 = 0"
proof -
  obtain q r where qr: "q = (n + 1) div 160" "r = (n + 1) mod 160" by blast
  then have "n + 1 = 160 * q + r" "r < 160" by simp_all
  moreover have "get_padded_message_length n = (if r \<noteq> 0 then q + 1 else q) * 160"
    by (simp add: get_padded_message_length_def Let_def qr)
  ultimately show ?thesis by (cases "r = 0") simp_all
qed

lemma copy_loop_copies:
  "copy_loop bs i (pre @ suf) = (Ok (pre @ bs @ drop (length bs) suf) :: ('e, bytes) outcome)"
  if "i = length pre" "length bs \<le> length suf"
  using that
proof (induction bs arbitrary: i pre suf)
  case (Cons b bs)
  obtain x suf' where suf: "suf = x # suf'" using Cons.prems(2) by (cases suf) auto
  have "copy_loop bs (i + 1) ((pre @ [b]) @ suf') = (Ok ((pre @ [b]) @ bs @ drop (length bs) suf') :: ('e, bytes) outcome)"
    using Cons.prems by (intro Cons.IH) (simp_all add: suf)
  then show ?case using Cons.prems by (simp add: suf set_index_def)
qed simp

lemma pad_message_eq:
  obtains k where "get_padded_message_length (length m + 1) = length m + 2 + k"
    "pad_message m = (Ok (m @ 0x80 # replicate k 0) :: ('e, bytes) outcome)"
proof -
  let ?P = "get_padded_message_length (length m + 1)"
  have "length m + 2 \<le> ?P" using padded_length_bounds [of "length m + 1"] by simp
  then obtain k where k: "?P = length m + 2 + k" using le_Suc_ex by blast
  have "copy_loop m 0 (replicate (length m + 1 + k) 0) = (Ok (m @ replicate (1 + k) 0) :: ('e, bytes) outcome)"
    using copy_loop_copies [of 0 "[]" m "replicate (length m + 1 + k) 0"] by (simp del: replicate.simps)
  then have "pad_message m = (Ok (m @ 0x80 # replicate k 0) :: ('e, bytes) outcome)"
    unfolding pad_message_def k by (simp add: usize_sub_def set_index_def list_update_append)
  with k that show ?thesis by blast
qed

lemma unpad_loop_eq:
  "unpad_loop m (length pre) bs = (if 0x80 \<in> set bs then Ok (pre @ takeWhile (\<lambda>b. b \<noteq> 0x80) bs) else Err UnpadError)"
  if "m = pre @ bs"
  using that
proof (induction bs arbitrary: pre)
  case (Cons b bs)
  from Cons.IH [of "pre @ [b]"] Cons.prems show ?case by auto
qed simp

lemma unpad_message_eq:
  "unpad_message m = (if 0x80 \<in> set m then Ok (takeWhile (\<lambda>b. b \<noteq> 0x80) m) else Err UnpadError)"
  using unpad_loop_eq [of m "[]" m] by (simp add: unpad_message_def)

lemma unpad_padded: "unpad_message (m @ 0x80 # zs) = Ok (takeWhile (\<lambda>b. b \<noteq> 0x80) m)"
  by (induction m) (simp_all add: unpad_message_eq)

section \<open>Properties\<close>

text \<open>
  C40 (roundtrip). Padding never panics, gives a length that is one less than a multiple of 160 and at most 160
  bytes longer than the message and its terminator, and removing it gives back what stands before the
  first byte \<open>0x80\<close> of the message: the message itself exactly if it contains no such byte.
\<close>

theorem unpad_pad:
  "\<exists>p. pad_message m = (Ok p :: (error, bytes) outcome) \<and> (length p + 1) mod 160 = 0 \<and> length p \<le> length m + 160 \<and>
    unpad_message p = Ok (takeWhile (\<lambda>b. b \<noteq> 0x80) m) \<and> (unpad_message p = Ok m \<longleftrightarrow> 0x80 \<notin> set m)"
proof -
  obtain k where k: "get_padded_message_length (length m + 1) = length m + 2 + k"
    "pad_message m = (Ok (m @ 0x80 # replicate k 0) :: (error, bytes) outcome)"
    by (rule pad_message_eq)
  let ?p = "m @ 0x80 # replicate k 0"
  have "(length ?p + 1) mod 160 = 0" "length ?p \<le> length m + 160"
    using padded_length_bounds [of "length m + 1"] unfolding k(1) by simp_all
  moreover have "takeWhile (\<lambda>b. b \<noteq> 0x80) m = m \<longleftrightarrow> 0x80 \<notin> set m"
    by (auto simp: takeWhile_eq_all_conv)
  ultimately show ?thesis using k(2) by (simp add: unpad_padded)
qed

end
