(* ===== verification/Client_Keys.thy ===== *)
theory Client_Keys
  imports Encryption
begin

text \<open>
  \<open>KeyManager\<close> of \<open>client/src/key_manager.rs\<close>: the ids of the client's own keys, and the keys that it
  generates and stores under them. How libsignal generates and signs keys is a parameter. It draws fresh
  randomness for every key: the record is a function of the draw and of the id, and the \<open>k\<close>-th
  generation after the draw \<open>d\<close> has the draw \<open>d + k\<close>. The manager is a step on the pair of itself and
  the database.
\<close>

section \<open>Ids\<close>

record key_manager =
  signed_id :: nat
  kyber_id :: nat
  one_time_id :: nat

definition KeyManager_default :: key_manager where
  "KeyManager_default = \<lparr>signed_id = 1, kyber_id = 1, one_time_id = 1\<rparr>"

definition KeyManager_new :: "nat \<Rightarrow> nat \<Rightarrow> nat \<Rightarrow> key_manager" where
  "KeyManager_new s k t = \<lparr>signed_id = s, kyber_id = k, one_time_id = t\<rparr>"

datatype pre_key_type = SignedType | KyberType | OneTimeType

definition u32_add :: "nat \<Rightarrow> nat \<Rightarrow> ('e, nat) outcome" where
  "u32_add a b = (if a + b < 2 ^ 32 then Ok (a + b) else Panic)"

fun key_id :: "pre_key_type \<Rightarrow> key_manager \<Rightarrow> nat" where
  "key_id SignedType km = signed_id km"
| "key_id KyberType km = kyber_id km"
| "key_id OneTimeType km = one_time_id km"

fun set_key_id :: "pre_key_type \<Rightarrow> nat \<Rightarrow> key_manager \<Rightarrow> key_manager" where
  "set_key_id SignedType i km = km\<lparr>signed_id := i\<rparr>"
| "set_key_id KyberType i km = km\<lparr>kyber_id := i\<rparr>"
| "set_key_id OneTimeType i km = km\<lparr>one_time_id := i\<rparr>"

definition get_new_key_id :: "pre_key_type \<Rightarrow> (key_manager, 'e, nat) step" where
  "get_new_key_id t =
     bindS (getS (key_id t)) (\<lambda>i.
     bindS (liftS (u32_add i 1)) (\<lambda>i'.
     bindS (modifyS (set_key_id t i')) (\<lambda>_. returnS i)))"

section \<open>Generating keys\<close>

record 'o key_generation =
  one_time_record :: "nat \<Rightarrow> nat \<Rightarrow> 'o"
  signed_record :: "nat \<Rightarrow> nat \<Rightarrow> nat \<Rightarrow> 'o \<Rightarrow> (signal_protocol_error, 'o) outcome"
  kyber_record :: "nat \<Rightarrow> nat \<Rightarrow> 'o \<Rightarrow> (signal_protocol_error, 'o) outcome"
  upload_one_time :: "'o \<Rightarrow> (signal_protocol_error, upload_pre_key) outcome"
  upload_signed :: "'o \<Rightarrow> (signal_protocol_error, upload_signed_pre_key) outcome"

type_synonym ('s, 'a) key_step = "(key_manager \<times> 's, signal_client_error, 'a) step"

text \<open>A step on one component of a pair, whose errors are wrapped.\<close>

definition on_fst :: "('a, 'e, 'x) step \<Rightarrow> ('a \<times> 'b, 'e, 'x) step" where
  "on_fst m = (\<lambda>(a, b). case m a of (r, a') \<Rightarrow> (r, a', b))"

definition on_snd :: "('e \<Rightarrow> 'f) \<Rightarrow> ('b, 'e, 'x) step \<Rightarrow> ('a \<times> 'b, 'f, 'x) step" where
  "on_snd w m = (\<lambda>(a, b). case m b of (r, b') \<Rightarrow> (map_err w r, a, b'))"

definition generate_pre_key :: "'o key_generation \<Rightarrow> nat \<Rightarrow> ('s, 'o) pre_key_store \<Rightarrow> ('s, 'o) key_step" where
  "generate_pre_key G d PK =
     bindS (on_fst (get_new_key_id OneTimeType)) (\<lambda>i.
     let r = one_time_record G d i in
     bindS (on_snd (KeyManagerError Store OneTimeKey) (save_pre_key PK i r)) (\<lambda>_. returnS r))"

definition generate_signed_pre_key :: "'o key_generation \<Rightarrow> nat \<Rightarrow> nat \<Rightarrow> ('s, 'o) identity_key_store
    \<Rightarrow> ('s, 'o) signed_pre_key_store \<Rightarrow> ('s, 'o) key_step" where
  "generate_signed_pre_key G d now IK SPK =
     bindS (on_fst (get_new_key_id SignedType)) (\<lambda>i.
     bindS (on_snd (KeyManagerError Get SignedKey) (get_identity_key_pair IK)) (\<lambda>key_pair.
     bindS (liftS (map_err (KeyManagerError Signature SignedKey) (signed_record G d i now (snd key_pair)))) (\<lambda>r.
     bindS (on_snd (KeyManagerError Store SignedKey) (save_signed_pre_key SPK i r)) (\<lambda>_. returnS r))))"

definition generate_kyber_pre_key :: "'o key_generation \<Rightarrow> nat \<Rightarrow> ('s, 'o) identity_key_store \<Rightarrow> ('s, 'o) kyber_pre_key_store
    \<Rightarrow> ('s, 'o) key_step" where
  "generate_kyber_pre_key G d IK KPK =
     bindS (on_fst (get_new_key_id KyberType)) (\<lambda>i.
     bindS (on_snd (KeyManagerError Get IdentityKey) (get_identity_key_pair IK)) (\<lambda>key_pair.
     bindS (liftS (map_err (KeyManagerError Generate KyberKey) (kyber_record G d i (snd key_pair)))) (\<lambda>r.
     bindS (on_snd (KeyManagerError Store KyberKey) (save_kyber_pre_key KPK i r)) (\<lambda>_. returnS r))))"

text \<open>The loop of \<open>generate_key_bundle\<close>; converting a record for the upload expects it to be well formed.\<close>

fun bundle_loop :: "'o key_generation \<Rightarrow> nat \<Rightarrow> ('s, 'o) protocol_store \<Rightarrow> nat \<Rightarrow> upload_pre_key list
    \<Rightarrow> upload_signed_pre_key list \<Rightarrow> ('s, upload_pre_key list \<times> upload_signed_pre_key list) key_step" where
  "bundle_loop G d P 0 pks pqs = returnS (pks, pqs)"
| "bundle_loop G d P (Suc n) pks pqs =
     bindS (generate_pre_key G d (ProtocolStore_pre_key P)) (\<lambda>r.
     bindS (liftS (expect (upload_one_time G r))) (\<lambda>pk.
     bindS (generate_kyber_pre_key G (d + 1) (identity_key_store P) (kyber_pre_key_store P)) (\<lambda>r.
     bindS (liftS (expect (upload_signed G r))) (\<lambda>pq.
     bundle_loop G (d + 2) P n (pks @ [pk]) (pqs @ [pq])))))"

definition generate_key_bundle :: "'o key_generation \<Rightarrow> nat \<Rightarrow> nat \<Rightarrow> ('s, 'o) protocol_store \<Rightarrow> ('s, set_key_request) key_step" where
  "generate_key_bundle G d now P =
     bindS (bundle_loop G d P 100 [] []) (\<lambda>(pre_keys, pq_signed_pre_keys).
     bindS (generate_signed_pre_key G (d + 200) now (identity_key_store P) (signed_pre_key_store P)) (\<lambda>signed.
     bindS (generate_kyber_pre_key G (d + 201) (identity_key_store P) (kyber_pre_key_store P)) (\<lambda>last_resort.
     bindS (liftS (expect (upload_signed G signed))) (\<lambda>spk.
     bindS (liftS (expect (upload_signed G last_resort))) (\<lambda>lr.
     returnS \<lparr>skr_pre_key = Some pre_keys, skr_signed_pre_key = Some spk, skr_pq_pre_key = Some pq_signed_pre_keys,
       skr_pq_last_resort_pre_key = Some lr\<rparr>)))))"

end
