(* ===== verification/Net_Helper.thy ===== *)
theory Net_Helper
  imports Authorization Web_Api
begin

text \<open>
  The messages of \<open>common/proto/WebSocketProtocol.proto\<close> and the helpers of
  \<open>common/src/websocket/net_helper.rs\<close> and \<open>connection_state.rs\<close>. Parsing URIs and JSON and the reason
  phrases of status codes are parameters.
\<close>

section \<open>Messages\<close>

record web_socket_request_message =
  req_verb :: "string option"
  req_path :: "string option"
  req_body :: "bytes option"
  req_headers :: "string list"
  req_id :: "nat option"

record web_socket_response_message =
  res_id :: "nat option"
  res_status :: "nat option"
  res_message :: "string option"
  res_headers :: "string list"
  res_body :: "bytes option"

datatype web_socket_type = TypeUnknown | TypeRequest | TypeResponse

record web_socket_message =
  wsm_type :: "int option"
  wsm_request :: "web_socket_request_message option"
  wsm_response :: "web_socket_response_message option"

fun web_socket_type_to_i32 :: "web_socket_type \<Rightarrow> int" where
  "web_socket_type_to_i32 TypeUnknown = 0"
| "web_socket_type_to_i32 TypeRequest = 1"
| "web_socket_type_to_i32 TypeResponse = 2"

text \<open>prost's getters: a missing or unknown type is the first one, a missing string or body is empty.\<close>

definition get_type :: "web_socket_message \<Rightarrow> web_socket_type" where
  "get_type m = (if wsm_type m = Some 1 then TypeRequest else if wsm_type m = Some 2 then TypeResponse else TypeUnknown)"

definition or_empty :: "'a list option \<Rightarrow> 'a list" where
  "or_empty x = (case x of None \<Rightarrow> [] | Some s \<Rightarrow> s)"

section \<open>Paths\<close>

definition path_extractor_new :: "string \<Rightarrow> string list" where
  "path_extractor_new uri_path =
     (let parts = split_char (CHR ''/'') uri_path in
      if take 1 uri_path = ''/'' then tl parts else parts)"

definition path_extract :: "string list \<Rightarrow> nat \<Rightarrow> (error, string) outcome" where
  "path_extract parts i = (if length parts \<le> i then Err ''PathExtractor: Larger than count'' else Ok (parts ! i))"

section \<open>Requests and responses\<close>

definition starts_with :: "string \<Rightarrow> string \<Rightarrow> bool" where
  "starts_with s p \<longleftrightarrow> take (length p) s = p"

definition create_response :: "(nat \<Rightarrow> string option) \<Rightarrow> nat \<Rightarrow> nat \<Rightarrow> string list \<Rightarrow> bytes option
    \<Rightarrow> (error, web_socket_message) outcome" where
  "create_response reason i status headers body =
     (let headers = (if \<not> list_ex (\<lambda>h. starts_with h ''Content-Length'') headers
          then headers @ [''Content-Length: '' @ show_nat (case body of None \<Rightarrow> 0 | Some b \<Rightarrow> length b)] else headers) in
      bind (ok_or ''Invalid canonical reason'' (reason status)) (\<lambda>phrase.
      Ok \<lparr>wsm_type = Some (web_socket_type_to_i32 TypeResponse), wsm_request = None,
        wsm_response = Some \<lparr>res_id = Some i, res_status = Some status, res_message = Some phrase,
          res_headers = headers, res_body = body\<rparr>\<rparr>))"

definition create_request :: "nat \<Rightarrow> string \<Rightarrow> string \<Rightarrow> string list \<Rightarrow> bytes option \<Rightarrow> web_socket_message" where
  "create_request i verb path headers body =
     \<lparr>wsm_type = Some (web_socket_type_to_i32 TypeRequest),
      wsm_request = Some \<lparr>req_verb = Some verb, req_path = Some path, req_body = body, req_headers = headers, req_id = Some i\<rparr>,
      wsm_response = None\<rparr>"

definition unpack_messages :: "(string \<Rightarrow> denim_messages option) \<Rightarrow> bytes option \<Rightarrow> (error, denim_messages) outcome" where
  "unpack_messages json body =
     bind (ok_or ''Body was none'' body) (\<lambda>b.
     bind (ok_or ''Failed to convert req body to string'' (from_utf8 b)) (\<lambda>s.
     ok_or ''Failed to convert json to DenimMessages'' (json s)))"

text \<open>\<open>current_millis\<close> of the clock in nanoseconds since the epoch, which fails before it.\<close>

definition current_millis :: "nat option \<Rightarrow> (error, nat) outcome" where
  "current_millis clk = ok_or ''second time provided was later than self'' (map_option (\<lambda>ns. ns div 10 ^ 6) clk)"

section \<open>Connections\<close>

datatype 'w connection_state = Active 'w | Closed

fun is_active :: "'w connection_state \<Rightarrow> bool" where
  "is_active (Active _) = True"
| "is_active Closed = False"

datatype ws_frame = Binary bytes | Text string | CloseFrame "(nat \<times> string) option" | OtherFrame

text \<open>What the receiver of a websocket yields; the end of a list of these is the end of the stream.\<close>

datatype received = Frame ws_frame | RecvError string

text \<open>The sink of a websocket: sending and closing can fail.\<close>

record 'w sink =
  sink_send :: "ws_frame \<Rightarrow> ('w, error, unit) step"
  sink_close :: "('w, error, unit) step"

section \<open>Facts\<close>

lemma get_type_of_created:
  "get_type (create_request i verb path headers body) = TypeRequest"
  "create_response reason i status headers body = Ok m \<Longrightarrow> get_type m = TypeResponse"
  by (auto simp: get_type_def create_request_def create_response_def outcome_simps)

lemma path_extract_third: "path_extract (path_extractor_new (''/v1/messages/'' @ s)) 2 = Ok s" if "CHR ''/'' \<notin> set s"
  using that by (simp add: path_extractor_new_def path_extract_def split_char_no_delim)

end
