(* ===== verification/Step_Rules.thy ===== *)
theory Step_Rules
  imports Prelude
begin

text \<open>
  Rules for predicates that steps keep, whatever their outcome: \<open>keeps P Q m\<close> says that \<open>m\<close>
  keeps \<open>P\<close> of the state, also when it fails or panics, and that a result it returns satisfies \<open>Q\<close>.
  The rules in \<open>keeps\<close> follow the structure of a step.
\<close>

definition keeps :: "('s \<Rightarrow> bool) \<Rightarrow> ('a \<Rightarrow> bool) \<Rightarrow> ('s, 'e, 'a) step \<Rightarrow> bool" where
  "keeps P Q m \<longleftrightarrow> (\<forall>s. P s \<longrightarrow> P (snd (m s)) \<and> (\<forall>x. fst (m s) = Ok x \<longrightarrow> Q x))"

abbreviation anything :: "'a \<Rightarrow> bool" where "anything \<equiv> \<lambda>_. True"

named_theorems keeps \<open>steps that keep a predicate\<close>

lemma keepsI: "(\<And>s. P s \<Longrightarrow> P (snd (m s))) \<Longrightarrow> (\<And>s x s'. P s \<Longrightarrow> m s = (Ok x, s') \<Longrightarrow> Q x) \<Longrightarrow> keeps P Q m"
  unfolding keeps_def by (metis prod.collapse)

lemma keeps_anyI: "(\<And>s. P s \<Longrightarrow> P (snd (m s))) \<Longrightarrow> keeps P anything m"
  by (simp add: keeps_def)

lemma keepsD: "keeps P Q m \<Longrightarrow> P s \<Longrightarrow> P (snd (m s))" "keeps P Q m \<Longrightarrow> P s \<Longrightarrow> m s = (Ok x, s') \<Longrightarrow> Q x"
  by (auto simp: keeps_def)

lemma keeps_weaken: "keeps P Q m \<Longrightarrow> keeps P anything m"
  by (simp add: keeps_def)

lemma keeps_bind:
  assumes "keeps P Q m" "\<And>x. Q x \<Longrightarrow> keeps P R (f x)"
  shows "keeps P R (bindS m f)"
proof -
  have "P (snd (bindS m f s)) \<and> (\<forall>y. fst (bindS m f s) = Ok y \<longrightarrow> R y)" if "P s" for s
  proof -
    obtain r s' where m: "m s = (r, s')" by fastforce
    with keepsD(1) [OF assms(1) that] have "P s'" by simp
    moreover have "Q x" if "r = Ok x" for x using keepsD(2) [OF assms(1) \<open>P s\<close>] m that by blast
    ultimately show ?thesis using assms(2) by (cases r) (auto simp: m keeps_def)
  qed
  then show ?thesis by (simp add: keeps_def)
qed

lemma keeps_bind_any [keeps]: "keeps P anything m \<Longrightarrow> (\<And>x. keeps P R (f x)) \<Longrightarrow> keeps P R (bindS m f)"
  by (rule keeps_bind [where Q = anything]) simp_all

lemma keeps_return [keeps]: "Q x \<Longrightarrow> keeps P Q (returnS x)"
  by (simp add: keeps_def)

lemma keeps_lift [keeps]: "(\<And>x. r = Ok x \<Longrightarrow> Q x) \<Longrightarrow> keeps P Q (liftS r)"
  by (simp add: keeps_def)

lemma keeps_fail [keeps]: "keeps P Q (failS e)"
  by (simp add: keeps_def)

lemma keeps_get [keeps]: "(\<And>s. P s \<Longrightarrow> Q (f s)) \<Longrightarrow> keeps P Q (getS f)"
  by (simp add: keeps_def)

lemma keeps_modify [keeps]: "(\<And>s. P s \<Longrightarrow> P (f s)) \<Longrightarrow> keeps P anything (modifyS f)"
  by (simp add: keeps_def)

lemma keeps_if [keeps]: "(b \<Longrightarrow> keeps P Q m) \<Longrightarrow> (\<not> b \<Longrightarrow> keeps P Q n) \<Longrightarrow> keeps P Q (if b then m else n)"
  by simp

lemma keeps_option [keeps]:
  "(z = None \<Longrightarrow> keeps P Q m) \<Longrightarrow> (\<And>x. z = Some x \<Longrightarrow> keeps P Q (f x)) \<Longrightarrow> keeps P Q (case z of None \<Rightarrow> m | Some x \<Rightarrow> f x)"
  by (simp split: option.split)

lemma keeps_prod [keeps]: "(\<And>x y. z = (x, y) \<Longrightarrow> keeps P Q (f x y)) \<Longrightarrow> keeps P Q (case z of (x, y) \<Rightarrow> f x y)"
  by (simp split: prod.split)

lemma keeps_for [keeps]:
  assumes "\<And>x. x \<in> set xs \<Longrightarrow> keeps P anything (f x)"
  shows "keeps P anything (forS xs f)"
  using assms by (induction xs) (auto intro!: keeps)

lemma keeps_let [keeps]: "keeps P Q (f x) \<Longrightarrow> keeps P Q (let y = x in f y)"
  by simp

end
