(* ===== verification/Option_Steps.thy ===== *)
theory Option_Steps
  imports Step_Rules
begin

text \<open>
  Steps that may not return: a result is optional, \<open>None\<close> is a call that never comes back, because a
  loop does not end or a lock is never released.
\<close>

type_synonym ('c, 'e, 'a) ostep = "'c \<Rightarrow> (('e, 'a) outcome \<times> 'c) option"

definition bindO :: "('c, 'e, 'a) ostep \<Rightarrow> ('a \<Rightarrow> ('c, 'e, 'b) ostep) \<Rightarrow> ('c, 'e, 'b) ostep" where
  "bindO m f c = (case m c of
       None \<Rightarrow> None
     | Some (Ok x, c') \<Rightarrow> f x c'
     | Some (Err e, c') \<Rightarrow> Some (Err e, c')
     | Some (Panic, c') \<Rightarrow> Some (Panic, c'))"

definition okS :: "('c, 'e, 'a) step \<Rightarrow> ('c, 'e, 'a) ostep" where
  "okS m c = Some (m c)"

lemma bindO_simps [simp]:
  "m c = None \<Longrightarrow> bindO m f c = None"
  "m c = Some (Ok x, c') \<Longrightarrow> bindO m f c = f x c'"
  "m c = Some (Err e, c') \<Longrightarrow> bindO m f c = Some (Err e, c')"
  "m c = Some (Panic, c') \<Longrightarrow> bindO m f c = Some (Panic, c')"
  by (simp_all add: bindO_def)

lemma okS_apply [simp]: "okS m c = Some (m c)"
  by (simp add: okS_def)

lemma bindO_returns:
  "\<lbrakk> \<exists>r c'. m c = Some (r, c'); \<And>x c. \<exists>r c'. f x c = Some (r, c') \<rbrakk> \<Longrightarrow> \<exists>r c'. bindO m f c = Some (r, c')"
  by (auto simp: bindO_def split: outcome.split)

text \<open>Two plain steps in front are one.\<close>

lemma bindO_okS_bindS: "bindO (okS m) (\<lambda>x. bindO (okS (f x)) g) = bindO (okS (bindS m f)) g"
  by (rule ext) (simp add: bindO_def okS_def bindS_def split: prod.split outcome.split)

section \<open>What they keep\<close>

definition okeeps :: "('s \<Rightarrow> bool) \<Rightarrow> ('s, 'e, 'a) ostep \<Rightarrow> bool" where
  "okeeps P m \<longleftrightarrow> (\<forall>s r s'. P s \<longrightarrow> m s = Some (r, s') \<longrightarrow> P s')"

lemma okeeps_bindO: "okeeps P m \<Longrightarrow> (\<And>x. okeeps P (f x)) \<Longrightarrow> okeeps P (bindO m f)"
proof -
  assume m: "okeeps P m" and f: "\<And>x. okeeps P (f x)"
  have "P s'" if "P s" "bindO m f s = Some (r, s')" for s r s'
  proof (cases "m s")
    case (Some a)
    obtain q s1 where a: "a = (q, s1)" by fastforce
    have "P s1" using m \<open>P s\<close> Some by (auto simp: okeeps_def a)
    with f that(2) Some show ?thesis by (cases q) (auto simp: okeeps_def bindO_def a)
  qed (use that(2) in \<open>simp add: bindO_def\<close>)
  then show ?thesis by (auto simp: okeeps_def)
qed

lemma okeeps_okS: "keeps P anything m \<Longrightarrow> okeeps P (okS m)"
  unfolding okeeps_def keeps_def okS_def by (metis option.inject snd_conv)

lemma okeepsD: "okeeps P m \<Longrightarrow> P s \<Longrightarrow> m s = Some (r, s') \<Longrightarrow> P s'"
  by (simp add: okeeps_def)

lemma okeeps_retry:
  assumes "okeeps P m" "okeeps P again"
  shows "okeeps P (\<lambda>c. case m c of Some (Err _, c') \<Rightarrow> again c' | r \<Rightarrow> r)"
  unfolding okeeps_def
proof (intro allI impI)
  fix c r c' assume c: "P c" and run: "(case m c of Some (Err _, c') \<Rightarrow> again c' | r \<Rightarrow> r) = Some (r, c')"
  then obtain q d where m: "m c = Some (q, d)" by (cases "m c") auto
  have "P d" by (rule okeepsD [OF assms(1) c m])
  with run m okeepsD [OF assms(2)] show "P c'" by (cases q) auto
qed

section \<open>Ignoring results\<close>

text \<open>\<open>let _ = \<dots>\<close>: the error is dropped, a panic is not.\<close>

definition ignoreS :: "('s, 'e, 'a) step \<Rightarrow> ('s, 'f, unit) step" where
  "ignoreS m s = (case m s of (Ok _, s') \<Rightarrow> (Ok (), s') | (Err _, s') \<Rightarrow> (Ok (), s') | (Panic, s') \<Rightarrow> (Panic, s'))"

text \<open>\<open>\<dots>.is_ok()\<close>.\<close>

definition is_okS :: "('s, 'e, 'a) step \<Rightarrow> ('s, 'f, bool) step" where
  "is_okS m s = (case m s of (Ok _, s') \<Rightarrow> (Ok True, s') | (Err _, s') \<Rightarrow> (Ok False, s') | (Panic, s') \<Rightarrow> (Panic, s'))"

lemma ignoreS_snd [simp]: "snd (ignoreS m s) = snd (m s)" "snd (is_okS m s) = snd (m s)"
  by (simp_all add: ignoreS_def is_okS_def split: prod.split outcome.split)

lemma ignoreS_Ok [simp]: "m s = (Ok x, s') \<Longrightarrow> ignoreS m s = (Ok (), s')" "m s = (Ok x, s') \<Longrightarrow> is_okS m s = (Ok True, s')"
  by (simp_all add: ignoreS_def is_okS_def)

lemma keeps_ignore [keeps]: "keeps P anything m \<Longrightarrow> keeps P anything (ignoreS m)" "keeps P anything m \<Longrightarrow> keeps P anything (is_okS m)"
  by (simp_all add: keeps_def)

end
