(* ===== verification/Client.thy ===== *)
theory Client
  imports Client_Keys Net_Helper Chunker Denim_Manager Option_Steps
begin

text \<open>
  \<open>Client\<close> of \<open>client/src/client.rs\<close>, with the trait \<open>SignalServerAPI\<close> of \<open>client/src/server.rs\<close>
  as a record of steps on the state of the connection. The client's state is its contacts, its keys'
  ids, its database, its connection and its chunker; locks are not modelled. Waiting for a reply or a
  message may never end, nor might the loop of the chunker, so \<open>send_message\<close> and \<open>receive_message\<close>
  have an optional value, \<open>None\<close> when they do not return.
\<close>

section \<open>Key bundles\<close>

text \<open>libsignal's \<open>PreKeyBundle\<close>; keys are their serialised bytes.\<close>

record pre_key_bundle =
  pkb_registration_id :: nat
  pkb_device_id :: nat
  pkb_pre_key :: "(nat \<times> bytes) option"
  pkb_signed_pre_key :: "nat \<times> bytes \<times> bytes"
  pkb_identity_key :: bytes
  pkb_kyber_pre_key :: "(nat \<times> bytes \<times> bytes) option"

record key_decoding =
  identity_key_valid :: "bytes \<Rightarrow> bool"
  public_key_valid :: "bytes \<Rightarrow> bool"
  kem_key_valid :: "bytes \<Rightarrow> bool"

definition check :: "'e \<Rightarrow> bool \<Rightarrow> ('e, unit) outcome" where
  "check e b = (if b then Ok () else Err e)"

definition bundle_of :: "key_decoding \<Rightarrow> bytes \<Rightarrow> pre_key_response_item \<Rightarrow> (error, pre_key_bundle) outcome" where
  "bundle_of D identity it =
     bind (case pki_pre_key it of
         Some k \<Rightarrow> bind (check ''Failed decoding pre key'' (public_key_valid D (upk_public_key k)))
           (\<lambda>_. Ok (Some (upk_key_id k, upk_public_key k)))
       | None \<Rightarrow> Ok None) (\<lambda>pre_key.
     let spk = pki_signed_pre_key it; pq = pki_pq_pre_key it in
     bind (check ''Failed decoding signed pre key key'' (public_key_valid D (usk_public_key spk))) (\<lambda>_.
     bind (check ''Failed decoding kem pre key key'' (kem_key_valid D (usk_public_key pq))) (\<lambda>_.
     Ok \<lparr>pkb_registration_id = pki_registration_id it, pkb_device_id = pki_device_id it, pkb_pre_key = pre_key,
       pkb_signed_pre_key = (usk_key_id spk, usk_public_key spk, usk_signature spk), pkb_identity_key = identity,
       pkb_kyber_pre_key = Some (usk_key_id pq, usk_public_key pq, usk_signature pq)\<rparr>)))"

definition pre_key_bundles_try_from :: "key_decoding \<Rightarrow> pre_key_response \<Rightarrow> (error, pre_key_bundle list) outcome" where
  "pre_key_bundles_try_from D items =
     bind (check ''Failed decoding identity key'' (identity_key_valid D (pks_identity_key items))) (\<lambda>_.
     map_outcome (bundle_of D (pks_identity_key items)) (pks_devices items))"

section \<open>The connection\<close>

type_synonym ('n, 'a) api_step = "('n, signal_client_error, 'a) step"

record 'n server_api =
  api_connect :: "string \<Rightarrow> string \<Rightarrow> ('n, f32 option) api_step"
  api_disconnect :: "('n, unit) api_step"
  publish_pre_key_bundle :: "set_key_request \<Rightarrow> ('n, unit) api_step"
  fetch_pre_key_bundles :: "service_id \<Rightarrow> ('n, pre_key_bundle list) api_step"
  register_client :: "string \<Rightarrow> string \<Rightarrow> registration_request \<Rightarrow> ('n, account_identity_response) api_step"
  get_service_id_from_server :: "string \<Rightarrow> ('n, service_id) api_step"
  send_msg :: "denim_messages \<Rightarrow> service_id \<Rightarrow> ('n, signal_client_error, unit) ostep"
  api_has_message :: "('n, bool) api_step"
  get_message :: "('n, signal_client_error, web_socket_request_message option) ostep"
  send_response :: "web_socket_request_message \<Rightarrow> nat \<Rightarrow> ('n, unit) api_step"
  create_auth_header :: "uuid \<Rightarrow> string \<Rightarrow> nat \<Rightarrow> ('n, unit) api_step"

section \<open>The client\<close>

text \<open>
  The client's parameters: its database and connection, libsignal, prost, bincode, and the order in
  which the hash map of encrypted messages is iterated.
\<close>

record ('s, 'n, 'o) client_env =
  ce_db :: "('s, 'o) client_db"
  ce_api :: "'n server_api"
  ce_sessions :: "('s, 'o) sessions"
  process_prekey_bundle :: "protocol_address \<Rightarrow> ('s, 'o) session_store \<Rightarrow> ('s, 'o) identity_key_store \<Rightarrow> pre_key_bundle
    \<Rightarrow> ('s, unit) db_step"
  ce_decoding :: key_decoding
  ce_ids :: id_codec
  ce_base64 :: base64
  content_encode :: "content \<Rightarrow> bytes"
  content_decode :: "bytes \<Rightarrow> (string, content) outcome"
  serialize_regular :: "regular_payload \<Rightarrow> bytes"
  serialize_chunks :: "denim_chunk list \<Rightarrow> bytes"
  payload_codec :: "deniable_payload codec"
  message_deserialize :: "bytes \<Rightarrow> (error, denim_message) outcome"
  map_order :: "(nat \<times> nat \<times> ciphertext_message) list \<Rightarrow> (nat \<times> nat \<times> ciphertext_message) list"

record ('s, 'n) client =
  client_alias :: string
  client_aci :: uuid
  client_pni :: uuid
  contact_manager :: contacts
  key_ids :: key_manager
  database :: 's
  server :: 'n
  client_chunker :: chunker

type_synonym ('s, 'n, 'a) client_step = "(('s, 'n) client, signal_client_error, 'a) step"

definition on_contacts :: "(contacts, contact_manager_error, 'a) step \<Rightarrow> ('s, 'n, 'a) client_step" where
  "on_contacts m c = (case m (contact_manager c) of (r, k) \<Rightarrow> (map_err ContactManagerError r, c\<lparr>contact_manager := k\<rparr>))"

definition on_database :: "('s, 'a) db_step \<Rightarrow> ('s, 'n, 'a) client_step" where
  "on_database m c = (case m (database c) of (r, s) \<Rightarrow> (map_err DatabaseError r, c\<lparr>database := s\<rparr>))"

definition on_stores :: "('s, signal_client_error, 'a) step \<Rightarrow> ('s, 'n, 'a) client_step" where
  "on_stores m c = (case m (database c) of (r, s) \<Rightarrow> (r, c\<lparr>database := s\<rparr>))"

definition on_server :: "('n, 'a) api_step \<Rightarrow> ('s, 'n, 'a) client_step" where
  "on_server m c = (case m (server c) of (r, n) \<Rightarrow> (r, c\<lparr>server := n\<rparr>))"

definition on_serverO :: "('n, signal_client_error, 'a) ostep \<Rightarrow> (('s, 'n) client, signal_client_error, 'a) ostep" where
  "on_serverO m c = map_option (\<lambda>(r, n). (r, c\<lparr>server := n\<rparr>)) (m (server c))"

abbreviation stores :: "('s, 'n, 'o) client_env \<Rightarrow> ('s, 'o) protocol_store" where
  "stores E \<equiv> ProtocolStore_new (ce_db E)"

text \<open>The operations that only pass a call on.\<close>

definition client_get_service_id_from_server :: "('s, 'n, 'o) client_env \<Rightarrow> string \<Rightarrow> ('s, 'n, service_id) client_step" where
  "client_get_service_id_from_server E phone = on_server (get_service_id_from_server (ce_api E) phone)"

definition client_disconnect :: "('s, 'n, 'o) client_env \<Rightarrow> ('s, 'n, unit) client_step" where
  "client_disconnect E = on_server (api_disconnect (ce_api E))"

definition client_has_message :: "('s, 'n, 'o) client_env \<Rightarrow> ('s, 'n, bool) client_step" where
  "client_has_message E = on_server (api_has_message (ce_api E))"

section \<open>Sessions and contacts\<close>

fun process_bundles :: "('s, 'n, 'o) client_env \<Rightarrow> service_id \<Rightarrow> ('s, 'o) session_store \<Rightarrow> ('s, 'o) identity_key_store
    \<Rightarrow> nat list \<Rightarrow> pre_key_bundle list \<Rightarrow> ('s, signal_client_error, nat list) step" where
  "process_bundles E sid S I ids [] = returnS ids"
| "process_bundles E sid S I ids (b # bs) =
     bindS (\<lambda>s. case process_prekey_bundle E \<lparr>addr_name = service_id_string (ce_ids E) sid, addr_device_id = pkb_device_id b\<rparr> S I b s
       of (r, s') \<Rightarrow> (map_err ProcessPreKeyBundleError r, s')) (\<lambda>_.
     process_bundles E sid S I (ids @ [pkb_device_id b]) bs)"

definition initialize_sessions_from_bundle :: "('s, 'n, 'o) client_env \<Rightarrow> service_id \<Rightarrow> pre_key_bundle list \<Rightarrow> bool
    \<Rightarrow> ('s, 'n, nat list) client_step" where
  "initialize_sessions_from_bundle E sid bundles deniable =
     (let session_store = (if deniable then deniable_store (stores E) else session_store (stores E));
          identity_key_store = (if deniable then deniable_identity_key_store (stores E) else identity_key_store (stores E)) in
      on_stores (process_bundles E sid session_store identity_key_store [] bundles))"

definition get_new_device_ids :: "('s, 'n, 'o) client_env \<Rightarrow> service_id \<Rightarrow> ('s, 'n, nat list) client_step" where
  "get_new_device_ids E sid =
     bindS (on_server (fetch_pre_key_bundles (ce_api E) sid)) (\<lambda>bundles.
     initialize_sessions_from_bundle E sid bundles False)"

definition update_contact :: "('s, 'n, 'o) client_env \<Rightarrow> string \<Rightarrow> nat list \<Rightarrow> ('s, 'n, unit) client_step" where
  "update_contact E al device_ids =
     bindS (on_database (get_service_id_by_nickname (ce_db E) al)) (\<lambda>sid.
     bindS (on_contacts (manager_update_contact sid device_ids)) (\<lambda>_.
     bindS (on_contacts (manager_get_contact sid)) (\<lambda>contact.
     on_database (store_contact (ce_db E) contact))))"

definition add_contact :: "('s, 'n, 'o) client_env \<Rightarrow> string \<Rightarrow> service_id \<Rightarrow> nat list option \<Rightarrow> ('s, 'n, unit) client_step" where
  "add_contact E al sid device_ids c =
     (if is_ok (fst (manager_get_contact sid (contact_manager c))) then (Ok (), c)
      else bindS (on_contacts (manager_add_contact sid)) (\<lambda>_.
        bindS (on_contacts (manager_get_contact sid)) (\<lambda>contact.
        bindS (on_database (store_contact (ce_db E) contact)) (\<lambda>_.
        bindS (on_database (insert_service_id_for_nickname (ce_db E) al sid)) (\<lambda>_.
        bindS (case device_ids of Some new_device_ids \<Rightarrow> returnS new_device_ids | None \<Rightarrow> get_new_device_ids E sid) (\<lambda>new_device_ids.
        update_contact E al new_device_ids))))) c)"

text \<open>The nickname stays.\<close>

definition remove_contact :: "('s, 'n, 'o) client_env \<Rightarrow> string \<Rightarrow> ('s, 'n, unit) client_step" where
  "remove_contact E al =
     bindS (on_database (get_service_id_by_nickname (ce_db E) al)) (\<lambda>sid.
     bindS (on_contacts (manager_remove_contact sid)) (\<lambda>_.
     on_database (db_remove_contact (ce_db E) sid)))"

definition add_deniable_contact_and_queue_message :: "('s, 'n, 'o) client_env \<Rightarrow> service_id \<Rightarrow> string \<Rightarrow> string
    \<Rightarrow> ('s, 'n, unit) client_step" where
  "add_deniable_contact_and_queue_message E sid text al =
     (let s = service_id_string (ce_ids E) sid in
      bindS (on_database (try_get_key_request_sent (ce_db E) s)) (\<lambda>sent.
      bindS (if sent = None then
          bindS (on_database (store_deniable_payload (ce_db E) None 0
            (serialize (payload_codec E) (KeyRequest \<lparr>pkr_service_id = s\<rparr>)))) (\<lambda>_.
          on_database (store_key_request_sent (ce_db E) s al))
        else returnS ()) (\<lambda>_.
      on_database (store_message_awaiting_encryption (ce_db E) text al))))"

end
