(* ===== verification/Client_Messages.thy ===== *)
theory Client_Messages
  imports Client
begin

text \<open>
  Sending and receiving in \<open>client/src/client.rs\<close>: regular messages carry chunks of the deniable
  payloads that are queued, deniable messages are queued, and what arrives is decrypted and, where
  chunks complete a payload, handled.
\<close>

section \<open>Sending\<close>

definition message_content :: "string \<Rightarrow> string \<Rightarrow> content" where
  "message_content al message =
     \<lparr>cnt_data_message = Some \<lparr>dmg_body = Some message, dmg_contacts = [Some (Some al)]\<rparr>\<rparr>"

fun ciphertext_type :: "ciphertext_message \<Rightarrow> envelope_type" where
  "ciphertext_type (CtSignalMessage _) = Ciphertext"
| "ciphertext_type (CtSenderKeyMessage _) = KeyExchange"
| "ciphertext_type (CtPreKeySignalMessage _) = PrekeyBundle"
| "ciphertext_type (CtPlaintextContent _) = PlaintextContent"

definition signal_message_for :: "('s, 'n, 'o) client_env \<Rightarrow> string option \<Rightarrow> nat \<times> nat \<times> ciphertext_message \<Rightarrow> signal_message" where
  "signal_message_for E dest = (\<lambda>(device_id, registration_id, msg).
     \<lparr>sm_type = envelope_type_to_i32 (ciphertext_type msg), destination_device_id = device_id,
      sm_destination_service_id = dest, destination_registration_id = registration_id,
      sm_content = b64_encode (ce_base64 E) (ciphertext_serialize msg)\<rparr>)"

text \<open>Encrypting for the devices of a contact, with the stores of regular or of deniable sessions.\<close>

definition encrypt_content :: "('s, 'n, 'o) client_env \<Rightarrow> bool \<Rightarrow> service_id \<Rightarrow> content
    \<Rightarrow> ('s, 'n, (nat \<times> nat \<times> ciphertext_message) list) client_step" where
  "encrypt_content E deniable sid content =
     bindS (on_contacts (manager_get_contact sid)) (\<lambda>target.
     bindS (liftS (pad_message (content_encode E content))) (\<lambda>msg.
     let P = stores E;
         I = (if deniable then deniable_identity_key_store P else identity_key_store P);
         S = (if deniable then deniable_store P else session_store P) in
     bindS (on_stores (encrypt (ce_sessions E) (ce_ids E) I S target msg)) (\<lambda>msgs.
     returnS (map_order E msgs))))"

definition chunks_for :: "('s, 'n, 'o) client_env \<Rightarrow> regular_payload
    \<Rightarrow> (('s, 'n) client, signal_client_error, denim_chunk list \<times> nat) ostep" where
  "chunks_for E regular c =
     map_option (\<lambda>(r, s). (expect r, c\<lparr>database := s\<rparr>))
       (create_chunks (serialize_chunks E) (deniable_buffer (stores E)) (client_chunker c)
         (usize_as_f32 (length (serialize_regular E regular))) (database c))"

fun denim_messages_loop :: "('s, 'n, 'o) client_env \<Rightarrow> denim_message list \<Rightarrow> (nat \<times> nat \<times> ciphertext_message) list
    \<Rightarrow> (('s, 'n) client, signal_client_error, denim_message list) ostep" where
  "denim_messages_loop E out [] = okS (returnS out)"
| "denim_messages_loop E out (m # ms) =
     (let regular = RegularSignalMessage (signal_message_for E None m) in
      bindO (chunks_for E regular) (\<lambda>(chunks, free_space).
      denim_messages_loop E (out @ [\<lparr>dm_regular_payload = regular, dm_chunks = chunks, dm_counter = None, dm_q = None,
        dm_ballast = replicate free_space 0\<rparr>]) ms))"

text \<open>One more attempt after an error, with the same messages.\<close>

definition deliver_messages :: "('s, 'n, 'o) client_env \<Rightarrow> string \<Rightarrow> service_id \<Rightarrow> denim_messages
    \<Rightarrow> (('s, 'n) client, signal_client_error, unit) ostep" where
  "deliver_messages E al sid msgs c =
     (case on_serverO (send_msg (ce_api E) msgs sid) c of
        Some (Err _, c') \<Rightarrow>
          bindO (okS (get_new_device_ids E sid)) (\<lambda>device_ids.
          bindO (okS (update_contact E al device_ids)) (\<lambda>_.
          on_serverO (send_msg (ce_api E) msgs sid))) c'
      | r \<Rightarrow> r)"

text \<open>The clock is given in seconds since the epoch, \<open>None\<close> when it stands before it.\<close>

definition send_message :: "('s, 'n, 'o) client_env \<Rightarrow> nat option \<Rightarrow> string \<Rightarrow> string
    \<Rightarrow> (('s, 'n) client, signal_client_error, unit) ostep" where
  "send_message E now message al =
     bindO (okS (on_database (get_service_id_by_nickname (ce_db E) al))) (\<lambda>sid.
     bindO (okS (getS client_alias)) (\<lambda>own.
     bindO (okS (encrypt_content E False sid (message_content own message))) (\<lambda>msgs.
     bindO (denim_messages_loop E [] msgs) (\<lambda>denim.
     bindO (okS (liftS (expect (ok_or () now)))) (\<lambda>secs.
     let msgs = \<lparr>messages = denim, online = True, dms_urgent = False, dms_timestamp = secs\<rparr> in
     deliver_messages E al sid msgs)))))"

definition queue_deniable :: "('s, 'n, 'o) client_env \<Rightarrow> service_id \<Rightarrow> nat \<times> nat \<times> ciphertext_message
    \<Rightarrow> ('s, 'n, unit) client_step" where
  "queue_deniable E sid m =
     on_database (store_deniable_payload (ce_db E) None 0 (serialize (payload_codec E)
       (DenSignalMessage (signal_message_for E (Some (service_id_string (ce_ids E) sid)) m))))"

definition send_deniable_message :: "('s, 'n, 'o) client_env \<Rightarrow> string \<Rightarrow> string \<Rightarrow> ('s, 'n, unit) client_step" where
  "send_deniable_message E message al =
     bindS (on_database (get_service_id_by_nickname (ce_db E) al)) (\<lambda>sid.
     bindS (getS client_alias) (\<lambda>own.
     bindS (encrypt_content E True sid (message_content own message)) (\<lambda>msgs.
     bindS (forS msgs (queue_deniable E sid)) (\<lambda>_. returnS ()))))"

section \<open>Receiving\<close>

text \<open>The loop of \<open>handle_incoming_chunks\<close>; the dummies have been filtered out before.\<close>

fun incoming_loop :: "'p deserializer \<Rightarrow> 'p list \<Rightarrow> denim_chunk list \<Rightarrow> denim_chunk list
    \<Rightarrow> ('e, 'p list \<times> denim_chunk list) outcome" where
  "incoming_loop de payloads chunks [] = Ok (payloads, chunks)"
| "incoming_loop de payloads chunks (c # cs) =
     (if is_final c then
        bind (expect (de (concat (map chunk (sort_chunks chunks @ [c]))))) (\<lambda>p.
        incoming_loop de (payloads @ [p]) [] cs)
      else incoming_loop de payloads (chunks @ [c]) cs)"

definition handle_incoming_chunks :: "('s, 'n, 'o) client_env \<Rightarrow> denim_chunk list \<Rightarrow> ('s, 'n, deniable_payload list) client_step" where
  "handle_incoming_chunks E new_chunks =
     bindS (if list_ex is_final new_chunks then on_database (get_and_remove_incoming_deniable_chunks (ce_db E)) else returnS []) (\<lambda>chunks.
     bindS (liftS (incoming_loop (deserialize (payload_codec E)) [] chunks new_chunks)) (\<lambda>(payloads, chunks).
     bindS (if chunks \<noteq> [] then on_database (store_incoming_deniable_chunks (ce_db E) chunks) else returnS ()) (\<lambda>_.
     returnS payloads)))"

definition as_signal_client :: "('s, signal_error, 'a) step \<Rightarrow> ('s, signal_client_error, 'a) step" where
  "as_signal_client m s = (case m s of (r, s') \<Rightarrow> (map_err Signal r, s'))"

definition decrypt_envelope :: "('s, 'n, 'o) client_env \<Rightarrow> bool \<Rightarrow> envelope \<Rightarrow> ('s, 'n, processed_envelope) client_step" where
  "decrypt_envelope E deniable e =
     (let P = stores E;
          S = (if deniable then deniable_store P else session_store P);
          I = (if deniable then deniable_identity_key_store P else identity_key_store P) in
      on_stores (as_signal_client (envelope_decrypt (ce_sessions E) (ce_ids E) (content_decode E) e S I
        (pre_key_store P) (signed_pre_key_store P) (kyber_pre_key_store P))))"

text \<open>A key response: the sessions are set up, the contact is added, and what waited for it is queued.\<close>

definition handle_key_response :: "('s, 'n, 'o) client_env \<Rightarrow> pre_key_response \<Rightarrow> ('s, 'n, unit) client_step" where
  "handle_key_response E r =
     bindS (liftS (expect (ok_or () (parse_from_service_id_string (ce_ids E) (pks_service_id r))))) (\<lambda>sid.
     bindS (liftS (map_err KeyError (pre_key_bundles_try_from (ce_decoding E) r))) (\<lambda>bundles.
     bindS (initialize_sessions_from_bundle E sid bundles True) (\<lambda>device_ids.
     let s = service_id_string (ce_ids E) sid in
     bindS (on_database (try_get_key_request_sent (ce_db E) s)) (\<lambda>sent.
     bindS (liftS (expect (ok_or () sent))) (\<lambda>al.
     bindS (add_contact E al sid (Some device_ids)) (\<lambda>_.
     bindS (on_database (remove_key_request_sent (ce_db E) s)) (\<lambda>_.
     bindS (on_database (get_messages_awaiting_encryption (ce_db E) al)) (\<lambda>messages.
     bindS (forS messages (\<lambda>message. send_deniable_message E message al)) (\<lambda>_. returnS ())))))))))"

fun handle_payloads :: "('s, 'n, 'o) client_env \<Rightarrow> processed_envelope list \<Rightarrow> deniable_payload list
    \<Rightarrow> ('s, 'n, processed_envelope list) client_step" where
  "handle_payloads E processed [] = returnS processed"
| "handle_payloads E processed (p # ps) =
     (case p of
        DenEnvelope e \<Rightarrow> bindS (decrypt_envelope E True e) (\<lambda>q. handle_payloads E (processed @ [q]) ps)
      | KeyResponse r \<Rightarrow> bindS (handle_key_response E r) (\<lambda>_. handle_payloads E processed ps)
      | _ \<Rightarrow> liftS Panic)"

text \<open>The result of acknowledging a message is ignored, unless it panics.\<close>

definition ignore_err :: "('s, 'n, unit) client_step \<Rightarrow> ('s, 'n, unit) client_step" where
  "ignore_err m c = (case m c of (Err _, c') \<Rightarrow> (Ok (), c') | r \<Rightarrow> r)"

definition receive_message :: "('s, 'n, 'o) client_env \<Rightarrow> (('s, 'n) client, signal_client_error, processed_envelope list) ostep" where
  "receive_message E =
     bindO (on_serverO (get_message (ce_api E))) (\<lambda>request. okS (
     bindS (liftS (ok_or (ReceiveMessageError NoMessageReceived) request)) (\<lambda>request.
     bindS (liftS (expect (message_deserialize E (or_empty (req_body request))))) (\<lambda>denim_msg.
     bindS (liftS (expect (ok_or () (dm_q denim_msg)))) (\<lambda>q.
     bindS (modifyS (\<lambda>c. c\<lparr>client_chunker := set_q_value q (client_chunker c)\<rparr>)) (\<lambda>_.
     case dm_regular_payload denim_msg of
       RegularEnvelope e \<Rightarrow>
         bindS (decrypt_envelope E False e) (\<lambda>first.
         bindS (ignore_err (on_server (send_response (ce_api E) request 200))) (\<lambda>_.
         let chunks = filter (\<lambda>c. \<not> is_dummy c) (dm_chunks denim_msg) in
         if chunks \<noteq> [] then
           bindS (handle_incoming_chunks E chunks) (\<lambda>payloads. handle_payloads E [first] payloads)
         else returnS [first]))
     | _ \<Rightarrow>
         bindS (on_server (send_response (ce_api E) request 500)) (\<lambda>_.
         failS (ReceiveMessageError EnvelopeDecodeError))))))))"

end
