(* ===== verification/Client_Login.thy ===== *)
theory Client_Login
  imports Client_Messages
begin

text \<open>
  How a client comes to be: \<open>register\<close> and \<open>login\<close> of \<open>client/src/client.rs\<close>. Opening the database and
  running its migrations gives the state the steps start in; random numbers are arguments.
\<close>

section \<open>Login\<close>

text \<open>Before there is a client, its database and its connection are a pair.\<close>

definition db_call :: "('s, 'a) db_step \<Rightarrow> ('s \<times> 'n, signal_client_error, 'a) step" where
  "db_call m = (\<lambda>(s, n). case m s of (r, s') \<Rightarrow> (map_err DatabaseError r, s', n))"

definition api_call :: "('n, 'a) api_step \<Rightarrow> ('s \<times> 'n, signal_client_error, 'a) step" where
  "api_call m = (\<lambda>(s, n). case m n of (r, n') \<Rightarrow> (r, s, n'))"

text \<open>The client is made of what login found; its key ids start behind the stored ones.\<close>

definition login :: "('s, 'n, 'o) client_env \<Rightarrow> string \<Rightarrow> ('s \<times> 'n, signal_client_error, ('s, 'n) client) step" where
  "login E al =
     bindS (db_call (load_contacts (ce_db E))) (\<lambda>contacts.
     bindS (db_call (get_key_ids (ce_db E))) (\<lambda>(one_time, signed_key, kyber).
     bindS (db_call (get_password (ce_db E))) (\<lambda>password.
     bindS (db_call (get_aci (ce_db E))) (\<lambda>aci.
     bindS (api_call (api_connect (ce_api E) (service_id_string (ce_ids E) (Aci aci)) password)) (\<lambda>q_value.
     bindS (api_call (create_auth_header (ce_api E) aci password 1)) (\<lambda>_.
     bindS (db_call (get_aci (ce_db E))) (\<lambda>aci.
     bindS (db_call (get_pni (ce_db E))) (\<lambda>pni.
     bindS (liftS (u32_add signed_key 1)) (\<lambda>s1.
     bindS (liftS (u32_add kyber 1)) (\<lambda>k1.
     bindS (liftS (u32_add one_time 1)) (\<lambda>o1.
     bindS (liftS (expect (ok_or () q_value))) (\<lambda>q.
     getS (\<lambda>(s, n). \<lparr>client_alias = al, client_aci = aci, client_pni = pni,
       contact_manager = new_with_contacts contacts, key_ids = KeyManager_new s1 k1 o1, database = s, server = n,
       client_chunker = Chunker_new q\<rparr>)))))))))))))"

section \<open>Registration\<close>

text \<open>What registration draws: the identity keys, the registration ids and the password.\<close>

record 'o registration_draw =
  draw_aci_key_pair :: "'o \<times> 'o"
  draw_pni_key_pair :: "'o \<times> 'o"
  draw_aci_registration_id :: nat
  draw_pni_registration_id :: nat
  draw_password :: bytes
  draw_identity_key :: "'o \<Rightarrow> bytes"

type_synonym ('s, 'n, 'a) register_step = "(key_manager \<times> 's \<times> 'n, signal_client_error, 'a) step"

definition keys_call :: "('s, 'a) key_step \<Rightarrow> ('s, 'n, 'a) register_step" where
  "keys_call m = (\<lambda>(k, s, n). case m (k, s) of (r, k', s') \<Rightarrow> (r, k', s', n))"

text \<open>The last two characters of the encoded password are cut off.\<close>

definition password_text :: "base64 \<Rightarrow> bytes \<Rightarrow> ('e, string) outcome" where
  "password_text b64 bs =
     (let password = b64_encode b64 bs in bind (usize_sub (length password) 2) (\<lambda>n. Ok (take n password)))"

definition registration_request_of :: "'o registration_draw \<Rightarrow> string \<Rightarrow> upload_signed_pre_key \<Rightarrow> upload_signed_pre_key
    \<Rightarrow> upload_signed_pre_key \<Rightarrow> upload_signed_pre_key \<Rightarrow> registration_request" where
  "registration_request_of D name aci_spk pni_spk aci_pq pni_pq =
     \<lparr>session_id = '''', recovery_password = '''',
      reg_account_attributes = \<lparr>att_name = name, fetches_messages = True,
        att_registration_id = draw_aci_registration_id D, att_pni_registration_id = draw_pni_registration_id D,
        att_capabilities = [], unidentified_access_key = replicate 16 0\<rparr>,
      require_atomic = True, skip_device_transfer = True,
      reg_aci_identity_key = draw_identity_key D (fst (draw_aci_key_pair D)),
      reg_pni_identity_key = draw_identity_key D (fst (draw_pni_key_pair D)),
      reg_aci_signed_pre_key = aci_spk, reg_pni_signed_pre_key = pni_spk,
      reg_aci_pq_last_resort_pre_key = aci_pq, reg_pni_pq_last_resort_pre_key = pni_pq\<rparr>"

definition register :: "('s, 'n, 'o) client_env \<Rightarrow> 'o key_generation \<Rightarrow> 'o registration_draw \<Rightarrow> nat \<Rightarrow> string \<Rightarrow> string \<Rightarrow> string
    \<Rightarrow> ('s, 'n, ('s, 'n) client) register_step" where
  "register E G D now name phone al =
     (let P = stores E in
      bindS (on_snd DatabaseError (\<lambda>(s, n). case insert_account_key_information (ce_db E) (draw_aci_key_pair D)
        (draw_aci_registration_id D) s of (r, s') \<Rightarrow> (expect r, s', n))) (\<lambda>_.
      bindS (keys_call (generate_signed_pre_key G 0 now (identity_key_store P) (signed_pre_key_store P))) (\<lambda>aci_signed.
      bindS (keys_call (generate_signed_pre_key G 1 now (identity_key_store P) (signed_pre_key_store P))) (\<lambda>pni_signed.
      bindS (keys_call (generate_kyber_pre_key G 2 (identity_key_store P) (kyber_pre_key_store P))) (\<lambda>aci_pq.
      bindS (keys_call (generate_kyber_pre_key G 3 (identity_key_store P) (kyber_pre_key_store P))) (\<lambda>pni_pq.
      bindS (liftS (password_text (ce_base64 E) (draw_password D))) (\<lambda>password.
      bindS (liftS (map_outcome (\<lambda>r. expect (upload_signed G r)) [aci_signed, pni_signed, aci_pq, pni_pq])) (\<lambda>ks.
      let req = registration_request_of D name (ks ! 0) (ks ! 1) (ks ! 2) (ks ! 3) in
      bindS (on_snd (\<lambda>e. e) (api_call (register_client (ce_api E) phone password req))) (\<lambda>response.
      let aci = air_uuid response; pni = air_pni response in
      bindS (on_snd (\<lambda>e. e) (api_call (create_auth_header (ce_api E) aci password 1))) (\<lambda>_.
      bindS (on_snd (\<lambda>e. e) (db_call (insert_account_information (ce_db E) aci pni password))) (\<lambda>_.
      bindS (keys_call (generate_key_bundle G 4 now P)) (\<lambda>key_bundle.
      bindS (on_snd (\<lambda>e. e) (api_call (publish_pre_key_bundle (ce_api E) key_bundle))) (\<lambda>_.
      bindS (on_snd (\<lambda>e. e) (api_call (api_connect (ce_api E) (service_id_string (ce_ids E) (Aci aci)) password))) (\<lambda>q_value.
      bindS (liftS (expect (ok_or () q_value))) (\<lambda>q.
      getS (\<lambda>(k, s, n). \<lparr>client_alias = al, client_aci = aci, client_pni = pni,
        contact_manager = (\<lambda>_. None), key_ids = k, database = s, server = n,
        client_chunker = Chunker_new q\<rparr>))))))))))))))))"

end
