(* ===== verification/Device_Inv.thy ===== *)
theory Device_Inv
  imports Device_Props
begin

text \<open>
  The invariant of the client's database: whatever sequence of operations built it, its unique
  columns are unique and every text column can be read back, so that reading fails only for
  rows that are missing, and the \<open>expect\<close>s on reads never panic.
\<close>

section \<open>What is relied on from libsignal\<close>

definition object_ok :: "'o object_codec \<Rightarrow> bool" where
  "object_ok C \<longleftrightarrow> (\<forall>r bs. obj_serialize C r = Ok bs \<longrightarrow> obj_deserialize C bs = Ok r)"

definition lib_ok :: "'o device_env \<Rightarrow> bool" where
  "lib_ok E \<longleftrightarrow> base64_laws (dv_base64 E) \<and> id_codec_laws (dv_ids E) \<and>
     (\<forall>k. identity_decode (dv_lib E) (identity_serialize (dv_lib E) k) = Ok k) \<and>
     (\<forall>k. private_deserialize (dv_lib E) (private_serialize (dv_lib E) k) = Ok k) \<and>
     object_ok (pre_key_record (dv_lib E)) \<and> object_ok (signed_pre_key_record (dv_lib E)) \<and>
     object_ok (kyber_pre_key_record (dv_lib E)) \<and> object_ok (session_record (dv_lib E)) \<and>
     object_ok (sender_key_record (dv_lib E))"

lemma lib_okD:
  assumes "lib_ok E"
  shows "base64_laws (dv_base64 E)" "id_codec_laws (dv_ids E)"
    and "identity_decode (dv_lib E) (identity_serialize (dv_lib E) k) = Ok k"
    and "private_deserialize (dv_lib E) (private_serialize (dv_lib E) k) = Ok k"
    and "object_ok (pre_key_record (dv_lib E))" "object_ok (signed_pre_key_record (dv_lib E))"
    and "object_ok (kyber_pre_key_record (dv_lib E))" "object_ok (session_record (dv_lib E))"
    and "object_ok (sender_key_record (dv_lib E))"
  using assms by (simp_all add: lib_ok_def)

text \<open>What is encoded is decoded again.\<close>

lemma decode_encoded: "base64_laws (dv_base64 E) \<Longrightarrow> decode_object E de (b64_encode (dv_base64 E) bs) = de bs"
  by (simp add: decode_object_def decode_base64_def ok_or_def base64_laws.decode_encode)

lemma decode_serialized:
  assumes "base64_laws (dv_base64 E)" "object_ok C" "serialized E C r = Ok s"
  shows "decode_object E (obj_deserialize C) s = Ok r"
  using assms by (auto simp: serialized_def outcome_simps decode_encoded object_ok_def)

section \<open>The device ids of a contact\<close>

lemma split_join:
  "(\<And>s. s \<in> set (x # xs) \<Longrightarrow> CHR '','' \<notin> set s) \<Longrightarrow> split_char (CHR '','') (join_comma (x # xs)) = x # xs"
proof (induction xs arbitrary: x)
  case Nil
  then show ?case by (simp add: split_char_no_delim)
next
  case (Cons y ys)
  have "split_char (CHR '','') (join_comma (y # ys)) = y # ys" using Cons.prems by (intro Cons.IH) auto
  then show ?case using Cons.prems by (simp add: split_char_append)
qed

lemma read_shown_ids:
  "(\<And>d. d \<in> set ds \<Longrightarrow> d < 2 ^ 32) \<Longrightarrow> read_device_ids (map show_nat ds) acc = Ok (fold set_insert ds acc)"
proof (induction ds arbitrary: acc)
  case (Cons d ds)
  then show ?case using parse_u32_show_nat [of d] by (simp add: ok_or_def)
qed simp

lemma fold_set_insert_fresh: "distinct (acc @ ds) \<Longrightarrow> fold set_insert ds acc = acc @ ds"
  by (induction ds arbitrary: acc) (simp_all add: set_insert_def)

lemma join_nonempty: "join_comma (map show_nat (d # ds)) \<noteq> ''''"
  by (cases ds) simp_all

lemma read_stored_contact:
  assumes "id_codec_laws (dv_ids E)" "contact_ok c"
  shows "read_contact E (service_id_string (dv_ids E) (ct_service_id c), join_comma (map show_nat (ct_device_ids c))) = Ok c"
proof -
  let ?ds = "ct_device_ids c"
  have ds: "distinct ?ds" "\<And>d. d \<in> set ?ds \<Longrightarrow> d < 2 ^ 32" using assms(2) by (auto simp: contact_ok_def)
  have "(if join_comma (map show_nat ?ds) \<noteq> '''' then read_device_ids (split_char (CHR '','') (join_comma (map show_nat ?ds))) []
      else Ok []) = Ok ?ds"
  proof (cases ?ds)
    case (Cons d ds')
    have "CHR '','' \<notin> set s" if "s \<in> set (show_nat d # map show_nat ds')" for s
      using that by (auto simp: show_nat_no_char)
    then have split: "split_char (CHR '','') (join_comma (map show_nat ?ds)) = map show_nat ?ds"
      using split_join [of "show_nat d" "map show_nat ds'"] by (simp add: Cons)
    have "read_device_ids (map show_nat ?ds) [] = Ok ?ds"
      using read_shown_ids [of ?ds "[]"] ds fold_set_insert_fresh [of "[]" ?ds] by simp
    moreover have "join_comma (map show_nat ?ds) \<noteq> ''''" unfolding Cons by (rule join_nonempty)
    ultimately show ?thesis by (simp add: split)
  qed simp
  then show ?thesis by (simp add: read_contact_def ok_or_def id_codec_laws.parse_string [OF assms(1)])
qed

section \<open>The invariant\<close>

definition each_row :: "('a \<Rightarrow> bool) \<Rightarrow> 'a rows \<Rightarrow> bool" where
  "each_row P rs \<longleftrightarrow> (\<forall>r \<in> set rs. P (snd r))"

lemma each_row_simps [row_simps]:
  "each_row P []"
  "each_row P (insert_row x rs) \<longleftrightarrow> P x \<and> each_row P rs"
  by (auto simp: each_row_def insert_row_def)

lemma each_row_delete [row_simps]: "each_row P rs \<Longrightarrow> each_row P (delete_rows Q rs)"
  by (auto simp: each_row_def delete_rows_def)

lemma each_row_update [row_simps]: "each_row P rs \<Longrightarrow> (\<And>x. P x \<Longrightarrow> P (f x)) \<Longrightarrow> each_row P (update_rows Q f rs)"
  by (auto simp: each_row_def update_rows_def)

lemma each_row_upsert [row_simps]: "each_row P rs \<Longrightarrow> P (k, v) \<Longrightarrow> each_row P (upsert_row k v rs)"
  by (simp add: upsert_row_def each_row_simps) (auto simp: each_row_def update_rows_def)

lemma each_row_lookup: "each_row P rs \<Longrightarrow> lookup_row k rs = Some v \<Longrightarrow> P (k, v)"
  by (force simp: each_row_def lookup_row_def dest: map_of_SomeD)

definition reads :: "'o device_env \<Rightarrow> (bytes \<Rightarrow> (signal_protocol_error, 'o) outcome) \<Rightarrow> 'k \<times> string \<Rightarrow> bool" where
  "reads E de r \<longleftrightarrow> (\<exists>x. decode_object E de (snd r) = Ok x)"

definition keyed_table :: "'o device_env \<Rightarrow> (bytes \<Rightarrow> (signal_protocol_error, 'o) outcome) \<Rightarrow> ('k \<times> string) rows \<Rightarrow> bool" where
  "keyed_table E de rs \<longleftrightarrow> keys_unique rs \<and> each_row (reads E de) rs"

lemma keyed_Nil [row_simps]: "keyed_table E de []"
  by (simp add: keyed_table_def row_simps)

lemma is_ok_iff: "is_ok r \<longleftrightarrow> (\<exists>x. r = Ok x)"
  by (cases r) simp_all

lemma keyed_upsert: "keyed_table E de rs \<Longrightarrow> is_ok (decode_object E de s) \<Longrightarrow> keyed_table E de (upsert_row k s rs)"
  by (simp add: keyed_table_def row_simps is_ok_iff) (simp add: reads_def row_simps)

lemma keyed_delete [row_simps]: "keyed_table E de rs \<Longrightarrow> keyed_table E de (delete_rows P rs)"
  by (simp add: keyed_table_def row_simps)

lemma keyed_lookup:
  assumes "keyed_table E de rs" shows "\<exists>x. decode_optional E de (lookup_row k rs) = Ok x"
proof (cases "lookup_row k rs")
  case (Some s)
  then have "reads E de (k, s)" using assms each_row_lookup [of "reads E de" rs k s] by (simp add: keyed_table_def)
  with Some show ?thesis by (auto simp: decode_optional_def reads_def)
qed (simp add: decode_optional_def)

text \<open>A row of a contact is read, and stands under the id of the contact.\<close>

definition reads_contact :: "'o device_env \<Rightarrow> string \<times> string \<Rightarrow> bool" where
  "reads_contact E r \<longleftrightarrow> (\<exists>c. read_contact E r = Ok c \<and> fst r = service_id_string (dv_ids E) (ct_service_id c))"

definition device_inv :: "'o device_env \<Rightarrow> device_db \<Rightarrow> bool" where
  "device_inv E db \<longleftrightarrow>
     keyed_table E (identity_decode (dv_lib E)) (identity_key_tbl db) \<and>
     keyed_table E (identity_decode (dv_lib E)) (deniable_identity_key_tbl db) \<and>
     keyed_table E (obj_deserialize (pre_key_record (dv_lib E))) (pre_key_tbl db) \<and>
     keyed_table E (obj_deserialize (signed_pre_key_record (dv_lib E))) (signed_pre_key_tbl db) \<and>
     keyed_table E (obj_deserialize (kyber_pre_key_record (dv_lib E))) (kyber_pre_key_tbl db) \<and>
     keyed_table E (obj_deserialize (session_record (dv_lib E))) (session_tbl db) \<and>
     keyed_table E (obj_deserialize (session_record (dv_lib E))) (deniable_session_tbl db) \<and>
     keyed_table E (obj_deserialize (sender_key_record (dv_lib E))) (sender_key_tbl db) \<and>
     keys_unique (contacts_tbl db) \<and> each_row (reads_contact E) (contacts_tbl db) \<and>
     distinct (map (snd \<circ> snd) (nicknames_tbl db)) \<and>
     each_row (\<lambda>r. parse_from_service_id_string (dv_ids E) (snd r) \<noteq> None) (nicknames_tbl db) \<and>
     rowids_ok (deniable_payload_tbl db) \<and> keys_unique (key_requests_tbl db)"

section \<open>Every operation keeps it\<close>

text \<open>The operations that write, as functions on the database.\<close>

inductive device_writes :: "'o device_env \<Rightarrow> (device_db \<Rightarrow> device_db) \<Rightarrow> bool" for E where
  account_information: "device_writes E (snd \<circ> dev_insert_account_information E a p pw)"
| account_keys: "device_writes E (snd \<circ> dev_insert_account_key_information E kp n)"
| password: "device_writes E (snd \<circ> dev_set_password pw)"
| aci: "device_writes E (snd \<circ> dev_set_aci E a)"
| pni: "device_writes E (snd \<circ> dev_set_pni E p)"
| contact: "contact_ok c \<Longrightarrow> device_writes E (snd \<circ> dev_store_contact E c)"
| no_contact: "device_writes E (snd \<circ> dev_remove_contact E sid)"
| nickname: "device_writes E (snd \<circ> dev_insert_service_id_for_nickname E name sid)"
| identity: "device_writes E (snd \<circ> dev_save_identity E adr k)"
| deniable_identity: "device_writes E (snd \<circ> dev_save_deniable_identity E adr k)"
| pre_key: "device_writes E (snd \<circ> dev_save_pre_key E i r)"
| no_pre_key: "device_writes E (snd \<circ> dev_remove_pre_key i)"
| signed_pre_key: "device_writes E (snd \<circ> dev_save_signed_pre_key E i r)"
| kyber_pre_key: "device_writes E (snd \<circ> dev_save_kyber_pre_key E i r)"
| session: "device_writes E (snd \<circ> dev_store_session E adr r)"
| deniable_session: "device_writes E (snd \<circ> dev_store_deniable_session E adr r)"
| sender_key: "device_writes E (snd \<circ> dev_store_sender_key E adr u r)"
| payload: "device_writes E (snd \<circ> dev_store_deniable_payload j n d)"
| no_payload: "device_writes E (snd \<circ> dev_remove_deniable_payload i)"
| key_request: "device_writes E (snd \<circ> dev_store_key_request_sent s al)"
| no_key_request: "device_writes E (snd \<circ> dev_remove_key_request_sent s)"
| awaiting: "device_writes E (snd \<circ> dev_store_message_awaiting_encryption msg al)"
| no_awaiting: "device_writes E (snd \<circ> dev_remove_message_awaiting_encryption i)"
| chunks_out: "device_writes E (snd \<circ> dev_get_and_remove_incoming_deniable_chunks)"
| chunks_in: "device_writes E (snd \<circ> dev_store_incoming_deniable_chunks cs)"

inductive device_reachable :: "'o device_env \<Rightarrow> device_db \<Rightarrow> bool" for E where
  empty: "device_reachable E empty_device_db"
| step: "device_reachable E db \<Longrightarrow> device_writes E f \<Longrightarrow> device_reachable E (f db)"

lemma device_inv_empty: "device_inv E empty_device_db"
  by (simp add: device_inv_def empty_device_db_def row_simps)

lemma liftS_bind_keeps:
  assumes "P db" "\<And>x. r = Ok x \<Longrightarrow> P (snd (f x db))"
  shows "P (snd (bindS (liftS r) f db))"
proof (cases r)
  case (Ok x)
  with assms(2) [of x] show ?thesis by simp
qed (simp_all add: assms(1))

lemma save_with_cases:
  assumes "P db" "\<And>db. snd (load db) = db" "P (snd (put db))"
  shows "P (snd (save_with load put k db))"
proof -
  obtain r where r: "load db = (r, db)" using assms(2) [of db] by (cases "load db") auto
  obtain u db' where st: "put db = (u, db')" by fastforce
  with assms(3) have "P db'" by simp
  then show ?thesis using assms(1)
    by (cases r; cases u) (auto simp: save_with_def argument_err_def bindS_def r st split: option.split)
qed

lemma forS_transaction_keeps:
  assumes "P db" "\<And>x db. P db \<Longrightarrow> P (snd (f x db))"
  shows "P (snd (forS xs f db))"
  by (rule forS_invariant [where P = P]) (use assms in auto)

lemma transactionS_keeps: "P db \<Longrightarrow> P (snd (m db)) \<Longrightarrow> P (snd (transactionS m db))"
  by (cases "m db"; cases "fst (m db)") (auto simp: transactionS_def)

lemma identity_loads [simp]: "snd (dev_get_identity E a db) = db" "snd (dev_get_deniable_identity E a db) = db"
  by (simp_all add: dev_get_identity_def dev_get_deniable_identity_def)

lemma device_inv_chunk_table: "device_inv E db \<Longrightarrow> device_inv E (db\<lparr>incoming_chunk_tbl := rs\<rparr>)"
  by (simp add: device_inv_def)

lemma take_chunk_keeps: "device_inv E db \<Longrightarrow> device_inv E (snd (take_chunk r db))"
  by (cases r; cases "get_u32 (fst r)") (auto simp: take_chunk_def device_inv_chunk_table)

lemma put_chunk_keeps: "device_inv E db \<Longrightarrow> device_inv E (snd (put_chunk c db))"
  by (simp add: put_chunk_def device_inv_chunk_table)

lemma upsert_parts:
  "device_inv E db \<Longrightarrow> is_ok (decode_object E (identity_decode (dv_lib E)) s) \<Longrightarrow>
    device_inv E (db\<lparr>identity_key_tbl := upsert_row a s (identity_key_tbl db)\<rparr>)"
  "device_inv E db \<Longrightarrow> is_ok (decode_object E (identity_decode (dv_lib E)) s) \<Longrightarrow>
    device_inv E (db\<lparr>deniable_identity_key_tbl := upsert_row a s (deniable_identity_key_tbl db)\<rparr>)"
  "device_inv E db \<Longrightarrow> is_ok (decode_object E (obj_deserialize (pre_key_record (dv_lib E))) s) \<Longrightarrow>
    device_inv E (db\<lparr>pre_key_tbl := upsert_row i s (pre_key_tbl db)\<rparr>)"
  "device_inv E db \<Longrightarrow> is_ok (decode_object E (obj_deserialize (signed_pre_key_record (dv_lib E))) s) \<Longrightarrow>
    device_inv E (db\<lparr>signed_pre_key_tbl := upsert_row i s (signed_pre_key_tbl db)\<rparr>)"
  "device_inv E db \<Longrightarrow> is_ok (decode_object E (obj_deserialize (kyber_pre_key_record (dv_lib E))) s) \<Longrightarrow>
    device_inv E (db\<lparr>kyber_pre_key_tbl := upsert_row i s (kyber_pre_key_tbl db)\<rparr>)"
  "device_inv E db \<Longrightarrow> is_ok (decode_object E (obj_deserialize (session_record (dv_lib E))) s) \<Longrightarrow>
    device_inv E (db\<lparr>session_tbl := upsert_row a s (session_tbl db)\<rparr>)"
  "device_inv E db \<Longrightarrow> is_ok (decode_object E (obj_deserialize (session_record (dv_lib E))) s) \<Longrightarrow>
    device_inv E (db\<lparr>deniable_session_tbl := upsert_row a s (deniable_session_tbl db)\<rparr>)"
  "device_inv E db \<Longrightarrow> is_ok (decode_object E (obj_deserialize (sender_key_record (dv_lib E))) s) \<Longrightarrow>
    device_inv E (db\<lparr>sender_key_tbl := upsert_row a s (sender_key_tbl db)\<rparr>)"
  by (simp_all add: device_inv_def keyed_upsert)

lemma nicknames_insert: "map (snd \<circ> snd) (insert_row (n, s) rs) = map (snd \<circ> snd) rs @ [s]"
  by (simp add: insert_row_def)

lemma device_inv_write:
  assumes "device_writes E f" "device_inv E db" "lib_ok E"
  shows "device_inv E (f db)"
  using assms(1)
proof cases
  case (contact c)
  then show ?thesis
    using assms(2) read_stored_contact [OF lib_okD(2) [OF assms(3)], of c]
    by (auto simp: dev_store_contact_def device_inv_def reads_contact_def row_simps)
next
  case (nickname name sid)
  then show ?thesis
    using assms(2) id_codec_laws.parse_string [OF lib_okD(2) [OF assms(3)], of sid]
    by (auto simp: dev_insert_service_id_for_nickname_def device_inv_def row_simps nicknames_insert Let_def)
next
  case (identity adr k)
  have "device_inv E (snd (dev_insert_identity E adr k db))"
    using upsert_parts(1) [OF assms(2)] decode_encoded [OF lib_okD(1) [OF assms(3)]] lib_okD(3) [OF assms(3)]
    by (simp add: dev_insert_identity_def)
  with identity assms(2) show ?thesis by (simp add: dev_save_identity_def save_with_cases)
next
  case (deniable_identity adr k)
  have "device_inv E (snd (dev_insert_deniable_identity E adr k db))"
    using upsert_parts(2) [OF assms(2)] decode_encoded [OF lib_okD(1) [OF assms(3)]] lib_okD(3) [OF assms(3)]
    by (simp add: dev_insert_deniable_identity_def)
  with deniable_identity assms(2) show ?thesis by (simp add: dev_save_deniable_identity_def save_with_cases)
next
  case chunks_out
  have "device_inv E (snd (bindS (getS incoming_chunk_tbl) (\<lambda>rs. forS rs take_chunk) db))"
    using assms(2) by (simp add: forS_transaction_keeps take_chunk_keeps)
  with chunks_out assms(2) show ?thesis
    by (simp add: dev_get_and_remove_incoming_deniable_chunks_def transactionS_keeps)
next
  case (chunks_in cs)
  have "device_inv E (snd (bindS (forS cs put_chunk) (\<lambda>_. returnS ()) db))"
    by (rule bindS_keeps [where P = "device_inv E"]) (simp_all add: assms(2) forS_transaction_keeps put_chunk_keeps)
  with chunks_in assms(2) show ?thesis by (simp add: dev_store_incoming_deniable_chunks_def transactionS_keeps)
next
  case (payload j n d)
  with assms(2) show ?thesis
    by (cases j) (auto simp: dev_store_deniable_payload_def device_inv_def row_simps)
next
  case (pre_key i r)
  with assms(2) decode_serialized [OF lib_okD(1,5) [OF assms(3)], of r] show ?thesis
    by (simp add: dev_save_pre_key_def liftS_bind_keeps [where P = "device_inv E"] upsert_parts(3))
next
  case (signed_pre_key i r)
  with assms(2) decode_serialized [OF lib_okD(1,6) [OF assms(3)], of r] show ?thesis
    by (simp add: dev_save_signed_pre_key_def liftS_bind_keeps [where P = "device_inv E"] upsert_parts(4))
next
  case (kyber_pre_key i r)
  with assms(2) decode_serialized [OF lib_okD(1,7) [OF assms(3)], of r] show ?thesis
    by (simp add: dev_save_kyber_pre_key_def liftS_bind_keeps [where P = "device_inv E"] upsert_parts(5))
next
  case (session a r)
  with assms(2) decode_serialized [OF lib_okD(1,8) [OF assms(3)], of r] show ?thesis
    by (simp add: dev_store_session_def liftS_bind_keeps [where P = "device_inv E"] upsert_parts(6))
next
  case (deniable_session a r)
  with assms(2) decode_serialized [OF lib_okD(1,8) [OF assms(3)], of r] show ?thesis
    by (simp add: dev_store_deniable_session_def liftS_bind_keeps [where P = "device_inv E"] upsert_parts(7))
next
  case (sender_key a u r)
  with assms(2) decode_serialized [OF lib_okD(1,9) [OF assms(3)], of r] show ?thesis
    by (simp add: dev_store_sender_key_def liftS_bind_keeps [where P = "device_inv E"] upsert_parts(8))
qed (use assms(2) in \<open>simp_all add: dev_insert_account_information_def dev_insert_account_key_information_def
    dev_set_password_def dev_set_aci_def dev_set_pni_def dev_remove_contact_def dev_remove_pre_key_def
    dev_remove_deniable_payload_def dev_store_key_request_sent_def dev_remove_key_request_sent_def
    dev_store_message_awaiting_encryption_def dev_remove_message_awaiting_encryption_def device_inv_def row_simps Let_def\<close>)

lemma device_inv_reachable: "device_reachable E db \<Longrightarrow> lib_ok E \<Longrightarrow> device_inv E db"
  by (induction rule: device_reachable.induct) (simp_all add: device_inv_empty device_inv_write)

section \<open>What the invariant gives\<close>

lemma device_invD:
  assumes "device_inv E db"
  shows "keyed_table E (identity_decode (dv_lib E)) (identity_key_tbl db)"
    "keyed_table E (identity_decode (dv_lib E)) (deniable_identity_key_tbl db)"
    "keyed_table E (obj_deserialize (session_record (dv_lib E))) (session_tbl db)"
    "keyed_table E (obj_deserialize (session_record (dv_lib E))) (deniable_session_tbl db)"
    "keyed_table E (obj_deserialize (sender_key_record (dv_lib E))) (sender_key_tbl db)"
    "keys_unique (contacts_tbl db)" "each_row (reads_contact E) (contacts_tbl db)"
    "distinct (map (snd \<circ> snd) (nicknames_tbl db))"
    "each_row (\<lambda>r. parse_from_service_id_string (dv_ids E) (snd r) \<noteq> None) (nicknames_tbl db)"
    "rowids_ok (deniable_payload_tbl db)"
  using assms by (simp_all add: device_inv_def)

lemma map_outcome_each:
  assumes "\<And>x. x \<in> set xs \<Longrightarrow> \<exists>y. f x = Ok y \<and> Q x y"
  shows "\<exists>ys. map_outcome f xs = Ok ys \<and> list_all2 Q xs ys"
  using assms
proof (induction xs)
  case (Cons x xs)
  then obtain ys where "map_outcome f xs = Ok ys" "list_all2 Q xs ys" by auto
  moreover obtain y where "f x = Ok y" "Q x y" using Cons.prems [of x] by auto
  ultimately show ?case by auto
qed simp

lemma contacts_of_rows:
  assumes "keys_unique rs" "each_row (reads_contact E) rs"
  shows "\<exists>cs. map_outcome (read_contact E) (map snd rs) = Ok cs \<and> distinct (map ct_service_id cs)"
proof -
  let ?Q = "\<lambda>r c. fst r = service_id_string (dv_ids E) (ct_service_id c)"
  have contact_row: "\<exists>c. read_contact E r = Ok c \<and> ?Q r c" if "r \<in> set (map snd rs)" for r
    using that assms(2) by (auto simp: each_row_def reads_contact_def)
  obtain cs where cs: "map_outcome (read_contact E) (map snd rs) = Ok cs" "list_all2 ?Q (map snd rs) cs"
    using map_outcome_each [of "map snd rs" "read_contact E" ?Q, OF contact_row] by blast
  from cs(2) have "map fst (map snd rs) = map (\<lambda>c. service_id_string (dv_ids E) (ct_service_id c)) cs"
    by (induction rule: list_all2_induct) auto
  then have "distinct (map (service_id_string (dv_ids E)) (map ct_service_id cs))"
    using assms(1) by (simp add: keys_unique_def o_def)
  then show ?thesis using cs(1) by (auto simp: distinct_map dest: inj_on_imageI2)
qed

lemma nicknames_of_rows:
  assumes "each_row (\<lambda>r. parse_from_service_id_string (dv_ids E) (snd r) \<noteq> None) (nicknames_tbl db)"
  shows "\<exists>ns. dev_get_all_nicknames E db = (Ok ns, db)"
proof -
  have "\<exists>ns. map_outcome (\<lambda>(name, s). bind (expect (ok_or () (parse_from_service_id_string (dv_ids E) s)))
      (\<lambda>sid. Ok \<lparr>cn_name = name, cn_service_id = sid\<rparr>)) (map snd (nicknames_tbl db)) = (Ok ns :: (signal_protocol_error, _) outcome)"
    using map_outcome_each [of "map snd (nicknames_tbl db)" "\<lambda>(name, s). bind (expect (ok_or () (parse_from_service_id_string (dv_ids E) s)))
      (\<lambda>sid. Ok \<lparr>cn_name = name, cn_service_id = sid\<rparr>)" "\<lambda>_ _. True"] assms
    by (fastforce simp: each_row_def expect_def ok_or_def)
  then show ?thesis by (auto simp: dev_get_all_nicknames_def)
qed

lemma identity_reads:
  assumes "device_inv E db"
  shows "\<exists>k. dev_get_identity E a db = (Ok k, db)" "\<exists>k. dev_get_deniable_identity E a db = (Ok k, db)"
  using keyed_lookup [OF device_invD(1) [OF assms]] keyed_lookup [OF device_invD(2) [OF assms]]
  by (simp_all add: dev_get_identity_def dev_get_deniable_identity_def)

lemma session_reads:
  assumes "device_inv E db"
  shows "\<exists>r. dev_load_session E a db = (Ok r, db)" "\<exists>r. dev_load_deniable_session E a db = (Ok r, db)"
    and "\<exists>r. dev_load_sender_key E a u db = (Ok r, db)"
  using keyed_lookup [OF device_invD(3) [OF assms]] keyed_lookup [OF device_invD(4) [OF assms]]
    keyed_lookup [OF device_invD(5) [OF assms]]
  by (simp_all add: dev_load_session_def dev_load_deniable_session_def dev_load_sender_key_def)

lemma trusted_reads:
  assumes "load db = (Ok old, db)"
  shows "trusted_with load k db = (Ok (old = None \<or> old = Some k), db)"
  using assms by (cases old) (auto simp: trusted_with_def expect_def)

text \<open>A concrete environment: objects are their bytes.\<close>

definition plain_codec :: "bytes object_codec" where
  "plain_codec = \<lparr>obj_serialize = Ok, obj_deserialize = Ok\<rparr>"

definition plain_env :: "bytes device_env" where
  "plain_env = \<lparr>dv_base64 = BASE64_STANDARD, dv_ids = std_ids, dv_lib =
     \<lparr>identity_serialize = (\<lambda>k. k), identity_decode = Ok, private_serialize = (\<lambda>k. k), private_deserialize = Ok,
      pre_key_record = plain_codec, signed_pre_key_record = plain_codec, kyber_pre_key_record = plain_codec,
      session_record = plain_codec, sender_key_record = plain_codec\<rparr>\<rparr>"

lemma plain_env_ok: "lib_ok plain_env"
  using rfc4648.base64_laws_axioms std_ids.id_codec_laws_axioms
  by (simp add: lib_ok_def plain_env_def plain_codec_def object_ok_def)

section \<open>Properties\<close>

text \<open>
  C37 (invariant). Whatever operations built the client's database, everything in it can be read
  again: the contacts and nicknames load, no contact twice, the identities, sessions and sender keys of
  all addresses decode, and \<open>is_trusted_identity\<close>, which expects its read not to fail, never panics.
\<close>

theorem device_reads:
  assumes "device_reachable E db" "lib_ok E"
  shows "(\<exists>cs. dev_load_contacts E db = (Ok cs, db) \<and> distinct (map ct_service_id cs)) \<and>
    (\<exists>ns. dev_get_all_nicknames E db = (Ok ns, db)) \<and>
    (\<forall>a. \<exists>old. dev_get_identity E a db = (Ok old, db) \<and>
      (\<forall>k dir. dev_is_trusted_identity E a k dir db = (Ok (old = None \<or> old = Some k), db))) \<and>
    (\<forall>a. \<exists>old. dev_get_deniable_identity E a db = (Ok old, db) \<and>
      (\<forall>k dir. dev_is_trusted_deniable_identity E a k dir db = (Ok (old = None \<or> old = Some k), db))) \<and>
    (\<forall>a. \<exists>r. dev_load_session E a db = (Ok r, db)) \<and> (\<forall>a. \<exists>r. dev_load_deniable_session E a db = (Ok r, db)) \<and>
    (\<forall>a u. \<exists>r. dev_load_sender_key E a u db = (Ok r, db))"
proof -
  note inv = device_inv_reachable [OF assms]
  have contacts: "\<exists>cs. dev_load_contacts E db = (Ok cs, db) \<and> distinct (map ct_service_id cs)"
    using contacts_of_rows [OF device_invD(6,7) [OF inv]] by (auto simp: dev_load_contacts_def)
  have nicknames: "\<exists>ns. dev_get_all_nicknames E db = (Ok ns, db)"
    by (rule nicknames_of_rows [OF device_invD(9) [OF inv]])
  have "\<exists>old. dev_get_identity E a db = (Ok old, db) \<and>
      (\<forall>k dir. dev_is_trusted_identity E a k dir db = (Ok (old = None \<or> old = Some k), db))" for a
    using identity_reads(1) [OF inv, of a] trusted_reads [of "dev_get_identity E a" db]
    by (auto simp: dev_is_trusted_identity_def)
  moreover have "\<exists>old. dev_get_deniable_identity E a db = (Ok old, db) \<and>
      (\<forall>k dir. dev_is_trusted_deniable_identity E a k dir db = (Ok (old = None \<or> old = Some k), db))" for a
    using identity_reads(2) [OF inv, of a] trusted_reads [of "dev_get_deniable_identity E a" db]
    by (auto simp: dev_is_trusted_deniable_identity_def)
  ultimately show ?thesis using contacts nicknames session_reads [OF inv] by blast
qed

theorem device_reads_witness:
  "\<exists>cs. dev_load_contacts plain_env (snd (dev_store_contact plain_env \<lparr>ct_service_id = Aci 7, ct_device_ids = [1, 2]\<rparr> empty_device_db)) =
    (Ok cs, snd (dev_store_contact plain_env \<lparr>ct_service_id = Aci 7, ct_device_ids = [1, 2]\<rparr> empty_device_db))"
proof -
  let ?f = "snd \<circ> dev_store_contact plain_env \<lparr>ct_service_id = Aci 7, ct_device_ids = [1, 2]\<rparr>"
  have "device_writes plain_env ?f" by (rule device_writes.contact) (simp add: contact_ok_def)
  with device_reachable.empty have "device_reachable plain_env (?f empty_device_db)" by (rule device_reachable.step)
  from device_reads [OF this plain_env_ok] show ?thesis by (auto simp: o_def)
qed

end
