(* ===== verification/Client_Example.thy ===== *)
theory Client_Example
  imports Client_Login Device_Inv
begin

text \<open>
  A client made of concrete parts, for the witnesses: the SQLite database, objects that are their
  bytes, sessions that send their plaintext, and a server that accepts everything. The server's
  state is the list of the messages it was sent.
\<close>

definition plain_sessions :: "(device_db, bytes) sessions" where
  "plain_sessions = \<lparr>
     message_encrypt = (\<lambda>msg a S I. returnS (CtSignalMessage msg)),
     message_decrypt = (\<lambda>c a S I PK SPK KPK. returnS (ciphertext_serialize c)),
     remote_registration_id = (\<lambda>_. Ok 7), ciphertext_valid = (\<lambda>_. True)\<rparr>"

definition accepting_api :: "denim_messages list server_api" where
  "accepting_api = \<lparr>
     api_connect = (\<lambda>_ _. returnS (Some (F32 1))), api_disconnect = returnS (),
     publish_pre_key_bundle = (\<lambda>_. returnS ()), fetch_pre_key_bundles = (\<lambda>_. returnS []),
     register_client = (\<lambda>phone _ _. returnS \<lparr>air_uuid = 1, air_number = phone, air_pni = 2,
       air_username_hash = None, air_storage_capable = True\<rparr>),
     get_service_id_from_server = (\<lambda>_. returnS (Aci 1)),
     send_msg = (\<lambda>ms _. okS (modifyS (\<lambda>sent. sent @ [ms]))), api_has_message = returnS False,
     get_message = okS (returnS None), send_response = (\<lambda>_ _. returnS ()),
     create_auth_header = (\<lambda>_ _ _. returnS ())\<rparr>"

text \<open>A codec for key requests: the payload is the name that is asked for.\<close>

definition request_codec :: "deniable_payload codec" where
  "request_codec = \<lparr>
     serialize = (\<lambda>p. case p of KeyRequest r \<Rightarrow> map (\<lambda>c. word_of_nat (of_char c)) (pkr_service_id r) | _ \<Rightarrow> [0]),
     deserialize = (\<lambda>bs. Ok (KeyRequest \<lparr>pkr_service_id = map (\<lambda>b. char_of (unat b)) bs\<rparr>))\<rparr>"

definition plain_client_env :: "(device_db, denim_messages list, bytes) client_env" where
  "plain_client_env = \<lparr>ce_db = device plain_env, ce_api = accepting_api, ce_sessions = plain_sessions,
     process_prekey_bundle = (\<lambda>a S I b. store_session S a (pkb_identity_key b)),
     ce_decoding = \<lparr>identity_key_valid = (\<lambda>_. True), public_key_valid = (\<lambda>_. True), kem_key_valid = (\<lambda>_. True)\<rparr>,
     ce_ids = std_ids, ce_base64 = BASE64_STANDARD,
     content_encode = (\<lambda>c. []), content_decode = (\<lambda>bs. Ok \<lparr>cnt_data_message = None\<rparr>),
     serialize_regular = (\<lambda>_. replicate 40 0), serialize_chunks = bincode_chunks,
     payload_codec = request_codec,
     message_deserialize = (\<lambda>_. Err ''''), map_order = (\<lambda>xs. xs)\<rparr>"

definition plain_client :: "device_db \<Rightarrow> (device_db, denim_messages list) client" where
  "plain_client db = \<lparr>client_alias = ''alice'', client_aci = 1, client_pni = 2, contact_manager = (\<lambda>_. None),
     key_ids = KeyManager_default, database = db, server = [], client_chunker = Chunker_new (F32 1)\<rparr>"

lemma plain_env_simps [simp]:
  "ce_db plain_client_env = device plain_env" "serialize_chunks plain_client_env = bincode_chunks"
  "ce_ids plain_client_env = std_ids" "database (plain_client db) = db" "contact_manager (plain_client db) = (\<lambda>_. None)"
  "dv_ids plain_env = std_ids" "dv_base64 plain_env = BASE64_STANDARD"
  by (simp_all add: plain_client_env_def plain_client_def plain_env_def)

text \<open>A database with two queued payloads.\<close>

definition two_payloads :: device_db where
  "two_payloads = empty_device_db\<lparr>deniable_payload_tbl := [(1, [1, 2], 0), (2, replicate 30 7, 0)]\<rparr>"

text \<open>The database of a registered client, and what it finds when it logs in.\<close>

definition registered_db :: device_db where
  "registered_db = snd (dev_insert_account_information plain_env 1 2 ''pw''
     (snd (dev_insert_account_key_information plain_env ([1], [2]) 5 empty_device_db)))"

lemma registered_tables:
  "identity_tbl registered_db = [(1, service_id_string std_ids (Aci 1), service_id_string std_ids (Pni 2), ''pw'')]"
  "contacts_tbl registered_db = []" "pre_key_tbl registered_db = []" "kyber_pre_key_tbl registered_db = []"
  "signed_pre_key_tbl registered_db = []"
  by (simp_all add: registered_db_def dev_insert_account_information_def dev_insert_account_key_information_def empty_device_db_def
      insert_row_def plain_env_def new_rowid_def)

lemma registered_identity: "dev_get_identity_key_pair plain_env registered_db = (Ok ([1], [2]), registered_db)"
  by (simp add: dev_get_identity_key_pair_def registered_db_def dev_insert_account_information_def
      dev_insert_account_key_information_def empty_device_db_def insert_row_def plain_env_def query_row_def decode_base64_def
      ok_or_def as_argument_def rfc4648.decode_encode Let_def)

lemma registered_login: "login plain_client_env ''alice'' (registered_db, []) =
  (Ok (plain_client registered_db\<lparr>key_ids := KeyManager_new 1 1 1\<rparr>), (registered_db, []))"
  by (simp add: login_def db_call_def api_call_def bindS_def plain_client_env_def accepting_api_def device_def
      dev_load_contacts_def dev_get_key_ids_def dev_get_password_def dev_get_aci_def dev_get_pni_def registered_tables query_row_def
      parse_kind_aci_def parse_kind_pni_def plain_env_def max_key_def u32_add_def expect_def ok_or_def plain_client_def
      new_with_contacts_def liftS_def getS_def returnS_def)

end
