(* ===== verification/Rows_Room.thy ===== *)
theory Rows_Room
  imports Chunker
begin

text \<open>
  Queued payloads whose counts have room for a number of messages: each message decrements a count at
  most once, by taking bytes or, in the queues of the server, by finding that there is no room.
\<close>

definition rows_room :: "nat \<Rightarrow> row list \<Rightarrow> bool" where
  "rows_room n rows \<longleftrightarrow> (\<forall>(d, c) \<in> set rows. d \<noteq> [] \<and> - (2 ^ 31) + int n < c \<and> c \<le> 0)"

lemma rows_room_simps [simp]:
  "rows_room n []" "rows_room n ((d, c) # rs) \<longleftrightarrow> d \<noteq> [] \<and> - (2 ^ 31) + int n < c \<and> c \<le> 0 \<and> rows_room n rs"
  by (auto simp: rows_room_def)

lemma rows_room_mono: "rows_room n rows \<Longrightarrow> m \<le> n \<Longrightarrow> rows_room m rows"
  by (fastforce simp: rows_room_def)

lemma rows_room_ok: "rows_room n rows \<Longrightarrow> rows_ok rows"
  by (fastforce simp: rows_room_def rows_ok_def)

lemma rows_room_fill:
  assumes "fill bump free rows = (cs, f, rows')" "rows_room (Suc n) rows" "\<And>c. c - 1 \<le> bump c" "\<And>c. bump c \<le> c"
  shows "rows_room n rows'"
  using assms(1,2)
proof (induction free rows arbitrary: cs f rows' rule: fill_cases)
  case (whole free d c rs)
  obtain cs1 f1 rs1 where rec: "fill bump (free - 12 - length d) rs = (cs1, f1, rs1)"
    by (cases "fill bump (free - 12 - length d) rs") auto
  then show ?case using whole.IH [OF rec] whole.prems fill_whole [OF whole.hyps rec] by simp
next
  case (cut free d c rs)
  then have "rows_room n rs" by (auto intro: rows_room_mono [of "Suc n"])
  with cut show ?case by (auto simp: fill_cut)
next
  case (zero d c rs)
  have "- (2 ^ 31) + int n < bump c" "bump c \<le> 0" using zero.prems assms(3,4) [of c] by auto
  moreover have "rows_room n rs" using zero.prems(2) by (auto intro: rows_room_mono [of "Suc n"])
  ultimately show ?case using zero.prems by (auto simp: fill_zero)
next
  case (none free rows)
  then show ?case by (auto simp: fill_none intro: rows_room_mono [of "Suc n"])
qed (auto simp: fill_empty fill_blocked intro: rows_room_mono [of "Suc n"])

end
