(* ===== verification/Client_Sending.thy ===== *)
theory Client_Sending
  imports Client_Example Rows_Room
begin

text \<open>
  What the client sends: \<open>send_message\<close> returns, every message has the size its regular payload
  determines, and the deniable payloads queued in the client's database reach the server's
  \<open>create_deniable_payloads\<close> complete and in order, whatever messages carry their chunks.
\<close>

section \<open>One message\<close>

text \<open>The bytes that a message has for deniable data, the length of the vector included.\<close>

definition message_space :: "('s, 'n, 'o) client_env \<Rightarrow> ('s, 'n) client \<Rightarrow> nat \<times> nat \<times> ciphertext_message \<Rightarrow> nat" where
  "message_space E c m = total_free_space (client_chunker c)
     (usize_as_f32 (length (serialize_regular E (RegularSignalMessage (signal_message_for E None m)))))"

lemma stores_buffer [simp]: "deniable_buffer (ProtocolStore_new T) = DeniableStore T"
  by (simp add: ProtocolStore_new_def)

lemma chunks_for_device:
  assumes E: "ce_db E = device DE" "serialize_chunks E = bincode_chunks"
    and db: "payloads_ok (database c)" "map snd (deniable_payload_tbl (database c)) = rws" "rows_ok rws"
    and space: "8 \<le> message_space E c m" and fill: "fill (\<lambda>c. c) (message_space E c m - 8) rws = (cs, f, rws')"
  shows "\<exists>db. chunks_for E (RegularSignalMessage (signal_message_for E None m)) c = Some (Ok (cs, f), c\<lparr>database := db\<rparr>) \<and>
    payloads_ok db \<and> map snd (deniable_payload_tbl db) = rws'"
proof -
  have "chunks_size [] + (message_space E c m - 8) = message_space E c m" using space by simp
  from dev_chunks.create_chunks_loop_refines [OF fill db(2,1,3) this, of DE] obtain db' where
    "create_chunks_loop bincode_chunks (DeniableStore (device DE)) (message_space E c m) [] (message_space E c m - 8) (database c) =
      Some (Ok (cs, f), db')" "payloads_ok db'" "map snd (deniable_payload_tbl db') = rws'" by auto
  then show ?thesis
    using space E by (auto simp: chunks_for_def create_chunks_def Let_def message_space_def usize_sub_def expect_def)
qed

section \<open>A list of messages\<close>

definition regular_of :: "('s, 'n, 'o) client_env \<Rightarrow> nat \<times> nat \<times> ciphertext_message \<Rightarrow> regular_payload" where
  "regular_of E m = RegularSignalMessage (signal_message_for E None m)"

lemma message_space_database [simp]: "message_space E (c\<lparr>database := db\<rparr>) m = message_space E c m"
  by (simp add: message_space_def)

lemma denim_messages_device:
  assumes E: "ce_db E = device DE" "serialize_chunks E = bincode_chunks"
    and "payloads_ok (database c)" "rows_room (length ms) (map snd (deniable_payload_tbl (database c)))"
    and "list_all (\<lambda>m. 8 \<le> message_space E c m) ms"
    and "fill_rounds (\<lambda>c. c) (map (\<lambda>m. message_space E c m - 8) ms) (map snd (deniable_payload_tbl (database c))) = (cs, rws')"
  shows "\<exists>new db. denim_messages_loop E out ms c = Some (Ok (out @ new), c\<lparr>database := db\<rparr>) \<and>
    concat (map dm_chunks new) = cs \<and> map snd (deniable_payload_tbl db) = rws' \<and> payloads_ok db \<and>
    list_all2 (\<lambda>m d. dm_regular_payload d = regular_of E m \<and>
      chunks_size (dm_chunks d) + length (dm_ballast d) = message_space E c m) ms new"
  using assms(3-)
proof (induction ms arbitrary: c out cs)
  case Nil
  then show ?case by (auto intro!: exI [of _ "database c"])
next
  case (Cons m ms)
  let ?rws = "map snd (deniable_payload_tbl (database c))" and ?free = "message_space E c m - 8"
  obtain cs1 f rws1 where fl: "fill (\<lambda>c. c) ?free ?rws = (cs1, f, rws1)" by (cases "fill (\<lambda>c. c) ?free ?rws") auto
  obtain cs2 where rest: "fill_rounds (\<lambda>c. c) (map (\<lambda>m. message_space E c m - 8) ms) rws1 = (cs2, rws')" "cs = cs1 @ cs2"
    using Cons.prems(4) fl by (auto split: prod.splits)
  have room: "rows_room (length ms) rws1" using rows_room_fill [OF fl, where n = "length ms"] Cons.prems(2) by simp
  have space: "8 \<le> message_space E c m" using Cons.prems(3) by simp
  obtain db where one: "chunks_for E (regular_of E m) c = Some (Ok (cs1, f), c\<lparr>database := db\<rparr>)" "payloads_ok db"
    "map snd (deniable_payload_tbl db) = rws1"
    using chunks_for_device [OF E Cons.prems(1) refl rows_room_ok [OF Cons.prems(2)] space fl] by (auto simp: regular_of_def)
  let ?d = "\<lparr>dm_regular_payload = regular_of E m, dm_chunks = cs1, dm_counter = None, dm_q = None, dm_ballast = replicate f 0\<rparr>"
  let ?c = "c\<lparr>database := db\<rparr>"
  have "chunks_size cs1 + f = message_space E c m" using fill_size [OF fl] space by simp
  moreover obtain new db' where "denim_messages_loop E (out @ [?d]) ms ?c = Some (Ok ((out @ [?d]) @ new), ?c\<lparr>database := db'\<rparr>)"
    "concat (map dm_chunks new) = cs2" "map snd (deniable_payload_tbl db') = rws'" "payloads_ok db'"
    "list_all2 (\<lambda>m d. dm_regular_payload d = regular_of E m \<and>
      chunks_size (dm_chunks d) + length (dm_ballast d) = message_space E c m) ms new"
    using Cons.IH [of ?c cs2 "out @ [?d]"] one(2,3) room rest(1) Cons.prems(3) by auto
  ultimately show ?case
    using one(1) rest(2) by (auto simp: regular_of_def Let_def intro!: exI [of _ "?d # new"] exI [of _ db'])
qed

section \<open>Termination\<close>

lemma create_chunks_returns: "\<exists>r b'. create_chunks bincode_chunks B ck sz b = Some (r, b')"
  using bincode.create_chunks_loop_fills [of "[]" "total_free_space ck sz - 8" "total_free_space ck sz" B b]
  by (auto simp: create_chunks_def Let_def usize_sub_def)

lemma denim_messages_returns:
  assumes "serialize_chunks E = bincode_chunks"
  shows "\<exists>r c'. denim_messages_loop E out ms c = Some (r, c')"
proof (induction ms arbitrary: out c)
  case (Cons m ms)
  obtain r c' where "chunks_for E (RegularSignalMessage (signal_message_for E None m)) c = Some (r, c')"
    using create_chunks_returns [of "deniable_buffer (stores E)" "client_chunker c"
        "usize_as_f32 (length (serialize_regular E (RegularSignalMessage (signal_message_for E None m))))" "database c"] assms
    by (auto simp: chunks_for_def)
  with Cons.IH show ?case by (cases r) (auto simp: Let_def)
qed auto

lemma plain_space: "message_space plain_client_env (plain_client db) m = 40"
  using total_ratio_1 [of 40] by (simp add: message_space_def plain_client_env_def plain_client_def)

section \<open>Properties\<close>

text \<open>
  C32 (termination). Sending a message returns, whatever is queued, whatever the server answers and whatever
  value q has, as long as the connection returns from what it is asked to send: the loops of the
  chunker end, and there is one retry.
\<close>

theorem send_message_returns:
  assumes "serialize_chunks E = bincode_chunks" "\<And>ms sid n. send_msg (ce_api E) ms sid n \<noteq> None"
  shows "\<exists>r c'. send_message E now message al c = Some (r, c')"
proof -
  have sent: "\<exists>r c'. on_serverO (send_msg (ce_api E) ms sid) c = Some (r, c')" for ms sid c
    using assms(2) [of ms sid "server c"] by (auto simp: on_serverO_def)
  have retry: "\<exists>r c'. bindO (okS (get_new_device_ids E sid)) (\<lambda>device_ids. bindO (okS (update_contact E al device_ids)) (\<lambda>_.
      on_serverO (send_msg (ce_api E) ms sid))) c = Some (r, c')" for sid ms c
    by (intro bindO_returns sent) (simp_all add: prod.exhaust)
  have deliver: "\<exists>r c'. deliver_messages E al sid ms c = Some (r, c')" for ms sid c
    using sent [of ms sid c] retry [of sid ms] by (auto simp: deliver_messages_def split: outcome.split)
  show ?thesis
    unfolding send_message_def Let_def
    by (intro bindO_returns deliver) (auto intro: denim_messages_returns [OF assms(1)] simp: prod.exhaust)
qed

theorem send_message_returns_witness:
  "\<exists>r c'. send_message plain_client_env (Some 5) ''hi'' ''bob'' (plain_client two_payloads) = Some (r, c')"
  by (rule send_message_returns) (simp_all add: plain_client_env_def accepting_api_def)

text \<open>
  C31 (functional). The chunks that travel with the messages of a client rebuild, on the server, the deniable
  payloads in the order in which the client queued them; the data that has not been sent is still
  in the client's database, and every message has exactly the size that its regular payload and q
  determine.
\<close>

theorem client_payloads_reach_server:
  assumes "ce_db E = device DE" "serialize_chunks E = bincode_chunks" "payloads_ok (database c)"
    and "rows_room (length ms) (map snd (deniable_payload_tbl (database c)))"
    and "list_all (\<lambda>m. 8 \<le> message_space E c m) ms"
  shows "\<exists>new db sent pend. denim_messages_loop E [] ms c = Some (Ok new, c\<lparr>database := db\<rparr>) \<and>
    list_all2 (\<lambda>m d. dm_regular_payload d = regular_of E m \<and>
      chunks_size (dm_chunks d) + length (dm_ballast d) = message_space E c m) ms new \<and>
    create_deniable_payloads de (concat (map dm_chunks new)) = bind (map_outcome de sent) (\<lambda>ps. Ok (ps, pend)) \<and>
    sent @ outstanding (concat (map chunk pend)) (map snd (deniable_payload_tbl db)) =
      map (fst \<circ> snd) (deniable_payload_tbl (database c))"
proof -
  let ?rows = "map snd (deniable_payload_tbl (database c))"
  obtain cs rws' where rounds: "fill_rounds (\<lambda>c. c) (map (\<lambda>m. message_space E c m - 8) ms) ?rows = (cs, rws')"
    by fastforce
  obtain new db where sent: "denim_messages_loop E [] ms c = Some (Ok new, c\<lparr>database := db\<rparr>)"
    "concat (map dm_chunks new) = cs" "map snd (deniable_payload_tbl db) = rws'"
    "list_all2 (\<lambda>m d. dm_regular_payload d = regular_of E m \<and>
      chunks_size (dm_chunks d) + length (dm_ballast d) = message_space E c m) ms new"
    using denim_messages_device [OF assms rounds, of "[]"] by auto
  have "rows_data ?rows" using assms(4) by (rule rows_ok_data [OF rows_room_ok])
  from rounds_rebuild [OF rounds this, of de] sent show ?thesis by (auto simp: o_def)
qed

theorem client_payloads_reach_server_witness:
  "\<exists>new db sent pend. denim_messages_loop plain_client_env [] [(1, 7, CtSignalMessage []), (2, 7, CtSignalMessage [])]
      (plain_client two_payloads) = Some (Ok new, plain_client two_payloads\<lparr>database := db\<rparr>) \<and>
    create_deniable_payloads Ok (concat (map dm_chunks new)) = bind (map_outcome Ok sent) (\<lambda>ps. Ok (ps, pend)) \<and>
    sent @ outstanding (concat (map chunk pend)) (map snd (deniable_payload_tbl db)) = [[1, 2], replicate 30 7]"
proof -
  have "payloads_ok two_payloads" "map snd (deniable_payload_tbl two_payloads) = [([1, 2], 0), (replicate 30 7, 0)]"
    "map (fst \<circ> snd) (deniable_payload_tbl two_payloads) = [[1, 2], replicate 30 7]"
    by (simp_all add: two_payloads_def payloads_ok_def rowids_ok_def)
  then show ?thesis
    using client_payloads_reach_server [of plain_client_env plain_env "plain_client two_payloads"
        "[(1, 7, CtSignalMessage []), (2, 7, CtSignalMessage [])]" Ok]
    by (simp add: plain_space) blast
qed

end
