(* ===== verification/Client_Receiving.thy ===== *)
theory Client_Receiving
  imports Client_Example
begin

text \<open>
  What the client receives: its own reassembly agrees with the server's, and over any sequence of
  messages it rebuilds the deniable payloads, keeping what is incomplete in its database.
\<close>

section \<open>The client's loop is the server's\<close>

lemma expect_bind: "expect (bind r f) = bind (expect r) (\<lambda>x. expect (f x))"
  by (cases r) (simp_all add: expect_def)

lemma expect_Ok [simp]: "expect (Ok x) = Ok x"
  by (simp add: expect_def)

lemma incoming_loop_eq:
  "list_all (\<lambda>c. flags c \<le> 2 \<and> \<not> is_dummy c) cs \<Longrightarrow>
    incoming_loop de ps pend cs = expect (create_payloads_loop de ps pend cs)"
proof (induction cs arbitrary: ps pend)
  case (Cons c cs)
  have "flags c = 2 \<or> flags c \<le> 0" using Cons.prems by (simp add: is_dummy_def) linarith
  then show ?case
    using Cons by (elim disjE) (simp_all add: is_final_def chunk_type_from_i32_def expect_bind)
qed simp

text \<open>Dummies change nothing.\<close>

abbreviation no_dummies :: "denim_chunk list \<Rightarrow> denim_chunk list" where
  "no_dummies cs \<equiv> filter (\<lambda>c. \<not> is_dummy c) cs"

lemma assemble_no_dummies: "assemble acc (no_dummies cs) = assemble acc cs"
  by (induction cs arbitrary: acc) auto

lemma pending_after_no_dummies: "pending_after pend (no_dummies cs) = pending_after pend cs"
  by (induction cs arbitrary: pend) auto

lemma well_ordered_no_dummies: "well_ordered hi (no_dummies cs) = well_ordered hi cs"
  by (induction cs arbitrary: hi) auto

lemma well_ordered_flags: "well_ordered hi cs \<Longrightarrow> hi \<le> 0 \<Longrightarrow> list_all (\<lambda>c. flags c \<le> 2) cs"
proof (induction cs arbitrary: hi)
  case (Cons c cs)
  then show ?case by (cases "is_dummy c"; cases "is_final c") (auto simp: is_dummy_def is_final_def)
qed simp

lemma pending_ok_after:
  "well_ordered hi cs \<Longrightarrow> pending_ok hi pend \<Longrightarrow> pending_ok (hi_after hi cs) (pending_after pend cs)"
proof (induction cs arbitrary: hi pend)
  case (Cons c cs)
  then show ?case by (auto simp: pending_ok_snoc)
qed simp

lemma pending_after_length: "length (pending_after pend cs) \<le> length pend + length cs"
proof (induction cs arbitrary: pend)
  case (Cons c cs)
  show ?case using Cons.IH [of pend] Cons.IH [of "[]"] Cons.IH [of "pend @ [c]"] by auto
qed simp

lemma no_final:
  "\<not> list_ex is_final cs \<Longrightarrow> fst (assemble acc cs) = [] \<and> pending_after pend cs = pend @ no_dummies cs"
  by (induction cs arbitrary: acc pend) auto

section \<open>One message\<close>

lemma incoming_loop_assemble:
  assumes "well_ordered hi cs" "pending_ok hi pend" "list_all (\<lambda>c. \<not> is_dummy c) cs"
    and "map_outcome de (fst (assemble (concat (map chunk pend)) cs)) = Ok qs"
  shows "incoming_loop de [] pend cs = Ok (qs, pending_after pend cs)"
proof -
  have "list_all (\<lambda>c. flags c \<le> 2 \<and> \<not> is_dummy c) cs"
    using well_ordered_flags [OF assms(1)] assms(2,3) by (auto simp: pending_ok_def list_all_iff)
  then show ?thesis
    using create_payloads_loop_assemble [OF assms(1,2), of de "[]"] assms(4) by (simp add: incoming_loop_eq)
qed

lemma device_chunk_ops [simp]:
  "get_and_remove_incoming_deniable_chunks (device E) = dev_get_and_remove_incoming_deniable_chunks"
  "store_incoming_deniable_chunks (device E) = dev_store_incoming_deniable_chunks"
  by (simp_all add: device_def)

lemma on_database_Ok: "m (database c) = (Ok x, s) \<Longrightarrow> on_database m c = (Ok x, c\<lparr>database := s\<rparr>)"
  by (simp add: on_database_def)

lemma database_same [simp]: "c\<lparr>database := database c\<rparr> = c"
  by simp

lemma store_chunks_if:
  assumes "ce_db E = device DE" "incoming_chunk_tbl (database c) = chunk_rows ds"
  shows "(if cs \<noteq> [] then on_database (store_incoming_deniable_chunks (ce_db E) cs) else returnS ()) c =
    (Ok (), c\<lparr>database := (database c)\<lparr>incoming_chunk_tbl := chunk_rows (ds @ cs)\<rparr>\<rparr>)"
proof (cases "cs = []")
  case True
  then have "(database c)\<lparr>incoming_chunk_tbl := chunk_rows (ds @ cs)\<rparr> = database c" using assms(2) by simp
  then show ?thesis using True by simp
qed (use store_chunks [OF assms(2)] assms(1) in \<open>simp add: on_database_Ok\<close>)

lemma handle_incoming_device:
  assumes E: "ce_db E = device DE" and st: "stored_chunks (database c) st" "length st + length cs < 2 ^ 32"
    and cs: "well_ordered hi cs" "pending_ok hi st" "list_all (\<lambda>c. \<not> is_dummy c) cs"
    and ps: "map_outcome (deserialize (payload_codec E)) (fst (assemble (concat (map chunk st)) cs)) = Ok ps"
  shows "handle_incoming_chunks E cs c =
      (Ok ps, c\<lparr>database := (database c)\<lparr>incoming_chunk_tbl := chunk_rows (pending_after st cs)\<rparr>\<rparr>)"
proof (cases "list_ex is_final cs")
  case True
  let ?c = "c\<lparr>database := (database c)\<lparr>incoming_chunk_tbl := []\<rparr>\<rparr>"
  have "on_database (get_and_remove_incoming_deniable_chunks (ce_db E)) c = (Ok st, ?c)"
    using take_chunks [OF st(1)] E by (simp add: on_database_Ok)
  moreover have "incoming_chunk_tbl (database ?c) = chunk_rows []" by (simp add: chunk_rows_def)
  from store_chunks_if [OF E this] have "(if pending_after st cs \<noteq> []
      then on_database (store_incoming_deniable_chunks (ce_db E) (pending_after st cs)) else returnS ()) ?c =
    (Ok (), c\<lparr>database := (database c)\<lparr>incoming_chunk_tbl := chunk_rows (pending_after st cs)\<rparr>\<rparr>)" by simp
  ultimately show ?thesis
    using True by (simp add: handle_incoming_chunks_def incoming_loop_assemble [OF cs ps] del: database_same)
next
  case False
  have nd: "no_dummies cs = cs" using cs(3) by (simp add: list_all_iff filter_id_conv)
  have "ps = []" using no_final [OF False] ps by simp
  have pend: "pending_after st cs = st @ cs" using no_final [OF False] nd by simp
  have loop: "incoming_loop de qs pend cs = Ok (qs, pend @ cs)" for de qs pend
    using False by (induction cs arbitrary: pend) auto
  have tbl: "incoming_chunk_tbl (database c) = chunk_rows st" using st(1) by (simp add: stored_chunks_def)
  show ?thesis
    using False store_chunks_if [OF E tbl, of cs] \<open>ps = []\<close> by (simp add: handle_incoming_chunks_def pend loop)
qed

section \<open>Several messages\<close>

lemma map_outcome_append: "map_outcome f (xs @ ys) = bind (map_outcome f xs) (\<lambda>as. bind (map_outcome f ys) (\<lambda>bs. Ok (as @ bs)))"
proof (induction xs)
  case Nil
  show ?case by (cases "map_outcome f ys") simp_all
qed (simp add: bind_assoc)

lemma map_outcome_appendE:
  assumes "map_outcome f (xs @ ys) = Ok zs"
  obtains as bs where "map_outcome f xs = Ok as" "map_outcome f ys = Ok bs" "zs = as @ bs"
  using assms unfolding map_outcome_append bind_eq_Ok_iff by blast

lemma stored_after: "length cs < 2 ^ 32 \<Longrightarrow> stored_chunks (db\<lparr>incoming_chunk_tbl := chunk_rows cs\<rparr>) cs"
  by (simp add: stored_chunks_def)

lemma handle_messages_device:
  assumes E: "ce_db E = device DE"
    and "stored_chunks (database c) st" "length st + length (concat css) < 2 ^ 32"
    and "well_ordered hi (concat css)" "pending_ok hi st"
    and "map_outcome (deserialize (payload_codec E)) (fst (assemble (concat (map chunk st)) (concat css))) = Ok ps"
  shows "\<exists>pss. forS css (\<lambda>cs. handle_incoming_chunks E (no_dummies cs)) c =
      (Ok pss, c\<lparr>database := (database c)\<lparr>incoming_chunk_tbl := chunk_rows (pending_after st (concat css))\<rparr>\<rparr>) \<and>
    concat pss = ps"
  using assms(2-)
proof (induction css arbitrary: c st hi ps)
  case Nil
  then show ?case by (simp add: stored_chunks_def)
next
  case (Cons cs css)
  let ?de = "deserialize (payload_codec E)" and ?st = "pending_after st cs" and ?acc = "concat (map chunk st)"
  have wo: "well_ordered hi (no_dummies cs)" "well_ordered (hi_after hi cs) (concat css)"
    using Cons.prems(3) by (simp_all add: well_ordered_no_dummies well_ordered_append)
  have "fst (assemble ?acc (cs @ concat css)) = fst (assemble ?acc (no_dummies cs)) @ fst (assemble (concat (map chunk ?st)) (concat css))"
    by (simp add: assemble_append assemble_no_dummies assemble_pending case_prod_beta)
  then have "map_outcome ?de (fst (assemble ?acc (no_dummies cs)) @ fst (assemble (concat (map chunk ?st)) (concat css))) = Ok ps"
    using Cons.prems(5) by simp
  then obtain qs rs where qs: "map_outcome ?de (fst (assemble ?acc (no_dummies cs))) = Ok qs"
    "map_outcome ?de (fst (assemble (concat (map chunk ?st)) (concat css))) = Ok rs" "ps = qs @ rs"
    by (rule map_outcome_appendE)
  have len: "length st + length (no_dummies cs) < 2 ^ 32" "length ?st + length (concat css) < 2 ^ 32"
    using Cons.prems(2) length_filter_le [of "\<lambda>c. \<not> is_dummy c" cs] pending_after_length [of st cs]
    unfolding concat.simps length_append by linarith+
  let ?db = "(database c)\<lparr>incoming_chunk_tbl := chunk_rows ?st\<rparr>"
  have "handle_incoming_chunks E (no_dummies cs) c = (Ok qs, c\<lparr>database := ?db\<rparr>)"
    using handle_incoming_device [OF E Cons.prems(1) len(1) wo(1) Cons.prems(4) _ qs(1)]
    by (simp add: list_all_iff pending_after_no_dummies)
  moreover have "stored_chunks (database (c\<lparr>database := ?db\<rparr>)) ?st" using len(2) by (simp add: stored_chunks_def)
  from Cons.IH [OF this len(2) wo(2) pending_ok_after [OF _ Cons.prems(4)] qs(2)] Cons.prems(3)
  obtain pss where "forS css (\<lambda>cs. handle_incoming_chunks E (no_dummies cs)) (c\<lparr>database := ?db\<rparr>) =
      (Ok pss, c\<lparr>database := (database c)\<lparr>incoming_chunk_tbl := chunk_rows (pending_after ?st (concat css))\<rparr>\<rparr>)" "concat pss = rs"
    by (auto simp: well_ordered_append)
  ultimately show ?case using qs(3) by (simp add: pending_after_append)
qed

section \<open>Properties\<close>

text \<open>
  C34 (equivalence). On chunks with the flags that the chunkers use and without dummies, the client's loop
  does what the server's \<open>create_deniable_payloads\<close> does, except that it panics where the server
  reports a payload that cannot be decoded.
\<close>

theorem client_loop_is_servers:
  assumes "list_all (\<lambda>c. flags c \<le> 2 \<and> \<not> is_dummy c) cs"
  shows "(incoming_loop de [] [] cs :: (error, 'p list \<times> denim_chunk list) outcome) = expect (create_deniable_payloads de cs)"
  unfolding create_deniable_payloads_def by (rule incoming_loop_eq [OF assms])

theorem client_loop_is_servers_witness:
  "(incoming_loop Ok [] [] [\<lparr>chunk = [1], flags = 0\<rparr>, \<lparr>chunk = [2], flags = 2\<rparr>, \<lparr>chunk = [3], flags = 0\<rparr>]
      :: (error, bytes list \<times> denim_chunk list) outcome) =
    expect (create_deniable_payloads Ok [\<lparr>chunk = [1], flags = 0\<rparr>, \<lparr>chunk = [2], flags = 2\<rparr>, \<lparr>chunk = [3], flags = 0\<rparr>])"
  by (rule client_loop_is_servers) (simp add: is_dummy_def)

text \<open>When all bytes are sent, nothing is left to wait for.\<close>

lemma fill_rounds_done:
  assumes "fill_rounds bump frees rows = (cs, [])" "rows_data rows" "\<And>c. bump c \<le> c" "rows = [] \<Longrightarrow> acc = []"
  shows "snd (assemble acc cs) = []"
  using assms(1,2,4)
proof (induction frees arbitrary: rows cs acc)
  case (Cons free frees)
  obtain cs1 f1 rows1 where fl: "fill bump free rows = (cs1, f1, rows1)" by (cases "fill bump free rows") auto
  obtain cs2 where rs: "fill_rounds bump frees rows1 = (cs2, [])" and cs: "cs = cs1 @ cs2"
    using Cons.prems(1) fl by (auto split: prod.splits)
  have "rows1 = [] \<Longrightarrow> snd (assemble acc cs1) = []" using fill_assemble_done [OF fl Cons.prems(2,3)] .
  moreover have "rows_data rows1" using fill_well_ordered [OF fl Cons.prems(2) head_le_0 [OF Cons.prems(2)] assms(3)] by simp
  ultimately have "snd (assemble (snd (assemble acc cs1)) cs2) = []" by (intro Cons.IH [OF rs])
  then show ?case by (simp add: cs assemble_append case_prod_beta)
qed simp

lemma rounds_rebuilt:
  assumes "ce_db E = device DE" "stored_chunks (database c) []" "length (concat css) < 2 ^ 32"
    and "fill_rounds bump frees rows = (concat css, rows')" "rows_data rows" "\<And>n. bump n \<le> n"
    and "map_outcome (deserialize (payload_codec E)) (map fst rows) = Ok ps"
  shows "\<exists>pss db rest. forS css (\<lambda>cs. handle_incoming_chunks E (no_dummies cs)) c = (Ok pss, c\<lparr>database := db\<rparr>) \<and>
    stored_chunks db rest \<and> concat pss = take (length (concat pss)) ps \<and>
    outstanding (concat (map chunk rest)) rows' = drop (length (concat pss)) (map fst rows) \<and>
    (rows' = [] \<longrightarrow> concat pss = ps)"
proof -
  let ?de = "deserialize (payload_codec E)" and ?cs = "concat css"
  have rounds: "well_ordered 0 ?cs" "fst (assemble [] ?cs) @ outstanding (snd (assemble [] ?cs)) rows' = map fst rows"
    using fill_rounds_assemble [OF assms(4,5) head_le_0 [OF assms(5)] assms(6), of "[]"] by (simp_all add: outstanding_Nil_acc)
  obtain qs rs where qs: "map_outcome ?de (fst (assemble [] ?cs)) = Ok qs" "ps = qs @ rs"
    using assms(7) unfolding rounds(2) [symmetric] by (rule map_outcome_appendE)
  have len: "length qs = length (fst (assemble [] ?cs))"
  proof -
    have "map_outcome f xs = Ok ys \<Longrightarrow> length ys = length xs" for f :: "bytes \<Rightarrow> (error, deniable_payload) outcome" and xs ys
      by (induction xs arbitrary: ys) (auto simp: outcome_simps)
    then show ?thesis using qs(1) by blast
  qed
  let ?rest = "pending_after [] ?cs"
  obtain pss where "forS css (\<lambda>cs. handle_incoming_chunks E (no_dummies cs)) c =
      (Ok pss, c\<lparr>database := (database c)\<lparr>incoming_chunk_tbl := chunk_rows ?rest\<rparr>\<rparr>)" "concat pss = qs"
    using handle_messages_device [OF assms(1,2) _ rounds(1), of qs] assms(3) qs(1) by auto
  moreover have "stored_chunks ((database c)\<lparr>incoming_chunk_tbl := chunk_rows ?rest\<rparr>) ?rest"
    using pending_after_length [of "[]" ?cs] assms(3) by (simp add: stored_chunks_def)
  moreover have "outstanding (concat (map chunk ?rest)) rows' = drop (length qs) (map fst rows)"
    using rounds(2) assemble_pending [of "[]" ?cs] by (simp add: len flip: rounds(2))
  moreover have "ps = qs" if "rows' = []"
  proof -
    have "map fst rows = fst (assemble [] ?cs)"
      using rounds(2) fill_rounds_done [OF _ assms(5,6), of frees ?cs "[]"] assms(4) by (simp add: that)
    with assms(7) qs(1) show ?thesis by simp
  qed
  ultimately show ?thesis using qs(2) by (metis append_eq_conv_conj)
qed

text \<open>
  C33 (roundtrip). A queue of payloads that is cut into the chunks of any sequence of messages, as the server
  does it, is rebuilt by a client that handles the chunks of one message after the other: it yields
  the payloads in order, and the chunks that it keeps in its database together with what was not sent
  are the rest; once all is sent, it has all payloads.
\<close>

theorem client_rebuilds_payloads:
  assumes "ce_db E = device DE" "stored_chunks (database c) []" "length (concat css) < 2 ^ 32"
    and "fill_rounds bump frees rows = (concat css, rows')" "rows_data rows" "\<And>n. bump n \<le> n"
    and "map_outcome (deserialize (payload_codec E)) (map fst rows) = Ok ps"
  shows "\<exists>pss db rest. forS css (\<lambda>cs. handle_incoming_chunks E (no_dummies cs)) c = (Ok pss, c\<lparr>database := db\<rparr>) \<and>
    stored_chunks db rest \<and> concat pss = take (length (concat pss)) ps \<and>
    outstanding (concat (map chunk rest)) rows' = drop (length (concat pss)) (map fst rows) \<and>
    (rows' = [] \<longrightarrow> concat pss = ps)"
  by (rule rounds_rebuilt [OF assms])

theorem client_rebuilds_payloads_witness:
  "\<exists>pss db rest. forS [[\<lparr>chunk = [1, 2], flags = 2\<rparr>, \<lparr>chunk = [3, 4, 5], flags = 0\<rparr>], [\<lparr>chunk = [6], flags = 2\<rparr>, \<lparr>chunk = [], flags = 1\<rparr>]]
      (\<lambda>cs. handle_incoming_chunks plain_client_env (no_dummies cs)) (plain_client empty_device_db) =
      (Ok pss, plain_client empty_device_db\<lparr>database := db\<rparr>) \<and>
    stored_chunks db rest \<and> outstanding (concat (map chunk rest)) [] = drop (length (concat pss)) [[1, 2], [3, 4, 5, 6]]"
proof -
  let ?css = "[[\<lparr>chunk = [1, 2], flags = 2\<rparr>, \<lparr>chunk = [3, 4, 5], flags = 0\<rparr>], [\<lparr>chunk = [6], flags = 2\<rparr>, \<lparr>chunk = [], flags = 1\<rparr>]]"
    and ?rows = "[([1, 2], 0), ([3, 4, 5, 6], 0)] :: row list"
  have rounds: "fill_rounds (\<lambda>c. c) [29, 25] ?rows = (concat ?css, [])" by (simp add: fill.simps dummy_chunk_def Let_def)
  have st: "stored_chunks (database (plain_client empty_device_db)) []"
    by (simp add: stored_chunks_def empty_device_db_def chunk_rows_def)
  obtain ps where ps: "map_outcome (deserialize (payload_codec plain_client_env)) (map fst ?rows) = Ok ps"
    by (simp add: plain_client_env_def request_codec_def)
  have "length (concat ?css) < 2 ^ 32" "rows_data ?rows" by simp_all
  from client_rebuilds_payloads [OF plain_env_simps(1) st this(1) rounds this(2) _ ps]
  show ?thesis by (simp only: order_refl list.map fst_conv) blast
qed

end
