(* ===== verification/Client_Inv.thy ===== *)
theory Client_Inv
  imports Client_Example Step_Rules
begin

text \<open>
  The contacts a client holds in memory are at every time those of its database, so logging in again
  restores them. What is relied on from libsignal is that encrypting, decrypting and processing a
  key bundle change the database only through the stores they are given.
\<close>

section \<open>What libsignal and the server may do\<close>

definition stores_for :: "('s, 'n, 'o) client_env \<Rightarrow> bool \<Rightarrow> ('s, 'o) session_store \<times> ('s, 'o) identity_key_store" where
  "stores_for E deniable =
     (if deniable then (deniable_store (stores E), deniable_identity_key_store (stores E))
      else (session_store (stores E), identity_key_store (stores E)))"

text \<open>The tables that no store of libsignal writes.\<close>

definition client_tables :: "device_db \<Rightarrow> _" where
  "client_tables db = (contacts_tbl db, nicknames_tbl db, deniable_payload_tbl db, key_requests_tbl db,
     awaiting_tbl db, incoming_chunk_tbl db)"

definition sessions_local :: "(device_db, 'n, 'o) client_env \<Rightarrow> bool" where
  "sessions_local E \<longleftrightarrow> (\<forall>den db. let (S, I) = stores_for E den; P = stores E; L = ce_sessions E in
     (\<forall>msg a. client_tables (snd (message_encrypt L msg a S I db)) = client_tables db) \<and>
     (\<forall>ct a. client_tables (snd (message_decrypt L ct a S I (pre_key_store P) (signed_pre_key_store P) (kyber_pre_key_store P) db)) =
       client_tables db) \<and>
     (\<forall>a b. client_tables (snd (process_prekey_bundle E a S I b db)) = client_tables db))"

text \<open>Device ids are \<open>u32\<close>s.\<close>

definition u32_devices :: "('s, 'n, 'o) client_env \<Rightarrow> bool" where
  "u32_devices E \<longleftrightarrow>
     (\<forall>sid n bs n'. fetch_pre_key_bundles (ce_api E) sid n = (Ok bs, n') \<longrightarrow> (\<forall>b \<in> set bs. pkb_device_id b < 2 ^ 32)) \<and>
     (\<forall>bs r. deserialize (payload_codec E) bs = Ok (KeyResponse r) \<longrightarrow> (\<forall>it \<in> set (pks_devices r). pki_device_id it < 2 ^ 32))"

section \<open>The invariant\<close>

definition row_synced :: "'o device_env \<Rightarrow> contacts \<Rightarrow> string \<times> string \<Rightarrow> bool" where
  "row_synced DE m r \<longleftrightarrow> (\<exists>c. read_contact DE r = Ok c \<and> fst r = service_id_string (dv_ids DE) (ct_service_id c) \<and>
     m (ct_service_id c) = Some c)"

definition synced :: "'o device_env \<Rightarrow> contacts \<Rightarrow> (string \<times> string) rows \<Rightarrow> bool" where
  "synced DE m rs \<longleftrightarrow> keys_unique rs \<and> each_row (row_synced DE m) rs \<and> contacts_ok m \<and>
     (\<forall>sid. m sid \<noteq> None \<longrightarrow> service_id_string (dv_ids DE) sid \<in> set (map (fst \<circ> snd) rs))"

lemma upsert_keys: "set (map (fst \<circ> snd) (upsert_row k v rs)) = insert k (set (map (fst \<circ> snd) rs))"
proof (cases "k \<in> set (map (fst \<circ> snd) rs)")
  case True
  then have "set (map (fst \<circ> snd) (upsert_row k v rs)) = set (map (fst \<circ> snd) rs)"
    by (simp add: upsert_row_def update_keys del: set_map)
  with True show ?thesis by (simp add: insert_absorb)
qed (simp add: upsert_row_def insert_row_def)

lemma upsert_rows: "r \<in> set (map snd (upsert_row k v rs)) \<Longrightarrow> r = (k, v) \<or> (r \<in> set (map snd rs) \<and> fst r \<noteq> k)"
  by (auto simp: upsert_row_def insert_row_def update_rows_def split: if_splits)

lemma row_synced_other:
  assumes "row_synced DE m r" "fst r \<noteq> service_id_string (dv_ids DE) sid"
  shows "row_synced DE (m(sid := x)) r"
proof -
  obtain c where "read_contact DE r = Ok c" "fst r = service_id_string (dv_ids DE) (ct_service_id c)" "m (ct_service_id c) = Some c"
    using assms(1) by (auto simp: row_synced_def)
  with assms(2) show ?thesis by (auto simp: row_synced_def)
qed

lemma synced_store:
  assumes "synced DE m rs" "lib_ok DE" "contact_ok c"
  shows "synced DE (m(ct_service_id c \<mapsto> c))
    (upsert_row (service_id_string (dv_ids DE) (ct_service_id c)) (join_comma (map show_nat (ct_device_ids c))) rs)"
proof -
  let ?k = "service_id_string (dv_ids DE) (ct_service_id c)" and ?v = "join_comma (map show_nat (ct_device_ids c))"
  let ?m = "m(ct_service_id c \<mapsto> c)"
  note ids = lib_okD(2) [OF assms(2)]
  have "row_synced DE ?m r" if "r \<in> set (map snd (upsert_row ?k ?v rs))" for r
    using upsert_rows [OF that]
  proof
    assume "r = (?k, ?v)"
    then show ?thesis using read_stored_contact [OF ids assms(3)] by (auto simp: row_synced_def)
  next
    assume r: "r \<in> set (map snd rs) \<and> fst r \<noteq> ?k"
    then have "row_synced DE m r" using assms(1) by (auto simp: synced_def each_row_def)
    with r show ?thesis by (simp add: row_synced_other)
  qed
  moreover have "contacts_ok ?m" using assms(1,3) by (auto simp: synced_def contacts_ok_def)
  ultimately show ?thesis
    using assms(1) unfolding synced_def each_row_def upsert_keys by (auto simp: keys_unique_upsert)
qed

lemma synced_remove:
  assumes "synced DE m rs" "lib_ok DE"
  shows "synced DE (m(sid := None)) (delete_rows (\<lambda>(i, k, _). k = service_id_string (dv_ids DE) sid) rs)"
proof -
  note inj = id_codec_laws.string_inj [OF lib_okD(2) [OF assms(2)]]
  let ?D = "delete_rows (\<lambda>(i, k, _). k = service_id_string (dv_ids DE) sid) rs"
  have keys: "keys_unique ?D" using assms(1) by (simp add: synced_def keys_unique_delete)
  have rows: "row_synced DE (m(sid := None)) (snd r)" if "r \<in> set ?D" for r
    using that assms(1) by (intro row_synced_other) (auto simp: synced_def each_row_def delete_rows_def)
  have held: "service_id_string (dv_ids DE) t \<in> set (map (fst \<circ> snd) ?D)" if "m t \<noteq> None" "t \<noteq> sid" for t
  proof -
    have "service_id_string (dv_ids DE) t \<in> set (map (fst \<circ> snd) rs)"
      using that(1) assms(1) unfolding synced_def by blast
    then obtain r where "r \<in> set rs" "fst (snd r) = service_id_string (dv_ids DE) t" by auto
    moreover from this(2) have "fst (snd r) \<noteq> service_id_string (dv_ids DE) sid" using inj [of t sid] that(2) by auto
    ultimately have "r \<in> set ?D" by (auto simp: delete_rows_def)
    then have "(fst \<circ> snd) r \<in> set (map (fst \<circ> snd) ?D)" by auto
    then show ?thesis using \<open>fst (snd r) = _\<close> by simp
  qed
  have "contacts_ok (m(sid := None))" using assms(1) by (auto simp: synced_def contacts_ok_def)
  with keys rows held show ?thesis unfolding synced_def each_row_def by auto
qed

text \<open>What the database returns is what is in memory.\<close>

lemma new_with_contacts_lookup:
  assumes "distinct (map ct_service_id cs)"
  shows "new_with_contacts cs sid = find (\<lambda>c. ct_service_id c = sid) cs"
proof -
  have "fold (\<lambda>c m. m(ct_service_id c \<mapsto> c)) cs m sid =
      (case find (\<lambda>c. ct_service_id c = sid) cs of None \<Rightarrow> m sid | Some c \<Rightarrow> Some c)" for m
    using assms
  proof (induction cs arbitrary: m)
    case (Cons c cs)
    have "find (\<lambda>d. ct_service_id d = ct_service_id c) cs = None"
      using Cons.prems by (auto simp: find_None_iff image_iff)
    with Cons show ?case by auto
  qed simp
  then show ?thesis by (simp add: new_with_contacts_def split: option.split)
qed

lemma synced_loads:
  assumes "synced DE m (contacts_tbl db)" "lib_ok DE"
  shows "\<exists>cs. dev_load_contacts DE db = (Ok cs, db) \<and> new_with_contacts cs = m"
proof -
  let ?rs = "map snd (contacts_tbl db)"
  let ?Q = "\<lambda>r c. fst r = service_id_string (dv_ids DE) (ct_service_id c) \<and> m (ct_service_id c) = Some c"
  have row: "\<exists>c. read_contact DE r = Ok c \<and> ?Q r c" if "r \<in> set ?rs" for r
    using that assms by (auto simp: synced_def each_row_def row_synced_def)
  obtain cs where cs: "map_outcome (read_contact DE) ?rs = Ok cs" "list_all2 ?Q ?rs cs"
    using map_outcome_each [of ?rs "read_contact DE" ?Q, OF row] by blast
  from cs(2) have keys: "map fst ?rs = map (\<lambda>c. service_id_string (dv_ids DE) (ct_service_id c)) cs"
    by (induction rule: list_all2_induct) auto
  then have "distinct (map (service_id_string (dv_ids DE)) (map ct_service_id cs))"
    using assms(1) by (simp add: synced_def keys_unique_def o_def)
  then have d: "distinct (map ct_service_id cs)" unfolding distinct_map by (rule conjunct1)
  have mem: "m (ct_service_id c) = Some c" if "c \<in> set cs" for c
    using that cs(2) by (auto simp: list_all2_conv_all_nth in_set_conv_nth)
  have "new_with_contacts cs sid = m sid" for sid
  proof (cases "m sid")
    case None
    then have "find (\<lambda>c. ct_service_id c = sid) cs = None" using mem by (force simp: find_None_iff)
    with None show ?thesis by (simp add: new_with_contacts_lookup [OF d])
  next
    case (Some c)
    then have "service_id_string (dv_ids DE) sid \<in> set (map fst ?rs)" using assms(1) by (auto simp: synced_def)
    then obtain c' where c': "c' \<in> set cs" "service_id_string (dv_ids DE) (ct_service_id c') = service_id_string (dv_ids DE) sid"
      unfolding keys by auto
    then have "ct_service_id c' = sid" using id_codec_laws.string_inj [OF lib_okD(2) [OF assms(2)]] by blast
    with c'(1) have "find (\<lambda>c. ct_service_id c = sid) cs \<noteq> None" by (auto simp: find_None_iff)
    then obtain x where x: "find (\<lambda>c. ct_service_id c = sid) cs = Some x" by blast
    then have "x \<in> set cs" "ct_service_id x = sid" by (auto simp: find_Some_iff)
    with mem [of x] x show ?thesis by (simp add: new_with_contacts_lookup [OF d])
  qed
  then show ?thesis using cs(1) by (auto simp: dev_load_contacts_def)
qed

section \<open>The parts of an operation\<close>

definition client_inv :: "'o device_env \<Rightarrow> (device_db, 'n) client \<Rightarrow> bool" where
  "client_inv DE c \<longleftrightarrow> synced DE (contact_manager c) (contacts_tbl (database c))"

lemma keeps_server [keeps]:
  assumes "\<And>n x n'. m n = (Ok x, n') \<Longrightarrow> Q x"
  shows "keeps (client_inv DE) Q (on_server m)"
  using assms by (intro keepsI) (auto simp: on_server_def client_inv_def split: prod.splits)

lemma okeeps_server: "okeeps (client_inv DE) (on_serverO m)"
  by (auto simp: okeeps_def on_serverO_def client_inv_def)

lemma keeps_database [keeps]:
  "(\<And>db. contacts_tbl (snd (m db)) = contacts_tbl db) \<Longrightarrow> keeps (client_inv DE) anything (on_database m)"
  by (rule keeps_anyI) (simp add: on_database_def client_inv_def case_prod_beta)

lemma keeps_stores [keeps]:
  "(\<And>db. contacts_tbl (snd (m db)) = contacts_tbl db) \<Longrightarrow> keeps (client_inv DE) anything (on_stores m)"
  by (rule keeps_anyI) (simp add: on_stores_def client_inv_def case_prod_beta)

lemma keeps_get_contact [keeps]: "keeps (client_inv DE) anything (on_contacts (manager_get_contact sid))"
  by (rule keeps_anyI) (simp add: on_contacts_def manager_get_contact_def client_inv_def)

lemma device_ops:
  "store_contact (device DE) = dev_store_contact DE"
  "db_remove_contact (device DE) = dev_remove_contact DE"
  "get_service_id_by_nickname (device DE) = dev_get_service_id_by_nickname DE"
  "insert_service_id_for_nickname (device DE) = dev_insert_service_id_for_nickname DE"
  "store_deniable_payload (device DE) = dev_store_deniable_payload"
  "try_get_key_request_sent (device DE) = dev_try_get_key_request_sent"
  "store_key_request_sent (device DE) = dev_store_key_request_sent"
  "remove_key_request_sent (device DE) = dev_remove_key_request_sent"
  "get_messages_awaiting_encryption (device DE) = dev_get_messages_awaiting_encryption"
  "store_message_awaiting_encryption (device DE) = dev_store_message_awaiting_encryption"
  "get_and_remove_incoming_deniable_chunks (device DE) = dev_get_and_remove_incoming_deniable_chunks"
  "store_incoming_deniable_chunks (device DE) = dev_store_incoming_deniable_chunks"
  "load_contacts (device DE) = dev_load_contacts DE" "get_key_ids (device DE) = dev_get_key_ids"
  "get_password (device DE) = dev_get_password" "get_aci (device DE) = dev_get_aci DE" "get_pni (device DE) = dev_get_pni DE"
  by (simp_all add: device_def)

lemma chunk_tables: "contacts_tbl (snd (dev_get_and_remove_incoming_deniable_chunks db)) = contacts_tbl db"
  "contacts_tbl (snd (dev_store_incoming_deniable_chunks cs db)) = contacts_tbl db"
proof -
  let ?P = "\<lambda>db'. contacts_tbl db' = contacts_tbl db"
  have take: "keeps ?P anything (take_chunk r)" for r
    unfolding take_chunk_def by (cases r, simp only: prod.case) (intro keeps, simp_all)
  have "keeps ?P anything (bindS (getS incoming_chunk_tbl) (\<lambda>rs. forS rs take_chunk))" by (intro keeps take) simp_all
  from keepsD(1) [OF this] show "?P (snd (dev_get_and_remove_incoming_deniable_chunks db))"
    unfolding dev_get_and_remove_incoming_deniable_chunks_def by (rule transactionS_keeps [where P = ?P, rotated]) simp_all
  have put: "keeps ?P anything (put_chunk c)" for c by (rule keeps_anyI) (simp add: put_chunk_def)
  have "keeps ?P anything (bindS (forS cs put_chunk) (\<lambda>_. returnS ()))" by (intro keeps put) simp
  from keepsD(1) [OF this] show "?P (snd (dev_store_incoming_deniable_chunks cs db))"
    unfolding dev_store_incoming_deniable_chunks_def by (rule transactionS_keeps [where P = ?P, rotated]) simp_all
qed

lemma contact_tables [simp]:
  "contacts_tbl (snd (dev_get_service_id_by_nickname DE al db)) = contacts_tbl db"
  "contacts_tbl (snd (dev_insert_service_id_for_nickname DE al sid db)) = contacts_tbl db"
  "contacts_tbl (snd (dev_store_deniable_payload i n d db)) = contacts_tbl db"
  "contacts_tbl (snd (dev_remove_deniable_payload k db)) = contacts_tbl db"
  "contacts_tbl (snd (dev_get_deniable_payload db)) = contacts_tbl db"
  "contacts_tbl (snd (dev_try_get_key_request_sent s db)) = contacts_tbl db"
  "contacts_tbl (snd (dev_store_key_request_sent s al db)) = contacts_tbl db"
  "contacts_tbl (snd (dev_remove_key_request_sent s db)) = contacts_tbl db"
  "contacts_tbl (snd (dev_get_messages_awaiting_encryption al db)) = contacts_tbl db"
  "contacts_tbl (snd (dev_store_message_awaiting_encryption msg al db)) = contacts_tbl db"
  by (simp_all add: dev_get_service_id_by_nickname_def dev_insert_service_id_for_nickname_def dev_store_deniable_payload_def
      dev_remove_deniable_payload_def dev_get_deniable_payload_def dev_try_get_key_request_sent_def dev_store_key_request_sent_def
      dev_remove_key_request_sent_def dev_get_messages_awaiting_encryption_def dev_store_message_awaiting_encryption_def
      Let_def split: option.split)

section \<open>Contacts\<close>

lemma on_contacts_eq: "on_contacts m c = (map_err ContactManagerError (fst (m (contact_manager c))), c\<lparr>contact_manager := snd (m (contact_manager c))\<rparr>)"
  by (simp add: on_contacts_def case_prod_beta)

lemma store_contact_synced:
  assumes E: "ce_db E = device DE" "lib_ok DE" and "client_inv DE c" "contact_ok ct"
  shows "\<exists>c'. on_database (store_contact (ce_db E) ct) (c\<lparr>contact_manager := (contact_manager c)(ct_service_id ct \<mapsto> ct)\<rparr>) =
    (Ok (), c') \<and> client_inv DE c'"
  using synced_store [OF _ E(2) assms(4)] assms(3)
  by (simp add: on_database_def device_ops E(1) dev_store_contact_def client_inv_def Let_def)

lemma update_contact_keeps:
  fixes E :: "(device_db, 'n, 'o) client_env"
  assumes E: "ce_db E = device DE" "lib_ok DE" and ids: "list_all (\<lambda>d. d < 2 ^ 32) ids"
  shows "keeps (client_inv DE) anything (update_contact E al ids)"
proof -
  have "keeps (client_inv DE) anything (bindS (on_contacts (manager_update_contact sid ids) :: (device_db, 'n, unit) client_step) (\<lambda>_.
      bindS (on_contacts (manager_get_contact sid)) (\<lambda>contact. on_database (store_contact (ce_db E) contact))))" for sid
  proof (rule keeps_anyI)
    fix c :: "(device_db, 'n) client" assume inv: "client_inv DE c"
    show "client_inv DE (snd (bindS (on_contacts (manager_update_contact sid ids) :: (device_db, 'n, unit) client_step) (\<lambda>_.
      bindS (on_contacts (manager_get_contact sid)) (\<lambda>contact. on_database (store_contact (ce_db E) contact))) c))"
    proof (cases "contact_manager c sid")
      case None
      with inv show ?thesis by (simp add: on_contacts_eq manager_update_contact_def)
    next
      case (Some ct)
      let ?ct = "ct\<lparr>ct_device_ids := fold set_insert ids (ct_device_ids ct)\<rparr>"
      have ct: "contact_ok ?ct" "ct_service_id ?ct = sid"
        using inv Some ids by (auto simp: client_inv_def synced_def contacts_ok_def contact_ok_def list_all_iff)
      from store_contact_synced [OF E inv ct(1)] Some ct(2) show ?thesis
        by (auto simp: on_contacts_eq manager_update_contact_def manager_get_contact_def ok_or_def)
    qed
  qed
  note unit = this
  show ?thesis
    unfolding update_contact_def by (rule keeps_bind_any [OF keeps_database unit]) (simp add: E(1) device_ops)
qed

lemma new_contact_keeps:
  fixes E :: "(device_db, 'n, 'o) client_env"
  assumes E: "ce_db E = device DE" "lib_ok DE"
  shows "keeps (client_inv DE) anything (bindS (on_contacts (manager_add_contact sid) :: (device_db, 'n, unit) client_step) (\<lambda>_.
    bindS (on_contacts (manager_get_contact sid)) (\<lambda>contact. on_database (store_contact (ce_db E) contact))))"
proof (rule keeps_anyI)
  fix c :: "(device_db, 'n) client" assume inv: "client_inv DE c"
  have ct: "contact_ok (contact_new sid)" "ct_service_id (contact_new sid) = sid"
    by (simp_all add: contact_new_def contact_ok_def)
  from store_contact_synced [OF E inv ct(1)] ct(2) inv
  show "client_inv DE (snd (bindS (on_contacts (manager_add_contact sid) :: (device_db, 'n, unit) client_step) (\<lambda>_.
      bindS (on_contacts (manager_get_contact sid)) (\<lambda>contact. on_database (store_contact (ce_db E) contact))) c))"
    by (cases "contact_manager c sid") (auto simp: on_contacts_eq manager_add_contact_def manager_get_contact_def ok_or_def)
qed

lemma remove_contact_keeps:
  fixes E :: "(device_db, 'n, 'o) client_env"
  assumes E: "ce_db E = device DE" "lib_ok DE"
  shows "keeps (client_inv DE) anything (remove_contact E al)"
proof -
  have "keeps (client_inv DE) anything (bindS (on_contacts (manager_remove_contact sid) :: (device_db, 'n, unit) client_step) (\<lambda>_. on_database (db_remove_contact (ce_db E) sid)))" for sid
  proof (rule keeps_anyI)
    fix c :: "(device_db, 'n) client" assume "client_inv DE c"
    with synced_remove [OF _ E(2), of _ _ sid]
    show "client_inv DE (snd (bindS (on_contacts (manager_remove_contact sid) :: (device_db, 'n, unit) client_step) (\<lambda>_. on_database (db_remove_contact (ce_db E) sid)) c))"
      by (cases "contact_manager c sid")
        (auto simp: on_contacts_eq manager_remove_contact_def on_database_def E(1) device_ops dev_remove_contact_def client_inv_def)
  qed
  note unit = this
  show ?thesis
    unfolding remove_contact_def by (rule keeps_bind_any [OF keeps_database unit]) (simp add: E(1) device_ops)
qed

section \<open>Sessions\<close>

lemma process_bundles_result:
  "process_bundles E sid S I ids bs s = (Ok ids', s') \<Longrightarrow> ids' = ids @ map pkb_device_id bs"
proof (induction bs arbitrary: ids s)
  case (Cons b bs)
  from Cons.prems obtain s1 where "process_bundles E sid S I (ids @ [pkb_device_id b]) bs s1 = (Ok ids', s')"
    by (auto elim: bindS_eq_OkE)
  from Cons.IH [OF this] show ?case by simp
qed simp

lemma sessions_localD:
  assumes "sessions_local E" "stores_for E den = (S, I)"
  shows "contacts_tbl (snd (message_encrypt (ce_sessions E) msg a S I db)) = contacts_tbl db"
    and "contacts_tbl (snd (message_decrypt (ce_sessions E) ct a S I (pre_key_store (stores E)) (signed_pre_key_store (stores E))
      (kyber_pre_key_store (stores E)) db)) = contacts_tbl db"
    and "contacts_tbl (snd (process_prekey_bundle E a S I b db)) = contacts_tbl db"
  using assms(1) unfolding sessions_local_def Let_def
  by (auto dest!: spec [of _ den] spec [of _ db] simp: assms(2) client_tables_def)

lemma stores_for_eq:
  "(if den then deniable_store (stores E) else session_store (stores E)) = fst (stores_for E den)"
  "(if den then deniable_identity_key_store (stores E) else identity_key_store (stores E)) = snd (stores_for E den)"
  by (simp_all add: stores_for_def)

lemma process_bundles_tables:
  assumes "sessions_local E" "stores_for E den = (S, I)"
  shows "contacts_tbl (snd (process_bundles E sid S I ids bs db)) = contacts_tbl db"
proof -
  let ?P = "\<lambda>db'. contacts_tbl db' = contacts_tbl db"
  have "keeps ?P anything (process_bundles E sid S I ids bs)"
  proof (induction bs arbitrary: ids)
    case (Cons b bs)
    show ?case unfolding process_bundles.simps
      by (rule keeps_bind_any [OF keeps_anyI Cons.IH]) (simp add: case_prod_beta sessions_localD [OF assms])
  qed (simp add: keeps_return)
  from keepsD(1) [OF this] show ?thesis by simp
qed

lemma initialize_keeps:
  assumes "sessions_local E" "\<forall>b \<in> set bs. pkb_device_id b < 2 ^ 32"
  shows "keeps (client_inv DE) (list_all (\<lambda>d. d < 2 ^ 32)) (initialize_sessions_from_bundle E sid bs den)"
proof -
  obtain S I where SI: "stores_for E den = (S, I)" by fastforce
  have eq: "initialize_sessions_from_bundle E sid bs den = on_stores (process_bundles E sid S I [] bs)"
    unfolding initialize_sessions_from_bundle_def Let_def stores_for_eq by (simp add: SI)
  have "keeps (client_inv DE) anything (on_stores (process_bundles E sid S I [] bs))"
    by (rule keeps_stores) (rule process_bundles_tables [OF assms(1) SI])
  moreover have "list_all (\<lambda>d. d < 2 ^ 32) ids"
    if "on_stores (process_bundles E sid S I [] bs) c = (Ok ids, c')" for c c' ids
  proof -
    obtain r s where "process_bundles E sid S I [] bs (database c) = (r, s)" by fastforce
    with that have "process_bundles E sid S I [] bs (database c) = (Ok ids, s)" by (simp add: on_stores_def)
    from process_bundles_result [OF this] assms(2) show ?thesis by (simp add: list_all_iff)
  qed
  ultimately show ?thesis unfolding eq by (intro keepsI) (auto dest: keepsD(1))
qed

lemma get_new_device_ids_keeps:
  assumes "sessions_local E" "u32_devices E"
  shows "keeps (client_inv DE) (list_all (\<lambda>d. d < 2 ^ 32)) (get_new_device_ids E sid)"
  unfolding get_new_device_ids_def
proof (rule keeps_bind [where Q = "\<lambda>bs. \<forall>b \<in> set bs. pkb_device_id b < 2 ^ 32"])
  show "keeps (client_inv DE) (\<lambda>bs. \<forall>b \<in> set bs. pkb_device_id b < 2 ^ 32) (on_server (fetch_pre_key_bundles (ce_api E) sid))"
    using assms(2) unfolding u32_devices_def by (intro keeps_server) blast
qed (rule initialize_keeps [OF assms(1)])

text \<open>What every operation needs of the client's parameters.\<close>

definition client_ok :: "(device_db, 'n, 'o) client_env \<Rightarrow> 'o device_env \<Rightarrow> bool" where
  "client_ok E DE \<longleftrightarrow> ce_db E = device DE \<and> lib_ok DE \<and> sessions_local E \<and> u32_devices E"

lemma client_okD:
  assumes "client_ok E DE" shows "ce_db E = device DE" "lib_ok DE" "sessions_local E" "u32_devices E"
  using assms by (simp_all add: client_ok_def)

lemma add_contact_keeps:
  fixes E :: "(device_db, 'n, 'o) client_env"
  assumes "client_ok E DE" "\<And>ids. device_ids = Some ids \<Longrightarrow> list_all (\<lambda>d. d < 2 ^ 32) ids"
  shows "keeps (client_inv DE) anything (add_contact E al sid device_ids)"
proof -
  note E = client_okD [OF assms(1)]
  let ?new = "bindS (on_contacts (manager_add_contact sid) :: (device_db, 'n, unit) client_step) (\<lambda>_.
      bindS (on_contacts (manager_get_contact sid)) (\<lambda>contact. on_database (store_contact (ce_db E) contact)))"
  let ?rest = "bindS (on_database (insert_service_id_for_nickname (ce_db E) al sid)) (\<lambda>_.
      bindS (case device_ids of Some new_device_ids \<Rightarrow> returnS new_device_ids | None \<Rightarrow> get_new_device_ids E sid) (\<lambda>new_device_ids.
      update_contact E al new_device_ids))"
  have ids: "keeps (client_inv DE) (list_all (\<lambda>d. d < 2 ^ 32))
      (case device_ids of Some new_device_ids \<Rightarrow> returnS new_device_ids | None \<Rightarrow> get_new_device_ids E sid)"
    by (cases device_ids) (simp_all add: get_new_device_ids_keeps [OF E(3,4)] keeps_return assms(2) del: power_numeral)
  have "keeps (client_inv DE) anything ?rest"
    by (rule keeps_bind_any [OF keeps_database keeps_bind [OF ids]])
      (simp_all add: E(1) device_ops update_contact_keeps [OF E(1,2)])
  then have "keeps (client_inv DE) anything (bindS ?new (\<lambda>_. ?rest))"
    by (rule keeps_bind_any [OF new_contact_keeps [OF E(1,2)]])
  then have "keeps (client_inv DE) anything (bindS (on_contacts (manager_add_contact sid)) (\<lambda>_.
      bindS (on_contacts (manager_get_contact sid)) (\<lambda>contact.
      bindS (on_database (store_contact (ce_db E) contact)) (\<lambda>_. ?rest))))"
    by (simp add: bindS_assoc)
  then show ?thesis unfolding keeps_def add_contact_def by auto
qed

section \<open>Sending and receiving\<close>

lemma wrapped_state [simp]:
  "snd (as_client m s) = snd (m s)" "snd (as_encryption m s) = snd (m s)" "snd (as_signal m s) = snd (m s)"
  "snd (as_signal_client n s) = snd (n s)" "snd (argument_err m s) = snd (m s)" "snd (shown_err m s) = snd (m s)"
  by (simp_all add: as_client_def as_encryption_def as_signal_def as_signal_client_def argument_err_def shown_err_def case_prod_beta)

lemma load_session_same:
  assumes "ce_db E = device DE" "stores_for E den = (S, I)"
  shows "snd (load_session S a db) = db"
  using assms(2) by (auto simp: stores_for_def ProtocolStore_new_def DeviceSessionStore_def DeniableSessionStore_def assms(1)
      device_def dev_load_session_def dev_load_deniable_session_def split: if_splits)

lemma encrypt_tables:
  assumes "ce_db E = device DE" "sessions_local E" "stores_for E den = (S, I)"
  shows "contacts_tbl (snd (encrypt (ce_sessions E) (ce_ids E) I S target msg db)) = contacts_tbl db"
proof -
  let ?P = "\<lambda>db'. contacts_tbl db' = contacts_tbl db"
  have "keeps ?P anything (encrypt_loop (ce_sessions E) (ce_ids E) I S target msg out ds)" for out ds
  proof (induction ds arbitrary: out)
    case (Cons d ds)
    show ?case unfolding encrypt_loop.simps
      by (intro keeps Cons.IH keeps_anyI) (simp_all add: load_session_same [OF assms(1,3)] sessions_localD [OF assms(2,3)])
  qed (simp add: keeps_return)
  from keepsD(1) [OF this] show ?thesis by (simp add: encrypt_def)
qed

lemma encrypt_content_keeps:
  assumes "client_ok E DE" shows "keeps (client_inv DE) anything (encrypt_content E den sid cnt)"
proof -
  note E = client_okD [OF assms]
  obtain S I where SI: "stores_for E den = (S, I)" by fastforce
  show ?thesis
    unfolding encrypt_content_def Let_def stores_for_eq SI fst_conv snd_conv
    by (intro keeps; simp add: encrypt_tables [OF E(1,3) SI])
qed

lemma queue_deniable_keeps:
  "client_ok E DE \<Longrightarrow> keeps (client_inv DE) anything (queue_deniable E sid m)"
  unfolding queue_deniable_def by (rule keeps_database) (simp add: client_okD device_ops)

lemma send_deniable_keeps:
  assumes "client_ok E DE" shows "keeps (client_inv DE) anything (send_deniable_message E message al)"
  unfolding send_deniable_message_def
  by (intro keeps_bind_any [OF keeps_database] keeps_bind_any [OF keeps_get] keeps_bind_any [OF encrypt_content_keeps [OF assms]]
      keeps_bind_any [OF keeps_for] keeps_return queue_deniable_keeps [OF assms])
    (simp_all add: client_okD [OF assms] device_ops)

lemma queue_contact_keeps:
  assumes "client_ok E DE" shows "keeps (client_inv DE) anything (add_deniable_contact_and_queue_message E sid text al)"
  unfolding add_deniable_contact_and_queue_message_def Let_def
  by (intro keeps) (simp_all add: client_okD [OF assms] device_ops)

text \<open>The chunker changes the queue of payloads only.\<close>

lemma next_chunk_keeps:
  assumes "\<And>b. P b \<Longrightarrow> P (snd (get_outgoing_message B b))" "\<And>i n d b. P b \<Longrightarrow> P (snd (set_outgoing_message B i n d b))"
    and "\<And>i b. P b \<Longrightarrow> P (snd (remove_outgoing_message B i b))" and "P b"
  shows "P (snd (next_chunk B n b))"
proof -
  obtain r b1 where r: "get_outgoing_message B b = (r, b1)" by fastforce
  then have b1: "P b1" using assms(1) [OF assms(4)] by simp
  have rem: "keeps P anything (bindS (remove_outgoing_message B mid) (\<lambda>_. returnS x))" for mid and x :: denim_chunk
    by (intro keeps keeps_anyI; simp add: assms(3))
  have set: "keeps P anything (bindS (liftS (i32_sub cnt 1)) (\<lambda>cnt'. bindS (set_outgoing_message B (Some mid) cnt' d) (\<lambda>_. returnS x)))"
    for mid cnt d and x :: denim_chunk
    by (intro keeps keeps_anyI; simp add: assms(2))
  show ?thesis
    using keepsD(1) [OF rem b1] keepsD(1) [OF set b1] b1
    by (simp add: next_chunk_def r split: outcome.split prod.split)
qed

lemma create_chunks_loop_keeps:
  assumes "create_chunks_loop ser B tot out free b = Some rb" "P b"
    and "\<And>b. P b \<Longrightarrow> P (snd (get_outgoing_message B b))" "\<And>i n d b. P b \<Longrightarrow> P (snd (set_outgoing_message B i n d b))"
    "\<And>i b. P b \<Longrightarrow> P (snd (remove_outgoing_message B i b))"
  shows "P (snd rb)"
proof -
  have "B = B \<longrightarrow> P b \<longrightarrow> P (snd rb)"
  proof (rule create_chunks_loop.raw_induct [OF _ assms(1), where P = "\<lambda>ser' B' tot' out free b rb. B' = B \<longrightarrow> P b \<longrightarrow> P (snd rb)"],
      intro impI)
    fix f ser' B' tot' out free b rb
    assume IH: "\<And>ser' B' tot' out free b rb. f ser' B' tot' out free b = Some rb \<Longrightarrow> B' = B \<longrightarrow> P b \<longrightarrow> P (snd rb)"
      and body: "(if EMPTY_DENIMCHUNK_SIZE \<le> free then
        (case next_chunk B' (free - EMPTY_DENIMCHUNK_SIZE) b of
           (Ok c, b1) \<Rightarrow>
             (case usize_sub tot' (length (ser' (out @ [c]))) of
                Ok free_space' \<Rightarrow> f ser' B' tot' (out @ [c]) free_space' b1
              | Err e \<Rightarrow> Some (Err e, b1)
              | Panic \<Rightarrow> Some (Panic, b1))
         | (Err e, b1) \<Rightarrow> Some (Err e, b1)
         | (Panic, b1) \<Rightarrow> Some (Panic, b1))
      else Some (Ok (out, free), b)) = Some rb" and "B' = B" "P b"
    obtain r b1 where n: "next_chunk B (free - EMPTY_DENIMCHUNK_SIZE) b = (r, b1)" by fastforce
    have "P b1" using next_chunk_keeps [of P B, OF assms(3-5) \<open>P b\<close>, of "free - EMPTY_DENIMCHUNK_SIZE"] n by simp
    then show "P (snd rb)"
      using IH body \<open>B' = B\<close> \<open>P b\<close> n by (auto split: if_splits outcome.splits)
  qed
  with assms(2) show ?thesis by blast
qed

lemma chunks_for_keeps:
  assumes "client_ok E DE" shows "okeeps (client_inv DE) (chunks_for E regular)"
  unfolding okeeps_def
proof (intro allI impI)
  fix c r c' assume inv: "client_inv DE c" and run: "chunks_for E regular c = Some (r, c')"
  let ?P = "\<lambda>db. contacts_tbl db = contacts_tbl (database c)"
  obtain r' db where db: "create_chunks (serialize_chunks E) (DeniableStore (device DE)) (client_chunker c)
      (usize_as_f32 (length (serialize_regular E regular))) (database c) = Some (r', db)" "c' = c\<lparr>database := db\<rparr>"
    using run by (auto simp: chunks_for_def client_okD(1) [OF assms] ProtocolStore_new_def)
  have "?P db"
  proof (cases "8 \<le> total_free_space (client_chunker c) (usize_as_f32 (length (serialize_regular E regular)))")
    case True
    then show ?thesis
      using db(1) create_chunks_loop_keeps [where P = ?P and B = "DeniableStore (device DE)" and rb = "(r', db)"]
      by (simp add: create_chunks_def Let_def usize_sub_def)
  qed (use db(1) in \<open>simp add: create_chunks_def Let_def usize_sub_def\<close>)
  with inv show "client_inv DE c'" by (simp add: client_inv_def db(2))
qed

lemma denim_messages_keeps:
  "client_ok E DE \<Longrightarrow> okeeps (client_inv DE) (denim_messages_loop E out ms)"
proof (induction ms arbitrary: out)
  case Nil
  then show ?case by (simp add: okeeps_def)
next
  case (Cons m ms)
  then show ?case
    unfolding denim_messages_loop.simps Let_def
    by (intro okeeps_bindO) (auto intro: chunks_for_keeps split: prod.split)
qed

lemma send_message_keeps:
  fixes E :: "(device_db, 'n, 'o) client_env"
  assumes "client_ok E DE" shows "okeeps (client_inv DE) (send_message E now message al)"
proof -
  note E = client_okD [OF assms]
  have retry: "okeeps (client_inv DE) (bindO (okS (get_new_device_ids E sid)) (\<lambda>device_ids.
      bindO (okS (update_contact E al device_ids)) (\<lambda>_. on_serverO (send_msg (ce_api E) msgs sid))))" for sid msgs
    unfolding bindO_okS_bindS
    by (intro okeeps_bindO okeeps_okS okeeps_server keeps_bind [OF get_new_device_ids_keeps [OF E(3,4)] update_contact_keeps [OF E(1,2)]])
  have deliver: "okeeps (client_inv DE) (deliver_messages E al sid msgs)" for sid msgs
    using okeeps_retry [OF okeeps_server retry] by (simp add: deliver_messages_def [abs_def])
  show ?thesis
    unfolding send_message_def Let_def
    by (intro okeeps_bindO okeeps_okS keeps_database keeps_get keeps_lift encrypt_content_keeps [OF assms]
        denim_messages_keeps [OF assms] deliver) (simp_all add: E(1) device_ops)
qed

lemma decrypt_keeps:
  assumes "client_ok E DE" shows "keeps (client_inv DE) anything (decrypt_envelope E den e)"
proof -
  note E = client_okD [OF assms]
  obtain S I where SI: "stores_for E den = (S, I)" by fastforce
  let ?P = "\<lambda>T db. contacts_tbl db = T"
  have "keeps (?P T) anything (envelope_decrypt (ce_sessions E) (ce_ids E) (content_decode E) e S I
      (pre_key_store (stores E)) (signed_pre_key_store (stores E)) (kyber_pre_key_store (stores E)))" for T
    unfolding envelope_decrypt_def Let_def by (intro keeps keeps_anyI; simp add: sessions_localD [OF E(3) SI])
  from keepsD(1) [OF this] show ?thesis
    unfolding decrypt_envelope_def Let_def stores_for_eq SI fst_conv snd_conv by (intro keeps_stores) simp
qed

definition payload_typed :: "deniable_payload \<Rightarrow> bool" where
  "payload_typed p \<longleftrightarrow> (\<forall>r. p = KeyResponse r \<longrightarrow> (\<forall>it \<in> set (pks_devices r). pki_device_id it < 2 ^ 32))"

lemma incoming_loop_typed:
  assumes "\<And>bs p. de bs = Ok p \<Longrightarrow> Q p"
  shows "incoming_loop de ps cs ds = (Ok (qs, rest) :: (signal_client_error, 'p list \<times> denim_chunk list) outcome) \<Longrightarrow> list_all Q ps \<Longrightarrow> list_all Q qs"
proof (induction ds arbitrary: ps cs)
  case (Cons d ds)
  show ?case
  proof (cases "is_final d")
    case True
    then obtain p where p: "expect (de (concat (map chunk (sort_chunks cs @ [d])))) = (Ok p :: (signal_client_error, 'p) outcome)"
      "incoming_loop de (ps @ [p]) [] ds = (Ok (qs, rest) :: (signal_client_error, 'p list \<times> denim_chunk list) outcome)" using Cons.prems(1) by (auto simp: outcome_simps simp del: map_append)
    then have "Q p" using assms by (auto simp: expect_def split: outcome.splits)
    with Cons.IH [OF p(2)] Cons.prems(2) show ?thesis by simp
  next
    case False
    with Cons.prems(1) have "incoming_loop de ps (cs @ [d]) ds = (Ok (qs, rest) :: (signal_client_error, 'p list \<times> denim_chunk list) outcome)" by simp
    from Cons.IH [OF this Cons.prems(2)] show ?thesis .
  qed
qed simp

lemma incoming_keeps:
  assumes "client_ok E DE" shows "keeps (client_inv DE) (list_all payload_typed) (handle_incoming_chunks E cs)"
proof -
  note E = client_okD [OF assms]
  have typed: "list_all payload_typed (fst x)" if "incoming_loop (deserialize (payload_codec E)) [] chunks cs = (Ok x :: (signal_client_error, _) outcome)" for x chunks
  proof -
    have "payload_typed p" if "deserialize (payload_codec E) bs = Ok p" for bs p
      using that E(4) unfolding u32_devices_def payload_typed_def by blast
    from incoming_loop_typed [OF this, where ps = "[]" and qs = "fst x" and rest = "snd x"] that show ?thesis by simp
  qed
  show ?thesis
    unfolding handle_incoming_chunks_def
    by (intro keeps_bind_any keeps_bind [OF keeps_lift [where Q = "\<lambda>x. list_all payload_typed (fst x)"]] keeps_if keeps_database
        keeps_return keeps_prod typed) (auto simp: E(1) device_ops chunk_tables)
qed

lemma bundles_typed:
  assumes "pre_key_bundles_try_from D r = Ok bs" "\<forall>it \<in> set (pks_devices r). pki_device_id it < 2 ^ 32"
  shows "\<forall>b \<in> set bs. pkb_device_id b < 2 ^ 32"
proof -
  have "map_outcome (bundle_of D i) its = Ok bs \<Longrightarrow> map pkb_device_id bs = map pki_device_id its" for i its bs
    by (induction its arbitrary: bs) (auto simp: outcome_simps bundle_of_def Let_def)
  then have "map pkb_device_id bs = map pki_device_id (pks_devices r)"
    using assms(1) by (auto simp: pre_key_bundles_try_from_def outcome_simps)
  then have "pkb_device_id ` set bs = pki_device_id ` set (pks_devices r)" by (metis list.set_map)
  with assms(2) show ?thesis by (metis image_iff)
qed

lemma key_response_keeps:
  assumes "client_ok E DE" "payload_typed (KeyResponse r)"
  shows "keeps (client_inv DE) anything (handle_key_response E r)"
proof -
  note E = client_okD [OF assms(1)]
  have bs: "keeps (client_inv DE) (\<lambda>bs. \<forall>b \<in> set bs. pkb_device_id b < 2 ^ 32)
      (liftS (map_err KeyError (pre_key_bundles_try_from (ce_decoding E) r)))"
  proof (rule keeps_lift)
    fix bs assume "map_err KeyError (pre_key_bundles_try_from (ce_decoding E) r) = Ok bs"
    then have "pre_key_bundles_try_from (ce_decoding E) r = Ok bs" by (cases "pre_key_bundles_try_from (ce_decoding E) r") simp_all
    from bundles_typed [OF this] assms(2) show "\<forall>b \<in> set bs. pkb_device_id b < 2 ^ 32" by (simp add: payload_typed_def)
  qed
  have rest: "keeps (client_inv DE) anything (
      bindS (on_database (try_get_key_request_sent (ce_db E) s)) (\<lambda>sent.
      bindS (liftS (expect (ok_or () sent))) (\<lambda>al.
      bindS (add_contact E al sid (Some ids)) (\<lambda>_.
      bindS (on_database (remove_key_request_sent (ce_db E) s)) (\<lambda>_.
      bindS (on_database (get_messages_awaiting_encryption (ce_db E) al)) (\<lambda>messages.
      bindS (forS messages (\<lambda>message. send_deniable_message E message al)) (\<lambda>_. returnS ())))))))"
    if "list_all (\<lambda>d. d < 2 ^ 32) ids" for ids sid s
    by (intro keeps_bind_any keeps_database keeps_lift add_contact_keeps [OF assms(1)] keeps_for keeps_return
        send_deniable_keeps [OF assms(1)]) (use that in \<open>auto simp: E(1) device_ops\<close>)
  show ?thesis
    unfolding handle_key_response_def Let_def
    by (rule keeps_bind_any, rule keeps_lift, simp, rule keeps_bind [OF bs], rule keeps_bind [OF initialize_keeps [OF E(3)]],
        assumption, rule rest)
qed

lemma handle_payloads_keeps:
  assumes "client_ok E DE"
  shows "list_all payload_typed ps \<Longrightarrow> keeps (client_inv DE) anything (handle_payloads E out ps)"
proof (induction ps arbitrary: out)
  case (Cons p ps)
  then have ps: "list_all payload_typed ps" "payload_typed p" by simp_all
  show ?case
  proof (cases p)
    case (DenEnvelope e)
    then show ?thesis using keeps_bind_any [OF decrypt_keeps [OF assms] Cons.IH [OF ps(1)]] by simp
  next
    case (KeyResponse r)
    then show ?thesis using keeps_bind_any [OF key_response_keeps [OF assms] Cons.IH [OF ps(1)]] ps(2) by simp
  qed (simp_all add: keeps_def)
qed (simp add: keeps_return)

lemma ignore_err_state: "keeps P anything m \<Longrightarrow> keeps P anything (ignore_err m)"
  by (auto simp: keeps_def ignore_err_def split: prod.split outcome.split)

lemma receive_message_keeps:
  assumes "client_ok E DE" shows "okeeps (client_inv DE) (receive_message E)"
proof -
  have regular: "keeps (client_inv DE) anything (
         bindS (decrypt_envelope E False e) (\<lambda>first.
         bindS (ignore_err (on_server (send_response (ce_api E) request 200))) (\<lambda>_.
         if chunks \<noteq> [] then bindS (handle_incoming_chunks E chunks) (\<lambda>payloads. handle_payloads E [first] payloads)
         else returnS [first])))" for e request chunks
    by (intro keeps_bind_any [OF decrypt_keeps [OF assms]] keeps_bind_any [OF ignore_err_state] keeps_if
        keeps_bind [OF incoming_keeps [OF assms] handle_payloads_keeps [OF assms]] keeps_return keeps_server; simp)
  have q: "keeps (client_inv DE) anything (modifyS (\<lambda>c. c\<lparr>client_chunker := set_q_value q (client_chunker c)\<rparr>))" for q
    by (rule keeps_modify) (simp add: client_inv_def)
  show ?thesis
    unfolding receive_message_def Let_def
    by (intro okeeps_bindO okeeps_server okeeps_okS keeps_bind_any q keeps_lift keeps_server; (simp; fail)?) (auto split: regular_payload.split intro!: regular keeps_bind_any keeps_server keeps_fail)
qed

section \<open>Logging in\<close>

lemma parse_unsigned_bound: "parse_unsigned b s = Some n \<Longrightarrow> n < b"
  by (auto simp: parse_unsigned_def Let_def split: if_splits option.splits)

lemma read_device_ids_ok:
  "read_device_ids ss ds = Ok ds' \<Longrightarrow> distinct ds \<Longrightarrow> \<forall>d \<in> set ds. d < 2 ^ 32 \<Longrightarrow> distinct ds' \<and> (\<forall>d \<in> set ds'. d < 2 ^ 32)"
proof (induction ss arbitrary: ds)
  case (Cons s ss)
  obtain d where d: "parse_u32 s = Some d" "read_device_ids ss (set_insert d ds) = Ok ds'"
    using Cons.prems(1) by (cases "parse_u32 s") (simp_all add: ok_or_def)
  have "d < 2 ^ 32" using parse_unsigned_bound [of "2 ^ 32" s d] d(1) by (simp add: parse_u32_def)
  then have "\<forall>x \<in> set (set_insert d ds). x < 2 ^ 32" using Cons.prems(3) by simp
  with Cons.IH [OF d(2)] Cons.prems(2) show ?case by (simp del: power_numeral)
qed simp

lemma read_contact_ok:
  assumes "read_contact DE r = Ok c" shows "contact_ok c"
proof -
  obtain k v where r: "r = (k, v)" by fastforce
  obtain ds where ds: "(if v \<noteq> '''' then read_device_ids (split_char (CHR '','') v) [] else Ok []) = Ok ds" "ct_device_ids c = ds"
    using assms by (auto simp: read_contact_def r outcome_simps)
  have "distinct ds \<and> (\<forall>d \<in> set ds. d < 2 ^ 32)"
    using ds(1) read_device_ids_ok [of "split_char (CHR '','') v" "[]" ds] by (auto split: if_splits)
  then show ?thesis by (simp add: contact_ok_def ds(2))
qed

lemma map_outcome_Ok_all2: "map_outcome f xs = Ok ys \<Longrightarrow> list_all2 (\<lambda>x y. f x = Ok y) xs ys"
  by (induction xs arbitrary: ys) (auto simp: outcome_simps)

lemma list_all2_members:
  assumes "list_all2 P xs ys"
  shows "x \<in> set xs \<Longrightarrow> \<exists>y \<in> set ys. P x y" "y \<in> set ys \<Longrightarrow> \<exists>x \<in> set xs. P x y"
  using assms by (induction rule: list_all2_induct) auto

lemma loaded_synced:
  assumes "keys_unique rs" "each_row (reads_contact DE) rs" "map_outcome (read_contact DE) (map snd rs) = Ok cs"
  shows "synced DE (new_with_contacts cs) rs"
proof -
  have all2: "list_all2 (\<lambda>r c. read_contact DE r = Ok c) (map snd rs) cs" by (rule map_outcome_Ok_all2 [OF assms(3)])
  have d: "distinct (map ct_service_id cs)" using contacts_of_rows [OF assms(1,2)] assms(3) by auto
  have held: "new_with_contacts cs (ct_service_id c) = Some c" if "c \<in> set cs" for c
  proof -
    have "find (\<lambda>x. ct_service_id x = ct_service_id c) cs \<noteq> None" using that by (auto simp: find_None_iff)
    then obtain x where x: "find (\<lambda>x. ct_service_id x = ct_service_id c) cs = Some x" by blast
    then have "x \<in> set cs" "ct_service_id x = ct_service_id c" by (auto simp: find_Some_iff)
    then have "x = c" using d that by (auto simp: distinct_map inj_on_def)
    with x show ?thesis by (simp add: new_with_contacts_lookup [OF d])
  qed
  have from_cs: "c \<in> set cs \<and> ct_service_id c = sid" if "new_with_contacts cs sid = Some c" for sid c
    using that by (auto simp: new_with_contacts_lookup [OF d] find_Some_iff)
  have rows: "row_synced DE (new_with_contacts cs) r" if r: "r \<in> set (map snd rs)" for r
  proof -
    obtain c where c: "c \<in> set cs" "read_contact DE r = Ok c" using list_all2_members(1) [OF all2 r] by blast
    moreover have "fst r = service_id_string (dv_ids DE) (ct_service_id c)"
      using assms(2) r c(2) by (auto simp: each_row_def reads_contact_def)
    ultimately show ?thesis using held by (auto simp: row_synced_def)
  qed
  have from_row: "\<exists>r \<in> set (map snd rs). read_contact DE r = Ok c" if "c \<in> set cs" for c
    by (rule list_all2_members(2) [OF all2 that])
  have "contacts_ok (new_with_contacts cs)" using from_cs from_row read_contact_ok unfolding contacts_ok_def by blast
  moreover have "service_id_string (dv_ids DE) sid \<in> set (map (fst \<circ> snd) rs)" if some: "new_with_contacts cs sid = Some c" for sid c
  proof -
    obtain r where r: "r \<in> set (map snd rs)" "read_contact DE r = Ok c" using from_cs [OF some] from_row by blast
    then have "fst r = service_id_string (dv_ids DE) sid"
      using assms(2) from_cs [OF some] by (auto simp: each_row_def reads_contact_def)
    with r(1) show ?thesis by (auto simp: image_iff intro!: bexI)
  qed
  ultimately show ?thesis using assms(1) rows by (auto simp: synced_def each_row_def)
qed

lemma bind_db_call:
  assumes "\<And>db. snd (m db) = db"
  shows "bindS (db_call m) f (db, n) = (Ok y, sn) \<longleftrightarrow> (\<exists>x. m db = (Ok x, db) \<and> f x (db, n) = (Ok y, sn))"
proof -
  obtain r where "m db = (r, db)" using assms [of db] by (metis prod.collapse)
  then show ?thesis by (cases r) (simp_all add: db_call_def bindS_def)
qed

lemma bind_api_call:
  "bindS (api_call m) f (db, n) = (Ok y, sn) \<longleftrightarrow> (\<exists>x n'. m n = (Ok x, n') \<and> f x (db, n') = (Ok y, sn))"
  by (cases "m n"; cases "fst (m n)") (auto simp: api_call_def bindS_def)

lemma bind_lift: "bindS (liftS r) f s = (Ok y, s') \<longleftrightarrow> (\<exists>x. r = Ok x \<and> f x s = (Ok y, s'))"
  by (cases r) (simp_all add: bindS_def)

lemma reading_ops [simp]:
  "snd (dev_load_contacts DE db) = db" "snd (dev_get_key_ids db) = db" "snd (dev_get_password db) = db"
  "snd (dev_get_aci DE db) = db" "snd (dev_get_pni DE db) = db"
  by (simp_all add: dev_load_contacts_def dev_get_key_ids_def dev_get_password_def dev_get_aci_def dev_get_pni_def)

lemma login_result:
  assumes E: "ce_db E = device DE" and "login E al (db, n) = (Ok c, sn)"
  shows "\<exists>cs. dev_load_contacts DE db = (Ok cs, db) \<and> contact_manager c = new_with_contacts cs \<and> database c = db \<and>
    key_ids c = KeyManager_new (max_key (signed_pre_key_tbl db) + 1) (max_key (kyber_pre_key_tbl db) + 1) (max_key (pre_key_tbl db) + 1)"
  using assms(2)
  by (auto simp: login_def E device_ops bind_db_call bind_api_call bind_lift u32_add_def dev_get_key_ids_def split: if_splits)

section \<open>Registering\<close>

text \<open>Registration generates keys, which writes the tables of the keys only, and starts without a contact.\<close>

lemma device_stores [simp]:
  "save_pre_key (pre_key_store (ProtocolStore_new (device DE))) i r = argument_err (dev_save_pre_key DE i r)"
  "save_kyber_pre_key (kyber_pre_key_store (ProtocolStore_new (device DE))) i r = argument_err (dev_save_kyber_pre_key DE i r)"
  "save_signed_pre_key (signed_pre_key_store (ProtocolStore_new (device DE))) i r = argument_err (dev_save_signed_pre_key DE i r)"
  "get_identity_key_pair (identity_key_store (ProtocolStore_new (device DE))) = argument_err (dev_get_identity_key_pair DE)"
  "save_pre_key (ProtocolStore_pre_key P) i r = save_pre_key (pre_key_store P) i r"
  by (simp_all add: ProtocolStore_new_def DevicePreKeyStore_def DeviceKyberPreKeyStore_def DeviceSignedPreKeyStore_def
      DeviceIdentityKeyStore_def ProtocolStore_pre_key_def device_def)

abbreviation no_contacts :: "key_manager \<times> device_db \<Rightarrow> bool" where
  "no_contacts s \<equiv> contacts_tbl (snd s) = []"

abbreviation no_contacts_yet :: "key_manager \<times> device_db \<times> 'n \<Rightarrow> bool" where
  "no_contacts_yet s \<equiv> contacts_tbl (fst (snd s)) = []"

lemma argument_err_state [simp]: "snd (argument_err m db) = snd (m db)"
  by (simp add: argument_err_def case_prod_beta)

lemma keeps_on_fst [keeps]: "keeps no_contacts anything (on_fst m)"
  by (rule keeps_anyI) (simp add: on_fst_def case_prod_beta)

lemma keeps_on_snd [keeps]:
  "(\<And>db. contacts_tbl (snd (m db)) = contacts_tbl db) \<Longrightarrow> keeps no_contacts anything (on_snd w m)"
  by (rule keeps_anyI) (simp add: on_snd_def case_prod_beta)

lemma keeps_keys_call [keeps]: "keeps no_contacts anything m \<Longrightarrow> keeps no_contacts_yet anything (keys_call m)"
proof (rule keeps_anyI)
  fix s :: "key_manager \<times> device_db \<times> 'n"
  assume m: "keeps no_contacts anything m" and s: "no_contacts_yet s"
  have "no_contacts (snd (m (fst s, fst (snd s))))" by (rule keepsD(1) [OF m]) (simp add: s)
  then show "no_contacts_yet (snd (keys_call m s))" by (simp add: keys_call_def case_prod_beta)
qed

lemma keeps_db_call [keeps]:
  "(\<And>db. contacts_tbl (snd (m db)) = contacts_tbl db) \<Longrightarrow> keeps no_contacts_yet anything (on_snd w (db_call m))"
  by (rule keeps_anyI) (simp add: on_snd_def db_call_def case_prod_beta)

lemma keeps_api_call [keeps]: "keeps no_contacts_yet anything (on_snd w (api_call m))"
  by (rule keeps_anyI) (simp add: on_snd_def api_call_def case_prod_beta)

lemma key_tables [simp]:
  "contacts_tbl (snd (dev_save_pre_key DE i r db)) = contacts_tbl db"
  "contacts_tbl (snd (dev_save_kyber_pre_key DE i r db)) = contacts_tbl db"
  "contacts_tbl (snd (dev_save_signed_pre_key DE i r db)) = contacts_tbl db"
  "contacts_tbl (snd (dev_get_identity_key_pair DE db)) = contacts_tbl db"
  "contacts_tbl (snd (dev_insert_account_information DE u p pw db)) = contacts_tbl db"
  "contacts_tbl (snd (dev_insert_account_key_information DE kp reg db)) = contacts_tbl db"
  by (simp_all add: dev_save_pre_key_def dev_save_kyber_pre_key_def dev_save_signed_pre_key_def dev_get_identity_key_pair_def
      dev_insert_account_information_def dev_insert_account_key_information_def serialized_def bindS_def Let_def
      split: outcome.split)

lemma generate_keys_keep:
  fixes DE :: "'o device_env"
  defines "P \<equiv> ProtocolStore_new (device DE)"
  shows "keeps no_contacts anything (generate_pre_key G d (ProtocolStore_pre_key P))"
    and "keeps no_contacts anything (generate_kyber_pre_key G d (identity_key_store P) (kyber_pre_key_store P))"
    and "keeps no_contacts anything (generate_signed_pre_key G d now (identity_key_store P) (signed_pre_key_store P))"
  unfolding P_def generate_pre_key_def generate_kyber_pre_key_def generate_signed_pre_key_def Let_def
  by (intro keeps; simp)+

lemma generate_bundle_keeps:
  "keeps no_contacts anything (generate_key_bundle G d now (ProtocolStore_new (device DE)))"
proof -
  have "keeps no_contacts anything (bundle_loop G d (ProtocolStore_new (device DE)) n pks pqs)" for d n pks pqs
    by (induction n arbitrary: d pks pqs) (auto intro!: keeps generate_keys_keep)
  then show ?thesis unfolding generate_key_bundle_def by (intro keeps generate_keys_keep; simp)
qed

lemma register_result:
  fixes E :: "(device_db, 'n, 'o) client_env"
  assumes E: "ce_db E = device DE" and "register E G D now name phone al (k, empty_device_db, n) = (Ok c, ksn)"
  shows "contacts_tbl (database c) = [] \<and> contact_manager c = (\<lambda>_. None)"
proof -
  have keys: "keeps no_contacts_yet anything (on_snd DatabaseError (\<lambda>(s, n). case insert_account_key_information (ce_db E)
      (draw_aci_key_pair D) (draw_aci_registration_id D) s of (r, s') \<Rightarrow> (expect r, s', n)))"
    by (rule keeps_anyI) (simp add: on_snd_def case_prod_beta E device_def)
  have info: "contacts_tbl (snd (insert_account_information (ce_db E) u p pw db)) = contacts_tbl db" for u p pw db
    by (simp add: E device_def)
  have "keeps no_contacts_yet (\<lambda>c. contacts_tbl (database c) = [] \<and> contact_manager c = (\<lambda>_. None))
      (register E G D now name phone al)"
    unfolding register_def Let_def E
    by (intro keeps_bind_any [OF keys [unfolded E]] keeps_bind_any keeps_keys_call keeps_db_call keeps_api_call generate_keys_keep generate_bundle_keeps
        keeps_lift keeps_get info [unfolded E]) auto
  from keepsD(2) [OF this, of "(k, empty_device_db, n)"] assms(2) show ?thesis by (simp add: empty_device_db_def)
qed

end
