(* ===== verification/Client_Props.thy ===== *)
theory Client_Props
  imports Client_Inv
begin

text \<open>
  What holds of every client that registered or logged in and then did anything: the contacts in
  memory are those of the database. And what the code does with contacts that were removed.
\<close>

section \<open>Everything a client does\<close>

inductive client_moves :: "(device_db, 'n, 'o) client_env \<Rightarrow> ((device_db, 'n) client \<Rightarrow> (device_db, 'n) client) \<Rightarrow> bool"
  for E where
  add: "pred_option (list_all (\<lambda>d. d < 2 ^ 32)) device_ids \<Longrightarrow> client_moves E (snd \<circ> add_contact E al sid device_ids)"
| remove: "client_moves E (snd \<circ> remove_contact E al)"
| queue_contact: "client_moves E (snd \<circ> add_deniable_contact_and_queue_message E sid msg al)"
| send: "client_moves E (\<lambda>c. case send_message E now msg al c of None \<Rightarrow> c | Some (r, c') \<Rightarrow> c')"
| send_deniable: "client_moves E (snd \<circ> send_deniable_message E msg al)"
| receive: "client_moves E (\<lambda>c. case receive_message E c of None \<Rightarrow> c | Some (r, c') \<Rightarrow> c')"
| get_service_id: "client_moves E (snd \<circ> client_get_service_id_from_server E phone)"
| has_message: "client_moves E (snd \<circ> client_has_message E)"
| disconnect: "client_moves E (snd \<circ> client_disconnect E)"

text \<open>The program registers when there is no database yet, and logs in on the one there is.\<close>

inductive client_reachable :: "(device_db, 'n, 'o) client_env \<Rightarrow> 'o device_env \<Rightarrow> (device_db, 'n) client \<Rightarrow> bool"
  for E DE where
  login: "device_reachable DE db \<Longrightarrow> login E al (db, n) = (Ok c, sn) \<Longrightarrow> client_reachable E DE c"
| register: "register E G D now name phone al (KeyManager_default, empty_device_db, n) = (Ok c, ksn) \<Longrightarrow> client_reachable E DE c"
| step: "client_reachable E DE c \<Longrightarrow> client_moves E f \<Longrightarrow> client_reachable E DE (f c)"

lemma client_inv_move:
  assumes "client_moves E f" "client_ok E DE" "client_inv DE c"
  shows "client_inv DE (f c)"
  using assms(1)
proof cases
  case (add device_ids al sid)
  have "keeps (client_inv DE) anything (add_contact E al sid device_ids)"
    by (rule add_contact_keeps [OF assms(2)]) (use add(2) in simp)
  from keepsD(1) [OF this assms(3)] show ?thesis by (simp add: add(1))
next
  case (send now msg al)
  have "client_inv DE c'" if "send_message E now msg al c = Some (r, c')" for r c'
    using send_message_keeps [OF assms(2), of now msg al] assms(3) that by (auto simp: okeeps_def)
  then show ?thesis using assms(3) by (simp add: send split: option.split)
next
  case receive
  have "client_inv DE c'" if "receive_message E c = Some (r, c')" for r c'
    using receive_message_keeps [OF assms(2)] assms(3) that by (auto simp: okeeps_def)
  then show ?thesis using assms(3) by (simp add: receive split: option.split)
qed (use assms(3) keepsD(1) [OF remove_contact_keeps [OF client_okD(1,2) [OF assms(2)]]]
    keepsD(1) [OF queue_contact_keeps [OF assms(2)]] keepsD(1) [OF send_deniable_keeps [OF assms(2)]] in
    \<open>simp_all add: client_get_service_id_from_server_def client_has_message_def client_disconnect_def on_server_def
      client_inv_def case_prod_beta\<close>)

lemma client_inv_reachable: "client_reachable E DE c \<Longrightarrow> client_ok E DE \<Longrightarrow> client_inv DE c"
proof (induction rule: client_reachable.induct)
  case (login db al n c sn)
  note E = client_okD [OF login.prems]
  note inv = device_inv_reachable [OF login.hyps(1) E(2)]
  obtain cs where cs: "dev_load_contacts DE db = (Ok cs, db)" "contact_manager c = new_with_contacts cs" "database c = db"
    using login_result [OF E(1) login.hyps(2)] by blast
  from cs(1) have "map_outcome (read_contact DE) (map snd (contacts_tbl db)) = Ok cs" by (simp add: dev_load_contacts_def)
  from loaded_synced [OF device_invD(6,7) [OF inv] this] show ?case by (simp add: client_inv_def cs(2,3))
next
  case (register G D now name phone al n c ksn)
  have "contacts_tbl (database c) = [] \<and> contact_manager c = (\<lambda>_. None)"
    by (rule register_result [OF client_okD(1) [OF register.prems] register.hyps])
  then show ?case by (simp add: client_inv_def synced_def keys_unique_def each_row_def contacts_ok_empty)
qed (simp add: client_inv_move)

text \<open>The example is a client for which all of this holds.\<close>

lemma plain_client_ok: "client_ok plain_client_env plain_env"
proof -
  have "client_tables (snd (argument_err (dev_store_session plain_env a r) db)) = client_tables db"
    "client_tables (snd (argument_err (dev_store_deniable_session plain_env a r) db)) = client_tables db" for a r db
    by (simp_all add: dev_store_session_def dev_store_deniable_session_def serialized_def plain_env_def plain_codec_def client_tables_def)
  then have "sessions_local plain_client_env"
    by (simp add: sessions_local_def plain_client_env_def plain_sessions_def stores_for_def ProtocolStore_new_def Let_def
        DeviceSessionStore_def DeniableSessionStore_def device_def)
  moreover have "u32_devices plain_client_env"
    by (simp add: u32_devices_def plain_client_env_def accepting_api_def request_codec_def)
  ultimately show ?thesis by (simp add: client_ok_def plain_env_ok)
qed

text \<open>A reachable one: it logged in and added Bob.\<close>

definition client_with_bob :: "(device_db, denim_messages list) client" where
  "client_with_bob = snd (add_contact plain_client_env ''bob'' (Aci 7) None
     (plain_client registered_db\<lparr>key_ids := KeyManager_new 1 1 1\<rparr>))"

lemma client_with_bob_reachable: "client_reachable plain_client_env plain_env client_with_bob"
proof -
  have "device_reachable plain_env registered_db"
    unfolding registered_db_def
    using device_reachable.step [OF device_reachable.step [OF device_reachable.empty
        device_writes.account_keys [of plain_env "([1], [2])" 5]] device_writes.account_information [of plain_env 1 2 "''pw''"]]
    by simp
  from client_reachable.step [OF client_reachable.login [OF this registered_login]
      client_moves.add [of None plain_client_env "''bob''" "Aci 7"]]
  show ?thesis by (simp add: o_def client_with_bob_def)
qed

lemma registered_nicknames: "nicknames_tbl registered_db = []"
  by (simp add: registered_db_def dev_insert_account_information_def dev_insert_account_key_information_def empty_device_db_def)

lemma client_with_bob_eq:
  "contact_manager client_with_bob (Aci 7) = Some (contact_new (Aci 7))"
  "nicknames_tbl (database client_with_bob) = [(1, ''bob'', service_id_string std_ids (Aci 7))]"
  by (simp_all add: client_with_bob_def add_contact_def update_contact_def get_new_device_ids_def initialize_sessions_from_bundle_def
      bindS_def returnS_def on_contacts_eq on_database_def on_server_def on_stores_def manager_get_contact_def manager_add_contact_def
      manager_update_contact_def ok_or_def device_ops dev_store_contact_def dev_insert_service_id_for_nickname_def
      dev_get_service_id_by_nickname_def query_row_def insert_row_def new_rowid_def registered_nicknames plain_client_env_def
      accepting_api_def Let_def contact_new_def)

section \<open>Properties\<close>

text \<open>
  C35 (invariant). Whatever a client did since it registered or logged in (adding and removing contacts, sending,
  receiving, also where it failed half way), its contacts in memory are exactly those of its
  database: loading them succeeds, and a client that logs in on the database has the same ones.
\<close>

theorem contacts_survive_login:
  assumes "client_reachable E DE c" "client_ok E DE"
  shows "(\<exists>cs. dev_load_contacts DE (database c) = (Ok cs, database c) \<and> new_with_contacts cs = contact_manager c) \<and>
    (\<forall>al n c' sn. login E al (database c, n) = (Ok c', sn) \<longrightarrow> contact_manager c' = contact_manager c)"
proof -
  have "synced DE (contact_manager c) (contacts_tbl (database c))"
    using client_inv_reachable [OF assms] by (simp add: client_inv_def)
  from synced_loads [OF this client_okD(2) [OF assms(2)]] obtain cs where
    cs: "dev_load_contacts DE (database c) = (Ok cs, database c)" "new_with_contacts cs = contact_manager c" by blast
  moreover have "contact_manager c' = contact_manager c" if "login E al (database c, n) = (Ok c', sn)" for al n c' sn
    using login_result [OF client_okD(1) [OF assms(2)] that] cs by auto
  ultimately show ?thesis by blast
qed

theorem contacts_survive_login_witness:
  "\<exists>cs. dev_load_contacts plain_env (database client_with_bob) = (Ok cs, database client_with_bob) \<and>
    new_with_contacts cs = contact_manager client_with_bob"
  using contacts_survive_login [OF client_with_bob_reachable plain_client_ok] by blast

text \<open>
  C38 (error). A contact that was removed cannot be added again. Removing it succeeds and leaves its
  nickname in the database, so the next \<open>add_contact\<close>, under whatever nickname, fails on the unique
  service id; it has already put an empty contact in the memory and the database, so one more call
  returns at once, and the contact stays without a device.
\<close>

theorem removed_contact_not_readded:
  assumes E: "client_ok E DE"
    and nick: "fst (dev_get_service_id_by_nickname DE al (database c)) = Ok sid"
      "service_id_string (dv_ids DE) sid \<in> set (map (snd \<circ> snd) (nicknames_tbl (database c)))"
    and known: "contact_manager c sid \<noteq> None"
  shows "\<exists>c1 c2. remove_contact E al c = (Ok (), c1) \<and> contact_manager c1 sid = None \<and>
    add_contact E al1 sid ids1 c1 =
      (Err (DatabaseError (InvalidArgument ''UNIQUE constraint failed: Nicknames.service_id'')), c2) \<and>
    add_contact E al2 sid ids2 c2 = (Ok (), c2) \<and> contact_manager c2 sid = Some (contact_new sid)"
proof -
  note E = client_okD [OF E]
  let ?s = "service_id_string (dv_ids DE) sid"
  define c1 where "c1 = c\<lparr>contact_manager := (contact_manager c)(sid := None),
    database := snd (dev_remove_contact DE sid (database c))\<rparr>"
  define c2 where "c2 = c1\<lparr>contact_manager := (contact_manager c1)(sid \<mapsto> contact_new sid),
    database := snd (dev_store_contact DE (contact_new sid) (database c1))\<rparr>"
  have get: "dev_get_service_id_by_nickname DE al (database c) = (Ok sid, database c)"
    using nick(1) by (simp add: dev_get_service_id_by_nickname_def)
  have removed: "remove_contact E al c = (Ok (), c1)"
    using known by (simp add: remove_contact_def E(1) device_ops bindS_def on_database_def get on_contacts_eq
        manager_remove_contact_def dev_remove_contact_def c1_def)
  have nicknames: "?s \<in> set (map (snd \<circ> snd) (nicknames_tbl (database c2)))"
    using nick(2) by (simp add: c1_def c2_def dev_remove_contact_def dev_store_contact_def Let_def)
  have first: "add_contact E al1 sid ids1 c1 =
      (Err (DatabaseError (InvalidArgument ''UNIQUE constraint failed: Nicknames.service_id'')), c2)"
  proof -
    have stored: "on_database (dev_store_contact DE (contact_new sid)) (c1\<lparr>contact_manager := (contact_manager c1)(sid \<mapsto> contact_new sid)\<rparr>) =
        ((Ok () :: (signal_client_error, unit) outcome), c2)"
      by (simp add: on_database_def c2_def dev_store_contact_def Let_def)
    have "dev_insert_service_id_for_nickname DE al1 sid (database c2) =
        (Err (InvalidArgument ''UNIQUE constraint failed: Nicknames.service_id''), database c2)"
      using nicknames by (simp add: dev_insert_service_id_for_nickname_def Let_def)
    then have "on_database (dev_insert_service_id_for_nickname DE al1 sid) c2 =
        ((Err (DatabaseError (InvalidArgument ''UNIQUE constraint failed: Nicknames.service_id'')) :: (signal_client_error, unit) outcome), c2)"
      by (simp add: on_database_def)
    moreover have "contact_manager c1 sid = None" by (simp add: c1_def)
    ultimately show ?thesis
      by (simp add: add_contact_def manager_get_contact_def manager_add_contact_def ok_or_def bindS_def on_contacts_eq E(1) device_ops
          stored)
  qed
  have "add_contact E al2 sid ids2 c2 = (Ok (), c2)"
    by (simp add: add_contact_def manager_get_contact_def ok_or_def c2_def)
  with removed first show ?thesis by (intro exI [of _ c1] exI [of _ c2]) (simp add: c1_def c2_def)
qed

theorem removed_contact_not_readded_witness:
  "\<exists>c1 c2. remove_contact plain_client_env ''bob'' client_with_bob = (Ok (), c1) \<and>
    add_contact plain_client_env ''bobby'' (Aci 7) None c1 =
      (Err (DatabaseError (InvalidArgument ''UNIQUE constraint failed: Nicknames.service_id'')), c2) \<and>
    contact_manager c2 (Aci 7) = Some (contact_new (Aci 7))"
proof -
  have "fst (dev_get_service_id_by_nickname plain_env ''bob'' (database client_with_bob)) = Ok (Aci 7)"
    by (simp add: dev_get_service_id_by_nickname_def client_with_bob_eq query_row_def ok_or_def)
  then show ?thesis
    using removed_contact_not_readded [OF plain_client_ok, of "''bob''" client_with_bob "Aci 7" "''bobby''" None "''bobby''" None]
    by (simp add: client_with_bob_eq) blast
qed

end
