(* ===== verification/Client_Key_Props.thy ===== *)
theory Client_Key_Props
  imports Client_Inv
begin

text \<open>
  The keys that a client generates: whatever it publishes it can read from its database again, and after
  a login no key is overwritten.
\<close>

section \<open>What is relied on from libsignal\<close>

text \<open>Generated keys carry their id, whatever was drawn for them, and they can be serialised.\<close>

definition generation_ok :: "'o device_env \<Rightarrow> 'o key_generation \<Rightarrow> nat \<Rightarrow> 'o \<Rightarrow> bool" where
  "generation_ok DE G now sk \<longleftrightarrow>
     (\<forall>d i. is_ok (obj_serialize (pre_key_record (dv_lib DE)) (one_time_record G d i)) \<and>
       (\<exists>u. upload_one_time G (one_time_record G d i) = Ok u \<and> upk_key_id u = i)) \<and>
     (\<forall>d i. \<exists>r u. kyber_record G d i sk = Ok r \<and> is_ok (obj_serialize (kyber_pre_key_record (dv_lib DE)) r) \<and>
       upload_signed G r = Ok u \<and> usk_key_id u = i) \<and>
     (\<forall>d i. \<exists>r u. signed_record G d i now sk = Ok r \<and> is_ok (obj_serialize (signed_pre_key_record (dv_lib DE)) r) \<and>
       upload_signed G r = Ok u \<and> usk_key_id u = i)"

section \<open>One key\<close>

text \<open>What the client reads under an id.\<close>

definition own_pre_key :: "'o device_env \<Rightarrow> device_db \<Rightarrow> nat \<Rightarrow> (signal_protocol_error, 'o) outcome" where
  "own_pre_key DE db i = fst (dev_get_pre_key DE i db)"

definition own_kyber_key :: "'o device_env \<Rightarrow> device_db \<Rightarrow> nat \<Rightarrow> (signal_protocol_error, 'o) outcome" where
  "own_kyber_key DE db i = fst (dev_get_kyber_pre_key DE i db)"

definition own_signed_key :: "'o device_env \<Rightarrow> device_db \<Rightarrow> nat \<Rightarrow> (signal_protocol_error, 'o) outcome" where
  "own_signed_key DE db i = fst (dev_get_signed_pre_key DE i db)"

lemmas own_key_defs = own_pre_key_def own_kyber_key_def own_signed_key_def dev_get_pre_key_def dev_get_kyber_pre_key_def
  dev_get_signed_pre_key_def read_record_def

lemma read_back:
  assumes "lib_ok DE" "object_ok C" "obj_serialize C r = Ok bs"
  shows "b64_decode (dv_base64 DE) (b64_encode (dv_base64 DE) bs) = Some bs" "obj_deserialize C bs = Ok r"
  using assms(2,3) by (simp_all add: base64_laws.decode_encode [OF lib_okD(1) [OF assms(1)]] object_ok_def)

lemma get_new_key_id_eq:
  "key_id t km + 1 < 2 ^ 32 \<Longrightarrow> get_new_key_id t km = (Ok (key_id t km), set_key_id t (key_id t km + 1) km)"
  by (simp add: get_new_key_id_def u32_add_def)

lemma on_fst_new_id [simp]:
  "key_id t km + 1 < 2 ^ 32 \<Longrightarrow> on_fst (get_new_key_id t) (km, db) = (Ok (key_id t km), set_key_id t (key_id t km + 1) km, db)"
  by (simp add: on_fst_def get_new_key_id_eq)

lemma on_snd_argument [simp]: "m b = (Ok x, b') \<Longrightarrow> on_snd w (argument_err m) (a, b) = (Ok x, a, b')"
  by (simp add: on_snd_def argument_err_def)

text \<open>Storing a key under a new id, and what is read afterwards.\<close>

lemma pre_key_saved:
  assumes lib: "lib_ok DE" and ok: "is_ok (obj_serialize (pre_key_record (dv_lib DE)) r)"
  obtains db' where "dev_save_pre_key DE i r db = (Ok (), db')" "\<And>j. own_pre_key DE db' j = (if j = i then Ok r else own_pre_key DE db j)"
    "own_kyber_key DE db' = own_kyber_key DE db" "own_signed_key DE db' = own_signed_key DE db" "identity_keys_tbl db' = identity_keys_tbl db"
proof -
  obtain bs where bs: "obj_serialize (pre_key_record (dv_lib DE)) r = Ok bs"
    using ok by (cases "obj_serialize (pre_key_record (dv_lib DE)) r") auto
  note readback = read_back [OF lib lib_okD(5) [OF lib] bs]
  show ?thesis
    by (rule that [of "db\<lparr>pre_key_tbl := upsert_row i (b64_encode (dv_base64 DE) bs) (pre_key_tbl db)\<rparr>"])
      (simp_all add: dev_save_pre_key_def serialized_def bs own_key_defs fun_eq_iff row_simps query_row_def decode_base64_def ok_or_def
        readback as_argument_def)
qed

lemma kyber_key_saved:
  assumes lib: "lib_ok DE" and ok: "is_ok (obj_serialize (kyber_pre_key_record (dv_lib DE)) r)"
  obtains db' where "dev_save_kyber_pre_key DE i r db = (Ok (), db')" "\<And>j. own_kyber_key DE db' j = (if j = i then Ok r else own_kyber_key DE db j)"
    "own_pre_key DE db' = own_pre_key DE db" "own_signed_key DE db' = own_signed_key DE db" "identity_keys_tbl db' = identity_keys_tbl db"
proof -
  obtain bs where bs: "obj_serialize (kyber_pre_key_record (dv_lib DE)) r = Ok bs"
    using ok by (cases "obj_serialize (kyber_pre_key_record (dv_lib DE)) r") auto
  note readback = read_back [OF lib lib_okD(7) [OF lib] bs]
  show ?thesis
    by (rule that [of "db\<lparr>kyber_pre_key_tbl := upsert_row i (b64_encode (dv_base64 DE) bs) (kyber_pre_key_tbl db)\<rparr>"])
      (simp_all add: dev_save_kyber_pre_key_def serialized_def bs own_key_defs fun_eq_iff row_simps query_row_def decode_base64_def
        ok_or_def readback decode_object_def)
qed

lemma signed_key_saved:
  assumes lib: "lib_ok DE" and ok: "is_ok (obj_serialize (signed_pre_key_record (dv_lib DE)) r)"
  obtains db' where "dev_save_signed_pre_key DE i r db = (Ok (), db')" "\<And>j. own_signed_key DE db' j = (if j = i then Ok r else own_signed_key DE db j)"
    "own_pre_key DE db' = own_pre_key DE db" "own_kyber_key DE db' = own_kyber_key DE db" "identity_keys_tbl db' = identity_keys_tbl db"
proof -
  obtain bs where bs: "obj_serialize (signed_pre_key_record (dv_lib DE)) r = Ok bs"
    using ok by (cases "obj_serialize (signed_pre_key_record (dv_lib DE)) r") auto
  note readback = read_back [OF lib lib_okD(6) [OF lib] bs]
  show ?thesis
    by (rule that [of "db\<lparr>signed_pre_key_tbl := upsert_row i (b64_encode (dv_base64 DE) bs) (signed_pre_key_tbl db)\<rparr>"])
      (simp_all add: dev_save_signed_pre_key_def serialized_def bs own_key_defs fun_eq_iff row_simps query_row_def decode_base64_def
        ok_or_def readback as_argument_def)
qed

section \<open>The bundle\<close>

lemma identity_same:
  "dev_get_identity_key_pair DE db = (Ok kp, db) \<Longrightarrow> identity_keys_tbl db' = identity_keys_tbl db \<Longrightarrow>
    dev_get_identity_key_pair DE db' = (Ok kp, db')"
  by (simp add: dev_get_identity_key_pair_def)

text \<open>The published key is that of the record which the client reads under the id of the key.\<close>

definition keeps_pre_key :: "'o device_env \<Rightarrow> 'o key_generation \<Rightarrow> device_db \<Rightarrow> upload_pre_key \<Rightarrow> bool" where
  "keeps_pre_key DE G db k \<longleftrightarrow> (\<exists>r. own_pre_key DE db (upk_key_id k) = Ok r \<and> upload_one_time G r = Ok k)"

definition keeps_kyber_key :: "'o device_env \<Rightarrow> 'o key_generation \<Rightarrow> device_db \<Rightarrow> upload_signed_pre_key \<Rightarrow> bool" where
  "keeps_kyber_key DE G db k \<longleftrightarrow> (\<exists>r. own_kyber_key DE db (usk_key_id k) = Ok r \<and> upload_signed G r = Ok k)"

definition keeps_signed_key :: "'o device_env \<Rightarrow> 'o key_generation \<Rightarrow> device_db \<Rightarrow> upload_signed_pre_key \<Rightarrow> bool" where
  "keeps_signed_key DE G db k \<longleftrightarrow> (\<exists>r. own_signed_key DE db (usk_key_id k) = Ok r \<and> upload_signed G r = Ok k)"

lemma generate_pre_key_device:
  assumes "lib_ok DE" "generation_ok DE G now sk" "one_time_id km + 1 < 2 ^ 32"
  obtains db' r u where "generate_pre_key G d (ProtocolStore_pre_key (ProtocolStore_new (device DE))) (km, db) =
      (Ok r, km\<lparr>one_time_id := one_time_id km + 1\<rparr>, db')"
    "upload_one_time G r = Ok u" "upk_key_id u = one_time_id km" "keeps_pre_key DE G db' u"
    "\<And>j. j \<noteq> one_time_id km \<Longrightarrow> own_pre_key DE db' j = own_pre_key DE db j"
    "own_kyber_key DE db' = own_kyber_key DE db" "own_signed_key DE db' = own_signed_key DE db" "identity_keys_tbl db' = identity_keys_tbl db"
proof -
  let ?i = "one_time_id km" let ?r = "one_time_record G d ?i"
  obtain u where u: "upload_one_time G ?r = Ok u" "upk_key_id u = ?i" "is_ok (obj_serialize (pre_key_record (dv_lib DE)) ?r)"
    using assms(2) unfolding generation_ok_def by blast
  from pre_key_saved [OF assms(1) u(3), of ?i db] obtain db' where db':
    "dev_save_pre_key DE ?i ?r db = (Ok (), db')" "\<And>j. own_pre_key DE db' j = (if j = ?i then Ok ?r else own_pre_key DE db j)"
    "own_kyber_key DE db' = own_kyber_key DE db" "own_signed_key DE db' = own_signed_key DE db" "identity_keys_tbl db' = identity_keys_tbl db"
    by blast
  have "generate_pre_key G d (ProtocolStore_pre_key (ProtocolStore_new (device DE))) (km, db) =
      (Ok ?r, km\<lparr>one_time_id := ?i + 1\<rparr>, db')"
    using assms(3) db'(1) by (simp add: generate_pre_key_def Let_def)
  with u db' show ?thesis by (intro that [of ?r db' u]) (auto simp: keeps_pre_key_def)
qed

lemma generate_kyber_device:
  assumes "lib_ok DE" "generation_ok DE G now (snd kp)" "kyber_id km + 1 < 2 ^ 32" "dev_get_identity_key_pair DE db = (Ok kp, db)"
  obtains db' r u where "generate_kyber_pre_key G d (identity_key_store (ProtocolStore_new (device DE)))
      (kyber_pre_key_store (ProtocolStore_new (device DE))) (km, db) = (Ok r, km\<lparr>kyber_id := kyber_id km + 1\<rparr>, db')"
    "upload_signed G r = Ok u" "usk_key_id u = kyber_id km" "keeps_kyber_key DE G db' u"
    "\<And>j. j \<noteq> kyber_id km \<Longrightarrow> own_kyber_key DE db' j = own_kyber_key DE db j"
    "own_pre_key DE db' = own_pre_key DE db" "own_signed_key DE db' = own_signed_key DE db" "identity_keys_tbl db' = identity_keys_tbl db"
proof -
  let ?i = "kyber_id km"
  obtain r u where u: "kyber_record G d ?i (snd kp) = Ok r" "upload_signed G r = Ok u" "usk_key_id u = ?i"
    "is_ok (obj_serialize (kyber_pre_key_record (dv_lib DE)) r)"
    using assms(2) unfolding generation_ok_def by blast
  from kyber_key_saved [OF assms(1) u(4), of ?i db] obtain db' where db':
    "dev_save_kyber_pre_key DE ?i r db = (Ok (), db')" "\<And>j. own_kyber_key DE db' j = (if j = ?i then Ok r else own_kyber_key DE db j)"
    "own_pre_key DE db' = own_pre_key DE db" "own_signed_key DE db' = own_signed_key DE db" "identity_keys_tbl db' = identity_keys_tbl db"
    by blast
  have "generate_kyber_pre_key G d (identity_key_store (ProtocolStore_new (device DE)))
      (kyber_pre_key_store (ProtocolStore_new (device DE))) (km, db) = (Ok r, km\<lparr>kyber_id := ?i + 1\<rparr>, db')"
    using assms(3,4) db'(1) u(1) by (simp add: generate_kyber_pre_key_def)
  with u db' show ?thesis by (intro that [of r db' u]) (auto simp: keeps_kyber_key_def)
qed

lemma generate_signed_device:
  assumes "lib_ok DE" "generation_ok DE G now (snd kp)" "signed_id km + 1 < 2 ^ 32" "dev_get_identity_key_pair DE db = (Ok kp, db)"
  obtains db' r u where "generate_signed_pre_key G d now (identity_key_store (ProtocolStore_new (device DE)))
      (signed_pre_key_store (ProtocolStore_new (device DE))) (km, db) = (Ok r, km\<lparr>signed_id := signed_id km + 1\<rparr>, db')"
    "upload_signed G r = Ok u" "usk_key_id u = signed_id km" "keeps_signed_key DE G db' u"
    "\<And>j. j \<noteq> signed_id km \<Longrightarrow> own_signed_key DE db' j = own_signed_key DE db j"
    "own_pre_key DE db' = own_pre_key DE db" "own_kyber_key DE db' = own_kyber_key DE db" "identity_keys_tbl db' = identity_keys_tbl db"
proof -
  let ?i = "signed_id km"
  obtain r u where u: "signed_record G d ?i now (snd kp) = Ok r" "upload_signed G r = Ok u" "usk_key_id u = ?i"
    "is_ok (obj_serialize (signed_pre_key_record (dv_lib DE)) r)"
    using assms(2) unfolding generation_ok_def by blast
  from signed_key_saved [OF assms(1) u(4), of ?i db] obtain db' where db':
    "dev_save_signed_pre_key DE ?i r db = (Ok (), db')" "\<And>j. own_signed_key DE db' j = (if j = ?i then Ok r else own_signed_key DE db j)"
    "own_pre_key DE db' = own_pre_key DE db" "own_kyber_key DE db' = own_kyber_key DE db" "identity_keys_tbl db' = identity_keys_tbl db"
    by blast
  have "generate_signed_pre_key G d now (identity_key_store (ProtocolStore_new (device DE)))
      (signed_pre_key_store (ProtocolStore_new (device DE))) (km, db) = (Ok r, km\<lparr>signed_id := ?i + 1\<rparr>, db')"
    using assms(3,4) db'(1) u(1) by (simp add: generate_signed_pre_key_def)
  with u db' show ?thesis by (intro that [of r db' u]) (auto simp: keeps_signed_key_def)
qed

lemma bundle_loop_device:
  assumes lib: "lib_ok DE" and gen: "generation_ok DE G now (snd kp)"
    and "dev_get_identity_key_pair DE db = (Ok kp, db)" "one_time_id km + n < 2 ^ 32" "kyber_id km + n < 2 ^ 32"
  shows "\<exists>pks' pqs' db'. bundle_loop G d (ProtocolStore_new (device DE)) n pks pqs (km, db) =
      (Ok (pks @ pks', pqs @ pqs'), km\<lparr>one_time_id := one_time_id km + n, kyber_id := kyber_id km + n\<rparr>, db') \<and>
    map upk_key_id pks' = [one_time_id km..<one_time_id km + n] \<and> map usk_key_id pqs' = [kyber_id km..<kyber_id km + n] \<and>
    list_all (keeps_pre_key DE G db') pks' \<and> list_all (keeps_kyber_key DE G db') pqs' \<and>
    (\<forall>j. \<not> (one_time_id km \<le> j \<and> j < one_time_id km + n) \<longrightarrow> own_pre_key DE db' j = own_pre_key DE db j) \<and>
    (\<forall>j. \<not> (kyber_id km \<le> j \<and> j < kyber_id km + n) \<longrightarrow> own_kyber_key DE db' j = own_kyber_key DE db j) \<and>
    own_signed_key DE db' = own_signed_key DE db \<and> identity_keys_tbl db' = identity_keys_tbl db"
  using assms(3-)
proof (induction n arbitrary: d km db pks pqs)
  case 0
  then show ?case by auto
next
  case (Suc n)
  let ?P = "ProtocolStore_new (device DE)"
  have o1: "one_time_id km + 1 < 2 ^ 32" using Suc.prems(2) by simp
  obtain db1 r1 u1 where one:
    "generate_pre_key G d (ProtocolStore_pre_key ?P) (km, db) = (Ok r1, km\<lparr>one_time_id := one_time_id km + 1\<rparr>, db1)"
    "upload_one_time G r1 = Ok u1" "upk_key_id u1 = one_time_id km" "keeps_pre_key DE G db1 u1"
    "\<And>j. j \<noteq> one_time_id km \<Longrightarrow> own_pre_key DE db1 j = own_pre_key DE db j"
    "own_kyber_key DE db1 = own_kyber_key DE db" "own_signed_key DE db1 = own_signed_key DE db" "identity_keys_tbl db1 = identity_keys_tbl db"
    by (rule generate_pre_key_device [OF lib gen o1]) (rule that)
  define km1 where "km1 = km\<lparr>one_time_id := one_time_id km + 1\<rparr>"
  have k1: "kyber_id km1 + 1 < 2 ^ 32" and km1: "kyber_id km1 = kyber_id km" using Suc.prems(3) by (simp_all add: km1_def)
  obtain db2 r2 u2 where two:
    "generate_kyber_pre_key G (d + 1) (identity_key_store ?P) (kyber_pre_key_store ?P) (km1, db1) =
      (Ok r2, km1\<lparr>kyber_id := kyber_id km + 1\<rparr>, db2)"
    "upload_signed G r2 = Ok u2" "usk_key_id u2 = kyber_id km" "keeps_kyber_key DE G db2 u2"
    "\<And>j. j \<noteq> kyber_id km \<Longrightarrow> own_kyber_key DE db2 j = own_kyber_key DE db1 j"
    "own_pre_key DE db2 = own_pre_key DE db1" "own_signed_key DE db2 = own_signed_key DE db1" "identity_keys_tbl db2 = identity_keys_tbl db1"
    by (rule generate_kyber_device [OF lib gen k1 identity_same [OF Suc.prems(1) one(8)], unfolded km1]) (rule that)
  let ?km2 = "km1\<lparr>kyber_id := kyber_id km + 1\<rparr>"
  have id2: "dev_get_identity_key_pair DE db2 = (Ok kp, db2)" by (rule identity_same [OF Suc.prems(1)]) (simp add: one(8) two(8))
  have "one_time_id ?km2 + n < 2 ^ 32" "kyber_id ?km2 + n < 2 ^ 32" using Suc.prems(2,3) by (simp_all add: km1_def)
  from Suc.IH [OF id2 this, of "d + 2" "pks @ [u1]" "pqs @ [u2]"] obtain pks' pqs' db' where rest:
    "bundle_loop G (d + 2) ?P n (pks @ [u1]) (pqs @ [u2]) (?km2, db2) = (Ok (pks @ u1 # pks', pqs @ u2 # pqs'),
      km\<lparr>one_time_id := one_time_id km + Suc n, kyber_id := kyber_id km + Suc n\<rparr>, db')"
    "map upk_key_id pks' = [Suc (one_time_id km)..<one_time_id km + Suc n]" "map usk_key_id pqs' = [Suc (kyber_id km)..<kyber_id km + Suc n]"
    "list_all (keeps_pre_key DE G db') pks'" "list_all (keeps_kyber_key DE G db') pqs'"
    "\<And>j. \<not> (Suc (one_time_id km) \<le> j \<and> j < one_time_id km + Suc n) \<Longrightarrow> own_pre_key DE db' j = own_pre_key DE db2 j"
    "\<And>j. \<not> (Suc (kyber_id km) \<le> j \<and> j < kyber_id km + Suc n) \<Longrightarrow> own_kyber_key DE db' j = own_kyber_key DE db2 j"
    "own_signed_key DE db' = own_signed_key DE db2" "identity_keys_tbl db' = identity_keys_tbl db2" by (auto simp: km1_def)
  have run: "bundle_loop G d ?P (Suc n) pks pqs (km, db) = (Ok (pks @ u1 # pks', pqs @ u2 # pqs'),
      km\<lparr>one_time_id := one_time_id km + Suc n, kyber_id := kyber_id km + Suc n\<rparr>, db')"
    using one(1,2) two(1,2) rest(1) by (simp add: expect_def km1_def)
  have ids: "map upk_key_id (u1 # pks') = [one_time_id km..<one_time_id km + Suc n]"
    "map usk_key_id (u2 # pqs') = [kyber_id km..<kyber_id km + Suc n]"
    using rest(2,3) one(3) two(3) by (simp_all add: upt_conv_Cons del: upt_Suc)
  have first: "keeps_pre_key DE G db' u1" "keeps_kyber_key DE G db' u2"
    using one(4) two(4) by (simp_all add: keeps_pre_key_def keeps_kyber_key_def rest(6,7) one(3) two(3,6))
  have frame: "own_pre_key DE db' j = own_pre_key DE db j" if "\<not> (one_time_id km \<le> j \<and> j < one_time_id km + Suc n)" for j
  proof -
    have "j \<noteq> one_time_id km" "\<not> (Suc (one_time_id km) \<le> j \<and> j < one_time_id km + Suc n)" using that by auto
    from rest(6) [OF this(2)] one(5) [OF this(1)] show ?thesis by (simp only: two(6))
  qed
  have frame': "own_kyber_key DE db' j = own_kyber_key DE db j" if "\<not> (kyber_id km \<le> j \<and> j < kyber_id km + Suc n)" for j
  proof -
    have "j \<noteq> kyber_id km" "\<not> (Suc (kyber_id km) \<le> j \<and> j < kyber_id km + Suc n)" using that by auto
    from rest(7) [OF this(2)] two(5) [OF this(1)] show ?thesis by (simp only: one(6))
  qed
  show ?case
    using run ids first rest(4,5) frame frame' rest(8,9) two(7,8) one(7,8)
    by (intro exI [of _ "u1 # pks'"] exI [of _ "u2 # pqs'"] exI [of _ db']) simp
qed

lemma generate_bundle_device:
  assumes lib: "lib_ok DE" and gen: "generation_ok DE G now (snd kp)" and kp: "dev_get_identity_key_pair DE db = (Ok kp, db)"
    and room: "one_time_id km + 100 < 2 ^ 32" "kyber_id km + 101 < 2 ^ 32" "signed_id km + 1 < 2 ^ 32"
  obtains pks pqs spk lr km' db' where "generate_key_bundle G d now (ProtocolStore_new (device DE)) (km, db) =
      (Ok \<lparr>skr_pre_key = Some pks, skr_signed_pre_key = Some spk, skr_pq_pre_key = Some pqs, skr_pq_last_resort_pre_key = Some lr\<rparr>, km', db')"
    "map upk_key_id pks = [one_time_id km..<one_time_id km + 100]" "map usk_key_id pqs = [kyber_id km..<kyber_id km + 100]"
    "usk_key_id lr = kyber_id km + 100" "usk_key_id spk = signed_id km"
    "list_all (keeps_pre_key DE G db') pks" "list_all (keeps_kyber_key DE G db') (lr # pqs)" "keeps_signed_key DE G db' spk"
    "\<And>j. j < one_time_id km \<Longrightarrow> own_pre_key DE db' j = own_pre_key DE db j"
    "\<And>j. j < kyber_id km \<Longrightarrow> own_kyber_key DE db' j = own_kyber_key DE db j"
    "\<And>j. j < signed_id km \<Longrightarrow> own_signed_key DE db' j = own_signed_key DE db j"
proof -
  let ?P = "ProtocolStore_new (device DE)"
  define km1 where "km1 = km\<lparr>one_time_id := one_time_id km + 100, kyber_id := kyber_id km + 100\<rparr>"
  define km2 where "km2 = km1\<lparr>signed_id := signed_id km1 + 1\<rparr>"
  note kms = km1_def km2_def
  have "kyber_id km + 100 < 2 ^ 32" using room by simp
  from bundle_loop_device [OF lib gen kp room(1) this, of d "[]" "[]"] obtain pks pqs db1 where loop:
    "bundle_loop G d ?P 100 [] [] (km, db) = (Ok (pks, pqs), km1, db1)"
    "map upk_key_id pks = [one_time_id km..<one_time_id km + 100]" "map usk_key_id pqs = [kyber_id km..<kyber_id km + 100]"
    "list_all (keeps_pre_key DE G db1) pks" "list_all (keeps_kyber_key DE G db1) pqs"
    "\<And>j. \<not> (one_time_id km \<le> j \<and> j < one_time_id km + 100) \<Longrightarrow> own_pre_key DE db1 j = own_pre_key DE db j"
    "\<And>j. \<not> (kyber_id km \<le> j \<and> j < kyber_id km + 100) \<Longrightarrow> own_kyber_key DE db1 j = own_kyber_key DE db j"
    "own_signed_key DE db1 = own_signed_key DE db" "identity_keys_tbl db1 = identity_keys_tbl db" by (auto simp: km1_def)
  have s: "signed_id km1 + 1 < 2 ^ 32" using room by (simp add: km1_def)
  obtain db2 r2 spk where signed_key:
    "generate_signed_pre_key G (d + 200) now (identity_key_store ?P) (signed_pre_key_store ?P) (km1, db1) =
      (Ok r2, km1\<lparr>signed_id := signed_id km1 + 1\<rparr>, db2)"
    "upload_signed G r2 = Ok spk" "usk_key_id spk = signed_id km1" "keeps_signed_key DE G db2 spk"
    "\<And>j. j \<noteq> signed_id km1 \<Longrightarrow> own_signed_key DE db2 j = own_signed_key DE db1 j"
    "own_pre_key DE db2 = own_pre_key DE db1" "own_kyber_key DE db2 = own_kyber_key DE db1" "identity_keys_tbl db2 = identity_keys_tbl db1"
    by (rule generate_signed_device [OF lib gen s identity_same [OF kp loop(9)]]) (rule that)
  have k: "kyber_id km2 + 1 < 2 ^ 32" using room by (simp add: kms)
  have same: "identity_keys_tbl db2 = identity_keys_tbl db" by (simp add: signed_key(8) loop(9))
  obtain db3 r3 lr where kyber:
    "generate_kyber_pre_key G (d + 201) (identity_key_store ?P) (kyber_pre_key_store ?P) (km2, db2) =
      (Ok r3, km2\<lparr>kyber_id := kyber_id km2 + 1\<rparr>, db3)"
    "upload_signed G r3 = Ok lr" "usk_key_id lr = kyber_id km2" "keeps_kyber_key DE G db3 lr"
    "\<And>j. j \<noteq> kyber_id km2 \<Longrightarrow> own_kyber_key DE db3 j = own_kyber_key DE db2 j"
    "own_pre_key DE db3 = own_pre_key DE db2" "own_signed_key DE db3 = own_signed_key DE db2"
    by (rule generate_kyber_device [OF lib gen k identity_same [OF kp same]]) (rule that)
  have ids: "kyber_id km2 = kyber_id km + 100" "signed_id km1 = signed_id km" by (simp_all add: kms)
  have pre: "keeps_pre_key DE G db3 = keeps_pre_key DE G db1" by (simp add: fun_eq_iff keeps_pre_key_def kyber(6) signed_key(6))
  have "keeps_kyber_key DE G db3 q" if q: "q \<in> set pqs" for q
  proof -
    have "usk_key_id q \<in> {kyber_id km..<kyber_id km + 100}" using imageI [OF q, of usk_key_id] arg_cong [OF loop(3), of set] by simp
    then have "usk_key_id q \<noteq> kyber_id km2" by (simp add: ids)
    then show ?thesis
      using loop(5) q by (simp add: list_all_iff keeps_kyber_key_def kyber(5) signed_key(7))
  qed
  then have kyb: "list_all (keeps_kyber_key DE G db3) (lr # pqs)" using kyber(4) by (simp add: list_all_iff)
  have sgn: "keeps_signed_key DE G db3 spk" using signed_key(4) by (simp add: keeps_signed_key_def kyber(7))
  show ?thesis
  proof (rule that)
    show "generate_key_bundle G d now ?P (km, db) =
      (Ok \<lparr>skr_pre_key = Some pks, skr_signed_pre_key = Some spk, skr_pq_pre_key = Some pqs, skr_pq_last_resort_pre_key = Some lr\<rparr>,
        km2\<lparr>kyber_id := kyber_id km2 + 1\<rparr>, db3)"
      unfolding generate_key_bundle_def using loop(1) signed_key(1,2) [folded km2_def] kyber(1,2) by (simp add: expect_def)
  qed (use loop(2-4) kyb sgn in \<open>simp_all add: pre ids kyber(3,5-7) signed_key(3,5-7) loop(6-8)\<close>)
qed

text \<open>Stored ids are at most the largest one.\<close>

lemma max_key_bound: "max_key rs < j \<Longrightarrow> lookup_row j rs = None"
proof -
  have "k \<le> max_key rs" if "k \<in> set (map (fst \<circ> snd) rs)" for k
  proof -
    have "k \<le> foldr max ks 0" if "k \<in> set ks" for ks :: "nat list"
      using that by (induction ks) auto
    with that show ?thesis unfolding max_key_def by blast
  qed
  moreover assume "max_key rs < j"
  ultimately have "j \<notin> set (map (fst \<circ> snd) rs)" by fastforce
  then show ?thesis by (simp add: lookup_row_def map_of_eq_None_iff image_comp)
qed

lemma own_key_bound:
  "own_pre_key DE db j = Ok r \<Longrightarrow> j \<le> max_key (pre_key_tbl db)"
  "own_kyber_key DE db j = Ok r \<Longrightarrow> j \<le> max_key (kyber_pre_key_tbl db)"
  "own_signed_key DE db j = Ok r \<Longrightarrow> j \<le> max_key (signed_pre_key_tbl db)"
  using max_key_bound [of "pre_key_tbl db" j] max_key_bound [of "kyber_pre_key_tbl db" j] max_key_bound [of "signed_pre_key_tbl db" j]
  by (auto simp: own_key_defs query_row_def intro: leI)

section \<open>Properties\<close>

text \<open>
  C36 (functional). A client that logged in and generates a key bundle publishes 100 one-time keys, 100
  one-time Kyber keys, a signed key and a last-resort Kyber key. The ids of one kind all differ, and
  every published key is the public part of the record that the client reads from its database under
  the id of the key when the bundle is complete, whatever was drawn for the keys: no record is
  overwritten by a later one. Every key that was in the database before is still read.
\<close>

theorem published_keys_kept:
  assumes env: "ce_db E = device DE" "lib_ok DE" "generation_ok DE G now (snd kp)"
    and login: "login E al (db, n) = (Ok c, sn)" and kp: "dev_get_identity_key_pair DE db = (Ok kp, db)"
    and room: "max_key (pre_key_tbl db) + 102 < 2 ^ 32" "max_key (kyber_pre_key_tbl db) + 103 < 2 ^ 32"
      "max_key (signed_pre_key_tbl db) + 2 < 2 ^ 32"
  shows "\<exists>pks pqs spk lr km db'. generate_key_bundle G d now (stores E) (key_ids c, database c) =
      (Ok \<lparr>skr_pre_key = Some pks, skr_signed_pre_key = Some spk, skr_pq_pre_key = Some pqs, skr_pq_last_resort_pre_key = Some lr\<rparr>, km, db') \<and>
    length pks = 100 \<and> length pqs = 100 \<and>
    distinct (map upk_key_id pks) \<and> distinct (map usk_key_id (lr # pqs)) \<and>
    list_all (\<lambda>k. \<exists>r. own_pre_key DE db' (upk_key_id k) = Ok r \<and> upload_one_time G r = Ok k) pks \<and>
    list_all (\<lambda>k. \<exists>r. own_kyber_key DE db' (usk_key_id k) = Ok r \<and> upload_signed G r = Ok k) (lr # pqs) \<and>
    (\<exists>r. own_signed_key DE db' (usk_key_id spk) = Ok r \<and> upload_signed G r = Ok spk) \<and>
    (\<forall>j r. own_pre_key DE db j = Ok r \<longrightarrow> own_pre_key DE db' j = Ok r) \<and>
    (\<forall>j r. own_kyber_key DE db j = Ok r \<longrightarrow> own_kyber_key DE db' j = Ok r) \<and>
    (\<forall>j r. own_signed_key DE db j = Ok r \<longrightarrow> own_signed_key DE db' j = Ok r)"
proof -
  let ?km = "KeyManager_new (max_key (signed_pre_key_tbl db) + 1) (max_key (kyber_pre_key_tbl db) + 1) (max_key (pre_key_tbl db) + 1)"
  have c: "key_ids c = ?km" "database c = db" using login_result [OF env(1) login] by auto
  have km: "one_time_id ?km = max_key (pre_key_tbl db) + 1" "kyber_id ?km = max_key (kyber_pre_key_tbl db) + 1"
    "signed_id ?km = max_key (signed_pre_key_tbl db) + 1" by (simp_all add: KeyManager_new_def)
  have fits: "one_time_id ?km + 100 < 2 ^ 32" "kyber_id ?km + 101 < 2 ^ 32" "signed_id ?km + 1 < 2 ^ 32"
    using room unfolding km by simp_all
  obtain pks pqs spk lr km' db' where run: "generate_key_bundle G d now (ProtocolStore_new (device DE)) (?km, db) =
      (Ok \<lparr>skr_pre_key = Some pks, skr_signed_pre_key = Some spk, skr_pq_pre_key = Some pqs, skr_pq_last_resort_pre_key = Some lr\<rparr>, km', db')"
    and ids: "map upk_key_id pks = [one_time_id ?km..<one_time_id ?km + 100]" "map usk_key_id pqs = [kyber_id ?km..<kyber_id ?km + 100]"
      "usk_key_id lr = kyber_id ?km + 100" "usk_key_id spk = signed_id ?km"
    and keys: "list_all (keeps_pre_key DE G db') pks" "list_all (keeps_kyber_key DE G db') (lr # pqs)" "keeps_signed_key DE G db' spk"
    and old: "\<And>j. j < one_time_id ?km \<Longrightarrow> own_pre_key DE db' j = own_pre_key DE db j"
      "\<And>j. j < kyber_id ?km \<Longrightarrow> own_kyber_key DE db' j = own_kyber_key DE db j"
      "\<And>j. j < signed_id ?km \<Longrightarrow> own_signed_key DE db' j = own_signed_key DE db j"
    by (rule generate_bundle_device [OF env(2,3) kp fits, where d = d]) (rule that)
  have len: "length pks = 100" "length pqs = 100"
    using arg_cong [OF ids(1), of length] arg_cong [OF ids(2), of length] by simp_all
  have "usk_key_id lr \<notin> set (map usk_key_id pqs)" unfolding ids(2,3) by simp
  moreover have "distinct (map usk_key_id pqs)" unfolding ids(2) by (rule distinct_upt)
  ultimately have d: "distinct (map upk_key_id pks)" "distinct (map usk_key_id (lr # pqs))"
    unfolding ids(1) by (simp_all del: set_map)
  have kept: "\<forall>j r. own_pre_key DE db j = Ok r \<longrightarrow> own_pre_key DE db' j = Ok r"
    "\<forall>j r. own_kyber_key DE db j = Ok r \<longrightarrow> own_kyber_key DE db' j = Ok r"
    "\<forall>j r. own_signed_key DE db j = Ok r \<longrightarrow> own_signed_key DE db' j = Ok r"
    using own_key_bound [of DE db] old unfolding km by (simp_all add: less_Suc_eq_le)
  show ?thesis
    unfolding c env(1) using run len d keys [unfolded keeps_pre_key_def keeps_kyber_key_def keeps_signed_key_def] kept by blast
qed

text \<open>A generation whose records hold their id and their draw.\<close>

definition counted_record :: "nat \<Rightarrow> nat \<Rightarrow> bytes" where
  "counted_record d i = replicate i 0 @ 1 # replicate d 2"

definition counted_id :: "bytes \<Rightarrow> nat" where
  "counted_id r = length (takeWhile (\<lambda>b. b = 0) r)"

lemma counted_id [simp]: "counted_id (counted_record d i) = i"
proof -
  have "takeWhile (\<lambda>b. b = 0) (replicate i (0 :: byte) @ 1 # replicate d 2) = replicate i 0"
    by (subst takeWhile_append2) simp_all
  then show ?thesis by (simp add: counted_id_def counted_record_def)
qed

definition counted_keys :: "bytes key_generation" where
  "counted_keys = \<lparr>one_time_record = counted_record, signed_record = (\<lambda>d i now sk. Ok (counted_record d i)),
     kyber_record = (\<lambda>d i sk. Ok (counted_record d i)),
     upload_one_time = (\<lambda>r. Ok \<lparr>upk_key_id = counted_id r, upk_public_key = r\<rparr>),
     upload_signed = (\<lambda>r. Ok \<lparr>usk_key_id = counted_id r, usk_public_key = r, usk_signature = []\<rparr>)\<rparr>"

theorem published_keys_kept_witness:
  "\<exists>pks pqs spk lr km db'. generate_key_bundle counted_keys 0 0 (stores plain_client_env) (KeyManager_new 1 1 1, registered_db) =
      (Ok \<lparr>skr_pre_key = Some pks, skr_signed_pre_key = Some spk, skr_pq_pre_key = Some pqs, skr_pq_last_resort_pre_key = Some lr\<rparr>, km, db') \<and>
    length pks = 100 \<and> distinct (map upk_key_id pks) \<and>
    list_all (\<lambda>k. own_pre_key plain_env db' (upk_key_id k) = Ok (upk_public_key k)) pks"
proof -
  have gen: "generation_ok plain_env counted_keys 0 sk" for sk
    by (simp add: generation_ok_def counted_keys_def plain_env_def plain_codec_def)
  have simps: "key_ids (plain_client registered_db\<lparr>key_ids := KeyManager_new 1 1 1\<rparr>) = KeyManager_new 1 1 1"
    "database (plain_client registered_db\<lparr>key_ids := KeyManager_new 1 1 1\<rparr>) = registered_db"
    by simp_all
  have public: "own_pre_key plain_env db' (upk_key_id k) = Ok (upk_public_key k)"
    if "\<exists>r. own_pre_key plain_env db' (upk_key_id k) = Ok r \<and> upload_one_time counted_keys r = Ok k" for db' k
    using that by (auto simp: counted_keys_def)
  have "max_key (pre_key_tbl registered_db) + 102 < 2 ^ 32" "max_key (kyber_pre_key_tbl registered_db) + 103 < 2 ^ 32"
    "max_key (signed_pre_key_tbl registered_db) + 2 < 2 ^ 32"
    by (simp_all add: registered_tables max_key_def)
  from published_keys_kept [OF plain_env_simps(1) plain_env_ok gen registered_login registered_identity this, of 0]
  show ?thesis unfolding simps using public by (blast intro: list.pred_mono_strong)
qed

end
