(* ===== verification/Connection.thy ===== *)
theory Connection
  imports Server_Messages Net_Helper Presence Option_Steps
begin

text \<open>
  \<open>WebSocketConnection\<close> of \<open>server/src/managers/websocket/connection.rs\<close> and \<open>handle_keepalive\<close> of
  \<open>server/src/server/server.rs\<close>. A connection is an \<open>Arc<Mutex<...>>\<close>: its handle is a number, the
  state holds what the handles point to. The task that reads a connection holds its lock while it
  handles a message, so a handler that asks for the lock of the same connection never returns; the
  locks of other connections are free between steps.
\<close>

section \<open>The state\<close>

datatype user_identity = IdentityAddress protocol_address | IdentityDevice authenticated_device

text \<open>Of its clone of the server's state, a connection has only the map of presence listeners for its own.\<close>

record 'w connection =
  identity :: user_identity
  socket_address :: string
  ws :: "'w connection_state"
  pending_requests :: "nat \<rightharpoonup> string"
  own_listeners :: "key \<rightharpoonup> nat"

record ('d, 'r, 'w) server_state =
  backend_of :: "('d, 'r, nat) backend"
  client_presence_manager :: "('r, nat) presence"
  sockets :: "protocol_address \<rightharpoonup> nat"
  connections :: "nat \<Rightarrow> 'w connection"
  next_handle :: nat

record ('d, 'r, 'w) ws_env =
  we_server :: "('d, 'r) server_env"
  we_sink :: "'w sink"
  we_encode :: "web_socket_message \<Rightarrow> bytes"
  we_decode :: "bytes \<Rightarrow> web_socket_message option"
  we_serialize_regular :: "regular_payload \<Rightarrow> bytes"
  we_serialize_denim :: "denim_message \<Rightarrow> bytes"
  we_chunker :: chunker
  we_reason :: "nat \<Rightarrow> string option"
  we_json_messages :: "string \<Rightarrow> denim_messages option"
  we_json_response :: "send_message_response \<Rightarrow> bytes"
  we_uri_path :: "string \<Rightarrow> (error, string) outcome"

text \<open>What a handler draws: the clock and the guids.\<close>

record request_draw =
  rd_now :: nat
  rd_guid :: "nat \<Rightarrow> string"
  rd_guids :: "nat \<Rightarrow> nat \<Rightarrow> string"

type_synonym ('d, 'r, 'w, 'e, 'a) server_step = "(('d, 'r, 'w) server_state, 'e, 'a) step"
type_synonym ('d, 'r, 'w, 'e, 'a) server_ostep = "(('d, 'r, 'w) server_state, 'e, 'a) ostep"

definition on_connection :: "nat \<Rightarrow> ('w connection \<Rightarrow> 'w connection) \<Rightarrow> ('d, 'r, 'w) server_state \<Rightarrow> ('d, 'r, 'w) server_state" where
  "on_connection h f s = s\<lparr>connections := (connections s)(h := f (connections s h))\<rparr>"

definition on_backend :: "(('d, 'r, nat) backend, 'e, 'a) step \<Rightarrow> ('d, 'r, 'w, 'e, 'a) server_step" where
  "on_backend m s = (case m (backend_of s) of (r, b) \<Rightarrow> (r, s\<lparr>backend_of := b\<rparr>))"

text \<open>The calls of the managers, with the parts of the environment that they use.\<close>

definition fetch_messages :: "('d, 'r, 'w) ws_env \<Rightarrow> protocol_address \<Rightarrow> bool \<Rightarrow> ('d, 'r, 'w, db_error, envelope list) server_step" where
  "fetch_messages E a cached_only =
     (let V = we_server E in
      on_backend (get_messages_for_device (env_db V) (env_redis V) (env_base64 V) (env_envelopes V) a cached_only))"

definition delete_message :: "('d, 'r, 'w) ws_env \<Rightarrow> protocol_address \<Rightarrow> string \<Rightarrow> ('d, 'r, 'w, error, unit) server_step" where
  "delete_message E a guid =
     (let V = we_server E in
      map_errS (env_show_error V) (bindS
        (on_backend (manager_delete (env_db V) (env_redis V) (env_base64 V) (env_envelopes V) a [guid])) (\<lambda>_. returnS ())))"

definition denim_message_for :: "('d, 'r, 'w) ws_env \<Rightarrow> protocol_address \<Rightarrow> envelope \<Rightarrow> ('d, 'r, 'w, db_error, denim_message) server_step" where
  "denim_message_for E a message =
     (let V = we_server E in
      on_backend (on_cache (create_denim_message (env_redis V) (env_base64 V) (we_serialize_regular E) (we_chunker E) a message)))"

section \<open>Sending frames\<close>

fun identity_address :: "id_codec \<Rightarrow> user_identity \<Rightarrow> protocol_address" where
  "identity_address ids (IdentityDevice x) = auth_protocol_address ids x KindAci"
| "identity_address ids (IdentityAddress y) = y"

definition address_of :: "('d, 'r, 'w) ws_env \<Rightarrow> nat \<Rightarrow> ('d, 'r, 'w) server_state \<Rightarrow> protocol_address" where
  "address_of E h s = identity_address (env_ids (we_server E)) (identity (connections s h))"

definition connection_send :: "('d, 'r, 'w) ws_env \<Rightarrow> nat \<Rightarrow> ws_frame \<Rightarrow> ('d, 'r, 'w, error, unit) server_step" where
  "connection_send E h msg s =
     (case ws (connections s h) of
        Active socket \<Rightarrow> (case sink_send (we_sink E) msg socket of
          (r, socket') \<Rightarrow> (r, on_connection h (\<lambda>c. c\<lparr>ws := Active socket'\<rparr>) s))
      | Closed \<Rightarrow> (Err ''Connection is closed'', s))"

text \<open>An error of closing is only printed.\<close>

definition connection_close :: "('d, 'r, 'w) ws_env \<Rightarrow> nat \<Rightarrow> ('d, 'r, 'w, 'e, unit) server_step" where
  "connection_close E h s =
     (case ws (connections s h) of
        Active socket \<Rightarrow> (case sink_close (we_sink E) socket of
          (Panic, socket') \<Rightarrow> (Panic, on_connection h (\<lambda>c. c\<lparr>ws := Active socket'\<rparr>) s)
        | _ \<Rightarrow> (Ok (), on_connection h (\<lambda>c. c\<lparr>ws := Closed\<rparr>) s))
      | Closed \<Rightarrow> (Ok (), on_connection h (\<lambda>c. c\<lparr>ws := Closed\<rparr>) s))"

definition close_reason :: "('d, 'r, 'w) ws_env \<Rightarrow> nat \<Rightarrow> nat \<Rightarrow> string \<Rightarrow> ('d, 'r, 'w, error, unit) server_step" where
  "close_reason E h code reason = connection_send E h (CloseFrame (Some (code, reason)))"

definition connection_is_active :: "nat \<Rightarrow> ('d, 'r, 'w) server_state \<Rightarrow> bool" where
  "connection_is_active h s \<longleftrightarrow> is_active (ws (connections s h))"

section \<open>Sending messages\<close>

text \<open>\<open>i\<close> is the fresh request id, \<open>clk\<close> the clock.\<close>

definition create_message :: "('d, 'r, 'w) ws_env \<Rightarrow> nat \<Rightarrow> nat \<Rightarrow> nat option \<Rightarrow> envelope
    \<Rightarrow> ('d, 'r, 'w, error, web_socket_message) server_step" where
  "create_message E h i clk message =
     bindS (getS (address_of E h)) (\<lambda>receiver.
     let message = message\<lparr>ephemeral := None, story := Some False\<rparr> in
     bindS (expectS (denim_message_for E receiver message)) (\<lambda>denim_message.
     bindS (liftS (current_millis clk)) (\<lambda>millis.
     let msg = create_request i ''PUT'' ''/api/v1/message''
       [''X-Signal-Key: false'', ''X-Signal-Timestamp: '' @ show_nat millis] (Some (we_serialize_denim E denim_message)) in
     bindS (liftS (expect (ok_or () (server_guid message)))) (\<lambda>guid.
     bindS (modifyS (on_connection h (\<lambda>c. c\<lparr>pending_requests := (pending_requests c)(i \<mapsto> guid)\<rparr>))) (\<lambda>_.
     returnS msg)))))"

definition connection_send_message :: "('d, 'r, 'w) ws_env \<Rightarrow> nat \<Rightarrow> nat \<Rightarrow> nat option \<Rightarrow> envelope \<Rightarrow> ('d, 'r, 'w, error, unit) server_step" where
  "connection_send_message E h i clk message =
     bindS (map_errS (\<lambda>_. ''Time went backwards'') (create_message E h i clk message)) (\<lambda>msg.
     bindS (connection_send E h (Binary (we_encode E msg))) (\<lambda>_.
     bindS (getS (address_of E h)) (\<lambda>a.
     delete_message E a (server_guid_of message))))"

text \<open>The loop of \<open>send_messages\<close> draws the \<open>n\<close>-th id and reads the clock for the \<open>n\<close>-th time.\<close>

fun send_messages_loop :: "('d, 'r, 'w) ws_env \<Rightarrow> nat \<Rightarrow> (nat \<Rightarrow> nat) \<Rightarrow> (nat \<Rightarrow> nat option) \<Rightarrow> nat \<Rightarrow> envelope list
    \<Rightarrow> ('d, 'r, 'w, 'e, unit) server_step" where
  "send_messages_loop E h req clk n [] = returnS ()"
| "send_messages_loop E h req clk n (envelope # envelopes) =
     bindS (ignoreS (connection_send_message E h (req n) (clk n) envelope)) (\<lambda>_.
     send_messages_loop E h req clk (n + 1) envelopes)"

definition send_messages :: "('d, 'r, 'w) ws_env \<Rightarrow> nat \<Rightarrow> (nat \<Rightarrow> nat) \<Rightarrow> (nat \<Rightarrow> nat option) \<Rightarrow> bool
    \<Rightarrow> ('d, 'r, 'w, 'e, bool) server_step" where
  "send_messages E h req clk cached_only s =
     (case fetch_messages E (address_of E h s) cached_only s of
        (Ok envelopes, s') \<Rightarrow> bindS (send_messages_loop E h req clk 1 envelopes) (\<lambda>_. returnS True) s'
      | (Err _, s') \<Rightarrow> (Ok False, s')
      | (Panic, s') \<Rightarrow> (Panic, s'))"

definition send_queue_empty :: "('d, 'r, 'w) ws_env \<Rightarrow> nat \<Rightarrow> nat \<Rightarrow> nat option \<Rightarrow> ('d, 'r, 'w, 'e, bool) server_step" where
  "send_queue_empty E h i clk =
     (case current_millis clk of
        Ok time \<Rightarrow> is_okS (connection_send E h (Binary (we_encode E
          (create_request i ''PUT'' ''/api/v1/queue/empty'' [''X-Signal-Timestamp: '' @ show_nat time] None))))
      | _ \<Rightarrow> returnS False)"

section \<open>Listeners\<close>

text \<open>The implementations of \<open>AvailabilityListener\<close> and \<open>DisplacedPresenceListener\<close>.\<close>

definition send_all :: "('d, 'r, 'w) ws_env \<Rightarrow> nat \<Rightarrow> (nat \<Rightarrow> nat) \<Rightarrow> (nat \<Rightarrow> nat option) \<Rightarrow> bool
    \<Rightarrow> ('d, 'r, 'w, 'e, bool) server_step" where
  "send_all E h req clk cached_only =
     bindS (getS (connection_is_active h)) (\<lambda>active.
     bindS (if active then send_messages E h req clk cached_only else returnS False) (\<lambda>sent.
     if sent then send_queue_empty E h (req 0) (clk 0) else returnS False))"

definition send_cached :: "('d, 'r, 'w) ws_env \<Rightarrow> nat \<Rightarrow> (nat \<Rightarrow> nat) \<Rightarrow> (nat \<Rightarrow> nat option) \<Rightarrow> ('d, 'r, 'w, 'e, bool) server_step" where
  "send_cached E h req clk = send_all E h req clk True"

definition send_persisted :: "('d, 'r, 'w) ws_env \<Rightarrow> nat \<Rightarrow> (nat \<Rightarrow> nat) \<Rightarrow> (nat \<Rightarrow> nat option) \<Rightarrow> ('d, 'r, 'w, 'e, bool) server_step" where
  "send_persisted E h req clk = send_all E h req clk False"

definition handle_displacement :: "('d, 'r, 'w) ws_env \<Rightarrow> nat \<Rightarrow> bool \<Rightarrow> ('d, 'r, 'w, 'e, unit) server_step" where
  "handle_displacement E h connected_elsewhere =
     ignoreS (if connected_elsewhere then close_reason E h 4409 ''Connected elsewhere'' else close_reason E h 1000 ''OK'')"

section \<open>Receiving\<close>

text \<open>
  \<open>handle_keepalive\<close>, with the map of listeners of the state it is given; \<open>held\<close> is the connection
  whose lock the caller holds.
\<close>

definition handle_keepalive :: "('d, 'r, 'w) ws_env \<Rightarrow> (key \<rightharpoonup> nat) \<Rightarrow> nat option \<Rightarrow> authenticated_device
    \<Rightarrow> ('d, 'r, 'w, api_error, unit) server_ostep" where
  "handle_keepalive E local held ad s =
     (let a = auth_protocol_address (env_ids (we_server E)) ad KindAci in
      if local (get_presence_key a) = None then
        (case sockets s a of
           Some c \<Rightarrow> if held = Some c then None else okS (ignoreS (close_reason E c 1000 ''OK'')) s
         | None \<Rightarrow> Some (Ok (), s))
      else Some (Ok (), s))"

definition respond :: "('d, 'r, 'w) ws_env \<Rightarrow> nat \<Rightarrow> nat \<Rightarrow> nat \<Rightarrow> bytes option \<Rightarrow> ('d, 'r, 'w, error, unit) server_step" where
  "respond E h i status content =
     bindS (liftS (create_response (we_reason E) i status [] content)) (\<lambda>msg.
     connection_send E h (Binary (we_encode E msg)))"

definition handle_messages_request :: "('d, 'r, 'w) ws_env \<Rightarrow> request_draw \<Rightarrow> nat \<Rightarrow> nat \<Rightarrow> string \<Rightarrow> bytes option
    \<Rightarrow> ('d, 'r, 'w, error, unit) server_step" where
  "handle_messages_request E d h i path content =
     bindS (getS (\<lambda>s. identity (connections s h))) (\<lambda>who.
     case who of
       IdentityAddress _ \<Rightarrow> liftS Panic
     | IdentityDevice ad \<Rightarrow>
         bindS (liftS (we_uri_path E path)) (\<lambda>p.
         bindS (liftS (path_extract (path_extractor_new p) 2)) (\<lambda>part.
         bindS (liftS (ok_or ''Could not parse uri to service id'' (parse_from_service_id_string (env_ids (we_server E)) part))) (\<lambda>dest.
         bindS (liftS (unpack_messages (we_json_messages E) content)) (\<lambda>payload s.
         case on_backend (handle_put_messages (we_server E) (rd_now d) (rd_guid d) (rd_guids d) ad dest payload) s of
           (Ok res, s') \<Rightarrow> respond E h i 200 (Some (we_json_response E res)) s'
         | (Err _, s') \<Rightarrow> respond E h i 500 None s'
         | (Panic, s') \<Rightarrow> (Panic, s'))))))"

definition handle_keepalive_request :: "('d, 'r, 'w) ws_env \<Rightarrow> nat \<Rightarrow> nat \<Rightarrow> ('d, 'r, 'w, error, unit) server_ostep" where
  "handle_keepalive_request E h i s =
     (case identity (connections s h) of
        IdentityAddress _ \<Rightarrow> Some (Panic, s)
      | IdentityDevice ad \<Rightarrow>
          (case handle_keepalive E (own_listeners (connections s h)) (Some h) ad s of
             None \<Rightarrow> None
           | Some (Ok _, s') \<Rightarrow> Some (respond E h i 200 None s')
           | Some (Err _, s') \<Rightarrow> Some (close_reason E h 1000 ''OK'' s')
           | Some (Panic, s') \<Rightarrow> Some (Panic, s')))"

definition handle_request :: "('d, 'r, 'w) ws_env \<Rightarrow> request_draw \<Rightarrow> nat \<Rightarrow> web_socket_request_message
    \<Rightarrow> ('d, 'r, 'w, error, unit) server_ostep" where
  "handle_request E d h req =
     bindO (okS (liftS (ok_or ''Request id was not present'' (req_id req)))) (\<lambda>i.
     bindO (okS (liftS (ok_or ''Request path was not present'' (req_path req)))) (\<lambda>path.
     if \<not> starts_with path ''/v1/messages'' \<and> \<not> starts_with path ''/v1/keepalive'' then
       okS (bindS (respond E h i 500 None) (\<lambda>_. failS (''Incorret path: '' @ path)))
     else if starts_with path ''/v1/keepalive'' then handle_keepalive_request E h i
     else okS (handle_messages_request E d h i path (req_body req))))"

definition handle_response :: "('d, 'r, 'w) ws_env \<Rightarrow> nat \<Rightarrow> web_socket_response_message \<Rightarrow> ('d, 'r, 'w, error, unit) server_step" where
  "handle_response E h res =
     bindS (liftS (ok_or ''Response message was not present'' (res_id res))) (\<lambda>i.
     bindS (getS (\<lambda>s. pending_requests (connections s h) i)) (\<lambda>pending.
     case pending of
       None \<Rightarrow> failS ''pending_requests did not have the expected request''
     | Some guid \<Rightarrow>
         bindS (getS (address_of E h)) (\<lambda>a.
         bindS (delete_message E a guid) (\<lambda>_.
         modifyS (on_connection h (\<lambda>c. c\<lparr>pending_requests := (pending_requests c)(i := None)\<rparr>))))))"

definition on_receive :: "('d, 'r, 'w) ws_env \<Rightarrow> request_draw \<Rightarrow> nat \<Rightarrow> web_socket_message \<Rightarrow> ('d, 'r, 'w, error, unit) server_ostep" where
  "on_receive E d h proto_message =
     (case get_type proto_message of
        TypeUnknown \<Rightarrow> okS (close_reason E h 1007 ''Badly formatted'')
      | TypeRequest \<Rightarrow> (case wsm_request proto_message of
          Some req \<Rightarrow> handle_request E d h req
        | None \<Rightarrow> okS (close_reason E h 1007 ''Badly formatted''))
      | TypeResponse \<Rightarrow> (case wsm_response proto_message of
          Some res \<Rightarrow> okS (handle_response E h res)
        | None \<Rightarrow> okS (close_reason E h 1007 ''Badly formatted'')))"

end
