(* ===== verification/Websocket_Manager.thy ===== *)
theory Websocket_Manager
  imports Connection
begin

text \<open>
  \<open>WebSocketManager\<close> of \<open>server/src/managers/websocket/websocket_manager.rs\<close>, the endpoints
  \<open>create_websocket_endpoint\<close> and \<open>get_keepalive\<close> of \<open>server/src/server/server.rs\<close>, and everything
  that the tasks of the server do with connections as a step relation.
\<close>

section \<open>The manager\<close>

definition register_new_connection :: "protocol_address \<Rightarrow> nat \<Rightarrow> ('d, 'r, 'w) server_state \<Rightarrow> ('d, 'r, 'w) server_state" where
  "register_new_connection a h s = s\<lparr>sockets := (sockets s)(a \<mapsto> h)\<rparr>"

definition is_connected :: "protocol_address \<Rightarrow> ('d, 'r, 'w) server_state \<Rightarrow> bool" where
  "is_connected a s \<longleftrightarrow> sockets s a \<noteq> None"

definition get_connection :: "protocol_address \<Rightarrow> ('d, 'r, 'w) server_state \<Rightarrow> nat option" where
  "get_connection a s = sockets s a"

text \<open>Closing removes whatever connection the address has.\<close>

definition close_connection :: "('d, 'r, 'w) ws_env \<Rightarrow> protocol_address \<Rightarrow> nat \<Rightarrow> ('d, 'r, 'w, 'e, nat option) server_step" where
  "close_connection E a h =
     bindS (connection_close E h) (\<lambda>_.
     bindS (getS (get_connection a)) (\<lambda>old.
     bindS (modifyS (\<lambda>s. s\<lparr>sockets := (sockets s)(a := None)\<rparr>)) (\<lambda>_. returnS old)))"

section \<open>Reading a connection\<close>

text \<open>One round of the loop: whether it goes on. A message that cannot be handled panics the task.\<close>

fun reader_round :: "('d, 'r, 'w) ws_env \<Rightarrow> request_draw \<Rightarrow> protocol_address \<Rightarrow> nat \<Rightarrow> received
    \<Rightarrow> ('d, 'r, 'w, error, bool) server_ostep" where
  "reader_round E d a h (RecvError _) = okS (bindS (close_connection E a h) (\<lambda>_. returnS False))"
| "reader_round E d a h (Frame (Binary b)) =
     (case we_decode E b of
        None \<Rightarrow> okS (bindS (ignoreS (close_reason E h 1007 ''Badly formatted'')) (\<lambda>_. returnS False))
      | Some msg \<Rightarrow> (\<lambda>s. case on_receive E d h msg s of
          None \<Rightarrow> None
        | Some (r, s') \<Rightarrow> Some (bind (expect r) (\<lambda>_. Ok True), s')))"
| "reader_round E d a h (Frame (Text t)) = okS (bindS (ignoreS (connection_send E h (Text t))) (\<lambda>_. returnS True))"
| "reader_round E d a h (Frame (CloseFrame _)) = okS (returnS False)"
| "reader_round E d a h (Frame OtherFrame) = okS (returnS True)"

fun reader_loop :: "('d, 'r, 'w) ws_env \<Rightarrow> (nat \<Rightarrow> request_draw) \<Rightarrow> protocol_address \<Rightarrow> nat \<Rightarrow> nat \<Rightarrow> received list
    \<Rightarrow> ('d, 'r, 'w, error, nat option) server_ostep" where
  "reader_loop E ds a h n [] = okS (close_connection E a h)"
| "reader_loop E ds a h n (x # xs) =
     bindO (reader_round E (ds n) a h x) (\<lambda>goes_on.
     if goes_on then reader_loop E ds a h (n + 1) xs else okS (close_connection E a h))"

text \<open>\<open>listen\<close> registers the connection and starts the task that reads it.\<close>

definition connection_new :: "user_identity \<Rightarrow> string \<Rightarrow> 'w \<Rightarrow> ('d, 'r, 'w) server_state \<Rightarrow> nat \<times> ('d, 'r, 'w) server_state" where
  "connection_new who from w s =
     (let h = next_handle s in
      (h, s\<lparr>connections := (connections s)(h := \<lparr>identity = who, socket_address = from, ws = Active w,
              pending_requests = (\<lambda>_. None), own_listeners = displacement_listeners (client_presence_manager s)\<rparr>),
            next_handle := h + 1\<rparr>))"

definition listen :: "('d, 'r, 'w) ws_env \<Rightarrow> nat \<Rightarrow> ('d, 'r, 'w) server_state \<Rightarrow> ('d, 'r, 'w) server_state" where
  "listen E h s = register_new_connection (address_of E h s) h s"

section \<open>The endpoints\<close>

text \<open>The clone of the state that the endpoint has is dropped when it is done.\<close>

definition on_presence_clone :: "(('r, nat) presence, 'e, 'a) step \<Rightarrow> ('d, 'r, 'w, 'e, 'a) server_step" where
  "on_presence_clone m s = (case on_clone m (client_presence_manager s) of (r, p) \<Rightarrow> (r, s\<lparr>client_presence_manager := p\<rparr>))"

definition on_caches :: "(('r, nat) caches \<Rightarrow> ('r, nat) caches) \<Rightarrow> ('d, 'r, 'w) server_state \<Rightarrow> ('d, 'r, 'w) server_state" where
  "on_caches f s = s\<lparr>backend_of := (backend_of s)\<lparr>cache := f (cache (backend_of s))\<rparr>\<rparr>"

definition start_connection :: "('d, 'r, 'w) ws_env \<Rightarrow> authenticated_device \<Rightarrow> string \<Rightarrow> 'w \<Rightarrow> ('d, 'r, 'w) server_state
    \<Rightarrow> ('d, 'r, 'w) server_state" where
  "start_connection E ad from w s = (case connection_new (IdentityDevice ad) from w s of (h, s') \<Rightarrow> listen E h s')"

definition announce_connection :: "('d, 'r, 'w) ws_env \<Rightarrow> protocol_address \<Rightarrow> (nat \<Rightarrow> nat) \<Rightarrow> (nat \<Rightarrow> nat option)
    \<Rightarrow> ('d, 'r, 'w, error, unit) server_step" where
  "announce_connection E a req clk =
     bindS (getS (get_connection a)) (\<lambda>c.
     case c of
       None \<Rightarrow> returnS ()
     | Some h \<Rightarrow>
         bindS (send_persisted E h req clk) (\<lambda>_.
         bindS (modifyS (on_caches (add_message_availability_listener a h))) (\<lambda>_.
         ignoreS (on_presence_clone (set_present (env_redis (we_server E)) a h)))))"

definition create_websocket_endpoint :: "('d, 'r, 'w) ws_env \<Rightarrow> authenticated_device \<Rightarrow> string \<Rightarrow> 'w \<Rightarrow> (nat \<Rightarrow> nat) \<Rightarrow> (nat \<Rightarrow> nat option)
    \<Rightarrow> ('d, 'r, 'w, error, unit) server_step" where
  "create_websocket_endpoint E ad from w req clk =
     bindS (modifyS (start_connection E ad from w)) (\<lambda>_.
     announce_connection E (auth_protocol_address (env_ids (we_server E)) ad KindAci) req clk)"

definition get_keepalive :: "('d, 'r, 'w) ws_env \<Rightarrow> authenticated_device \<Rightarrow> ('d, 'r, 'w, api_error, unit) server_ostep" where
  "get_keepalive E ad s = handle_keepalive E (displacement_listeners (client_presence_manager s)) None ad s"

section \<open>What the tasks do\<close>

text \<open>
  The endpoint runs in two parts, between which other tasks run; a reader does one round or ends; a
  listener is called; other requests change the database, the caches, and through clones the Redis
  server and the calls of the presence manager. A task that never returns makes no step.
\<close>

inductive server_moves :: "('d, 'r, 'w) ws_env \<Rightarrow> ('d, 'r, 'w) server_state \<Rightarrow> ('d, 'r, 'w) server_state \<Rightarrow> bool"
  for E :: "('d, 'r, 'w) ws_env" where
  start: "server_moves E s (start_connection E ad from w s)"
| announce: "server_moves E s (snd (announce_connection E a req clk s))"
| read: "h < next_handle s \<Longrightarrow> reader_round E d (address_of E h s) h x s = Some (r, s') \<Longrightarrow> server_moves E s s'"
| finish: "h < next_handle s \<Longrightarrow> server_moves E s (snd ((close_connection E (address_of E h s) h :: ('d, 'r, 'w, error, nat option) server_step) s))"
| notify: "h < next_handle s \<Longrightarrow> server_moves E s (snd ((send_all E h req clk cached :: ('d, 'r, 'w, error, bool) server_step) s))"
| displace: "h < next_handle s \<Longrightarrow> server_moves E s (snd ((handle_displacement E h elsewhere :: ('d, 'r, 'w, error, unit) server_step) s))"
| keepalive: "get_keepalive E ad s = Some (r, s') \<Longrightarrow> server_moves E s s'"
| other: "server_moves E s (s\<lparr>backend_of := b, 
    client_presence_manager := (client_presence_manager s)\<lparr>pres_store := st, displaced := calls\<rparr>\<rparr>)"

inductive server_reachable :: "('d, 'r, 'w) ws_env \<Rightarrow> ('d, 'r, 'w) server_state \<Rightarrow> bool" for E where
  init: "sockets s = (\<lambda>_. None) \<Longrightarrow> next_handle s = 0 \<Longrightarrow> displacement_listeners (client_presence_manager s) = (\<lambda>_. None) \<Longrightarrow>
    server_reachable E s"
| step: "server_reachable E s \<Longrightarrow> server_moves E s s' \<Longrightarrow> server_reachable E s'"

end
