(* ===== verification/Websocket_Props.thy ===== *)
theory Websocket_Props
  imports Websocket_Manager Put_Messages
begin

text \<open>
  What holds of the connections of a running server, whatever its tasks do: every registered connection
  is of the address it is registered for, and no part of the server has a presence listener of its own,
  as these are put into clones that are dropped. And what that does to keepalives, to responses that
  come twice and to connections that are replaced.
\<close>

section \<open>What handling messages leaves alone\<close>

type_synonym shape = "(protocol_address \<rightharpoonup> nat) \<times> nat \<times> (key \<rightharpoonup> nat) \<times> (nat \<Rightarrow> user_identity \<times> (key \<rightharpoonup> nat))"

definition shape :: "('d, 'r, 'w) server_state \<Rightarrow> shape" where
  "shape s = (sockets s, next_handle s, displacement_listeners (client_presence_manager s),
     \<lambda>h. (identity (connections s h), own_listeners (connections s h)))"

lemma shape_connection [simp]:
  "identity (f (connections s h)) = identity (connections s h) \<Longrightarrow> own_listeners (f (connections s h)) = own_listeners (connections s h) \<Longrightarrow>
    shape (on_connection h f s) = shape s"
  by (auto simp: shape_def on_connection_def)

text \<open>The same as an equation.\<close>

lemma same_shape: "(\<And>x. keeps (\<lambda>s. shape s = x) anything m) \<Longrightarrow> shape (snd (m s)) = shape s"
  by (auto simp: keeps_def)

lemma shape_backend [simp]: "shape (s\<lparr>backend_of := b\<rparr>) = shape s"
  by (simp add: shape_def)

lemma map_errS_snd [simp]: "snd (map_errS f m s) = snd (m s)"
  by (simp add: map_errS_def split: prod.split)

lemma keeps_map_err [keeps]: "keeps P anything m \<Longrightarrow> keeps P anything (map_errS f m)"
  by (simp add: keeps_def)

lemma keeps_expect [keeps]: "keeps P anything m \<Longrightarrow> keeps P anything (expectS m)"
  by (simp add: keeps_def expectS_def case_prod_beta)

lemma keeps_identity [keeps]:
  "(\<And>a. who = IdentityAddress a \<Longrightarrow> keeps P Q (f a)) \<Longrightarrow> (\<And>ad. who = IdentityDevice ad \<Longrightarrow> keeps P Q (g ad)) \<Longrightarrow>
    keeps P Q (case who of IdentityAddress a \<Rightarrow> f a | IdentityDevice ad \<Rightarrow> g ad)"
  by (cases who) simp_all

lemma ignoreS_result: "ignoreS m s = (r, s') \<Longrightarrow> s' = snd (m s)"
  by (drule arg_cong [where f = snd]) simp

lemma shape_on_backend [keeps]: "keeps (\<lambda>s. shape s = x) anything (on_backend m)"
  by (simp add: keeps_def on_backend_def case_prod_beta)

lemma shape_send [keeps]: "keeps (\<lambda>s. shape s = x) anything (connection_send E h msg)"
  by (simp add: keeps_def connection_send_def split: connection_state.split prod.split)

lemma shape_close [keeps]: "keeps (\<lambda>s. shape s = x) anything (connection_close E h)"
  by (auto simp: keeps_def connection_close_def split: connection_state.split prod.split outcome.split)

lemma shape_close_reason [keeps]: "keeps (\<lambda>s. shape s = x) anything (close_reason E h code reason)"
  unfolding close_reason_def by (rule shape_send)

lemma shape_delete [keeps]: "keeps (\<lambda>s. shape s = x) anything (delete_message E a g)"
  unfolding delete_message_def Let_def by (intro keeps) simp

lemma shape_fetch [keeps]: "keeps (\<lambda>s. shape s = x) anything (fetch_messages E a b)"
  unfolding fetch_messages_def Let_def by (intro keeps)

lemma shape_create_message [keeps]: "keeps (\<lambda>s. shape s = x) anything (create_message E h i clk m)"
  unfolding create_message_def denim_message_for_def Let_def by (intro keeps) simp_all

lemma shape_send_message [keeps]: "keeps (\<lambda>s. shape s = x) anything (connection_send_message E h i clk m)"
  unfolding connection_send_message_def by (intro keeps) simp_all

lemma shape_send_loop [keeps]: "keeps (\<lambda>s. shape s = x) anything (send_messages_loop E h req clk n ms)"
  by (induction ms arbitrary: n) (auto intro!: keeps simp del: One_nat_def)

lemma shape_send_messages [keeps]:
  fixes E :: "('d, 'r, 'w) ws_env"
  shows "keeps (\<lambda>s. shape s = x) anything (send_messages E h req clk b)"
proof (rule keeps_anyI)
  fix s :: "('d, 'r, 'w) server_state" assume s: "shape s = x"
  obtain r s1 where fetch: "fetch_messages E (address_of E h s) b s = (r, s1)" by fastforce
  have s1: "shape s1 = x" using keepsD(1) [OF shape_fetch s] fetch by (metis snd_conv)
  have "keeps (\<lambda>s. shape s = x) anything (bindS (send_messages_loop E h req clk 1 es) (\<lambda>_. returnS True))" for es
    by (intro keeps) simp
  from keepsD(1) [OF this s1] s1 show "shape (snd (send_messages E h req clk b s)) = x"
    by (cases r) (simp_all add: send_messages_def fetch)
qed

lemma shape_queue_empty [keeps]: "keeps (\<lambda>s. shape s = x) anything (send_queue_empty E h i clk)"
  by (cases "current_millis clk") (auto simp: send_queue_empty_def intro!: keeps)

lemma shape_send_all [keeps]: "keeps (\<lambda>s. shape s = x) anything (send_all E h req clk b)"
  unfolding send_all_def by (intro keeps) simp_all

lemma shape_displacement [keeps]: "keeps (\<lambda>s. shape s = x) anything (handle_displacement E h b)"
  unfolding handle_displacement_def by (intro keeps)

lemma shape_respond [keeps]: "keeps (\<lambda>s. shape s = x) anything (respond E h i st b)"
  unfolding respond_def by (intro keeps) simp

lemma shape_messages_request [keeps]:
  fixes E :: "('d, 'r, 'w) ws_env"
  shows "keeps (\<lambda>s. shape s = x) anything (handle_messages_request E d h i path c)"
proof -
  have put: "keeps (\<lambda>s. shape s = x) anything (\<lambda>s. case on_backend m s of
      (Ok res, s') \<Rightarrow> respond E h i 200 (Some (we_json_response E res)) s'
    | (Err _, s') \<Rightarrow> respond E h i 500 None s' | (Panic, s') \<Rightarrow> (Panic, s'))" for m
  proof (rule keeps_anyI)
    fix s :: "('d, 'r, 'w) server_state" assume "shape s = x"
    with same_shape [OF shape_on_backend, of m s]
    show "shape (snd (case on_backend m s of
      (Ok res, s') \<Rightarrow> respond E h i 200 (Some (we_json_response E res)) s'
    | (Err _, s') \<Rightarrow> respond E h i 500 None s' | (Panic, s') \<Rightarrow> (Panic, s'))) = x"
      by (cases "on_backend m s") (auto simp: same_shape [OF shape_respond] split: outcome.split)
  qed
  show ?thesis
    unfolding handle_messages_request_def by (intro keeps_bind_any keeps_get keeps_lift keeps_identity put) simp_all
qed

lemma shape_response [keeps]: "keeps (\<lambda>s. shape s = x) anything (handle_response E h res)"
  unfolding handle_response_def by (intro keeps) simp_all

lemma shape_keepalive: "okeeps (\<lambda>s. shape s = x) (handle_keepalive E l held ad)"
  unfolding okeeps_def handle_keepalive_def Let_def
  by (auto split: if_splits option.splits dest!: ignoreS_result simp: same_shape [OF shape_close_reason])

lemma shape_on_receive:
  fixes E :: "('d, 'r, 'w) ws_env"
  shows "okeeps (\<lambda>s. shape s = x) (on_receive E d h msg)"
proof -
  have alive: "okeeps (\<lambda>s. shape s = x) (handle_keepalive_request E h i)" for i
    unfolding okeeps_def
  proof (intro allI impI)
    fix s r and s' :: "('d, 'r, 'w) server_state"
    assume s: "shape s = x" and run: "handle_keepalive_request E h i s = Some (r, s')"
    show "shape s' = x"
    proof (cases "identity (connections s h)")
      case (IdentityDevice ad)
      with run obtain q s1 where alive: "handle_keepalive E (own_listeners (connections s h)) (Some h) ad s = Some (q, s1)"
        by (auto simp: handle_keepalive_request_def split: option.splits)
      have "shape s1 = x" by (rule okeepsD [OF shape_keepalive s alive])
      with run alive IdentityDevice
          same_shape [OF shape_respond, of E h i 200 None s1] same_shape [OF shape_close_reason, of E h 1000 "''OK''" s1]
      show ?thesis by (cases q) (auto simp: handle_keepalive_request_def)
    qed (use s run in \<open>simp add: handle_keepalive_request_def\<close>)
  qed
  have request: "okeeps (\<lambda>s. shape s = x) (handle_request E d h req)" for req
    unfolding handle_request_def
    by (intro okeeps_bindO okeeps_okS keeps_lift) (auto intro!: okeeps_okS alive keeps)
  show ?thesis
    unfolding on_receive_def
    by (auto split: web_socket_type.split option.split intro!: okeeps_okS request keeps)
qed

section \<open>The invariant\<close>

definition shape_ok :: "id_codec \<Rightarrow> shape \<Rightarrow> bool" where
  "shape_ok ids x = (case x of (so, n, local, cs) \<Rightarrow>
     local = (\<lambda>_. None) \<and> (\<forall>h < n. snd (cs h) = (\<lambda>_. None)) \<and>
     (\<forall>a h. so a = Some h \<longrightarrow> h < n \<and> identity_address ids (fst (cs h)) = a))"

abbreviation server_inv :: "('d, 'r, 'w) ws_env \<Rightarrow> ('d, 'r, 'w) server_state \<Rightarrow> bool" where
  "server_inv E s \<equiv> shape_ok (env_ids (we_server E)) (shape s)"

lemma server_invD:
  assumes "server_inv E s"
  shows "displacement_listeners (client_presence_manager s) = (\<lambda>_. None)"
    "h < next_handle s \<Longrightarrow> own_listeners (connections s h) = (\<lambda>_. None)"
    "sockets s a = Some h \<Longrightarrow> h < next_handle s" "sockets s a = Some h \<Longrightarrow> address_of E h s = a"
  using assms by (auto simp: shape_ok_def shape_def address_of_def)

lemma shape_presence_clone [keeps]: "keeps (\<lambda>s. shape s = x) anything (on_presence_clone m)"
  by (simp add: keeps_def on_presence_clone_def on_clone_def shape_def case_prod_beta)

lemma shape_announce: "keeps (\<lambda>s. shape s = x) anything (announce_connection E a req clk)"
  unfolding announce_connection_def send_persisted_def by (intro keeps) (simp_all add: on_caches_def)

lemma keeps_inv: "(\<And>x. keeps (\<lambda>s. shape s = x) anything m) \<Longrightarrow> keeps (server_inv E) anything m"
  by (auto simp: keeps_def)

lemma close_connection_inv: "keeps (server_inv E) anything (close_connection E a h)"
  unfolding close_connection_def
  by (intro keeps_bind_any keeps_inv [OF shape_close] keeps_get keeps_modify keeps_return)
    (auto simp: shape_ok_def shape_def split: if_splits)

lemma on_receive_inv: "okeeps (server_inv E) (on_receive E d h msg)"
  using okeepsD [OF shape_on_receive refl] unfolding okeeps_def by metis

lemma reader_round_inv: "okeeps (server_inv E) (reader_round E d a h x)"
proof (cases x)
  case (RecvError e)
  show ?thesis
    unfolding RecvError reader_round.simps by (intro okeeps_okS keeps_bind_any close_connection_inv keeps_return) simp
next
  case (Frame f)
  show ?thesis
  proof (cases f)
    case (Binary b)
    show ?thesis
    proof (cases "we_decode E b")
      case None
      then show ?thesis
        unfolding Frame Binary by (auto intro!: okeeps_okS keeps_bind_any keeps_ignore keeps_inv [OF shape_close_reason] keeps_return)
    next
      case (Some msg)
      then show ?thesis
        using on_receive_inv [of E d h msg] by (auto simp: Frame Binary okeeps_def split: option.splits)
    qed
  next
    case (Text t)
    show ?thesis
      unfolding Frame Text by (auto intro!: okeeps_okS keeps_bind_any keeps_ignore keeps_inv [OF shape_send] keeps_return)
  qed (auto simp: Frame okeeps_def)
qed

lemma start_inv:
  assumes "server_inv E s" shows "server_inv E (start_connection E ad from w s)"
  using assms
  by (auto simp: start_connection_def connection_new_def listen_def register_new_connection_def address_of_def shape_ok_def shape_def
      Let_def less_Suc_eq)

lemma server_move_inv: "server_moves E s s' \<Longrightarrow> server_inv E s \<Longrightarrow> server_inv E s'"
proof (induction rule: server_moves.induct)
  case (announce a req clk s)
  then show ?case by (simp add: same_shape [OF shape_announce])
next
  case (keepalive ad s r s')
  then show ?case using okeepsD [OF shape_keepalive refl] unfolding get_keepalive_def by metis
next
  case (other s b st calls)
  then show ?case by (simp add: shape_def)
qed (simp_all add: start_inv okeepsD [OF reader_round_inv] keepsD(1) [OF close_connection_inv] same_shape [OF shape_send_all] same_shape [OF shape_displacement])

lemma server_reachable_inv: "server_reachable E s \<Longrightarrow> server_inv E s"
proof (induction rule: server_reachable.induct)
  case (init s)
  then show ?case by (simp add: shape_ok_def shape_def)
qed (rule server_move_inv)

section \<open>What sending to a connection leaves alone\<close>

text \<open>Everything of the state that a task which only sends on connection \<open>h\<close> cannot touch.\<close>

definition outside :: "nat \<Rightarrow> ('d, 'r, 'w) server_state
    \<Rightarrow> (nat \<Rightarrow> 'w connection option) \<times> ('r, nat) presence \<times> (protocol_address \<rightharpoonup> nat)" where
  "outside h s = (\<lambda>h'. if h' = h then None else Some (connections s h'), client_presence_manager s, sockets s)"

lemma outside_updates [simp]:
  "outside h (on_connection h f s) = outside h s" "outside h (s\<lparr>backend_of := b\<rparr>) = outside h s"
  "outside h (on_caches g s) = outside h s"
  by (auto simp: outside_def on_connection_def on_caches_def)

lemma outside_connection: "outside h s' = outside h s \<Longrightarrow> h' \<noteq> h \<Longrightarrow> connections s' h' = connections s h'"
  by (drule arg_cong [where f = "\<lambda>x. fst x h'"]) (simp add: outside_def)

lemma outside_send [keeps]: "keeps (\<lambda>s. outside h s = x) anything (connection_send E h msg)"
  by (simp add: keeps_def connection_send_def split: connection_state.split prod.split)

lemma outside_on_backend [keeps]: "keeps (\<lambda>s. outside h s = x) anything (on_backend m)"
  by (simp add: keeps_def on_backend_def case_prod_beta)

lemma outside_send_message [keeps]: "keeps (\<lambda>s. outside h s = x) anything (connection_send_message E h i clk m)"
  unfolding connection_send_message_def create_message_def denim_message_for_def delete_message_def Let_def
  by (intro keeps) simp_all

lemma outside_send_loop: "keeps (\<lambda>s. outside h s = x) anything (send_messages_loop E h req clk n ms)"
  by (induction ms arbitrary: n) (auto intro!: keeps simp del: One_nat_def)

lemma outside_send_messages [keeps]:
  fixes E :: "('d, 'r, 'w) ws_env"
  shows "keeps (\<lambda>s. outside h s = x) anything (send_messages E h req clk b)"
proof (rule keeps_anyI)
  fix s :: "('d, 'r, 'w) server_state" assume s: "outside h s = x"
  obtain r s1 where fetch: "fetch_messages E (address_of E h s) b s = (r, s1)" by fastforce
  then have s1: "outside h s1 = x"
    using s keepsD(1) [OF outside_on_backend s] unfolding fetch_messages_def Let_def by (metis snd_conv)
  have "keeps (\<lambda>s. outside h s = x) anything (bindS (send_messages_loop E h req clk 1 es) (\<lambda>_. returnS True))" for es
    by (intro keeps_bind_any outside_send_loop keeps_return) simp
  from keepsD(1) [OF this s1] s1 show "outside h (snd (send_messages E h req clk b s)) = x"
    by (cases r) (simp_all add: send_messages_def fetch)
qed

lemma outside_send_all: "keeps (\<lambda>s. outside h s = x) anything (send_all E h req clk b)"
  unfolding send_all_def send_queue_empty_def
  by (cases "current_millis (clk 0)") (auto intro!: keeps simp del: One_nat_def)

section \<open>Properties\<close>

text \<open>
  C12 (liveness). A client that sends a keepalive over its registered connection hangs it: in every
  reachable state the call of \<open>on_receive\<close> never returns, as no server state knows the client to be
  present and \<open>handle_keepalive\<close> asks for the lock that the reader of the connection holds; so the
  reader handles nothing that comes after. Over HTTP the keepalive does not hang, it closes the
  connection that it should keep.
\<close>

theorem keepalive_never_returns:
  assumes reach: "server_reachable E s" and conn: "sockets s a = Some h" "identity (connections s h) = IdentityDevice ad"
    and msg: "get_type msg = TypeRequest" "wsm_request msg = Some req" "req_id req = Some i" "req_path req = Some path"
      "starts_with path ''/v1/keepalive''"
  shows "on_receive E d h msg s = None \<and>
    (\<forall>b ds n xs. we_decode E b = Some msg \<longrightarrow> reader_loop E ds a h n (Frame (Binary b) # xs) s = None) \<and>
    get_keepalive E ad s = Some (ignoreS (close_reason E h 1000 ''OK'') s)"
proof -
  note inv = server_reachable_inv [OF reach]
  have here: "own_listeners (connections s h) = (\<lambda>_. None)" "displacement_listeners (client_presence_manager s) = (\<lambda>_. None)"
    using server_invD(1-3) [OF inv] conn(1) by simp_all
  have a: "auth_protocol_address (env_ids (we_server E)) ad KindAci = a"
    using server_invD(4) [OF inv conn(1)] conn(2) by (simp add: address_of_def)
  have stuck: "on_receive E d h msg s = None" for d
    using msg here(1) conn by (simp add: on_receive_def handle_request_def ok_or_def handle_keepalive_request_def handle_keepalive_def a Let_def)
  moreover have "get_keepalive E ad s = Some (ignoreS (close_reason E h 1000 ''OK'') s)"
    using here(2) conn(1) by (simp add: get_keepalive_def handle_keepalive_def a Let_def)
  moreover have "reader_loop E ds a h n (Frame (Binary b) # xs) s = None" if "we_decode E b = Some msg" for b ds n xs
    by (simp add: that stuck)
  ultimately show ?thesis by blast
qed

text \<open>
  C13 (safety). A connection that was replaced takes its successor with it: when a device has connected again,
  the end of the old connection, however late, removes the new one from the manager, and the new one
  stays open without being registered.
\<close>

theorem late_close_removes_successor:
  assumes "server_reachable E s" and "old < next_handle s" "address_of E old s = a" "sockets s a = Some new" "new \<noteq> old"
    and "\<And>w. fst (sink_close (we_sink E) w) \<noteq> Panic"
  shows "\<exists>s'. reader_loop E ds a old n [] s = Some (Ok (Some new), s') \<and> \<not> is_connected a s' \<and>
    connections s' new = connections s new \<and> server_reachable E s'"
proof -
  obtain s1 where close: "connection_close E old s = (Ok () :: (error, unit) outcome, s1)"
    and s1: "sockets s1 = sockets s" "connections s1 new = connections s new"
  proof (cases "ws (connections s old)")
    case (Active w)
    obtain r w' where "sink_close (we_sink E) w = (r, w')" "r \<noteq> Panic" using assms(6) [of w] by (metis prod.collapse)
    with Active that show ?thesis
      using assms(5) by (cases r) (auto simp: connection_close_def on_connection_def)
  qed (use that assms(5) in \<open>auto simp: connection_close_def on_connection_def\<close>)
  let ?s = "s1\<lparr>sockets := (sockets s1)(a := None)\<rparr>"
  have run: "close_connection E a old s = (Ok (Some new) :: (error, nat option) outcome, ?s)"
    by (simp add: close_connection_def close get_connection_def s1 assms(4))
  have "server_reachable E ?s"
    using server_reachable.step [OF assms(1) server_moves.finish [OF assms(2)]] assms(3) run by simp
  with run s1(2) show ?thesis by (auto simp: is_connected_def)
qed

lemma start_connection_fields:
  assumes "auth_protocol_address (env_ids (we_server E)) ad KindAci = a"
  shows "sockets (start_connection E ad from w s) = (sockets s)(a \<mapsto> next_handle s)"
    "next_handle (start_connection E ad from w s) = next_handle s + 1"
    "client_presence_manager (start_connection E ad from w s) = client_presence_manager s"
    "h < next_handle s \<Longrightarrow> connections (start_connection E ad from w s) h = connections s h"
  using assms
  by (simp_all add: start_connection_def connection_new_def listen_def register_new_connection_def Let_def address_of_def)

lemma clone_set_present:
  assumes R: "redis_server R view" and typed: "presence_typed (view (pres_store (client_presence_manager s)))"
    and none: "displacement_listeners (client_presence_manager s) = (\<lambda>_. None)"
  shows "\<exists>p. on_presence_clone (set_present R a h) s = (Ok (), s\<lparr>client_presence_manager := p\<rparr>) \<and>
    displaced p = displaced (client_presence_manager s) \<and> fst (is_present R a p) = Ok True \<and>
    strs (view (pres_store p)) (get_presence_key a) = Some (manager_id (client_presence_manager s))"
proof -
  let ?m = "client_presence_manager s"
  obtain q where q: "set_present R a h ?m = (Ok (), q)" and eq: "map_pres view q = now_present a h (map_pres view ?m)"
    using redis_server.set_present_on_server [OF R typed] by blast
  have q_view: "strs (view (pres_store q)) (get_presence_key a) = Some (manager_id ?m)" "displaced q = displaced ?m"
      "presence_typed (view (pres_store q))"
    using map_pres_eqD [OF eq] now_present_typed [of "map_pres view ?m" a h] typed none by simp_all
  let ?p = "?m\<lparr>pres_store := pres_store q, displaced := displaced q\<rparr>"
  have "fst (is_present R a ?p) = Ok True"
    using redis_server.is_present_on_server [OF R, of ?p a] q_view by simp
  with q q_view show ?thesis by (intro exI [of _ ?p]) (simp add: on_presence_clone_def on_clone_def)
qed

text \<open>
  C22 (safety). A device that connects a second time displaces nobody. Whatever happened on the server before, the
  endpoint registers the new connection in place of the old one, and no listener is called: every older
  connection, the replaced one included, stays as it was, open and not told that the device has connected
  elsewhere. When sending the messages that waited did not panic, a Redis server that behaves as
  documented, and has strings under the presence keys, has the device as connected to this manager,
  while the map of listeners of the manager, and the copy of it that the new connection has, stay
  empty, as the listener went into a clone that is dropped.
\<close>

theorem reconnect_displaces_nobody:
  assumes "server_reachable E s" and R: "redis_server (env_redis (we_server E)) view"
    and typed: "presence_typed (view (pres_store (client_presence_manager s)))"
    and a: "auth_protocol_address (env_ids (we_server E)) ad KindAci = a"
    and run: "create_websocket_endpoint E ad from w req clk s = (r, s')"
  shows "sockets s' = (sockets s)(a \<mapsto> next_handle s) \<and>
    (h < next_handle s \<longrightarrow> connections s' h = connections s h) \<and>
    displaced (client_presence_manager s') = displaced (client_presence_manager s) \<and>
    \<not> is_locally_present a (client_presence_manager s') \<and> own_listeners (connections s' (next_handle s)) = (\<lambda>_. None) \<and>
    (send_persisted E (next_handle s) req clk (start_connection E ad from w s) = (Ok sent :: (error, bool) outcome, t) \<longrightarrow> r = Ok () \<and>
      fst (is_present (env_redis (we_server E)) a (client_presence_manager s')) = Ok True \<and>
      strs (view (pres_store (client_presence_manager s'))) (get_presence_key a) = Some (manager_id (client_presence_manager s)))"
proof -
  let ?R = "env_redis (we_server E)" and ?n = "next_handle s"
  note inv = server_reachable_inv [OF assms(1)]
  define s1 where "s1 = start_connection E ad from w s"
  have s1: "sockets s1 = (sockets s)(a \<mapsto> ?n)" "next_handle s1 = ?n + 1" "client_presence_manager s1 = client_presence_manager s"
      "h < ?n \<Longrightarrow> connections s1 h = connections s h"
    by (simp_all add: s1_def start_connection_fields [OF a])
  have announced: "announce_connection E a req clk s1 = (r, s')"
    using run by (simp add: create_websocket_endpoint_def s1_def a)
  have ok: "server_inv E s'"
    using same_shape [OF shape_announce, of E a req clk s1] start_inv [OF inv, of ad "from" w] announced by (simp add: s1_def)
  have "?n < next_handle s'"
    using same_shape [OF shape_announce, of E a req clk s1] announced s1(2) by (simp add: shape_def)
  then have empty: "\<not> is_locally_present a (client_presence_manager s')" "own_listeners (connections s' ?n) = (\<lambda>_. None)"
    using server_invD(1,2) [OF ok] by (simp_all add: is_locally_present_def)
  obtain q s2 where send: "send_persisted E ?n req clk s1 = (q :: (error, bool) outcome, s2)" by fastforce
  have s2: "outside ?n s2 = outside ?n s1"
    using keepsD(1) [OF outside_send_all refl] send unfolding send_persisted_def by (metis snd_conv)
  then have presence: "client_presence_manager s2 = client_presence_manager s" and sock: "sockets s2 = sockets s1"
    by (simp_all add: outside_def s1(3))
  have old: "h < ?n \<Longrightarrow> connections s2 h = connections s h" using outside_connection [OF s2] s1(4) by simp
  have listeners: "displacement_listeners (client_presence_manager s) = (\<lambda>_. None)" by (rule server_invD(1) [OF inv])
  show ?thesis
  proof (cases q)
    case (Ok b)
    let ?s3 = "on_caches (add_message_availability_listener a ?n) s2"
    have s3: "client_presence_manager ?s3 = client_presence_manager s" by (simp add: on_caches_def presence)
    from clone_set_present [OF R, of ?s3 a ?n, unfolded s3, OF typed listeners] obtain p where
      p: "on_presence_clone (set_present ?R a ?n) ?s3 = (Ok () :: (error, unit) outcome, ?s3\<lparr>client_presence_manager := p\<rparr>)"
        "displaced p = displaced (client_presence_manager s)" "fst (is_present ?R a p) = Ok True"
        "strs (view (pres_store p)) (get_presence_key a) = Some (manager_id (client_presence_manager s))" by blast
    from Ok p(1) have "r = Ok ()" "s' = ?s3\<lparr>client_presence_manager := p\<rparr>"
      using announced send s1(1) by (simp_all add: announce_connection_def get_connection_def)
    with old sock s1(1) p(2-4) empty show ?thesis by (simp add: on_caches_def)
  next
    case (Err e)
    then have "r \<noteq> Ok ()" "s' = s2" using announced send s1(1) by (auto simp: announce_connection_def get_connection_def)
    with Err old sock s1(1) presence empty send show ?thesis by (simp add: s1_def)
  next
    case Panic
    then have "r \<noteq> Ok ()" "s' = s2" using announced send s1(1) by (auto simp: announce_connection_def get_connection_def)
    with Panic old sock s1(1) presence empty send show ?thesis by (simp add: s1_def)
  qed
qed

text \<open>
  C14 (error). A response acknowledges a request once. Whatever the server does in between, the same response
  again is an error, and the error panics the task that reads the connection: it is neither closed nor
  removed from the manager, and nothing that arrives on it is handled any more.
\<close>

theorem second_response_kills_reader:
  assumes msg: "we_decode E b = Some msg" "get_type msg = TypeResponse" "wsm_response msg = Some res" "res_id res = Some i"
    and first: "reader_round E d a h (Frame (Binary b)) s = Some (Ok True, s1)"
  shows "pending_requests (connections s h) i \<noteq> None \<and> pending_requests (connections s1 h) i = None \<and>
    (pending_requests (connections t h) i = None \<longrightarrow> reader_loop E ds a h n (Frame (Binary b) # xs) t = Some (Panic, t))"
proof -
  have handled: "handle_response E h res s = (Ok (), s1)"
    using first msg
    by (cases "handle_response E h res s") (auto simp: on_receive_def bind_eq_Ok_iff expect_def split: outcome.splits)
  then obtain g where g: "pending_requests (connections s h) i = Some g"
    using msg(4) by (auto simp: handle_response_def ok_or_def split: option.splits)
  obtain r s2 where del: "delete_message E (address_of E h s) g s = (r, s2)" by fastforce
  with handled g msg(4) have "r = Ok ()" "s1 = on_connection h (\<lambda>c. c\<lparr>pending_requests := (pending_requests c)(i := None)\<rparr>) s2"
    by (cases r; simp add: handle_response_def ok_or_def)+
  then have "pending_requests (connections s1 h) i = None" by (simp add: on_connection_def)
  moreover have "reader_loop E ds a h n (Frame (Binary b) # xs) t = Some (Panic, t)" if "pending_requests (connections t h) i = None"
    using that msg by (simp add: on_receive_def handle_response_def ok_or_def expect_def)
  ultimately show ?thesis using g by blast
qed

section \<open>A server with connections\<close>

text \<open>A socket that keeps the frames it was sent, and messages of two kinds: a keepalive and a response.\<close>

definition frames_sink :: "ws_frame list sink" where
  "frames_sink = \<lparr>sink_send = (\<lambda>f w. (Ok (), w @ [f])), sink_close = (\<lambda>w. (Ok (), w))\<rparr>"

definition keepalive_request :: web_socket_message where
  "keepalive_request = create_request 5 ''GET'' ''/v1/keepalive'' [] None"

definition response_7 :: web_socket_response_message where
  "response_7 = \<lparr>res_id = Some 7, res_status = Some 200, res_message = Some ''OK'', res_headers = [], res_body = None\<rparr>"

definition two_messages :: "bytes \<Rightarrow> web_socket_message option" where
  "two_messages bs =
     (if bs = [0] then Some keepalive_request
      else if bs = [1] then Some \<lparr>wsm_type = Some 2, wsm_request = None, wsm_response = Some response_7\<rparr>
      else None)"

definition example_ws_env :: "(pg, keyspace, ws_frame list) ws_env" where
  "example_ws_env = \<lparr>we_server = example_env, we_sink = frames_sink, we_encode = (\<lambda>_. [2]), we_decode = two_messages,
     we_serialize_regular = (\<lambda>_. replicate 40 0), we_serialize_denim = (\<lambda>_. []), we_chunker = Chunker_new (F32 1),
     we_reason = (\<lambda>_. Some ''OK''), we_json_messages = (\<lambda>_. None), we_json_response = (\<lambda>_. []), we_uri_path = Ok\<rparr>"

definition no_draw :: request_draw where
  "no_draw = \<lparr>rd_now = 0, rd_guid = (\<lambda>_. ''''), rd_guids = (\<lambda>_ _. '''')\<rparr>"

definition no_connections :: "(pg, keyspace, nat) backend \<Rightarrow> (pg, keyspace, ws_frame list) server_state" where
  "no_connections b = \<lparr>backend_of = b,
     client_presence_manager = \<lparr>pres_store = empty_keyspace, displacement_listeners = (\<lambda>_. None), manager_id = ''m'', displaced = []\<rparr>,
     sockets = (\<lambda>_. None),
     connections = (\<lambda>_. \<lparr>identity = IdentityAddress alice, socket_address = '''', ws = Closed, pending_requests = (\<lambda>_. None),
       own_listeners = (\<lambda>_. None)\<rparr>), next_handle = 0\<rparr>"

definition connected :: "(pg, keyspace, nat) backend \<Rightarrow> (pg, keyspace, ws_frame list) server_state" where
  "connected b = start_connection example_ws_env example_sender ''c'' [] (no_connections b)"

lemma example_sender_address: "auth_protocol_address std_ids example_sender KindAci = alice"
  by (simp add: auth_protocol_address_def example_sender_def example_account_def alice_def)

lemma example_ws_ids [simp]: "env_ids (we_server example_ws_env) = std_ids"
  by (simp add: example_ws_env_def example_env_def)

lemma connected_reachable: "server_reachable example_ws_env (connected b)"
  unfolding connected_def
  by (rule server_reachable.step [OF server_reachable.init server_moves.start]) (simp_all add: no_connections_def)

lemma connected_fields:
  "sockets (connected b) = [alice \<mapsto> 0]" "identity (connections (connected b) 0) = IdentityDevice example_sender"
  "next_handle (connected b) = 1" "backend_of (connected b) = b" "address_of example_ws_env 0 (connected b) = alice"
  "ws (connections (connected b) 0) = Active []"
  by (auto simp: connected_def start_connection_def connection_new_def listen_def register_new_connection_def Let_def
      no_connections_def address_of_def example_sender_address)

theorem keepalive_never_returns_witness:
  "on_receive example_ws_env no_draw 0 keepalive_request
    (connected \<lparr>database = stored_example, cache = init_caches\<rparr>) = None"
proof -
  have msg: "wsm_request keepalive_request = Some \<lparr>req_verb = Some ''GET'', req_path = Some ''/v1/keepalive'', req_body = None,
      req_headers = [], req_id = Some 5\<rparr>" "get_type keepalive_request = TypeRequest"
    by (simp_all add: keepalive_request_def create_request_def get_type_def)
  have "sockets (connected \<lparr>database = stored_example, cache = init_caches\<rparr>) alice = Some 0" by (simp add: connected_fields)
  from keepalive_never_returns [OF connected_reachable this connected_fields(2) msg(2,1)] show ?thesis
    by (simp add: starts_with_def)
qed

theorem late_close_removes_successor_witness:
  "\<exists>s s'. sockets s alice = Some 1 \<and> reader_loop example_ws_env (\<lambda>_. no_draw) alice 0 0 [] s = Some (Ok (Some 1), s') \<and>
    \<not> is_connected alice s' \<and> ws (connections s' 1) = Active []"
proof -
  let ?c = "connected \<lparr>database = stored_example, cache = init_caches\<rparr>"
  let ?s = "start_connection example_ws_env example_sender ''d'' [] ?c"
  have s: "sockets ?s alice = Some 1" "next_handle ?s = 2" "address_of example_ws_env 0 ?s = alice"
    "ws (connections ?s 1) = Active []"
    using connected_fields(2,3,5) [of "\<lparr>database = stored_example, cache = init_caches\<rparr>"]
    by (simp_all add: start_connection_def connection_new_def listen_def register_new_connection_def Let_def address_of_def
        example_sender_address)
  have "server_reachable example_ws_env ?s" by (rule server_reachable.step [OF connected_reachable server_moves.start])
  from late_close_removes_successor [OF this _ s(3,1), of "\<lambda>_. no_draw" 0] s
  show ?thesis by (fastforce simp: example_ws_env_def frames_sink_def)
qed

theorem second_response_kills_reader_witness:
  "\<exists>s s1. reader_round example_ws_env no_draw alice 0 (Frame (Binary [1])) s = Some (Ok True, s1) \<and> sockets s1 alice = Some 0 \<and>
    reader_loop example_ws_env (\<lambda>_. no_draw) alice 0 1 [Frame (Binary [1])] s1 = Some (Panic, s1)"
proof -
  obtain t :: "(keyspace, nat) caches" where
    t: "message_rep BASE64_STANDARD one_codec alice (store t) 1 [(''g1'', one_envelope)]" by (rule exE [OF one_cached])
  let ?b = "\<lparr>database = stored_example, cache = t\<rparr>"
  let ?s = "on_connection 0 (\<lambda>c. c\<lparr>pending_requests := [7 \<mapsto> ''g1'']\<rparr>) (connected ?b)"
  from messaging.manager_delete_result [OF messaging_pg [OF keyspace.redis_server_axioms rfc4648.base64_laws_axioms], of one_codec
      ?b alice one_codec 1 "[(''g1'', one_envelope)]" std_ids 1] t one_stamped stamped_codec [OF one_stamped] one_readable stored_example_alice
  obtain b' ms where del: "manager_delete (postgres std_ids one_codec) keyspace_redis BASE64_STANDARD one_codec alice [''g1''] ?b = (Ok ms, b')"
    by auto
  let ?s1 = "on_connection 0 (\<lambda>c. c\<lparr>pending_requests := (\<lambda>_. None)\<rparr>) (?s\<lparr>backend_of := b'\<rparr>)"
  have fields: "address_of example_ws_env 0 ?s = alice" "backend_of ?s = ?b" "pending_requests (connections ?s 0) = [7 \<mapsto> ''g1'']"
    using connected_fields(4,5) [of ?b] by (simp_all add: on_connection_def address_of_def)
  have env: "we_decode example_ws_env [1] = Some \<lparr>wsm_type = Some 2, wsm_request = None, wsm_response = Some response_7\<rparr>"
    "res_id response_7 = Some 7" by (simp_all add: example_ws_env_def two_messages_def response_7_def)
  have dlt: "delete_message example_ws_env alice ''g1'' ?s = (Ok (), ?s\<lparr>backend_of := b'\<rparr>)"
    using del fields(2) by (simp add: delete_message_def on_backend_def example_ws_env_def example_env_def Let_def)
  have "handle_response example_ws_env 0 response_7 ?s = (Ok (), ?s1)"
    using dlt fields by (simp add: handle_response_def env(2) ok_or_def on_connection_def)
  then have first: "reader_round example_ws_env no_draw alice 0 (Frame (Binary [1])) ?s = Some (Ok True, ?s1)"
    by (simp add: env on_receive_def get_type_def expect_def)
  from second_response_kills_reader [where t = ?s1 and ds = "\<lambda>_. no_draw" and n = 1 and xs = "[]", OF env(1) _ _ env(2) first] first
  show ?thesis by (intro exI [of _ ?s] exI [of _ ?s1]) (simp add: get_type_def on_connection_def connected_fields)
qed

lemma empty_queue_sent:
  fixes s :: "(pg, keyspace, ws_frame list) server_state"
  assumes "backend_of s = \<lparr>database = stored_example, cache = init_caches\<rparr>" "address_of example_ws_env h s = alice"
    and "ws (connections s h) = Active w"
  shows "\<exists>s'. send_persisted example_ws_env h (\<lambda>i. i) (\<lambda>_. Some 0) s = (Ok True :: (error, bool) outcome, s')"
proof -
  let ?b = "\<lparr>database = stored_example, cache = init_caches\<rparr> :: (pg, keyspace, nat) backend"
  from messaging.get_messages_result [OF messaging_pg [OF keyspace.redis_server_axioms rfc4648.base64_laws_axioms], of one_codec
      ?b alice one_codec 0 "[]" std_ids] one_readable stored_example_alice one_dequeued rfc4648.message_rep_empty
  obtain b' where "get_messages_for_device (postgres std_ids one_codec) keyspace_redis BASE64_STANDARD one_codec alice False ?b =
      (Ok [], b')"
    by (cases "get_messages_for_device (postgres std_ids one_codec) keyspace_redis BASE64_STANDARD one_codec alice False ?b")
      (simp add: stamped_def)
  then have "fetch_messages example_ws_env alice False s = (Ok [], s\<lparr>backend_of := b'\<rparr>)"
    using assms(1) by (simp add: fetch_messages_def on_backend_def example_ws_env_def example_env_def Let_def)
  with assms(2,3) show ?thesis
    by (simp add: send_persisted_def send_all_def connection_is_active_def send_messages_def send_queue_empty_def current_millis_def
        ok_or_def connection_send_def example_ws_env_def frames_sink_def is_okS_def)
qed

theorem reconnect_displaces_nobody_witness:
  "\<exists>s s'. is_connected alice s \<and>
    create_websocket_endpoint example_ws_env example_sender ''d'' [] (\<lambda>i. i) (\<lambda>_. Some 0) s = (Ok (), s') \<and>
    sockets s' alice = Some 1 \<and> ws (connections s' 0) = Active [] \<and> displaced (client_presence_manager s') = [] \<and>
    fst (is_present keyspace_redis alice (client_presence_manager s')) = Ok True"
proof -
  let ?s = "connected \<lparr>database = stored_example, cache = init_caches\<rparr>"
  let ?s1 = "start_connection example_ws_env example_sender ''d'' [] ?s"
  have s1: "backend_of ?s1 = backend_of ?s" "address_of example_ws_env 1 ?s1 = alice" "ws (connections ?s1 1) = Active []"
    "sockets ?s1 alice = Some 1"
    by (simp_all add: start_connection_def connection_new_def listen_def register_new_connection_def Let_def address_of_def
        connected_fields example_sender_address)
  obtain s2 where send: "send_persisted example_ws_env 1 (\<lambda>i. i) (\<lambda>_. Some 0) ?s1 = (Ok True :: (error, bool) outcome, s2)"
    using empty_queue_sent [OF _ s1(2,3)] s1(1) by (auto simp: connected_fields)
  have presence: "client_presence_manager ?s = client_presence_manager (no_connections \<lparr>database = stored_example, cache = init_caches\<rparr>)"
    by (simp add: connected_def start_connection_def connection_new_def listen_def register_new_connection_def Let_def)
  obtain r s' where run: "create_websocket_endpoint example_ws_env example_sender ''d'' [] (\<lambda>i. i) (\<lambda>_. Some 0) ?s = (r, s')"
    by fastforce
  have redis: "env_redis (we_server example_ws_env) = keyspace_redis" by (simp add: example_ws_env_def example_env_def)
  from reconnect_displaces_nobody [OF connected_reachable _ _ _ run, of "\<lambda>K. K" alice 0 True s2] run send presence redis
    keyspace.redis_server_axioms
  show ?thesis
    by (intro exI [of _ ?s] exI [of _ s'])
      (simp add: no_connections_def presence_typed_empty is_connected_def connected_fields example_sender_address)
qed

end
