(* ===== verification/Websocket_Delivery.thy ===== *)
theory Websocket_Delivery
  imports Websocket_Props Rows_Room
begin

text \<open>
  What a connected client is sent: when its messages are announced, the first page of its cached queue
  goes out in order, each message with what fits of its deniable payloads, and is removed.
\<close>

section \<open>Keys that are touched\<close>

lemma touches_get_first [touch_intros]: "touching S (get_first keyspace_redis qk lk)"
  unfolding get_first_def by (intro touch_intros)

lemma touches_update_value [touch_intros]: "qk \<in> S \<Longrightarrow> touching S (update_value keyspace_redis b64 qk i v)"
  unfolding update_value_def by (intro touch_intros)

lemma touches_dequeue_from [touch_intros]:
  "queue_keys qk mk ik \<subseteq> S \<Longrightarrow> touching S (dequeue_bytes_from keyspace_redis b64 qk mk ik n e)"
  unfolding dequeue_bytes_from_def by (intro touch_intros) auto

lemma touches_dequeue_bytes:
  assumes "queue_keys qk mk ik \<subseteq> S"
  shows "touching S (dequeue_bytes keyspace_redis b64 qk mk ik lk n)"
  unfolding touches_def
proof
  fix K
  obtain r K1 where first: "get_first keyspace_redis qk lk K = (r, K1)" by fastforce
  note K1 = touchesD [OF touches_get_first first, of S]
  show "same_except S K (snd (dequeue_bytes keyspace_redis b64 qk mk ik lk n K))"
  proof (cases r)
    case (Ok e)
    have "same_except S K1 (snd (dequeue_bytes_from keyspace_redis b64 qk mk ik n e K1))"
      using touches_dequeue_from [OF assms] by (simp add: touches_def)
    with K1 show ?thesis by (auto simp: dequeue_bytes_def first Ok intro: same_except_trans)
  qed (use K1 in \<open>simp_all add: dequeue_bytes_def first\<close>)
qed

lemma touches_payload_loop: "touching (payload_keys a b) (dequeue_payload_loop keyspace_redis b64 a b out n)"
proof (induction n arbitrary: out rule: less_induct)
  case (less n)
  show ?case
    unfolding touches_def
  proof
    fix K
    let ?m = "n - 12"
    obtain r K1 where deq: "dequeue_bytes keyspace_redis b64 (payload_queue_key a b) (payload_queue_metadata_key a b)
        (payload_queue_index_key b) (payload_persist_in_progress_key a b) ?m K = (r, K1)" by fastforce
    have K1: "same_except (payload_keys a b) K K1" by (rule touchesD [OF touches_dequeue_bytes deq]) simp
    have "same_except (payload_keys a b) K1 (snd (dequeue_payload_loop keyspace_redis b64 a b out' k' K1))"
      if "k' < n" for out' k'
      using less.IH [OF that] by (simp add: touches_def)
    with K1 show "same_except (payload_keys a b) K (snd (dequeue_payload_loop keyspace_redis b64 a b out n K))"
      by (subst dequeue_payload_loop.simps)
        (auto simp: redis_simps deq EMPTY_DENIMCHUNK_SIZE_def Let_def split: outcome.split intro: same_except_trans)
  qed
qed

lemma touches_create_denim: "touches store (payload_keys a Receiver) (create_denim_message keyspace_redis b64 sr ck a e)"
  unfolding create_denim_message_def dequeue_outgoing_payload_buffer_def dequeue_payload_data_def
  by (intro touch_intros touches_payload_loop)

lemma touches_message_remove: "touches store (message_keys a) (message_remove keyspace_redis b64 C a gs)"
  unfolding message_remove_def by (intro touch_intros) auto

section \<open>Message queues and payload queues\<close>

lemma message_payload_apart [simp]:
  "get_message_queue_key a \<notin> payload_keys a' b" "get_message_queue_metadata_key a \<notin> payload_keys a' b"
  "rev_key (get_message_queue_metadata_key a) \<notin> payload_keys a' b" "get_queue_index_key \<notin> payload_keys a' b"
  "get_persist_in_progress_key a \<notin> payload_keys a' b"
  "payload_queue_key a' b \<notin> message_keys a" "payload_queue_metadata_key a' b \<notin> message_keys a"
  "rev_key (payload_queue_metadata_key a' b) \<notin> message_keys a" "payload_queue_index_key b \<notin> message_keys a"
  "payload_persist_in_progress_key a' b \<notin> message_keys a"
  by (cases b; simp add: message_key_defs payload_key_defs)+

lemma message_rep_payloads:
  assumes "message_rep b64 C a K c xs" "same_except (payload_keys a' b) K K'"
  shows "message_rep b64 C a K' c xs" "queue_lock a K' = queue_lock a K"
proof -
  show "queue_lock a K' = queue_lock a K" using assms(2) message_payload_apart(5) [of a a' b] by (auto simp: same_except_def)
  obtain items where
    q: "queue_rep b64 (get_message_queue_key a) (get_message_queue_metadata_key a) get_queue_index_key K c items"
      "map (\<lambda>it. (item_guid it, item_value it)) items = map (\<lambda>(g, e). (g, serialize C e)) xs"
      "str_key K (get_persist_in_progress_key a)"
    using assms(1) by (auto simp: message_rep_def)
  have "queue_rep b64 (get_message_queue_key a) (get_message_queue_metadata_key a) get_queue_index_key K' c items"
    by (rule queue_rep_frame [OF q(1) assms(2)]) (rule message_payload_apart | rule disjI1)+
  moreover have "str_key K' (get_persist_in_progress_key a)"
    using str_key_same [OF assms(2) message_payload_apart(5)] q(3) by simp
  ultimately show "message_rep b64 C a K' c xs" using q(2) by (auto simp: message_rep_def)
qed

lemma payload_rep_messages:
  assumes "payload_rep b64 a b K c rows" "same_except (message_keys a') K K'"
  shows "payload_rep b64 a b K' c rows"
proof -
  obtain items where
    q: "queue_rep b64 (payload_queue_key a b) (payload_queue_metadata_key a b) (payload_queue_index_key b) K c items"
      "map (\<lambda>it. (item_value it, item_order it)) items = rows"
      "str_key K (payload_persist_in_progress_key a b)" "strs K (payload_persist_in_progress_key a b) = None"
    using assms(1) by (auto simp: payload_rep_def)
  have "queue_rep b64 (payload_queue_key a b) (payload_queue_metadata_key a b) (payload_queue_index_key b) K' c items"
    by (rule queue_rep_frame [OF q(1) assms(2)]) (rule message_payload_apart | rule disjI1)+
  moreover have "str_key K' (payload_persist_in_progress_key a b) \<and> strs K' (payload_persist_in_progress_key a b) = None"
    by (rule lock_frame [OF assms(2) message_payload_apart(10) q(3,4)])
  ultimately show ?thesis using q(2) by (auto simp: payload_rep_def)
qed

section \<open>Steps on the backend\<close>

lemma touches_simulated:
  "simulates (map_store view) m k \<Longrightarrow> touches store S k \<Longrightarrow> touches (\<lambda>s. view (store s)) S m"
  unfolding touches_def simulates_def by (metis map_store_fields(1) snd_conv)

lemma touches_on_cache [touch_intros]: "touches f S m \<Longrightarrow> touches (\<lambda>s. f (cache s)) S (on_cache m)"
  by (simp add: touches_def on_cache_def case_prod_beta)

lemma touches_on_db [touch_intros]: "touches (\<lambda>s. f (cache s)) S (on_db m)"
  by (simp add: touches_def on_db_def case_prod_beta)

text \<open>What waits for a client: regular messages, unlocked, and deniable payloads.\<close>

definition queued :: "base64 \<Rightarrow> envelope codec \<Rightarrow> ('r \<Rightarrow> keyspace) \<Rightarrow> protocol_address \<Rightarrow> (pg, 'r, 'l) backend
    \<Rightarrow> (string \<times> envelope) list \<Rightarrow> row list \<Rightarrow> bool" where
  "queued b64 C view a B xs rows \<longleftrightarrow>
     (\<exists>c. message_rep b64 C a (view (store (cache B))) c xs) \<and> stamped C xs \<and> queue_lock a (view (store (cache B))) = None \<and>
     (\<exists>c. payload_rep b64 a Receiver (view (store (cache B))) c rows) \<and> readable C (database B) \<and> known_device (database B) a"

lemma fetch_cached:
  assumes R: "redis_server R view" "base64_laws b64" and q: "queued b64 C view a B xs rows"
  shows "\<exists>B'. get_messages_for_device (postgres ids C) R b64 C a True B = (Ok (map snd (take PAGE_SIZE xs)), B') \<and>
    queued b64 C view a B' xs rows \<and> database B' = database B"
proof -
  obtain c where "message_rep b64 C a (store (map_store view (cache B))) c xs" "stamped C xs"
    "queue_lock a (store (map_store view (cache B))) = None"
    using q by (auto simp: queued_def)
  with base64_laws.get_all_messages_rep [OF R(2) this(1,2)]
  have "get_all_messages keyspace_redis b64 C a (map_store view (cache B)) = (Ok (map snd (take PAGE_SIZE xs)), map_store view (cache B))"
    by simp
  from simD [OF redis_server.sim_get_all_messages [OF R(1)] this] obtain u where
    u: "get_all_messages R b64 C a (cache B) = (Ok (map snd (take PAGE_SIZE xs)), u)" "map_store view u = map_store view (cache B)"
    by blast
  have "view (store u) = view (store (cache B))" using arg_cong [OF u(2), of store] by simp
  with q u(1) show ?thesis by (intro exI [of _ "B\<lparr>cache := u\<rparr>"]) (simp add: get_messages_for_device_def queued_def)
qed

lemma denim_queued:
  fixes sr :: "regular_payload \<Rightarrow> bytes" and ck :: chunker
  assumes R: "redis_server R view" "base64_laws b64" and q: "queued b64 C view a B xs rows" "rows_ok rows"
    and space: "8 \<le> total_free_space ck (usize_as_f32 (length (sr (RegularEnvelope e))))"
    and fl: "fill (\<lambda>c. c - 1) (total_free_space ck (usize_as_f32 (length (sr (RegularEnvelope e)))) - 8) rows = (cs, f, rows')"
  shows "\<exists>B'. on_cache (create_denim_message R b64 sr ck a e) B =
      (Ok \<lparr>dm_regular_payload = RegularEnvelope e, dm_chunks = cs, dm_counter = None, dm_q = Some (q_value ck), dm_ballast = replicate f 0\<rparr>, B') \<and>
    queued b64 C view a B' xs rows' \<and> database B' = database B"
proof -
  obtain c where rep: "payload_rep b64 a Receiver (view (store (cache B))) c rows" using q(1) by (auto simp: queued_def)
  from create_denim_message_spec [where sr = sr and ck = ck and env = e, OF R rep q(2) space fl] obtain u c' where
    u: "create_denim_message R b64 sr ck a e (cache B) =
        (Ok \<lparr>dm_regular_payload = RegularEnvelope e, dm_chunks = cs, dm_counter = None, dm_q = Some (q_value ck), dm_ballast = replicate f 0\<rparr>, u)"
      "payload_rep b64 a Receiver (view (store u)) c' rows'" by blast
  from touchesD [OF touches_simulated [OF redis_server.sim_create_denim_message [OF R(1)] touches_create_denim] u(1)]
  have same: "same_except (payload_keys a Receiver) (view (store (cache B))) (view (store u))" .
  obtain c1 where "message_rep b64 C a (view (store (cache B))) c1 xs" using q(1) by (auto simp: queued_def)
  from message_rep_payloads [OF this same] u(2) q(1) have "queued b64 C view a (B\<lparr>cache := u\<rparr>) xs rows'"
    by (auto simp: queued_def)
  with u(1) show ?thesis by (intro exI [of _ "B\<lparr>cache := u\<rparr>"]) simp
qed

lemma delete_queued:
  assumes R: "redis_server R view" "base64_laws b64" and q: "queued b64 C view a B ((g, e) # xs) rows"
  shows "\<exists>B' ms. manager_delete (postgres ids C) R b64 C a [g] B = (Ok ms, B') \<and> queued b64 C view a B' xs rows \<and>
    pg_messages C (database B') a = []"
proof -
  note M = messaging_pg [OF R, where C = C and ids = ids]
  have rdy: "messaging.ready (readable C) known_device B a" using q by (simp add: messaging.ready_def [OF M] queued_def)
  have "messaging.cached (codec_ok C) view b64 C B a ((g, e) # xs)"
    using q stamped_codec [of C "(g, e) # xs"] by (auto simp: messaging.cached_def [OF M] queued_def)
  from messaging.manager_delete_all [OF M rdy this, of 1] obtain B' where
    B': "manager_delete (postgres ids C) R b64 C a [g] B = (Ok (e # pg_messages C (database B) a), B')"
      "messaging.ready (readable C) known_device B' a" "messaging.cached (codec_ok C) view b64 C B' a xs" "pg_messages C (database B') a = []"
    by auto
  have "touches (\<lambda>s. view (store (cache s))) (message_keys a) (manager_delete (postgres ids C) R b64 C a [g])"
    unfolding manager_delete_def
    by (intro touch_intros touches_on_cache [where f = "\<lambda>c. view (store c)"] touches_on_db [where f = "\<lambda>c. view (store c)"]
        touches_simulated [OF redis_server.sim_message_remove [OF R(1)] touches_message_remove])
  from touchesD [OF this B'(1)] have same: "same_except (message_keys a) (view (store (cache B))) (view (store (cache B')))" .
  obtain c where "payload_rep b64 a Receiver (view (store (cache B))) c rows" using q by (auto simp: queued_def)
  from payload_rep_messages [OF this same] message_lock_same(2) [OF same] B'(2,3) q
  have "queued b64 C view a B' xs rows"
    by (auto simp: queued_def messaging.ready_def [OF M] messaging.cached_def [OF M])
  with B'(1,4) show ?thesis by blast
qed

section \<open>What is sent\<close>

definition outgoing :: "envelope \<Rightarrow> envelope" where
  "outgoing e = e\<lparr>ephemeral := None, story := Some False\<rparr>"

definition denim_space :: "('d, 'r, 'w) ws_env \<Rightarrow> envelope \<Rightarrow> nat" where
  "denim_space E e = total_free_space (we_chunker E) (usize_as_f32 (length (we_serialize_regular E (RegularEnvelope (outgoing e)))))"

definition denim_message_with :: "('d, 'r, 'w) ws_env \<Rightarrow> envelope \<Rightarrow> denim_chunk list \<Rightarrow> nat \<Rightarrow> denim_message" where
  "denim_message_with E e cs f = \<lparr>dm_regular_payload = RegularEnvelope (outgoing e), dm_chunks = cs, dm_counter = None,
     dm_q = Some (q_value (we_chunker E)), dm_ballast = replicate f 0\<rparr>"

text \<open>The messages that carry a list of envelopes, and the payloads that do not fit into them.\<close>

fun denim_messages :: "('d, 'r, 'w) ws_env \<Rightarrow> envelope list \<Rightarrow> row list \<Rightarrow> denim_message list \<times> row list" where
  "denim_messages E [] rows = ([], rows)"
| "denim_messages E (e # es) rows =
     (let (cs, f, rows1) = fill (\<lambda>c. c - 1) (denim_space E e - 8) rows; (ds, rows2) = denim_messages E es rows1 in
      (denim_message_with E e cs f # ds, rows2))"

definition message_frame :: "('d, 'r, 'w) ws_env \<Rightarrow> nat \<Rightarrow> nat \<Rightarrow> denim_message \<Rightarrow> ws_frame" where
  "message_frame E i ns d = Binary (we_encode E (create_request i ''PUT'' ''/api/v1/message''
     [''X-Signal-Key: false'', ''X-Signal-Timestamp: '' @ show_nat (ns div 10 ^ 6)] (Some (we_serialize_denim E d))))"

fun message_frames :: "('d, 'r, 'w) ws_env \<Rightarrow> (nat \<Rightarrow> nat) \<Rightarrow> (nat \<Rightarrow> nat) \<Rightarrow> nat \<Rightarrow> denim_message list \<Rightarrow> ws_frame list" where
  "message_frames E req t n [] = []"
| "message_frames E req t n (d # ds) = message_frame E (req n) (t n) d # message_frames E req t (n + 1) ds"

definition queue_empty_frame :: "('d, 'r, 'w) ws_env \<Rightarrow> nat \<Rightarrow> nat \<Rightarrow> ws_frame" where
  "queue_empty_frame E i ns = Binary (we_encode E (create_request i ''PUT'' ''/api/v1/queue/empty''
     [''X-Signal-Timestamp: '' @ show_nat (ns div 10 ^ 6)] None))"

text \<open>A sink that takes every frame, and an environment over Postgres and a Redis server.\<close>

definition accepts :: "'w sink \<Rightarrow> ('w \<Rightarrow> ws_frame list) \<Rightarrow> bool" where
  "accepts S sent \<longleftrightarrow> (\<forall>f w. \<exists>w'. sink_send S f w = (Ok (), w') \<and> sent w' = sent w @ [f])"

definition serves :: "(pg, 'r, 'w) ws_env \<Rightarrow> id_codec \<Rightarrow> envelope codec \<Rightarrow> ('r \<Rightarrow> keyspace) \<Rightarrow> bool" where
  "serves E ids C view \<longleftrightarrow> env_db (we_server E) = postgres ids C \<and> env_envelopes (we_server E) = C \<and>
     redis_server (env_redis (we_server E)) view \<and> base64_laws (env_base64 (we_server E))"

lemma servesD:
  assumes "serves E ids C view"
  shows "env_db (we_server E) = postgres ids C" "env_envelopes (we_server E) = C"
    "redis_server (env_redis (we_server E)) view" "base64_laws (env_base64 (we_server E))"
  using assms by (simp_all add: serves_def)

text \<open>A connection that has sent frames, with what still waits for it.\<close>

definition sending :: "(pg, 'r, 'w) ws_env \<Rightarrow> envelope codec \<Rightarrow> ('r \<Rightarrow> keyspace) \<Rightarrow> ('w \<Rightarrow> ws_frame list) \<Rightarrow> protocol_address \<Rightarrow> nat
    \<Rightarrow> ws_frame list \<Rightarrow> (string \<times> envelope) list \<Rightarrow> row list \<Rightarrow> (pg, 'r, 'w) server_state \<Rightarrow> bool" where
  "sending E C view sent a h frames xs rows s \<longleftrightarrow>
     (\<exists>w. ws (connections s h) = Active w \<and> sent w = frames) \<and> address_of E h s = a \<and>
     queued (env_base64 (we_server E)) C view a (backend_of s) xs rows"

lemma sending_send:
  assumes "accepts (we_sink E) sent" "sending E C view sent a h frames xs rows s"
  shows "\<exists>s'. connection_send E h f s = (Ok (), s') \<and> sending E C view sent a h (frames @ [f]) xs rows s' \<and> backend_of s' = backend_of s"
proof -
  obtain w where w: "ws (connections s h) = Active w" "sent w = frames" using assms(2) by (auto simp: sending_def)
  obtain w' where "sink_send (we_sink E) f w = (Ok (), w')" "sent w' = sent w @ [f]" using assms(1) by (auto simp: accepts_def)
  with w assms(2) show ?thesis by (auto simp: connection_send_def sending_def on_connection_def address_of_def)
qed

lemma sending_backend:
  "sending E C view sent a h frames xs rows s \<Longrightarrow> queued (env_base64 (we_server E)) C view a B xs' rows' \<Longrightarrow>
    sending E C view sent a h frames xs' rows' (s\<lparr>backend_of := B\<rparr>)"
  by (simp add: sending_def address_of_def)

lemma sending_pending:
  "sending E C view sent a h frames xs rows s \<Longrightarrow>
    sending E C view sent a h frames xs rows (on_connection h (\<lambda>c. c\<lparr>pending_requests := p c\<rparr>) s)"
  by (simp add: sending_def address_of_def on_connection_def)

lemma send_message_sends:
  assumes E: "serves E ids C view" "accepts (we_sink E) sent" and s: "sending E C view sent a h frames ((g, e) # xs) rows s"
    and room: "rows_ok rows" "8 \<le> denim_space E e" and fl: "fill (\<lambda>c. c - 1) (denim_space E e - 8) rows = (cs, f, rows')"
  shows "\<exists>s'. connection_send_message E h i (Some t) e s = (Ok (), s') \<and>
    sending E C view sent a h (frames @ [message_frame E i t (denim_message_with E e cs f)]) xs rows' s' \<and>
    pg_messages C (database (backend_of s')) a = []"
proof -
  note E1 = servesD [OF E(1)]
  have q: "queued (env_base64 (we_server E)) C view a (backend_of s) ((g, e) # xs) rows" "address_of E h s = a"
    using s by (simp_all add: sending_def)
  have guid: "server_guid e = Some g" using q(1) by (simp add: queued_def stamped_def)
  from denim_queued [where sr = "we_serialize_regular E" and ck = "we_chunker E" and e = "outgoing e", OF E1(3,4) q(1) room(1)] room(2) fl
  obtain B1 where B1: "denim_message_for E a (outgoing e) s = (Ok (denim_message_with E e cs f), s\<lparr>backend_of := B1\<rparr>)"
    "queued (env_base64 (we_server E)) C view a B1 ((g, e) # xs) rows'"
    by (auto simp: denim_message_for_def on_backend_def denim_space_def denim_message_with_def Let_def)
  let ?msg = "create_request i ''PUT'' ''/api/v1/message''
      [''X-Signal-Key: false'', ''X-Signal-Timestamp: '' @ show_nat (t div 10 ^ 6)] (Some (we_serialize_denim E (denim_message_with E e cs f)))"
  let ?s1 = "on_connection h (\<lambda>c. c\<lparr>pending_requests := (pending_requests c)(i \<mapsto> g)\<rparr>) (s\<lparr>backend_of := B1\<rparr>)"
  have created: "create_message E h i (Some t) e s = (Ok ?msg, ?s1)"
    using B1(1) q(2) guid
    by (simp add: create_message_def expectS_def expect_def current_millis_def ok_or_def Let_def outgoing_def)
  have "sending E C view sent a h frames ((g, e) # xs) rows' ?s1" by (rule sending_pending [OF sending_backend [OF s B1(2)]])
  from sending_send [OF E(2) this] obtain s2 where
    s2: "connection_send E h (message_frame E i t (denim_message_with E e cs f)) ?s1 = (Ok (), s2)"
      "sending E C view sent a h (frames @ [message_frame E i t (denim_message_with E e cs f)]) ((g, e) # xs) rows' s2" by blast
  have q2: "queued (env_base64 (we_server E)) C view a (backend_of s2) ((g, e) # xs) rows'" "address_of E h s2 = a"
    using s2(2) by (simp_all add: sending_def)
  from delete_queued [OF E1(3,4) q2(1), of ids] obtain B3 ms where
    B3: "manager_delete (postgres ids C) (env_redis (we_server E)) (env_base64 (we_server E)) C a [g] (backend_of s2) = (Ok ms, B3)"
      "queued (env_base64 (we_server E)) C view a B3 xs rows'" "pg_messages C (database B3) a = []" by blast
  then have "delete_message E a g s2 = (Ok (), s2\<lparr>backend_of := B3\<rparr>)"
    by (simp add: delete_message_def on_backend_def E1(1,2) Let_def)
  then have "connection_send_message E h i (Some t) e s = (Ok (), s2\<lparr>backend_of := B3\<rparr>)"
    using s2(1) q2(2) guid by (simp add: connection_send_message_def created message_frame_def server_guid_of_def)
  with sending_backend [OF s2(2) B3(2)] B3(3) show ?thesis by simp
qed

lemma send_loop_sends:
  fixes s :: "(pg, 'r, 'w) server_state"
  assumes E: "serves E ids C view" "accepts (we_sink E) sent" and s: "sending E C view sent a h frames (xs @ ys) rows s"
    and room: "rows_room (length xs) rows" "list_all (\<lambda>x. 8 \<le> denim_space E (snd x)) xs"
    and ds: "denim_messages E (map snd xs) rows = (ds, rows')"
  shows "\<exists>s'. (send_messages_loop E h req (\<lambda>k. Some (t k)) n (map snd xs) :: (pg, 'r, 'w, error, unit) server_step) s = (Ok (), s') \<and>
    sending E C view sent a h (frames @ message_frames E req t n ds) ys rows' s' \<and>
    pg_messages C (database (backend_of s')) a = (if xs = [] then pg_messages C (database (backend_of s)) a else [])"
  using s room ds
proof (induction xs arbitrary: s frames rows ds n)
  case (Cons x xs)
  obtain g e where x: "x = (g, e)" by fastforce
  obtain cs f rows1 ds1 where fl: "fill (\<lambda>c. c - 1) (denim_space E e - 8) rows = (cs, f, rows1)"
    and ds1: "denim_messages E (map snd xs) rows1 = (ds1, rows')" "ds = denim_message_with E e cs f # ds1"
    using Cons.prems(4) by (auto simp: x split: prod.splits)
  have s: "sending E C view sent a h frames ((g, e) # xs @ ys) rows s" using Cons.prems(1) by (simp add: x)
  have rm: "rows_ok rows" "8 \<le> denim_space E e" using Cons.prems(2,3) by (auto simp: x intro: rows_room_ok)
  have rm1: "rows_room (length xs) rows1" using rows_room_fill [OF fl, of "length xs"] Cons.prems(2) by simp
  from send_message_sends [OF E s rm fl, of "req n" "t n"] obtain s1 where
    s1: "connection_send_message E h (req n) (Some (t n)) e s = (Ok (), s1)"
      "sending E C view sent a h (frames @ [message_frame E (req n) (t n) (denim_message_with E e cs f)]) (xs @ ys) rows1 s1"
      "pg_messages C (database (backend_of s1)) a = []" by blast
  from Cons.IH [OF s1(2) rm1 _ ds1(1), of "n + 1"] Cons.prems(3) obtain s' where
    "(send_messages_loop E h req (\<lambda>k. Some (t k)) (n + 1) (map snd xs) :: (pg, 'r, 'w, error, unit) server_step) s1 = (Ok (), s')"
    "sending E C view sent a h ((frames @ [message_frame E (req n) (t n) (denim_message_with E e cs f)]) @ message_frames E req t (n + 1) ds1) ys rows' s'"
    "pg_messages C (database (backend_of s')) a = []" using s1(3) by (auto split: if_splits)
  with s1(1) ds1(2) show ?case by (intro exI [of _ s']) (simp add: x)
qed (simp add: message_frames.simps)

lemma denim_messages_rounds:
  "denim_messages E es rows = (ds, rows') \<Longrightarrow>
    fill_rounds (\<lambda>c. c - 1) (map (\<lambda>e. denim_space E e - 8) es) rows = (concat (map dm_chunks ds), rows')"
  by (induction es arbitrary: rows ds) (auto simp: denim_message_with_def split: prod.splits)

lemma denim_messages_envelopes:
  "denim_messages E es rows = (ds, rows') \<Longrightarrow> map dm_regular_payload ds = map (RegularEnvelope \<circ> outgoing) es"
  by (induction es arbitrary: rows ds) (auto simp: denim_message_with_def split: prod.splits)

lemma send_cached_sends:
  fixes s :: "(pg, 'r, 'w) server_state"
  assumes E: "serves E ids C view" "accepts (we_sink E) sent" and s: "sending E C view sent a h frames xs rows s"
    and room: "rows_room PAGE_SIZE rows" "list_all (\<lambda>x. 8 \<le> denim_space E (snd x)) xs"
    and ds: "denim_messages E (map snd (take PAGE_SIZE xs)) rows = (ds, rows')"
  shows "\<exists>s'. (send_cached E h req (\<lambda>k. Some (t k)) :: (pg, 'r, 'w, error, bool) server_step) s = (Ok True, s') \<and>
    sending E C view sent a h (frames @ message_frames E req t 1 ds @ [queue_empty_frame E (req 0) (t 0)]) (drop PAGE_SIZE xs) rows' s' \<and>
    pg_messages C (database (backend_of s')) a = (if xs = [] then pg_messages C (database (backend_of s)) a else [])"
proof -
  note E1 = servesD [OF E(1)]
  have q: "queued (env_base64 (we_server E)) C view a (backend_of s) xs rows" "address_of E h s = a" "connection_is_active h s"
    using s by (auto simp: sending_def connection_is_active_def)
  from fetch_cached [OF E1(3,4) q(1), of ids] obtain B1 where
    B1: "fetch_messages E a True s = (Ok (map snd (take PAGE_SIZE xs)), s\<lparr>backend_of := B1\<rparr>)"
      "queued (env_base64 (we_server E)) C view a B1 xs rows" "database B1 = database (backend_of s)"
    by (auto simp: fetch_messages_def on_backend_def E1(1,2) Let_def)
  have "sending E C view sent a h frames (take PAGE_SIZE xs @ drop PAGE_SIZE xs) rows (s\<lparr>backend_of := B1\<rparr>)"
    using sending_backend [OF s B1(2)] by simp
  moreover have "rows_room (length (take PAGE_SIZE xs)) rows" by (rule rows_room_mono [OF room(1)]) simp
  moreover have "list_all (\<lambda>x. 8 \<le> denim_space E (snd x)) (take PAGE_SIZE xs)"
    using room(2) set_take_subset [of PAGE_SIZE xs] by (auto simp: list_all_iff)
  ultimately obtain s2 where
    s2: "(send_messages_loop E h req (\<lambda>k. Some (t k)) 1 (map snd (take PAGE_SIZE xs)) :: (pg, 'r, 'w, error, unit) server_step)
        (s\<lparr>backend_of := B1\<rparr>) = (Ok (), s2)"
      "sending E C view sent a h (frames @ message_frames E req t 1 ds) (drop PAGE_SIZE xs) rows' s2"
      "pg_messages C (database (backend_of s2)) a = (if take PAGE_SIZE xs = [] then pg_messages C (database B1) a else [])"
    using send_loop_sends [OF E _ _ _ ds, of a h frames "drop PAGE_SIZE xs" "s\<lparr>backend_of := B1\<rparr>" req t 1] by auto
  have sent: "(send_messages E h req (\<lambda>k. Some (t k)) True :: (pg, 'r, 'w, error, bool) server_step) s = (Ok True, s2)"
    using s2(1) by (simp add: send_messages_def q(2) B1(1))
  from sending_send [OF E(2) s2(2), of "queue_empty_frame E (req 0) (t 0)"] obtain s3 where
    s3: "connection_send E h (queue_empty_frame E (req 0) (t 0)) s2 = (Ok (), s3)"
      "sending E C view sent a h ((frames @ message_frames E req t 1 ds) @ [queue_empty_frame E (req 0) (t 0)]) (drop PAGE_SIZE xs) rows' s3"
      "backend_of s3 = backend_of s2" by blast
  have "(send_queue_empty E h (req 0) (Some (t 0)) :: (pg, 'r, 'w, error, bool) server_step) s2 = (Ok True, s3)"
    using s3(1) by (simp add: send_queue_empty_def current_millis_def ok_or_def queue_empty_frame_def)
  then have "(send_cached E h req (\<lambda>k. Some (t k)) :: (pg, 'r, 'w, error, bool) server_step) s = (Ok True, s3)"
    using q(3) sent by (simp add: send_cached_def send_all_def)
  moreover have "take PAGE_SIZE xs = [] \<longleftrightarrow> xs = []" by (simp add: PAGE_SIZE_def)
  ultimately show ?thesis using s3(2,3) s2(3) B1(3) by (intro exI [of _ s3]) simp
qed

section \<open>Properties\<close>

text \<open>
  C11 (refinement). \<open>send_cached\<close> on an open connection refines the filling of space from a list: it returns
  and sends the first page of the cached queue in order, each envelope in a message whose deniable part
  is filled from the front of the queued payloads, then the frame that the queue is empty. The messages
  sent leave the cache, the payload bytes sent leave their queue; but with any message that it sends, all
  messages that were persisted for the client are gone, and none of them was sent.
\<close>

theorem cached_messages_sent:
  fixes s :: "(pg, 'r, 'w) server_state"
  assumes "serves E ids C view" "accepts (we_sink E) sent" "sending E C view sent a h frames xs rows s"
    and "rows_room PAGE_SIZE rows" "list_all (\<lambda>x. 8 \<le> denim_space E (snd x)) xs"
    and "denim_messages E (map snd (take PAGE_SIZE xs)) rows = (ds, rows')"
  shows "\<exists>s'. (send_cached E h req (\<lambda>k. Some (t k)) :: (pg, 'r, 'w, error, bool) server_step) s = (Ok True, s') \<and>
    sending E C view sent a h (frames @ message_frames E req t 1 ds @ [queue_empty_frame E (req 0) (t 0)]) (drop PAGE_SIZE xs) rows' s' \<and>
    pg_messages C (database (backend_of s')) a = (if xs = [] then pg_messages C (database (backend_of s)) a else [])"
  by (rule send_cached_sends [OF assms])

section \<open>Witnesses\<close>

text \<open>A cache in which a message and a payload wait for the client.\<close>

lemma one_waiting:
  obtains t :: "(keyspace, 'l) caches" where
    "message_rep BASE64_STANDARD one_codec alice (store t) 1 [(''g1'', one_envelope)]" "queue_lock alice (store t) = None"
    "payload_rep BASE64_STANDARD alice Receiver (store t) 1 [([1, 2, 3], 0)]"
proof -
  let ?i = "init_caches :: (keyspace, 'l) caches" and ?C = "\<lparr>serialize = (\<lambda>_. [1, 2, 3]), deserialize = (\<lambda>_. Panic)\<rparr> :: deniable_payload codec"
  let ?put = "payload_insert keyspace_redis BASE64_STANDARD ?C 0 alice Receiver (DenEnvelope blank_envelope) ''p'' :: ((keyspace, 'l) caches, error, nat) step"
  obtain t where
    ins: "(message_insert keyspace_redis BASE64_STANDARD one_codec 0 alice blank_envelope ''g1'' :: ((keyspace, 'l) caches, error, nat) step) ?i = (Ok 1, t)"
    and t: "message_rep BASE64_STANDARD one_codec alice (store t) 1 [(''g1'', one_envelope)]" "queue_lock alice (store t) = None"
    using rfc4648.message_insert_rep [where s = ?i and g = "''g1''" and e = blank_envelope and C = one_codec and a = alice and now = 0,
        unfolded store_init, OF rfc4648.message_rep_empty] by (fastforce simp: one_envelope_def)
  have "same_except (message_keys alice) empty_keyspace (store t)" using touchesD [OF touches_message_insert ins] by simp
  from payload_rep_messages [OF payload_rep_empty this]
  have "payload_rep BASE64_STANDARD alice Receiver (store t) 0 []" .
  then obtain u where pay: "?put t = (Ok 1, u)" and u: "payload_rep BASE64_STANDARD alice Receiver (store u) 1 [([1, 2, 3], 0)]"
    using rfc4648.payload_insert_rep [where s = t and g = "''p''" and C = ?C and a = alice and b = Receiver and items = "[]" and c = 0 and now = 0]
    by (fastforce simp: payload_rep_def)
  have "touches store (payload_keys alice Receiver) ?put"
    unfolding payload_insert_def notify_cached_def by (intro touch_intros) auto
  from message_rep_payloads [OF t(1) touchesD [OF this pay]] t(2) u that show thesis by simp
qed

lemma example_serves: "serves example_ws_env std_ids one_codec (\<lambda>K. K)"
  by (simp add: serves_def example_ws_env_def example_env_def keyspace.redis_server_axioms rfc4648.base64_laws_axioms)

lemma example_accepts: "accepts (we_sink example_ws_env) (\<lambda>w. w)"
  by (simp add: accepts_def example_ws_env_def frames_sink_def)

lemma example_denim_space: "denim_space example_ws_env e = 40"
proof -
  have "total_free_space (Chunker_new (F32 1)) (usize_as_f32 40) = 40" by (rule total_ratio_1) simp
  then show ?thesis by (simp add: denim_space_def example_ws_env_def)
qed

lemma example_denim_messages:
  "denim_messages example_ws_env [e] [([1, 2, 3], 0)] =
    ([denim_message_with example_ws_env e [\<lparr>chunk = [1, 2, 3], flags = 2\<rparr>, dummy_chunk 5] 0], [])"
proof -
  have "fill (\<lambda>c. c - 1) 32 [([1, 2, 3], 0)] = ([\<lparr>chunk = [1, 2, 3], flags = 2\<rparr>, dummy_chunk 5], 0, [])"
    by (rule fill_whole) (simp_all add: fill_empty)
  then show ?thesis by (simp add: example_denim_space)
qed

lemma example_sending:
  obtains t :: "(keyspace, nat) caches" where
    "sending example_ws_env one_codec (\<lambda>K. K) (\<lambda>w. w) alice 0 [] [(''g1'', one_envelope)] [([1, 2, 3], 0)]
      (connected \<lparr>database = stored_example, cache = t\<rparr>)"
proof (rule one_waiting)
  fix t :: "(keyspace, nat) caches"
  assume t: "message_rep BASE64_STANDARD one_codec alice (store t) 1 [(''g1'', one_envelope)]" "queue_lock alice (store t) = None"
    "payload_rep BASE64_STANDARD alice Receiver (store t) 1 [([1, 2, 3], 0)]"
  then have "queued BASE64_STANDARD one_codec (\<lambda>K. K) alice \<lparr>database = stored_example, cache = t\<rparr> [(''g1'', one_envelope)] [([1, 2, 3], 0)]"
    using one_stamped one_readable stored_example_alice by (auto simp: queued_def)
  moreover have "env_base64 (we_server example_ws_env) = BASE64_STANDARD" by (simp add: example_ws_env_def example_env_def)
  ultimately show thesis by (intro that [of t]) (simp add: sending_def connected_fields)
qed

theorem cached_messages_sent_witness:
  "\<exists>s s'. (send_cached example_ws_env 0 (\<lambda>n. n) (\<lambda>_. Some 0) :: (pg, keyspace, ws_frame list, error, bool) server_step) s = (Ok True, s') \<and>
    ws (connections s 0) = Active [] \<and> ws (connections s' 0) = Active
      (message_frames example_ws_env (\<lambda>n. n) (\<lambda>_. 0) 1
        [denim_message_with example_ws_env one_envelope [\<lparr>chunk = [1, 2, 3], flags = 2\<rparr>, dummy_chunk 5] 0] @
       [queue_empty_frame example_ws_env 0 0])"
proof -
  obtain t :: "(keyspace, nat) caches" where
    s: "sending example_ws_env one_codec (\<lambda>K. K) (\<lambda>w. w) alice 0 [] [(''g1'', one_envelope)] [([1, 2, 3], 0)]
      (connected \<lparr>database = stored_example, cache = t\<rparr>)" by (rule example_sending)
  have "rows_room PAGE_SIZE [([1, 2, 3], 0)]" by (simp add: PAGE_SIZE_def)
  moreover have "list_all (\<lambda>x. 8 \<le> denim_space example_ws_env (snd x)) [(''g1'', one_envelope)]" by (simp add: example_denim_space)
  moreover have "denim_messages example_ws_env (map snd (take PAGE_SIZE [(''g1'', one_envelope)])) [([1, 2, 3], 0)] =
      ([denim_message_with example_ws_env one_envelope [\<lparr>chunk = [1, 2, 3], flags = 2\<rparr>, dummy_chunk 5] 0], [])"
    using example_denim_messages [of one_envelope] by (simp only: PAGE_SIZE_def take_Cons_numeral take_Nil list.map snd_conv)
  ultimately obtain s' where
    "(send_cached example_ws_env 0 (\<lambda>n. n) (\<lambda>_. Some 0) :: (pg, keyspace, ws_frame list, error, bool) server_step)
      (connected \<lparr>database = stored_example, cache = t\<rparr>) = (Ok True, s')"
    "sending example_ws_env one_codec (\<lambda>K. K) (\<lambda>w. w) alice 0 ([] @ message_frames example_ws_env (\<lambda>n. n) (\<lambda>_. 0) 1
        [denim_message_with example_ws_env one_envelope [\<lparr>chunk = [1, 2, 3], flags = 2\<rparr>, dummy_chunk 5] 0] @
       [queue_empty_frame example_ws_env 0 0]) (drop PAGE_SIZE [(''g1'', one_envelope)]) [] s'"
    using cached_messages_sent [OF example_serves example_accepts s, where req = "\<lambda>n. n" and t = "\<lambda>_. 0"] by blast
  then show ?thesis
    by (intro exI [of _ "connected \<lparr>database = stored_example, cache = t\<rparr>"] exI [of _ s']) (auto simp: sending_def connected_fields)
qed

end
