(* ===== verification/Deniable_Delivery.thy ===== *)
theory Deniable_Delivery
  imports Websocket_Delivery Client_Receiving
begin

text \<open>
  The way of deniable payloads down to a client, over both programs: from the queue of the server, in
  the messages that it sends over the websocket, to the payloads that the client handles.
\<close>

text \<open>
  C10 (functional). When the server announces the cached messages of a client, the deniable payloads that
  wait for the client travel with them and arrive: if the client handles the chunks of the sent messages
  one message after the other, it gets the payloads complete and in order; the chunks it keeps and the
  bytes still in the queue of the server are together the payloads that it did not get, and when the
  queue is empty it has got them all.
\<close>

theorem deniable_payloads_reach_client:
  fixes s :: "(pg, 'r, 'w) server_state"
  assumes "serves E ids C view" "accepts (we_sink E) sent" "sending E C view sent a h frames xs rows s"
    and "rows_room PAGE_SIZE rows" "list_all (\<lambda>x. 8 \<le> denim_space E (snd x)) xs"
    and "denim_messages E (map snd (take PAGE_SIZE xs)) rows = (ds, rows')"
    and "ce_db EC = device DE" "stored_chunks (client.database c) []" "length (concat (map dm_chunks ds)) < 2 ^ 32"
    and "map_outcome (deserialize (payload_codec EC)) (map fst rows) = Ok ps"
  shows "\<exists>s' pss db rest.
    (send_cached E h req (\<lambda>k. Some (t k)) :: (pg, 'r, 'w, error, bool) server_step) s = (Ok True, s') \<and>
    sending E C view sent a h (frames @ message_frames E req t 1 ds @ [queue_empty_frame E (req 0) (t 0)]) (drop PAGE_SIZE xs) rows' s' \<and>
    forS (map dm_chunks ds) (\<lambda>cs. handle_incoming_chunks EC (no_dummies cs)) c = (Ok pss, c\<lparr>client.database := db\<rparr>) \<and>
    stored_chunks db rest \<and> concat pss = take (length (concat pss)) ps \<and>
    outstanding (concat (map chunk rest)) rows' = drop (length (concat pss)) (map fst rows) \<and>
    (rows' = [] \<longrightarrow> concat pss = ps)"
proof -
  have rows: "rows_data rows" by (rule rows_ok_data [OF rows_room_ok [OF assms(4)]])
  from rounds_rebuilt [OF assms(7-9) denim_messages_rounds [OF assms(6)] rows _ assms(10)]
    send_cached_sends [OF assms(1-6), of req t]
  show ?thesis by fastforce
qed
theorem deniable_payloads_reach_client_witness:
  "\<exists>s s' pss db p. (send_cached example_ws_env 0 (\<lambda>n. n) (\<lambda>_. Some 0) :: (pg, keyspace, ws_frame list, error, bool) server_step) s = (Ok True, s') \<and>
    forS [[\<lparr>chunk = [1, 2, 3], flags = 2\<rparr>, dummy_chunk 5]] (\<lambda>cs. handle_incoming_chunks plain_client_env (no_dummies cs))
      (plain_client empty_device_db) = (Ok pss, plain_client empty_device_db\<lparr>client.database := db\<rparr>) \<and>
    concat pss = [p]"
proof -
  let ?rows = "[([1, 2, 3], 0)] :: row list" and ?xs = "[(''g1'', one_envelope)]"
  let ?ds = "[denim_message_with example_ws_env one_envelope [\<lparr>chunk = [1, 2, 3], flags = 2\<rparr>, dummy_chunk 5] 0]"
  obtain t :: "(keyspace, nat) caches" where
    s: "sending example_ws_env one_codec (\<lambda>K. K) (\<lambda>w. w) alice 0 [] ?xs ?rows (connected \<lparr>backend.database = stored_example, cache = t\<rparr>)"
    by (rule example_sending)
  have room: "rows_room PAGE_SIZE ?rows" by (simp add: PAGE_SIZE_def)
  have space: "list_all (\<lambda>x. 8 \<le> denim_space example_ws_env (snd x)) ?xs" by (simp add: example_denim_space)
  have ds: "denim_messages example_ws_env (map snd (take PAGE_SIZE ?xs)) ?rows = (?ds, [])"
    using example_denim_messages [of one_envelope] by (simp only: PAGE_SIZE_def take_Cons_numeral take_Nil list.map snd_conv)
  have st: "stored_chunks (client.database (plain_client empty_device_db)) []"
    by (simp add: stored_chunks_def empty_device_db_def chunk_rows_def)
  obtain p where "map_outcome (deserialize (payload_codec plain_client_env)) (map fst ?rows) = Ok [p]"
    by (simp add: plain_client_env_def request_codec_def)
  moreover have "length (concat (map dm_chunks ?ds)) < 2 ^ 32" by (simp add: denim_message_with_def)
  ultimately obtain s' pss db where
    "(send_cached example_ws_env 0 (\<lambda>n. n) (\<lambda>_. Some 0) :: (pg, keyspace, ws_frame list, error, bool) server_step)
        (connected \<lparr>backend.database = stored_example, cache = t\<rparr>) = (Ok True, s')"
    "forS (map dm_chunks ?ds) (\<lambda>cs. handle_incoming_chunks plain_client_env (no_dummies cs)) (plain_client empty_device_db) =
        (Ok pss, plain_client empty_device_db\<lparr>client.database := db\<rparr>)"
    "concat pss = [p]"
    using deniable_payloads_reach_client [OF example_serves example_accepts s room space ds plain_env_simps(1) st,
        where ps = "[p]" and req = "\<lambda>n. n" and t = "\<lambda>_. 0"] by blast
  then show ?thesis
    by (intro exI [of _ "connected \<lparr>backend.database = stored_example, cache = t\<rparr>"] exI [of _ s'] exI [of _ pss] exI [of _ db] exI [of _ p])
      (simp add: denim_message_with_def)
qed

end
