(* ===== verification/Socket_Manager.thy ===== *)
theory Socket_Manager
  imports Net_Helper Option_Steps
begin

text \<open>
  The client's end of the websocket: \<open>SocketManager\<close> and \<open>signal_ws_connect\<close> of
  \<open>client/src/socket_manager.rs\<close> and \<open>PersistentReceiver\<close> of \<open>client/src/persistent_receiver.rs\<close>.
  Dialing, TLS and tokio's broadcast channel are parameters. Waiting for a message that never comes is
  \<open>None\<close>; what comes while a receiver waits belongs to the state of the channel.
\<close>

section \<open>The broadcast channel\<close>

record 'b broadcast =
  bc_send :: "web_socket_message \<Rightarrow> ('b, error, unit) step"
  bc_subscribe :: "'b \<Rightarrow> nat \<times> 'b"
  bc_recv :: "nat \<Rightarrow> ('b, error, web_socket_message) ostep"

section \<open>The manager\<close>

text \<open>The clones of a manager share everything but their receiver.\<close>

record ('w, 'b) socket_manager =
  sk_next_id :: nat
  sk_channel :: 'b
  sk_receiver :: nat
  sk_connection :: "'w connection_state"

record ('w, 'b) socket_env =
  sk_sink :: "'w sink"
  sk_encode :: "web_socket_message \<Rightarrow> bytes"
  sk_decode :: "bytes \<Rightarrow> web_socket_message option"
  sk_broadcast :: "'b broadcast"

type_synonym ('w, 'b, 'e, 'a) socket_step = "(('w, 'b) socket_manager, 'e, 'a) step"
type_synonym ('w, 'b, 'e, 'a) socket_ostep = "(('w, 'b) socket_manager, 'e, 'a) ostep"

definition on_channel :: "('b, 'e, 'a) ostep \<Rightarrow> ('w, 'b, 'e, 'a) socket_ostep" where
  "on_channel m s = map_option (\<lambda>(r, b). (r, s\<lparr>sk_channel := b\<rparr>)) (m (sk_channel s))"

definition socket_manager_new :: "('w, 'b) socket_env \<Rightarrow> 'b \<Rightarrow> ('w, 'b) socket_manager" where
  "socket_manager_new E b =
     (case bc_subscribe (sk_broadcast E) b of (rx, b') \<Rightarrow>
        \<lparr>sk_next_id = 0, sk_channel = b', sk_receiver = rx, sk_connection = Closed\<rparr>)"

text \<open>The receiver of a new clone.\<close>

definition socket_subscribe :: "('w, 'b) socket_env \<Rightarrow> ('w, 'b, 'e, nat) socket_step" where
  "socket_subscribe E s = (case bc_subscribe (sk_broadcast E) (sk_channel s) of (rx, b) \<Rightarrow> (Ok rx, s\<lparr>sk_channel := b\<rparr>))"

definition socket_is_active :: "('w, 'b) socket_manager \<Rightarrow> bool" where
  "socket_is_active s \<longleftrightarrow> is_active (sk_connection s)"

text \<open>The result of sending the close frame is ignored, and the sink is dropped.\<close>

definition socket_close_reason :: "('w, 'b) socket_env \<Rightarrow> nat \<Rightarrow> string \<Rightarrow> ('w, 'b, 'e, unit) socket_step" where
  "socket_close_reason E code reason s =
     (case sk_connection s of
        Closed \<Rightarrow> (Ok (), s)
      | Active socket \<Rightarrow>
          (if fst (sink_send (sk_sink E) (CloseFrame (Some (code, reason))) socket) = Panic then Panic else Ok (),
           s\<lparr>sk_connection := Closed\<rparr>))"

definition socket_close :: "('w, 'b) socket_env \<Rightarrow> ('w, 'b, 'e, unit) socket_step" where
  "socket_close E = socket_close_reason E 1000 ''Goodbye''"

text \<open>The stream is installed, with a clone for the task that reads it.\<close>

definition set_stream :: "('w, 'b) socket_env \<Rightarrow> 'w \<Rightarrow> ('w, 'b, error, unit) socket_step" where
  "set_stream E sender s =
     (if socket_is_active s then (Err ''A Stream is already present!'', s)
      else bindS (socket_subscribe E) (\<lambda>_. returnS ()) (s\<lparr>sk_connection := Active sender\<rparr>))"

text \<open>A round of that task: whether it goes on. The end of the stream ends it without closing anything.\<close>

fun socket_round :: "('w, 'b) socket_env \<Rightarrow> received \<Rightarrow> ('w, 'b, 'e, bool) socket_step" where
  "socket_round E (RecvError _) = bindS (socket_close E) (\<lambda>_. returnS False)"
| "socket_round E (Frame (Text _)) = bindS (socket_close E) (\<lambda>_. returnS False)"
| "socket_round E (Frame (Binary x)) =
     (case sk_decode E x of
        None \<Rightarrow> bindS (socket_close_reason E 1007 ''Badly formatted'') (\<lambda>_. returnS False)
      | Some msg \<Rightarrow> (\<lambda>s. case bc_send (sk_broadcast E) msg (sk_channel s) of
            (Ok _, b) \<Rightarrow> (Ok True, s\<lparr>sk_channel := b\<rparr>)
          | (Err _, b) \<Rightarrow> bindS (socket_close E) (\<lambda>_. returnS False) (s\<lparr>sk_channel := b\<rparr>)
          | (Panic, b) \<Rightarrow> (Panic, s\<lparr>sk_channel := b\<rparr>)))"
| "socket_round E (Frame (CloseFrame _)) = bindS (socket_close E) (\<lambda>_. returnS False)"
| "socket_round E (Frame OtherFrame) = returnS True"

fun socket_loop :: "('w, 'b) socket_env \<Rightarrow> received list \<Rightarrow> ('w, 'b, 'e, unit) socket_step" where
  "socket_loop E [] = returnS ()"
| "socket_loop E (x # xs) = bindS (socket_round E x) (\<lambda>goes_on. if goes_on then socket_loop E xs else returnS ())"

section \<open>Requests and replies\<close>

definition next_request_id :: "('w, 'b, 'e, nat) socket_step" where
  "next_request_id s = (Ok (sk_next_id s), s\<lparr>sk_next_id := (sk_next_id s + 1) mod 2 ^ 64\<rparr>)"

text \<open>The id that a message carries; a request or response without one panics.\<close>

definition carried_id :: "web_socket_message \<Rightarrow> ('e, nat option) outcome" where
  "carried_id msg =
     (case get_type msg of
        TypeResponse \<Rightarrow> bind (expect (ok_or () (wsm_response msg))) (\<lambda>res.
          bind (expect (ok_or () (res_id res))) (\<lambda>i. Ok (Some i)))
      | TypeRequest \<Rightarrow> bind (expect (ok_or () (wsm_request msg))) (\<lambda>req.
          bind (expect (ok_or () (req_id req))) (\<lambda>i. Ok (Some i)))
      | TypeUnknown \<Rightarrow> Ok None)"

partial_function (option) wait_for_id :: "'b broadcast \<Rightarrow> nat \<Rightarrow> nat \<Rightarrow> ('b, error, web_socket_message) ostep" where
  "wait_for_id B rx i b =
     (case bc_recv B rx b of
        None \<Rightarrow> None
      | Some (Ok msg, b') \<Rightarrow>
          (case carried_id msg of
             Ok j \<Rightarrow> if j = Some i then Some (Ok msg, b') else wait_for_id B rx i b'
           | Err e \<Rightarrow> Some (Err e, b')
           | Panic \<Rightarrow> Some (Panic, b'))
      | Some (Err e, b') \<Rightarrow> Some (Err e, b')
      | Some (Panic, b') \<Rightarrow> Some (Panic, b'))"

text \<open>\<open>send_response\<close> only sends; \<open>send\<close> also waits for the message with its id.\<close>

definition socket_send_response :: "('w, 'b) socket_env \<Rightarrow> web_socket_message \<Rightarrow> ('w, 'b, error, unit) socket_step" where
  "socket_send_response E msg s =
     (case sk_connection s of
        Active sender \<Rightarrow> (case sink_send (sk_sink E) (Binary (sk_encode E msg)) sender of
          (r, sender') \<Rightarrow> (r, s\<lparr>sk_connection := Active sender'\<rparr>))
      | Closed \<Rightarrow> (Err ''Closed'', s))"

definition socket_send :: "('w, 'b) socket_env \<Rightarrow> nat \<Rightarrow> web_socket_message \<Rightarrow> ('w, 'b, error, web_socket_message) socket_ostep" where
  "socket_send E i msg s =
     bindO (okS (socket_send_response E msg)) (\<lambda>_. on_channel (wait_for_id (sk_broadcast E) (sk_receiver s) i)) s"

section \<open>The receiver of messages\<close>

record persistent_receiver =
  pr_receiver :: nat
  pr_queue :: "web_socket_message list"
  pr_running :: bool

text \<open>
  The task that filters messages into an unbounded queue, one message at a time; any error of the
  channel ends it. Receiving from the queue waits while the task runs.
\<close>

definition persistent_receiver_new :: "nat \<Rightarrow> persistent_receiver" where
  "persistent_receiver_new rx = \<lparr>pr_receiver = rx, pr_queue = [], pr_running = True\<rparr>"

definition persistent_receiver_round :: "'b broadcast \<Rightarrow> (web_socket_message \<Rightarrow> web_socket_message option) option
    \<Rightarrow> (persistent_receiver \<times> 'b, 'e, bool) ostep" where
  "persistent_receiver_round B flt = (\<lambda>(p, b).
     if \<not> pr_running p then Some (Ok False, (p, b))
     else (case bc_recv B (pr_receiver p) b of
        None \<Rightarrow> None
      | Some (Ok msg, b') \<Rightarrow>
          (let x = (case flt of Some f \<Rightarrow> f msg | None \<Rightarrow> Some msg) in
           Some (Ok True, (case x of Some m \<Rightarrow> p\<lparr>pr_queue := pr_queue p @ [m]\<rparr> | None \<Rightarrow> p, b')))
      | Some (Err _, b') \<Rightarrow> Some (Ok False, (p\<lparr>pr_running := False\<rparr>, b'))
      | Some (Panic, b') \<Rightarrow> Some (Panic, (p\<lparr>pr_running := False\<rparr>, b'))))"

definition persistent_receiver_recv :: "(persistent_receiver, 'e, web_socket_message option) ostep" where
  "persistent_receiver_recv p =
     (case pr_queue p of
        msg # rest \<Rightarrow> Some (Ok (Some msg), p\<lparr>pr_queue := rest\<rparr>)
      | [] \<Rightarrow> if pr_running p then None else Some (Ok None, p))"

definition persistent_receiver_is_empty :: "persistent_receiver \<Rightarrow> bool" where
  "persistent_receiver_is_empty p \<longleftrightarrow> pr_queue p = []"

section \<open>Dialing\<close>

text \<open>\<open>str::replace\<close>.\<close>

function replace_all :: "string \<Rightarrow> string \<Rightarrow> string \<Rightarrow> string" where
  "replace_all old new [] = []"
| "replace_all old new (c # cs) =
     (if old \<noteq> [] \<and> starts_with (c # cs) old then new @ replace_all old new (drop (length old) (c # cs))
      else c # replace_all old new cs)"
  by pat_completeness auto
termination by (relation "measure (\<lambda>(old, new, s). length s)") auto

record ws_target =
  wt_host :: "string option"
  wt_port :: "nat option"

text \<open>
  Parsing urls and headers, connecting and the upgrade are those of the libraries; the upgrade gives the
  sink and what the response has for a header, if it is text.
\<close>

record ('n, 'w) dialer =
  into_client_request :: "string \<Rightarrow> ws_target option"
  header_value :: "string \<Rightarrow> bool"
  tcp_connect :: "string \<Rightarrow> nat \<Rightarrow> ('n, error, unit) step"
  set_tcp_keepalive :: "('n, error, unit) step"
  rustls_cfg :: "string \<Rightarrow> (error, unit) outcome"
  upgrade :: "(string \<times> string) list \<Rightarrow> nat \<Rightarrow> ('n, error, 'w \<times> (string \<Rightarrow> string option)) step"
  parse_f32 :: "string \<Rightarrow> f32 option"

definition ws_headers :: "base64 \<Rightarrow> string \<Rightarrow> string \<Rightarrow> (string \<times> string) list" where
  "ws_headers b64 username password =
     [(''Authorization'', ''Basic '' @ b64_encode b64 (string_bytes (username @ '':'' @ password))),
      (''Accept-Encoding'', ''gzip''), (''user-agent'', ''Signal Clone Client''), (''x-signal-agent'', ''OWA''),
      (''sec-websocket-extensions'', ''permessage-deflate''), (''x-signal-receive-stories'', ''false'')]"

definition signal_ws_connect :: "('n, 'w) dialer \<Rightarrow> base64 \<Rightarrow> string option \<Rightarrow> string \<Rightarrow> string \<Rightarrow> string
    \<Rightarrow> ('n, error, 'w \<times> f32) step" where
  "signal_ws_connect D b64 tls_cert url username password =
     (let url = replace_all ''http'' ''ws'' url @ ''/v1/websocket''; headers = ws_headers b64 username password in
      bindS (liftS (ok_or ''Failed to convert to client request'' (into_client_request D url))) (\<lambda>req.
      bindS (forS headers (\<lambda>(key, v). liftS (if header_value D v then Ok () else Err (''failed to add '' @ key @ '' header'')))) (\<lambda>_.
      bindS (liftS (ok_or ''No Host'' (wt_host req))) (\<lambda>host.
      bindS (liftS (ok_or ''No Port'' (wt_port req))) (\<lambda>port.
      bindS (tcp_connect D host port) (\<lambda>_.
      bindS (\<lambda>n. case set_tcp_keepalive D n of (r, n') \<Rightarrow> (map_err (\<lambda>_. ''Failed to set keepalive'') r, n')) (\<lambda>_.
      bindS (case tls_cert of Some path \<Rightarrow> liftS (rustls_cfg D path) | None \<Rightarrow> returnS ()) (\<lambda>_.
      bindS (\<lambda>n. case upgrade D headers 2162688 n of (r, n') \<Rightarrow> (map_err (\<lambda>_. ''Failed to connect to server'') r, n')) (\<lambda>(w, response).
      liftS (bind (expect (ok_or () (response ''q-value''))) (\<lambda>text.
        bind (expect (ok_or () (parse_f32 D text))) (\<lambda>q. Ok (w, q)))))))))))))"

end
