(* ===== verification/Signal_Server.thy ===== *)
theory Signal_Server
  imports Socket_Manager Client Account_Manager
begin

text \<open>
  \<open>SignalServer\<close> of \<open>client/src/server.rs\<close>: the trait \<open>SignalServerAPI\<close> over HTTP and the websocket.
  The HTTP client, gzip and serde's JSON are parameters. A body that was read once is empty.
\<close>

section \<open>HTTP\<close>

record http_request =
  hq_verb :: string
  hq_uri :: string
  hq_headers :: "(string \<times> string) list"
  hq_body :: "bytes option"

record http_response =
  hr_status :: nat
  hr_encodings :: "string list option"
  hr_body :: "(error, bytes) outcome"

record ('w, 'b, 'n) signal_env =
  so_socket :: "('w, 'b) socket_env"
  so_dialer :: "('n, 'w) dialer"
  so_http :: "http_request \<Rightarrow> ('n, error, http_response) step"
  so_gunzip :: "bytes \<Rightarrow> (error, bytes) outcome"
  so_text :: "bytes \<Rightarrow> (error, string) outcome"
  so_base64 :: base64
  so_ids :: id_codec
  so_decoding :: key_decoding
  so_show_status :: "nat \<Rightarrow> string"
  so_show_text :: "(error, string) outcome \<Rightarrow> string"
  so_reason :: "nat \<Rightarrow> string option"
  so_json_keys :: "set_key_request \<Rightarrow> (error, bytes) outcome"
  so_json_registration :: "registration_request \<Rightarrow> bytes"
  so_json_messages :: "denim_messages \<Rightarrow> bytes"
  so_parse_keys :: "bytes \<Rightarrow> (error, pre_key_response) outcome"
  so_parse_registration :: "bytes \<Rightarrow> (error, account_identity_response) outcome"
  so_url :: string
  so_tls :: "string option"

text \<open>The middleware: three headers for the request, a body that is all gzip is unpacked.\<close>

definition signal_layer_handle :: "('w, 'b, 'n) signal_env \<Rightarrow> http_request \<Rightarrow> ('n, error, http_response) step" where
  "signal_layer_handle E req =
     bindS (so_http E (req\<lparr>hq_headers := hq_headers req @
       [(''user-agent'', ''Signal Client Clone''), (''x-signal-agent'', ''OWA''), (''accept-encoding'', ''gzip'')]\<rparr>)) (\<lambda>res.
     case hr_encodings res of
       Some encoding \<Rightarrow>
         if list_all (\<lambda>x. x = ''gzip'') encoding then
           liftS (bind (hr_body res) (\<lambda>body_bytes. bind (so_gunzip E body_bytes) (\<lambda>body. Ok (res\<lparr>hr_body := Ok body\<rparr>))))
         else returnS res
     | None \<Rightarrow> returnS res)"

definition body_string :: "('w, 'b, 'n) signal_env \<Rightarrow> http_response \<Rightarrow> (error, string) outcome" where
  "body_string E res = bind (hr_body res) (so_text E)"

definition body_read :: "http_response \<Rightarrow> http_response" where
  "body_read res = res\<lparr>hr_body := Ok []\<rparr>"

section \<open>The server as the client sees it\<close>

record ('w, 'b, 'n) signal_server =
  auth_header :: "basic_authorization_header option"
  http_client :: 'n
  socket_manager :: "('w, 'b) socket_manager"
  message_queue :: persistent_receiver

text \<open>The verb and the body, which serde may fail to write.\<close>

datatype req_type =
    GetReq
  | PostReq "(error, bytes) outcome"
  | PutReq "(error, bytes) outcome"
  | DeleteReq "(error, bytes) outcome"

fun req_verb_of :: "req_type \<Rightarrow> string" where
  "req_verb_of GetReq = ''GET''"
| "req_verb_of (PostReq _) = ''POST''"
| "req_verb_of (PutReq _) = ''PUT''"
| "req_verb_of (DeleteReq _) = ''DELETE''"

fun req_payload :: "req_type \<Rightarrow> (error, bytes option) outcome" where
  "req_payload GetReq = Ok None"
| "req_payload (PostReq p) = bind p (\<lambda>b. Ok (Some b))"
| "req_payload (PutReq p) = bind p (\<lambda>b. Ok (Some b))"
| "req_payload (DeleteReq p) = bind p (\<lambda>b. Ok (Some b))"

datatype server_request_error =
    StatusCodeError nat string
  | BodyDecodeError string
  | TransmissionError string
  | NoAuthDevice

fun show_request_error :: "('w, 'b, 'n) signal_env \<Rightarrow> server_request_error \<Rightarrow> string" where
  "show_request_error E (StatusCodeError code content) = ''Response was '' @ so_show_status E code @ '': '' @ content"
| "show_request_error E (BodyDecodeError fault) = ''Could not decode response body: '' @ fault"
| "show_request_error E (TransmissionError fault) = ''HTTP communication with server failed: '' @ fault"
| "show_request_error E NoAuthDevice = ''You cannot make requests without an authentication device.''"

type_synonym ('w, 'b, 'n, 'e, 'a) signal_step = "(('w, 'b, 'n) signal_server, 'e, 'a) step"
type_synonym ('w, 'b, 'n, 'a) signal_ostep = "(('w, 'b, 'n) signal_server, signal_client_error, 'a) ostep"

definition on_http :: "('e \<Rightarrow> 'f) \<Rightarrow> ('n, 'e, 'a) step \<Rightarrow> ('w, 'b, 'n, 'f, 'a) signal_step" where
  "on_http fault m s = (case m (http_client s) of (r, n) \<Rightarrow> (map_err fault r, s\<lparr>http_client := n\<rparr>))"

definition on_socket :: "('e \<Rightarrow> 'f) \<Rightarrow> ('w, 'b, 'e, 'a) socket_step \<Rightarrow> ('w, 'b, 'n, 'f, 'a) signal_step" where
  "on_socket fault m s = (case m (socket_manager s) of (r, k) \<Rightarrow> (map_err fault r, s\<lparr>socket_manager := k\<rparr>))"

definition on_socketO :: "(error \<Rightarrow> signal_client_error) \<Rightarrow> ('w, 'b, error, 'a) socket_ostep \<Rightarrow> ('w, 'b, 'n, 'a) signal_ostep" where
  "on_socketO fault m s = map_option (\<lambda>(r, k). (map_err fault r, s\<lparr>socket_manager := k\<rparr>)) (m (socket_manager s))"

text \<open>A status other than 200 is an error; its body is read twice, first to be printed.\<close>

definition make_request :: "('w, 'b, 'n) signal_env \<Rightarrow> req_type \<Rightarrow> string \<Rightarrow> ('w, 'b, 'n, server_request_error, http_response) signal_step" where
  "make_request E t uri =
     bindS (getS auth_header) (\<lambda>auth.
     bindS (liftS (ok_or NoAuthDevice auth)) (\<lambda>header.
     bindS (liftS (map_err BodyDecodeError (req_payload t))) (\<lambda>payload.
     bindS (on_http TransmissionError (signal_layer_handle E \<lparr>hq_verb = req_verb_of t, hq_uri = uri,
       hq_headers = [(''Authorization'', header_encode (so_base64 E) header)], hq_body = payload\<rparr>)) (\<lambda>res.
     if hr_status res = 200 then returnS res
     else bindS (liftS (expect (body_string E res))) (\<lambda>_.
       liftS (case body_string E (body_read res) of
         Ok text \<Rightarrow> Err (StatusCodeError (hr_status res) text)
       | Err _ \<Rightarrow> Err (StatusCodeError (hr_status res) '''')
       | Panic \<Rightarrow> Panic))))))"

section \<open>The operations\<close>

definition signal_connect :: "('w, 'b, 'n) signal_env \<Rightarrow> string \<Rightarrow> string \<Rightarrow> ('w, 'b, 'n, signal_client_error, f32 option) signal_step" where
  "signal_connect E username password =
     bindS (getS (socket_is_active \<circ> socket_manager)) (\<lambda>active.
     if active then returnS None
     else bindS (on_http WebSocketError (signal_ws_connect (so_dialer E) (so_base64 E) (so_tls E) (so_url E) username password)) (\<lambda>(w, q).
       bindS (on_socket WebSocketError (set_stream (so_socket E) w)) (\<lambda>_. returnS (Some q))))"

definition signal_disconnect :: "('w, 'b, 'n) signal_env \<Rightarrow> ('w, 'b, 'n, signal_client_error, unit) signal_step" where
  "signal_disconnect E = on_socket WebSocketError (socket_close (so_socket E))"

definition signal_publish_pre_key_bundle :: "('w, 'b, 'n) signal_env \<Rightarrow> set_key_request \<Rightarrow> ('w, 'b, 'n, signal_client_error, unit) signal_step" where
  "signal_publish_pre_key_bundle E b =
     bindS (map_errS (KeyError \<circ> show_request_error E) (make_request E (PutReq (so_json_keys E b)) ''/v2/keys?identity=aci'')) (\<lambda>_. returnS ())"

definition signal_fetch_pre_key_bundles :: "('w, 'b, 'n) signal_env \<Rightarrow> service_id \<Rightarrow> ('w, 'b, 'n, signal_client_error, pre_key_bundle list) signal_step" where
  "signal_fetch_pre_key_bundles E sid =
     bindS (map_errS (KeyError \<circ> show_request_error E) (make_request E GetReq (''/v2/keys/'' @ service_id_string (so_ids E) sid @ ''/*''))) (\<lambda>res.
     bindS (liftS (map_err KeyError (bind (hr_body res) (so_parse_keys E)))) (\<lambda>pre_key_res.
     liftS (map_err KeyError (pre_key_bundles_try_from (so_decoding E) pre_key_res))))"

definition is_success :: "nat \<Rightarrow> bool" where
  "is_success status \<longleftrightarrow> 200 \<le> status \<and> status < 300"

text \<open>The text of a response that is not a success is formatted as Rust debugs the result of reading it.\<close>

definition received_text :: "('w, 'b, 'n) signal_env \<Rightarrow> http_response \<Rightarrow> ('e, string) outcome" where
  "received_text E res =
     (if body_string E res = Panic then Panic
      else Ok (''Received '' @ so_show_status E (hr_status res) @ '': '' @ so_show_text E (body_string E res)))"

definition signal_register_client :: "('w, 'b, 'n) signal_env \<Rightarrow> string \<Rightarrow> string \<Rightarrow> registration_request
    \<Rightarrow> ('w, 'b, 'n, signal_client_error, account_identity_response) signal_step" where
  "signal_register_client E phone password req =
     (let header = \<lparr>bah_username = phone, bah_device_id = 1, bah_password = password\<rparr> in
      bindS (on_http (\<lambda>_. RegistrationError NoResponse) (signal_layer_handle E \<lparr>hq_verb = ''POST'', hq_uri = ''v1/registration'',
        hq_headers = [(''Authorization'', header_encode (so_base64 E) header)], hq_body = Some (so_json_registration E req)\<rparr>)) (\<lambda>res.
      liftS (if is_success (hr_status res) then
          bind (map_err (RegistrationError \<circ> BadResponse) (hr_body res)) (\<lambda>body_bytes.
          map_err (RegistrationError \<circ> BadResponse) (so_parse_registration E body_bytes))
        else bind (received_text E res) (\<lambda>text. Err (RegistrationError (BadResponse text))))))"

definition signal_get_service_id :: "('w, 'b, 'n) signal_env \<Rightarrow> string \<Rightarrow> ('w, 'b, 'n, signal_client_error, service_id) signal_step" where
  "signal_get_service_id E phone =
     bindS (getS auth_header) (\<lambda>auth.
     bindS (liftS (ok_or NoSession auth)) (\<lambda>header.
     bindS (on_http (\<lambda>_. IdentifierError NoResponse) (signal_layer_handle E \<lparr>hq_verb = ''GET'', hq_uri = ''v1/identifier/'' @ phone,
       hq_headers = [(''Authorization'', header_encode (so_base64 E) header)], hq_body = None\<rparr>)) (\<lambda>res.
     liftS (if is_success (hr_status res) then
         bind (map_err (IdentifierError \<circ> BadResponse) (body_string E res)) (\<lambda>text.
         expect (ok_or () (parse_from_service_id_string (so_ids E) text)))
       else bind (received_text E res) (\<lambda>text. Err (IdentifierError (BadResponse text)))))))"

text \<open>The response is dropped, whatever its status.\<close>

definition signal_send_msg :: "('w, 'b, 'n) signal_env \<Rightarrow> denim_messages \<Rightarrow> service_id \<Rightarrow> ('w, 'b, 'n, unit) signal_ostep" where
  "signal_send_msg E ms recipient =
     (let payload = so_json_messages E ms; uri = ''/v1/messages/'' @ service_id_string (so_ids E) recipient @ ''?story=false'' in
      bindO (okS (on_socket WebSocketError next_request_id)) (\<lambda>i.
      bindO (on_socketO (SendMessageError \<circ> SocketError) (socket_send (so_socket E) i
        (create_request i ''PUT'' uri [''content-type:application/json''] (Some payload)))) (\<lambda>_. okS (returnS ()))))"

definition signal_send_response :: "('w, 'b, 'n) signal_env \<Rightarrow> web_socket_request_message \<Rightarrow> nat
    \<Rightarrow> ('w, 'b, 'n, signal_client_error, unit) signal_step" where
  "signal_send_response E req status =
     bindS (liftS (expect (ok_or () (req_id req)))) (\<lambda>i.
     bindS (liftS (expect (create_response (so_reason E) i status [] None))) (\<lambda>msg.
     on_socket (SendMessageError \<circ> SocketError) (socket_send_response (so_socket E) msg)))"

definition signal_has_message :: "('w, 'b, 'n, signal_client_error, bool) signal_step" where
  "signal_has_message = getS (\<lambda>s. \<not> persistent_receiver_is_empty (message_queue s))"

definition signal_get_message :: "('w, 'b, 'n, web_socket_request_message option) signal_ostep" where
  "signal_get_message s =
     map_option (\<lambda>(r, p). (bind r (\<lambda>msg. Ok (case msg of Some m \<Rightarrow> wsm_request m | None \<Rightarrow> None)), s\<lparr>message_queue := p\<rparr>))
       (persistent_receiver_recv (message_queue s))"

definition signal_create_auth_header :: "('w, 'b, 'n) signal_env \<Rightarrow> uuid \<Rightarrow> string \<Rightarrow> nat \<Rightarrow> ('w, 'b, 'n, signal_client_error, unit) signal_step" where
  "signal_create_auth_header E u password i =
     modifyS (\<lambda>s. s\<lparr>auth_header := Some \<lparr>bah_username = service_id_string (so_ids E) (Aci u), bah_device_id = i, bah_password = password\<rparr>\<rparr>)"

section \<open>A new server\<close>

text \<open>The requests that carry messages, which is what the queue of messages is for.\<close>

definition message_filter :: "web_socket_message \<Rightarrow> web_socket_message option" where
  "message_filter x =
     (if get_type x \<noteq> TypeRequest \<or> wsm_request x = None then None
      else if or_empty (req_path (the (wsm_request x))) = ''/api/v1/message'' \<and> or_empty (req_verb (the (wsm_request x))) = ''PUT''
      then Some x else None)"

definition signal_server_new :: "('w, 'b, 'n) signal_env \<Rightarrow> 'n \<Rightarrow> 'b \<Rightarrow> ('w, 'b, 'n) signal_server" where
  "signal_server_new E n b =
     (let socket_mgr = socket_manager_new (so_socket E) b in
      case bc_subscribe (sk_broadcast (so_socket E)) (sk_channel socket_mgr) of (rx, b') \<Rightarrow>
        \<lparr>auth_header = None, http_client = n, socket_manager = socket_mgr\<lparr>sk_channel := b'\<rparr>,
         message_queue = persistent_receiver_new rx\<rparr>)"

text \<open>A round of the task that fills the queue.\<close>

definition signal_queue_round :: "('w, 'b, 'n) signal_env \<Rightarrow> ('w, 'b, 'n, bool) signal_ostep" where
  "signal_queue_round E s =
     map_option (\<lambda>(r, (p, b)). (r, s\<lparr>message_queue := p, socket_manager := (socket_manager s)\<lparr>sk_channel := b\<rparr>\<rparr>))
       (persistent_receiver_round (sk_broadcast (so_socket E)) (Some message_filter) (message_queue s, sk_channel (socket_manager s)))"

definition signal_api :: "('w, 'b, 'n) signal_env \<Rightarrow> ('w, 'b, 'n) signal_server server_api" where
  "signal_api E = \<lparr>
     api_connect = signal_connect E, api_disconnect = signal_disconnect E,
     publish_pre_key_bundle = signal_publish_pre_key_bundle E, fetch_pre_key_bundles = signal_fetch_pre_key_bundles E,
     register_client = signal_register_client E, get_service_id_from_server = signal_get_service_id E,
     send_msg = signal_send_msg E, api_has_message = signal_has_message, get_message = signal_get_message,
     send_response = signal_send_response E, create_auth_header = signal_create_auth_header E\<rparr>"

end
