(* ===== verification/Socket_Props.thy ===== *)
theory Socket_Props
  imports Signal_Server
begin

text \<open>
  What waiting for a reply achieves, over the interface \<open>broadcast_channel\<close>, and the documented behaviour
  of tokio's channel, which is an instance of it: a receiver gets every message sent since it subscribed
  unless it falls behind by more than the capacity.
\<close>

section \<open>The interface\<close>

text \<open>The messages that are not what is waited for.\<close>

definition passes :: "nat \<Rightarrow> web_socket_message \<Rightarrow> bool" where
  "passes i m \<longleftrightarrow> (\<exists>j. (carried_id m :: (error, nat option) outcome) = Ok j \<and> j \<noteq> Some i)"

text \<open>
  \<open>current rx b\<close>: the receiver has not fallen behind; \<open>unread rx b\<close>: what it gets, including the messages
  that arrive while it waits.
\<close>

locale broadcast_channel =
  fixes B :: "'b broadcast" and current :: "nat \<Rightarrow> 'b \<Rightarrow> bool" and unread :: "nat \<Rightarrow> 'b \<Rightarrow> web_socket_message list"
  assumes recv_unread: "current rx b \<Longrightarrow> unread rx b = m # ms \<Longrightarrow>
      \<exists>b'. bc_recv B rx b = Some (Ok m, b') \<and> current rx b' \<and> unread rx b' = ms"
    and recv_waits: "current rx b \<Longrightarrow> unread rx b = [] \<Longrightarrow> bc_recv B rx b = None"
begin

lemma wait_passes:
  "current rx b \<Longrightarrow> unread rx b = m # ms \<Longrightarrow> passes i m \<Longrightarrow>
    \<exists>b'. wait_for_id B rx i b = wait_for_id B rx i b' \<and> current rx b' \<and> unread rx b' = ms"
  by (frule (1) recv_unread) (force simp: passes_def wait_for_id.simps [of B rx i b])

lemma wait_finds:
  "current rx b \<Longrightarrow> unread rx b = ms @ m # rest \<Longrightarrow> list_all (passes i) ms \<Longrightarrow>
    (carried_id m :: (error, nat option) outcome) = Ok (Some i) \<Longrightarrow>
    \<exists>b'. wait_for_id B rx i b = Some (Ok m, b') \<and> current rx b' \<and> unread rx b' = rest"
proof (induction ms arbitrary: b)
  case Nil
  then obtain b' where "bc_recv B rx b = Some (Ok m, b')" "current rx b'" "unread rx b' = rest"
    using recv_unread [of rx b m rest] by auto
  then show ?case using Nil.prems(4) by (simp add: wait_for_id.simps [of B rx i b])
next
  case (Cons x ms)
  then obtain b' where "wait_for_id B rx i b = wait_for_id B rx i b'" "current rx b'" "unread rx b' = ms @ m # rest"
    using wait_passes [of rx b x "ms @ m # rest" i] by auto
  with Cons.IH [of b'] Cons.prems(3,4) show ?case by simp
qed

text \<open>Without a reply it waits for ever.\<close>

lemma wait_waits: "current rx b \<Longrightarrow> unread rx b = ms \<Longrightarrow> list_all (passes i) ms \<Longrightarrow> wait_for_id B rx i b = None"
proof (induction ms arbitrary: b)
  case Nil
  then show ?case using recv_waits by (simp add: wait_for_id.simps [of B rx i b])
next
  case (Cons x ms)
  then obtain b' where "wait_for_id B rx i b = wait_for_id B rx i b'" "current rx b'" "unread rx b' = ms"
    using wait_passes [of rx b x ms i] by auto
  with Cons.IH [of b'] Cons.prems(3) show ?case by simp
qed

end

section \<open>The documented channel\<close>

record broadcast_log =
  bl_capacity :: nat
  bl_log :: "web_socket_message list"
  bl_positions :: "nat list"
  bl_coming :: "web_socket_message list"

definition bl_at :: "nat \<Rightarrow> nat \<Rightarrow> broadcast_log \<Rightarrow> broadcast_log" where
  "bl_at rx pos b = b\<lparr>bl_positions := (bl_positions b)[rx := pos]\<rparr>"

definition log_recv :: "nat \<Rightarrow> (broadcast_log, error, web_socket_message) ostep" where
  "log_recv rx b =
     (let pos = bl_positions b ! rx; n = length (bl_log b) in
      if length (bl_positions b) \<le> rx then Some (Err ''channel closed'', b)
      else if pos + bl_capacity b < n then
        Some (Err (''channel lagged by '' @ show_nat (n - bl_capacity b - pos)), bl_at rx (n - bl_capacity b) b)
      else if pos < n then Some (Ok (bl_log b ! pos), bl_at rx (pos + 1) b)
      else (case bl_coming b of
          [] \<Rightarrow> None
        | m # ms \<Rightarrow> Some (Ok m, bl_at rx (pos + 1) (b\<lparr>bl_log := bl_log b @ [m], bl_coming := ms\<rparr>))))"

definition log_broadcast :: "broadcast_log broadcast" where
  "log_broadcast = \<lparr>
     bc_send = (\<lambda>m b. if bl_positions b = [] then (Err ''channel closed'', b) else (Ok (), b\<lparr>bl_log := bl_log b @ [m]\<rparr>)),
     bc_subscribe = (\<lambda>b. (length (bl_positions b), b\<lparr>bl_positions := bl_positions b @ [length (bl_log b)]\<rparr>)),
     bc_recv = log_recv\<rparr>"

definition log_current :: "nat \<Rightarrow> broadcast_log \<Rightarrow> bool" where
  "log_current rx b \<longleftrightarrow> rx < length (bl_positions b) \<and> 0 < bl_capacity b \<and> bl_positions b ! rx \<le> length (bl_log b) \<and>
     length (bl_log b) \<le> bl_positions b ! rx + bl_capacity b"

definition log_unread :: "nat \<Rightarrow> broadcast_log \<Rightarrow> web_socket_message list" where
  "log_unread rx b = drop (bl_positions b ! rx) (bl_log b) @ bl_coming b"

interpretation log: broadcast_channel log_broadcast log_current log_unread
proof (unfold_locales, goal_cases)
  case (1 rx b m ms)
  show ?case
  proof (cases "bl_positions b ! rx < length (bl_log b)")
    case True
    with 1 have "bl_log b ! (bl_positions b ! rx) = m" "drop (bl_positions b ! rx + 1) (bl_log b) @ bl_coming b = ms"
      by (simp_all add: log_unread_def flip: Cons_nth_drop_Suc)
    with 1(1) True show ?thesis
      by (auto simp: log_broadcast_def log_recv_def log_current_def log_unread_def bl_at_def Let_def)
  next
    case False
    with 1 have "bl_coming b = m # ms" by (simp add: log_unread_def log_current_def)
    with 1(1) False show ?thesis
      by (auto simp: log_broadcast_def log_recv_def log_current_def log_unread_def bl_at_def Let_def)
  qed
next
  case (2 rx b)
  then have "bl_coming b = []" "\<not> bl_positions b ! rx < length (bl_log b)" by (simp_all add: log_unread_def)
  with 2(1) show ?case by (simp add: log_broadcast_def log_recv_def log_current_def Let_def)
qed

lemma log_lagged:
  assumes "rx < length (bl_positions b)" "bl_positions b ! rx + bl_capacity b < length (bl_log b)"
  shows "bc_recv log_broadcast rx b =
    Some (Err (''channel lagged by '' @ show_nat (length (bl_log b) - bl_capacity b - bl_positions b ! rx)),
      bl_at rx (length (bl_log b) - bl_capacity b) b)"
  using assms by (simp add: log_broadcast_def log_recv_def Let_def)

text \<open>A queue of messages that fell behind is never filled again.\<close>

lemma lagged_queue_stops:
  assumes "pr_running p" "pr_receiver p < length (bl_positions b)"
    "bl_positions b ! pr_receiver p + bl_capacity b < length (bl_log b)"
  shows "persistent_receiver_round log_broadcast flt (p, b) =
      Some (Ok False, (p\<lparr>pr_running := False\<rparr>, bl_at (pr_receiver p) (length (bl_log b) - bl_capacity b) b))"
    and "persistent_receiver_round log_broadcast flt (p\<lparr>pr_running := False\<rparr>, b') = Some (Ok False, (p\<lparr>pr_running := False\<rparr>, b'))"
  using assms log_lagged [OF assms(2,3)] by (simp_all add: persistent_receiver_round_def)

end
