(* ===== verification/Socket_Delivery.thy ===== *)
theory Socket_Delivery
  imports Socket_Props Client_Props Websocket_Delivery
begin

text \<open>
  How a client learns what became of a message: over its connection, against the server's handler.
\<close>

section \<open>One attempt\<close>

definition message_request :: "('w, 'b, 'n) signal_env \<Rightarrow> denim_messages \<Rightarrow> service_id \<Rightarrow> nat \<Rightarrow> web_socket_message" where
  "message_request S ms sid i = create_request i ''PUT'' (''/v1/messages/'' @ service_id_string (so_ids S) sid @ ''?story=false'')
     [''content-type:application/json''] (Some (so_json_messages S ms))"

text \<open>The state after a request was sent and the wait for its reply left the channel as \<open>b\<close>.\<close>

definition after_send :: "'w \<Rightarrow> 'b \<Rightarrow> ('w, 'b) socket_manager \<Rightarrow> ('w, 'b) socket_manager" where
  "after_send w b k = k\<lparr>sk_next_id := (sk_next_id k + 1) mod 2 ^ 64, sk_connection := Active w, sk_channel := b\<rparr>"

lemma send_msg_waits:
  assumes "sk_connection (socket_manager s) = Active v"
    and "sink_send (sk_sink (so_socket S)) (Binary (sk_encode (so_socket S) (message_request S ms sid (sk_next_id (socket_manager s))))) v = (Ok (), v')"
    and "wait_for_id (sk_broadcast (so_socket S)) (sk_receiver (socket_manager s)) (sk_next_id (socket_manager s)) (sk_channel (socket_manager s)) = Some (r, b)"
  shows "signal_send_msg S ms sid s = Some (case r of Ok _ \<Rightarrow> Ok () | Err e \<Rightarrow> Err (SendMessageError (SocketError e)) | Panic \<Rightarrow> Panic,
    s\<lparr>socket_manager := after_send v' b (socket_manager s)\<rparr>)"
  using assms
  by (cases r) (simp_all add: signal_send_msg_def Let_def on_socket_def on_socketO_def next_request_id_def socket_send_def socket_send_response_def
      on_channel_def message_request_def after_send_def bindO_def)

lemma sent_message:
  "accepts (sk_sink (so_socket S)) sent \<Longrightarrow> \<exists>v'. sink_send (sk_sink (so_socket S)) f v = (Ok (), v') \<and> sent v' = sent v @ [f]"
  by (simp add: accepts_def)

section \<open>Refused messages\<close>

text \<open>What the two programs have to agree on for a message to be understood.\<close>

definition understands :: "('d, 'r, 'w) ws_env \<Rightarrow> ('v, 'b, 'n) signal_env \<Rightarrow> denim_messages \<Rightarrow> service_id \<Rightarrow> bool" where
  "understands E S msgs sid \<longleftrightarrow>
     (let name = service_id_string (so_ids S) sid in
      we_uri_path E (''/v1/messages/'' @ name @ ''?story=false'') = Ok (''/v1/messages/'' @ name) \<and> CHR ''/'' \<notin> set name \<and>
      parse_from_service_id_string (env_ids (we_server E)) name = Some sid \<and>
      unpack_messages (we_json_messages E) (Some (so_json_messages S msgs)) = Ok msgs)"

lemma refusal_answered:
  fixes s :: "('d, 'r, 'w) server_state"
  assumes "identity (connections s h) = IdentityDevice ad" "ws (connections s h) = Active w" "accepts (we_sink E) sent"
    and "understands E S msgs sid"
    and "handle_put_messages (we_server E) (rd_now d) (rd_guid d) (rd_guids d) ad sid msgs (backend_of s) = (Err e, b)"
    and "create_response (we_reason E) i 500 [] None = Ok m"
  shows "\<exists>s' w'. on_receive E d h (message_request S msgs sid i) s = Some (Ok (), s') \<and> ws (connections s' h) = Active w' \<and>
    sent w' = sent w @ [Binary (we_encode E m)]"
proof -
  obtain w' where w': "sink_send (we_sink E) (Binary (we_encode E m)) w = (Ok (), w')" "sent w' = sent w @ [Binary (we_encode E m)]"
    using assms(3) by (auto simp: accepts_def)
  let ?path = "''/v1/messages/'' @ service_id_string (so_ids S) sid @ ''?story=false''"
  have request: "get_type (message_request S msgs sid i) = TypeRequest"
    "wsm_request (message_request S msgs sid i) = Some \<lparr>req_verb = Some ''PUT'', req_path = Some ?path,
       req_body = Some (so_json_messages S msgs), req_headers = [''content-type:application/json''], req_id = Some i\<rparr>"
    by (simp_all add: message_request_def get_type_of_created) (simp add: create_request_def)
  have path: "starts_with ?path ''/v1/messages''" "\<not> starts_with ?path ''/v1/keepalive''" by (simp_all add: starts_with_def)
  have "on_receive E d h (message_request S msgs sid i) s =
      Some (handle_messages_request E d h i ?path (Some (so_json_messages S msgs)) s)"
    using path by (simp add: on_receive_def request handle_request_def ok_or_def)
  moreover have "path_extract (path_extractor_new (''/v1/messages/'' @ service_id_string (so_ids S) sid)) 2 = Ok (service_id_string (so_ids S) sid)"
    using assms(4) by (intro path_extract_third) (simp add: understands_def Let_def)
  ultimately show ?thesis
    using assms w' by (auto simp: understands_def Let_def handle_messages_request_def ok_or_def on_backend_def respond_def connection_send_def on_connection_def)
qed

text \<open>
  C15 (error). A client is not told that its message was refused: when the server's handler refuses a
  message it answers with status 500, and a client that gets this answer reports the message as sent.
  It neither looks for new devices of the receiver nor tries again, and its contacts stay as they were.
\<close>

theorem refused_message_reported_sent:
  fixes s :: "('d, 'r, 'w) server_state" and c :: "('s, ('v, 'b, 'n) signal_server) client"
  assumes "identity (connections s h) = IdentityDevice ad" "ws (connections s h) = Active w" "accepts (we_sink E) sent"
    and "understands E S msgs sid"
    and "handle_put_messages (we_server E) (rd_now d) (rd_guid d) (rd_guids d) ad sid msgs (backend_of s) = (Err e, b)"
    and "create_response (we_reason E) (sk_next_id (socket_manager (server c))) 500 [] None = Ok m"
    and "ce_api EC = signal_api S" "broadcast_channel (sk_broadcast (so_socket S)) current unread"
    and "sk_connection (socket_manager (server c)) = Active v" "accepts (sk_sink (so_socket S)) csent"
    and "current (sk_receiver (socket_manager (server c))) (sk_channel (socket_manager (server c)))"
    and "unread (sk_receiver (socket_manager (server c))) (sk_channel (socket_manager (server c))) = ms @ m # rest"
    and "list_all (passes (sk_next_id (socket_manager (server c)))) ms"
  shows "(\<exists>s' w'. on_receive E d h (message_request S msgs sid (sk_next_id (socket_manager (server c)))) s = Some (Ok (), s') \<and>
      ws (connections s' h) = Active w' \<and> sent w' = sent w @ [Binary (we_encode E m)]) \<and>
    (\<exists>c' v'. deliver_messages EC al sid msgs c = Some (Ok (), c\<lparr>server := c'\<rparr>) \<and> sk_connection (socket_manager c') = Active v' \<and>
      csent v' = csent v @ [Binary (sk_encode (so_socket S) (message_request S msgs sid (sk_next_id (socket_manager (server c)))))])"
proof -
  let ?k = "socket_manager (server c)"
  have "(carried_id m :: (error, nat option) outcome) = Ok (Some (sk_next_id ?k))"
    using assms(6) get_type_of_created(2) [OF assms(6)] by (auto simp: carried_id_def create_response_def outcome_simps expect_def ok_or_def)
  from broadcast_channel.wait_finds [OF assms(8,11-13) this] obtain b' where
    b': "wait_for_id (sk_broadcast (so_socket S)) (sk_receiver ?k) (sk_next_id ?k) (sk_channel ?k) = Some (Ok m, b')" by blast
  obtain v' where v': "sink_send (sk_sink (so_socket S)) (Binary (sk_encode (so_socket S) (message_request S msgs sid (sk_next_id ?k)))) v = (Ok (), v')"
    "csent v' = csent v @ [Binary (sk_encode (so_socket S) (message_request S msgs sid (sk_next_id ?k)))]"
    using sent_message [OF assms(10)] by blast
  have "send_msg (ce_api EC) msgs sid (server c) = Some (Ok (), (server c)\<lparr>socket_manager := after_send v' b' ?k\<rparr>)"
    using send_msg_waits [OF assms(9) v'(1) b'] assms(7) by (simp add: signal_api_def)
  then have "deliver_messages EC al sid msgs c = Some (Ok (), c\<lparr>server := (server c)\<lparr>socket_manager := after_send v' b' ?k\<rparr>\<rparr>)"
    by (simp add: deliver_messages_def on_serverO_def)
  with v'(2) refusal_answered [OF assms(1-6)] show ?thesis by (auto simp: after_send_def)
qed

section \<open>Lost places in the channel\<close>

text \<open>Requests over HTTP leave the websocket alone.\<close>

lemma http_keeps_socket [keeps]: "keeps (\<lambda>s. socket_manager s = k) anything (on_http f m)"
  by (simp add: keeps_def on_http_def case_prod_beta)

lemma keeps_map_err_socket: "keeps P anything m \<Longrightarrow> keeps P anything (map_errS f m)"
  by (simp add: keeps_def map_errS_def case_prod_beta)

lemma fetch_keeps_socket:
  "keeps (\<lambda>s. socket_manager s = k) anything (signal_fetch_pre_key_bundles S sid)"
  unfolding signal_fetch_pre_key_bundles_def make_request_def
  by (intro keeps_bind_any keeps_map_err_socket keeps_get keeps_lift http_keeps_socket keeps_if keeps_return) simp_all

abbreviation socket_of :: "('s, ('v, 'b, 'n) signal_server) client \<Rightarrow> ('v, 'b) socket_manager" where
  "socket_of c \<equiv> socket_manager (server c)"

lemma other_steps_keep_socket:
  "keeps (\<lambda>c. socket_of c = k) anything (on_stores m)" "keeps (\<lambda>c. socket_of c = k) anything (on_database m2)"
  "keeps (\<lambda>c. socket_of c = k) anything (on_contacts m3)"
  by (auto simp: keeps_def on_stores_def on_database_def on_contacts_def case_prod_beta)

lemma refresh_keeps_socket:
  fixes EC :: "('s, ('v, 'b, 'n) signal_server, 'o) client_env"
  assumes "ce_api EC = signal_api S"
  shows "keeps (\<lambda>c. socket_of c = k) anything (bindS (get_new_device_ids EC sid) (update_contact EC al))"
proof -
  have "keeps (\<lambda>c. socket_of c = k) anything (on_server (fetch_pre_key_bundles (ce_api EC) sid) :: ('s, ('v, 'b, 'n) signal_server, pre_key_bundle list) client_step)"
    using keepsD(1) [OF fetch_keeps_socket, of _ k S sid] assms by (auto simp: keeps_def on_server_def signal_api_def case_prod_beta)
  then show ?thesis
    unfolding get_new_device_ids_def update_contact_def initialize_sessions_from_bundle_def Let_def
    by (intro keeps_bind_any other_steps_keep_socket)
qed

text \<open>
  C16 (safety). A client that has fallen behind sends a message twice: when more messages arrived on its
  connection since the last reply than the channel holds, waiting for the reply fails although the
  message was sent; the client refreshes the devices of the receiver, which it does over HTTP, and
  sends the same messages under the next id. It reports one message sent.
\<close>

theorem lagging_client_sends_twice:
  fixes c :: "('s, ('v, broadcast_log, 'n) signal_server) client"
  assumes "ce_api EC = signal_api S" "sk_broadcast (so_socket S) = log_broadcast" "accepts (sk_sink (so_socket S)) csent"
    and "sk_connection (socket_of c) = Active v"
    and "sink_send (sk_sink (so_socket S)) (Binary (sk_encode (so_socket S) (message_request S msgs sid (sk_next_id (socket_of c))))) v = (Ok (), v1)"
    and "rx = sk_receiver (socket_of c)" "b = sk_channel (socket_of c)" "j = (sk_next_id (socket_of c) + 1) mod 2 ^ 64"
    and "rx < length (bl_positions b)" "0 < bl_capacity b" "bl_positions b ! rx + bl_capacity b < length (bl_log b)"
    and "bindS (get_new_device_ids EC sid) (update_contact EC al) (c\<lparr>server := (server c)\<lparr>socket_manager :=
        after_send v1 (bl_at rx (length (bl_log b) - bl_capacity b) b) (socket_of c)\<rparr>\<rparr>) = (Ok (), c2)"
    and "drop (length (bl_log b) - bl_capacity b) (bl_log b) @ bl_coming b = ms @ m # rest" "list_all (passes j) ms"
    and "(carried_id m :: (error, nat option) outcome) = Ok (Some j)"
  shows "\<exists>c' v'. deliver_messages EC al sid msgs c = Some (Ok (), c') \<and> sk_connection (socket_of c') = Active v' \<and>
    csent v' = csent v @ [Binary (sk_encode (so_socket S) (message_request S msgs sid (sk_next_id (socket_of c)))),
      Binary (sk_encode (so_socket S) (message_request S msgs sid j))]"
proof -
  let ?b1 = "bl_at rx (length (bl_log b) - bl_capacity b) b" and ?k = "socket_of c"
  let ?k1 = "after_send v1 ?b1 ?k"
  have "wait_for_id log_broadcast rx (sk_next_id ?k) b =
      Some (Err (''channel lagged by '' @ show_nat (length (bl_log b) - bl_capacity b - bl_positions b ! rx)), ?b1)"
    using log_lagged [OF assms(9,11)] by (simp add: wait_for_id.simps [of log_broadcast])
  from send_msg_waits [where S = S, OF assms(4,5)] this obtain e where
    first: "send_msg (ce_api EC) msgs sid (server c) = Some (Err e, (server c)\<lparr>socket_manager := ?k1\<rparr>)"
    using assms(1,2,6,7) by (auto simp: signal_api_def)
  have k2: "socket_of c2 = ?k1"
    using keepsD(1) [OF refresh_keeps_socket [OF assms(1)], of _ ?k1 sid al] assms(12) by (metis client.select_convs(7) client.surjective client.update_convs(7) signal_server.select_convs(3) signal_server.surjective signal_server.update_convs(3) snd_conv)
  obtain v2 where v2: "sink_send (sk_sink (so_socket S)) (Binary (sk_encode (so_socket S) (message_request S msgs sid j))) v1 = (Ok (), v2)"
    "csent v2 = csent v1 @ [Binary (sk_encode (so_socket S) (message_request S msgs sid j))]" using sent_message [OF assms(3)] by blast
  have "log_current rx ?b1" "log_unread rx ?b1 = ms @ m # rest"
    using assms(9,10,11,13) by (auto simp: log_current_def log_unread_def bl_at_def)
  from log.wait_finds [OF this assms(14,15)] obtain b2 where
    "wait_for_id log_broadcast rx j ?b1 = Some (Ok m, b2)" by blast
  with send_msg_waits [where S = S and s = "server c2" and v = v1 and v' = v2 and ms = msgs and sid = sid] v2(1) assms(1,2,6,8) k2
  have second: "send_msg (ce_api EC) msgs sid (server c2) = Some (Ok (), (server c2)\<lparr>socket_manager := after_send v2 b2 ?k1\<rparr>)"
    by (simp add: signal_api_def after_send_def)
  have "csent v1 = csent v @ [Binary (sk_encode (so_socket S) (message_request S msgs sid (sk_next_id ?k)))]"
    using sent_message [OF assms(3)] assms(5) by (metis Pair_inject)
  moreover have "deliver_messages EC al sid msgs c = Some (Ok (), c2\<lparr>server := (server c2)\<lparr>socket_manager := after_send v2 b2 ?k1\<rparr>\<rparr>)"
    using first second assms(12) by (simp add: deliver_messages_def on_serverO_def bindO_okS_bindS)
  ultimately show ?thesis using v2(2) by (intro exI [of _ "c2\<lparr>server := (server c2)\<lparr>socket_manager := after_send v2 b2 ?k1\<rparr>\<rparr>"] exI [of _ v2])
      (simp add: after_send_def)
qed

section \<open>Witnesses\<close>

definition reply_1 :: web_socket_message where
  "reply_1 = \<lparr>wsm_type = Some 2, wsm_request = None, wsm_response = Some (response_7\<lparr>res_id := Some 1\<rparr>)\<rparr>"

definition no_messages :: denim_messages where
  "no_messages = \<lparr>messages = [], online = False, dms_urgent = False, dms_timestamp = 5\<rparr>"

definition no_dialer :: "(unit, ws_frame list) dialer" where
  "no_dialer = \<lparr>into_client_request = (\<lambda>_. None), header_value = (\<lambda>_. True), tcp_connect = (\<lambda>_ _. returnS ()),
     set_tcp_keepalive = returnS (), rustls_cfg = (\<lambda>_. Ok ()), upgrade = (\<lambda>_ _. failS ''''), parse_f32 = (\<lambda>_. None)\<rparr>"

text \<open>An HTTP server that knows no devices.\<close>

definition example_signal_env :: "(ws_frame list, broadcast_log, unit) signal_env" where
  "example_signal_env = \<lparr>so_socket = \<lparr>sk_sink = frames_sink, sk_encode = (\<lambda>_. [2]), sk_decode = (\<lambda>_. None), sk_broadcast = log_broadcast\<rparr>,
     so_dialer = no_dialer, so_http = (\<lambda>_. returnS \<lparr>hr_status = 200, hr_encodings = None, hr_body = Ok []\<rparr>),
     so_gunzip = Ok, so_text = (\<lambda>_. Ok ''''), so_base64 = BASE64_STANDARD, so_ids = std_ids,
     so_decoding = \<lparr>identity_key_valid = (\<lambda>_. True), public_key_valid = (\<lambda>_. True), kem_key_valid = (\<lambda>_. True)\<rparr>,
     so_show_status = show_nat, so_show_text = (\<lambda>_. ''''), so_reason = (\<lambda>_. Some ''OK''), so_json_keys = (\<lambda>_. Ok []),
     so_json_registration = (\<lambda>_. []), so_json_messages = (\<lambda>_. []),
     so_parse_keys = (\<lambda>_. Ok \<lparr>pks_service_id = '''', pks_identity_key = [], pks_devices = []\<rparr>),
     so_parse_registration = (\<lambda>_. Err ''''), so_url = '''', so_tls = None\<rparr>"

definition example_socket_client_env :: "(device_db, (ws_frame list, broadcast_log, unit) signal_server, bytes) client_env" where
  "example_socket_client_env = \<lparr>ce_db = device plain_env, ce_api = signal_api example_signal_env, ce_sessions = plain_sessions,
     process_prekey_bundle = (\<lambda>a S I b. store_session S a (pkb_identity_key b)), ce_decoding = so_decoding example_signal_env,
     ce_ids = std_ids, ce_base64 = BASE64_STANDARD, content_encode = (\<lambda>c. []), content_decode = (\<lambda>bs. Ok \<lparr>cnt_data_message = None\<rparr>),
     serialize_regular = (\<lambda>_. replicate 40 0), serialize_chunks = bincode_chunks, payload_codec = request_codec,
     message_deserialize = (\<lambda>_. Err ''''), map_order = (\<lambda>xs. xs)\<rparr>"

text \<open>The client that knows Bob, with a channel in the given state.\<close>

definition socket_client :: "broadcast_log \<Rightarrow> (device_db, (ws_frame list, broadcast_log, unit) signal_server) client" where
  "socket_client b = \<lparr>client_alias = ''alice'', client_aci = 1, client_pni = 2, contact_manager = contact_manager client_with_bob,
     key_ids = KeyManager_default, database = client.database client_with_bob,
     server = \<lparr>auth_header = Some \<lparr>bah_username = ''a'', bah_device_id = 1, bah_password = ''p''\<rparr>, http_client = (),
       socket_manager = \<lparr>sk_next_id = 0, sk_channel = b, sk_receiver = 0, sk_connection = Active []\<rparr>,
       message_queue = persistent_receiver_new 1\<rparr>,
     client_chunker = Chunker_new (F32 1)\<rparr>"

lemma example_signal_env_simps [simp]:
  "sk_broadcast (so_socket example_signal_env) = log_broadcast" "accepts (sk_sink (so_socket example_signal_env)) (\<lambda>w. w)"
  "sink_send (sk_sink (so_socket example_signal_env)) f w = (Ok (), w @ [f])" "sk_encode (so_socket example_signal_env) m = [2]"
  "ce_api example_socket_client_env = signal_api example_signal_env"
  by (simp_all add: example_signal_env_def accepts_def frames_sink_def example_socket_client_env_def)

lemma socket_client_simps [simp]:
  "socket_of (socket_client b) = \<lparr>sk_next_id = 0, sk_channel = b, sk_receiver = 0, sk_connection = Active []\<rparr>"
  by (simp add: socket_client_def)

text \<open>The devices of Bob are refreshed to none.\<close>

lemma socket_client_refreshes:
  "\<exists>c2. bindS (get_new_device_ids example_socket_client_env (Aci 7)) (update_contact example_socket_client_env ''bob'')
    (socket_client b\<lparr>server := (server (socket_client b))\<lparr>socket_manager := k\<rparr>\<rparr>) = (Ok (), c2)"
  using std_parse_service_id_string [of "Aci 7"]
  by (simp add: get_new_device_ids_def update_contact_def initialize_sessions_from_bundle_def bindS_def returnS_def on_contacts_eq
      on_database_def on_server_def on_stores_def manager_get_contact_def manager_update_contact_def ok_or_def device_ops
      dev_store_contact_def dev_get_service_id_by_nickname_def query_row_def client_with_bob_eq example_socket_client_env_def
      example_signal_env_def signal_api_def signal_fetch_pre_key_bundles_def make_request_def signal_layer_handle_def on_http_def
      socket_client_def map_errS_def getS_def liftS_def pre_key_bundles_try_from_def check_def contact_new_def plain_env_def std_ids_def
      std_parse_service_id_string outcome_simps Let_def)

theorem lagging_client_sends_twice_witness:
  "\<exists>c' v'. deliver_messages example_socket_client_env ''bob'' (Aci 7) no_messages
      (socket_client \<lparr>bl_capacity = 1, bl_log = [keepalive_request, keepalive_request], bl_positions = [0], bl_coming = [reply_1]\<rparr>) = Some (Ok (), c') \<and>
    sk_connection (socket_of c') = Active v' \<and> length v' = 2"
proof -
  let ?b = "\<lparr>bl_capacity = 1, bl_log = [keepalive_request, keepalive_request], bl_positions = [0], bl_coming = [reply_1]\<rparr>"
  obtain c2 where c2: "bindS (get_new_device_ids example_socket_client_env (Aci 7)) (update_contact example_socket_client_env ''bob'')
      (socket_client ?b\<lparr>server := (server (socket_client ?b))\<lparr>socket_manager := after_send [Binary [2]] (bl_at 0 1 ?b) (socket_of (socket_client ?b))\<rparr>\<rparr>) = (Ok (), c2)"
    using socket_client_refreshes by blast
  have ids: "list_all (passes 1) [keepalive_request]" "(carried_id reply_1 :: (error, nat option) outcome) = Ok (Some 1)"
    by (simp_all add: passes_def carried_id_def keepalive_request_def create_request_def get_type_def reply_1_def response_7_def outcome_simps
        expect_def ok_or_def)
  have "\<exists>c' v'. deliver_messages example_socket_client_env ''bob'' (Aci 7) no_messages (socket_client ?b) = Some (Ok (), c') \<and>
    sk_connection (socket_of c') = Active v' \<and> v' = [] @ [Binary [2], Binary [2]]"
    using lagging_client_sends_twice [of example_socket_client_env example_signal_env "\<lambda>w. w" "socket_client ?b" "[]" no_messages "Aci 7"
        "[Binary [2]]" 0 ?b 1 "''bob''" c2 "[keepalive_request]" reply_1 "[]"] c2 ids by simp
  then show ?thesis by auto
qed

text \<open>A server that reads the client's request: the query is cut off, the body is the empty message.\<close>

definition reading_ws_env :: "(pg, keyspace, ws_frame list) ws_env" where
  "reading_ws_env = example_ws_env\<lparr>we_uri_path := (\<lambda>p. Ok (takeWhile (\<lambda>c. c \<noteq> CHR ''?'') p)), we_json_messages := (\<lambda>_. Some no_messages)\<rparr>"

lemma reading_understands: "understands reading_ws_env example_signal_env no_messages (Pni 2)"
proof -
  let ?name = "std_service_id_string (Pni 2)"
  have chars: "CHR ''?'' \<notin> set ?name" "CHR ''/'' \<notin> set ?name"
    using uuid_string_no_char [of "CHR ''?''"] uuid_string_no_char [of "CHR ''/''"] by simp_all
  have "takeWhile (\<lambda>c. c \<noteq> CHR ''?'') (uuid_string 2 @ ''?story=false'') = uuid_string 2"
    using chars(1) takeWhile_append2 [of "uuid_string 2" "\<lambda>c. c \<noteq> CHR ''?''" "''?story=false''"] by fastforce
  moreover have "env_ids (we_server reading_ws_env) = std_ids" "so_ids example_signal_env = std_ids" "so_json_messages example_signal_env ms = []" for ms
    using example_ws_ids by (simp_all add: reading_ws_env_def example_signal_env_def)
  ultimately show ?thesis
    using chars(2) std_parse_service_id_string [of "Pni 2"]
    by (simp add: understands_def Let_def reading_ws_env_def unpack_messages_def from_utf8_def ok_or_def std_ids_def)
qed

theorem refused_message_reported_sent_witness:
  "\<exists>s s' c m c'. on_receive reading_ws_env no_draw 0 (message_request example_signal_env no_messages (Pni 2) 0) s = Some (Ok (), s') \<and>
    ws (connections s' 0) = Active [Binary (we_encode reading_ws_env m)] \<and>
    map_option res_status (wsm_response m) = Some (Some 500) \<and>
    deliver_messages example_socket_client_env ''bob'' (Pni 2) no_messages c = Some (Ok (), c\<lparr>server := c'\<rparr>)"
proof -
  let ?s = "connected \<lparr>backend.database = stored_example, cache = init_caches\<rparr>"
  obtain m where m: "create_response (we_reason reading_ws_env) 0 500 [] None = Ok m"
    "map_option res_status (wsm_response m) = Some (Some 500)"
    by (simp add: create_response_def reading_ws_env_def example_ws_env_def ok_or_def)
  let ?b = "\<lparr>bl_capacity = 1, bl_log = [], bl_positions = [0], bl_coming = [m]\<rparr>"
  have refuse: "handle_put_messages (we_server reading_ws_env) (rd_now no_draw) (rd_guid no_draw) (rd_guids no_draw) example_sender (Pni 2)
      no_messages (backend_of ?s) = (Err (api FORBIDDEN ''''), backend_of ?s)"
    by (simp add: handle_put_messages_def example_sender_def example_account_def)
  have sink: "accepts (we_sink reading_ws_env) (\<lambda>w. w)" using example_accepts by (simp add: reading_ws_env_def)
  have "log_current 0 ?b" "log_unread 0 ?b = [] @ m # []" by (simp_all add: log_current_def log_unread_def)
  then show ?thesis
    using refused_message_reported_sent [of ?s 0 example_sender "[]" reading_ws_env "\<lambda>w. w" example_signal_env no_messages "Pni 2" no_draw
        "api FORBIDDEN ''''" "backend_of ?s" "socket_client ?b" m example_socket_client_env log_current log_unread "[]" "\<lambda>w. w" "[]" "[]" "''bob''"]
      connected_fields(2,6) sink reading_understands refuse m log.broadcast_channel_axioms
    by simp blast
qed

end
