(* ===== verification/Endpoints.thy ===== *)
theory Endpoints
  imports Server_Messages Server_Accounts
begin

text \<open>
  The endpoints of \<open>server/src/server/server.rs\<close> that only read their path and call a handler.
\<close>

definition put_messages_endpoint :: "('d, 'r) server_env \<Rightarrow> nat \<Rightarrow> (nat \<Rightarrow> string) \<Rightarrow> (nat \<Rightarrow> nat \<Rightarrow> string)
    \<Rightarrow> authenticated_device \<Rightarrow> string \<Rightarrow> denim_messages \<Rightarrow> (('d, 'r, 'l) backend, api_error, send_message_response) step" where
  "put_messages_endpoint E now guid guids ad identifier payload =
     bindS (liftS (parse_service_id (env_ids E) identifier)) (\<lambda>dest.
     handle_put_messages E now guid guids ad dest payload)"

definition delete_account_endpoint :: "'d signal_database \<Rightarrow> authenticated_device \<Rightarrow> ('d, api_error, unit) step" where
  "delete_account_endpoint D ad = handle_delete_account D ad"

definition delete_device_endpoint :: "'d signal_database \<Rightarrow> id_codec \<Rightarrow> nat \<Rightarrow> authenticated_device \<Rightarrow> ('d, api_error, unit) step" where
  "delete_device_endpoint D ids i ad = handle_delete_device D ids i ad"

definition get_link_device_token_endpoint :: "id_codec \<Rightarrow> crypto \<Rightarrow> clock \<Rightarrow> authenticated_device
    \<Rightarrow> (api_error, link_device_token) outcome" where
  "get_link_device_token_endpoint ids cr clk ad = handle_get_link_device_token ids cr clk ad"

definition post_link_device_endpoint :: "'d signal_database \<Rightarrow> id_codec \<Rightarrow> crypto \<Rightarrow> clock \<Rightarrow> bytes \<Rightarrow> string
    \<Rightarrow> link_device_request \<Rightarrow> ('d, api_error, link_device_response) step" where
  "post_link_device_endpoint D ids cr clk random password req = handle_post_link_device D ids cr clk random password req"

text \<open>Messages to an identifier that is no service id are answered with 400 and change nothing.\<close>

lemma put_messages_bad_identifier:
  assumes "parse_from_service_id_string (env_ids E) identifier = None"
  shows "\<exists>e. put_messages_endpoint E now guid guids ad identifier payload s = (Err e, s) \<and> status_code e = 400"
  using assms by (simp add: put_messages_endpoint_def parse_service_id_def ok_or_def api_def)

end
