(* ===== verification/Spec2Isabelle.thy ===== *)
theory Spec2Isabelle
  imports Persistence Registration Authorization Presence Put_Messages Linking
    Client_Sending Client_Receiving Client_Props Client_Key_Props Device_Props
    Deniable_Delivery Socket_Delivery Endpoints
begin

text \<open>
  Verification of DenIM, deniable instant messaging over a Signal-like server (\<open>server\<close>, \<open>client\<close> and
  \<open>common\<close> under \<open>src/\<close>).

  \<^bold>\<open>The program.\<close> Clients send each other end-to-end encrypted regular messages through the server. Each
  of them has a deniable part of \<open>q\<close> times its size: the chunker (\<open>common/src/deniable/chunk.rs\<close>) fills
  it with pieces of deniable payloads that are queued, and with dummies when there are none, so that an
  observer cannot tell whether a client sends deniable messages. On the way up the server collects the
  chunks of a sender in Redis, rebuilds the payloads from them and forwards these into the queues of
  their receivers; on the way down it cuts the payloads that wait for a client into the messages that
  the client is sent, and the client rebuilds them. Around this stand accounts, devices and their keys in
  Postgres, a cache of messages in Redis that a persister empties into Postgres, a record of which
  client is connected where, websockets on both ends, and on the client a SQLite database, contacts and
  the calls of libsignal.

  \<^bold>\<open>How it is modelled.\<close> A function that can fail is a function into \<open>outcome\<close>, with \<open>Err\<close> for errors and
  \<open>Panic\<close> for panics (unwrap, expect, overflow, todo); one that has state is a \<open>step\<close>, which also says what
  the state is after a failure; one that may not return is an \<open>ostep\<close>, \<open>None\<close> when it does not: a loop that
  does not end, a lock that is never released, a reply that never comes (\<open>Prelude\<close>, \<open>Option_Steps\<close>). The
  definitions have the names and the order of the code. Clocks, random numbers and fresh guids are
  arguments. What is not code of the repository is a parameter, and what the code relies on is a locale
  that is interpreted on a documented implementation: Redis (\<open>Redis\<close>, \<open>redis_server\<close>), base64, the printed
  ids of libsignal_core, bincode, tokio's broadcast channel. Of libsignal, prost, serde, axum and the TLS
  and HTTP libraries only their types are used, and no more than what a theorem states as a hypothesis.

  \<^bold>\<open>Data and numbers.\<close> \<open>Web_Api\<close> (\<open>common/src/web_api/mod.rs\<close>, the messages of \<open>SignalService.proto\<close>),
  \<open>Net_Helper\<close> (\<open>common/src/websocket/\<close>), \<open>Authorization\<close> (the authorization header and protocol addresses),
  \<open>Ids\<close>, \<open>Base64\<close>, \<open>Utf8\<close>, \<open>Bincode\<close>; \<open>Float32\<close> is the f32 arithmetic with which the size of the deniable part is
  computed, as rationals rounded to 24 bits. Integers that can overflow where the code runs (the order of
  a chunk is an i32, ids of keys u32, lengths usize) have their bounds written out in the operation.

  \<^bold>\<open>Deniable payloads on the server.\<close> \<open>Chunker\<close>, \<open>Redis_Queue\<close> (\<open>server/src/storage/redis.rs\<close>), \<open>Caches\<close>
  (\<open>chunk_cache.rs\<close>, \<open>payload_cache.rs\<close>, \<open>message_cache.rs\<close>) and \<open>Denim_Manager\<close> (\<open>denim_manager.rs\<close>). The
  chunker is specified by \<open>fill\<close>, which fills space from a list of rows, and the rebuilding by \<open>assemble\<close>.
  \<open>Queue_Rep\<close> shows that each Redis queue is a list and each operation acts on the list; \<open>Denim_Queues\<close>
  and \<open>Denim_Server\<close> that dequeueing refines \<open>fill\<close> and that a message has the size that \<open>q\<close> gives it;
  \<open>Reassembly\<close> that rebuilding inverts cutting, for any sizes of the messages, and which chunks may
  arrive out of order. \<open>Frames\<close> shows which keys of Redis an operation touches, so that queues do not disturb
  each other.

  \<^bold>\<open>Messages on the server.\<close> \<open>Message_Cache\<close>, \<open>Message_Queues\<close>, \<open>Messages_Manager\<close> (also the persister),
  \<open>Server_Messages\<close> (the handlers of \<open>server/src/server/server.rs\<close> for messages). \<open>Put_Messages\<close> and
  \<open>Delivery\<close> show what an accepted request queues and for whom, \<open>Persistence\<close> that the persister returns
  and moves every message once and in order.

  \<^bold>\<open>Accounts and keys on the server.\<close> \<open>Account\<close>, \<open>Signal_Database\<close> (the trait), \<open>Postgres\<close> (its statements
  over a model of the tables, with every unwrap of what is read: keys, names, ids and numbers),
  \<open>Account_Manager\<close> (accounts, keys, authentication), \<open>Server_Accounts\<close> (the
  handlers and endpoints). \<open>Postgres_Inv\<close> makes the constraints of the schema an invariant of every
  sequence of operations; \<open>Postgres_Props\<close>, \<open>Postgres_Accounts\<close> and \<open>Postgres_Keys\<close> draw what callers
  rely on from it; \<open>Registration\<close> and \<open>Linking\<close> are the properties of registering and of linking devices. No
  statement has an \<open>ORDER BY\<close>: which one-time key \<open>LIMIT 1\<close> takes is a choice function of the database that
  nothing is known about, and the statements that return several rows are assumed to return them in the
  order in which they were inserted.

  \<^bold>\<open>Connections on the server.\<close> \<open>Presence\<close> (\<open>client_presence_manager.rs\<close>), \<open>Connection\<close> (\<open>connection.rs\<close>),
  \<open>Websocket_Manager\<close> (\<open>websocket_manager.rs\<close>, the websocket endpoints). Connections are handles into a
  store, as the code shares them; \<open>server_moves\<close> is everything that the tasks of the server do with them,
  in any order. \<open>Websocket_Props\<close> has the invariant of the reachable states and what it means for
  keepalives, devices that connect again, connections that close late and repeated responses; \<open>Websocket_Delivery\<close> what a client is sent
  when its messages are announced.

  \<^bold>\<open>The client.\<close> \<open>Contacts\<close>, \<open>Sqlite\<close> and \<open>Device_Store\<close> (\<open>storage/device.rs\<close> over its tables),
  \<open>Client_Database\<close> (the traits), \<open>Encryption\<close>, \<open>Client_Keys\<close> (\<open>key_manager.rs\<close>), \<open>Client\<close>,
  \<open>Client_Messages\<close> and \<open>Client_Login\<close> (\<open>client.rs\<close>), \<open>Socket_Manager\<close> (\<open>socket_manager.rs\<close>,
  \<open>persistent_receiver.rs\<close>) and \<open>Signal_Server\<close> (\<open>server.rs\<close>). \<open>Device_Props\<close> and \<open>Device_Inv\<close> have the
  invariant of the database, \<open>Client_Inv\<close>, \<open>Client_Props\<close> and \<open>Client_Key_Props\<close> that of the client, whatever
  it does after it registered or logged in. A key that is generated depends on a draw, so two keys under
  one id differ. The first row of the table of deniable payloads is the one with the lowest rowid, an
  assumption about SQLite. \<open>Socket_Props\<close> is about waiting for replies.

  \<^bold>\<open>Both programs together.\<close> \<open>Client_Sending\<close>: what a client cuts, the server rebuilds. \<open>Client_Receiving\<close>
  and \<open>Deniable_Delivery\<close>: what the server cuts and sends, the client rebuilds. \<open>Socket_Delivery\<close>: what a
  client learns of the fate of its messages.

  \<^bold>\<open>Bounds.\<close> No recursion has fuel: the loops that end are functions with a measure, the others
  (\<open>create_chunks_loop\<close>, \<open>persist_queue\<close>, \<open>wait_for_id\<close>) are partial functions, and that they return is a
  theorem (with \<open>wait_for_id\<close> returning when the reply comes, \<open>broadcast_channel.wait_finds\<close>, and not
  returning when it does not, \<open>wait_waits\<close>). A payload may be cut about \<open>2 ^ 31\<close> times before the order of
  its chunks underflows; \<open>rows_room\<close> states how many messages there is room for. Redis counters are
  assumed below \<open>2 ^ 63\<close>.

  \<^bold>\<open>Not modelled.\<close> The command line programs and the construction of the managers from the environment;
  reading certificates and the start of the HTTP server; tokio's scheduling, except that the order of the
  steps in \<open>server_moves\<close> and of the spawned notifications is arbitrary, and its locks, except the one that
  a reader holds; failing connections to Postgres and SQLite; \<open>storage/in_memory.rs\<close>, a second
  implementation of \<open>ClientDB\<close> that only tests use; the helpers of the tests.
\<close>

end
